(* ===== verification/Base.thy ===== *)
theory Base
  imports Main "HOL-Library.Word"
begin

text \<open>
  The prelude of the development: machine types, results with errors and panics, byte slices,
  big-endian access and the lemmas every component shares.

  Conventions.
  \<^item> A Rust \<open>u8\<close>/\<open>u16\<close>/\<open>u32\<close>/\<open>u64\<close> is a word of that width; \<open>+\<close>, \<open>-\<close>, \<open>*\<close> on it wrap, as in a
    release build. A \<open>usize\<close> is a \<open>nat\<close> (lengths are far below \<open>2^63\<close>); where a \<open>usize\<close>
    subtraction could go below zero the model says \<open>Panic\<close>.
  \<^item> \<open>&[u8]\<close> is a byte list; \<open>subslice\<close> is \<open>&x[lo..hi]\<close>, \<open>blit\<close> is \<open>x[at..].copy_from_slice(src)\<close>.
    An access whose bounds are not settled by an earlier check of the code is guarded by \<open>ensure\<close>,
    whose other branch is \<open>Panic\<close>.
  \<^item> \<open>io::Result\<close> is \<open>Ok\<close>/\<open>Err\<close>; a Rust panic is the third outcome. The formatted part of an error
    message is left out; its kind and its fixed text are kept.
\<close>

unbundle bit_operations_syntax

section \<open>Machine types\<close>

type_synonym byte = "8 word"
type_synonym u16 = "16 word"
type_synonym u32 = "32 word"
type_synonym u64 = "64 word"

named_theorems unat_bounds \<comment> \<open>upper bounds of \<open>unat\<close> at the widths used\<close>
named_theorems byte_simps \<comment> \<open>lengths and elements of slices, splices and encodings\<close>
named_theorems res_simps \<comment> \<open>rewriting of guarded results\<close>

lemma unat_byte_bound [unat_bounds]: "unat (b :: byte) < 256"
  using unsigned_less [of b, where ?'a = nat] by simp

lemma unat_u16_bound [unat_bounds]: "unat (w :: u16) < 65536"
  using unsigned_less [of w, where ?'a = nat] by simp

lemma unat_u32_bound [unat_bounds]: "unat (w :: u32) < 4294967296"
  using unsigned_less [of w, where ?'a = nat] by simp

lemma unat_u64_bound [unat_bounds]: "unat (w :: u64) < 18446744073709551616"
  using unsigned_less [of w, where ?'a = nat] by simp

section \<open>Results\<close>

datatype error_kind =
    InvalidInput | InvalidData | NotFound | AlreadyExists | WouldBlock | TimedOut
  | Interrupted | Unsupported | WriteZero | UnexpectedEof | OtherKind

text \<open>An \<open>io::Error\<close>: made from a kind and a message, or from an OS error number.\<close>

datatype io_error = Custom error_kind string | OsError nat

datatype 'a res = Ok 'a | Err io_error | Panic

definition invalid_input :: "string \<Rightarrow> 'a res" where
  "invalid_input msg = Err (Custom InvalidInput msg)"

definition err_other :: "string \<Rightarrow> 'a res" where
  "err_other msg = Err (Custom OtherKind msg)"

text \<open>The \<open>?\<close> operator.\<close>

definition bind_res :: "'a res \<Rightarrow> ('a \<Rightarrow> 'b res) \<Rightarrow> 'b res" where
  "bind_res r f = (case r of Ok a \<Rightarrow> f a | Err e \<Rightarrow> Err e | Panic \<Rightarrow> Panic)"

text \<open>A bounds check the code leaves to the language: panic when it fails.\<close>

definition ensure :: "bool \<Rightarrow> 'a res \<Rightarrow> 'a res" where
  "ensure c r = (if c then r else Panic)"

lemma bind_res_simps [simp, res_simps]:
  "bind_res (Ok a) f = f a"
  "bind_res (Err e) f = Err e"
  "bind_res Panic f = Panic"
  by (simp_all add: bind_res_def)

lemma bind_res_eq_Ok [res_simps]: "bind_res r f = Ok b \<longleftrightarrow> (\<exists>a. r = Ok a \<and> f a = Ok b)"
  by (cases r) auto

lemma bind_res_eq_Panic [res_simps]:
  "bind_res r f = Panic \<longleftrightarrow> r = Panic \<or> (\<exists>a. r = Ok a \<and> f a = Panic)"
  by (cases r) auto

lemma ensure_True [simp, res_simps]: "ensure True r = r"
  by (simp add: ensure_def)

lemma ensure_False [simp, res_simps]: "ensure False r = Panic"
  by (simp add: ensure_def)

lemma ensure_eq_Ok [res_simps]: "ensure c r = Ok a \<longleftrightarrow> c \<and> r = Ok a"
  by (simp add: ensure_def)

lemma ensure_eq_Panic [res_simps]: "ensure c r = Panic \<longleftrightarrow> \<not> c \<or> r = Panic"
  by (simp add: ensure_def)

lemma invalid_input_simps [simp, res_simps]:
  "invalid_input m \<noteq> Ok a" "invalid_input m \<noteq> Panic"
  "err_other m \<noteq> Ok a" "err_other m \<noteq> Panic"
  by (simp_all add: invalid_input_def err_other_def)

definition is_ok :: "'a res \<Rightarrow> bool" where
  "is_ok r = (case r of Ok _ \<Rightarrow> True | _ \<Rightarrow> False)"

lemma is_ok_simps [simp]: "is_ok (Ok a)" "\<not> is_ok (Err e)" "\<not> is_ok Panic"
  by (simp_all add: is_ok_def)

text \<open>An error of the kind \<open>InvalidInput\<close>, whatever its message.\<close>

definition is_invalid_input :: "'a res \<Rightarrow> bool" where
  "is_invalid_input r = (case r of Err (Custom InvalidInput _) \<Rightarrow> True | _ \<Rightarrow> False)"

lemma is_invalid_input_simps [simp]:
  "is_invalid_input (invalid_input m)" "\<not> is_invalid_input (Ok a)" "\<not> is_invalid_input Panic"
  by (simp_all add: is_invalid_input_def invalid_input_def)

lemma is_ok_iff: "is_ok r \<longleftrightarrow> (\<exists>a. r = Ok a)"
  by (cases r) simp_all

section \<open>Slices\<close>

text \<open>\<open>&x[lo..hi]\<close>, for \<open>lo \<le> hi \<le> x.len()\<close>.\<close>

definition subslice :: "nat \<Rightarrow> nat \<Rightarrow> 'a list \<Rightarrow> 'a list" where
  "subslice lo hi xs = take (hi - lo) (drop lo xs)"

text \<open>\<open>x[at..at + src.len()].copy_from_slice(src)\<close>, for \<open>at + src.len() \<le> x.len()\<close>.\<close>

definition blit :: "'a list \<Rightarrow> nat \<Rightarrow> 'a list \<Rightarrow> 'a list" where
  "blit xs at src = take at xs @ src @ drop (at + length src) xs"

lemma length_subslice [simp, byte_simps]:
  "hi \<le> length xs \<Longrightarrow> length (subslice lo hi xs) = hi - lo"
  by (simp add: subslice_def)

lemma length_subslice_le: "length (subslice lo hi xs) \<le> hi - lo"
  by (simp add: subslice_def)

lemma nth_subslice [byte_simps]:
  "i < hi - lo \<Longrightarrow> hi \<le> length xs \<Longrightarrow> subslice lo hi xs ! i = xs ! (lo + i)"
  by (simp add: subslice_def)

lemma subslice_all [simp]: "subslice 0 (length xs) xs = xs"
  by (simp add: subslice_def)

lemma subslice_same [simp]: "subslice lo lo xs = []"
  by (simp add: subslice_def)

lemma subslice_append: "lo \<le> mid \<Longrightarrow> mid \<le> hi \<Longrightarrow> subslice lo mid xs @ subslice mid hi xs = subslice lo hi xs"
proof -
  assume *: "lo \<le> mid" "mid \<le> hi"
  then have "hi - lo = (mid - lo) + (hi - mid)" by simp
  then have "subslice lo hi xs = take ((mid - lo) + (hi - mid)) (drop lo xs)" by (simp add: subslice_def)
  also have "\<dots> = subslice lo mid xs @ subslice mid hi xs" using * by (simp only: take_add subslice_def drop_drop le_add_diff_inverse2)
  finally show ?thesis by simp
qed

lemma length_blit [simp, byte_simps]:
  "at + length src \<le> length xs \<Longrightarrow> length (blit xs at src) = length xs"
  by (simp add: blit_def)

lemma nth_blit:
  assumes "at + length src \<le> length xs" "i < length xs"
  shows "blit xs at src ! i =
    (if at \<le> i \<and> i < at + length src then src ! (i - at) else xs ! i)"
  using assms by (auto simp: blit_def nth_append min_def)

lemma take_blit [byte_simps]: "n \<le> at \<Longrightarrow> at \<le> length xs \<Longrightarrow> take n (blit xs at src) = take n xs"
  by (simp add: blit_def min_def)

lemma drop_blit [byte_simps]:
  "at + length src \<le> n \<Longrightarrow> at + length src \<le> length xs \<Longrightarrow> drop n (blit xs at src) = drop n xs"
  by (simp add: blit_def)

lemma subslice_blit_same [simp, byte_simps]:
  assumes "at + length src \<le> length xs" and "hi = at + length src"
  shows "subslice at hi (blit xs at src) = src"
  using assms by (simp add: blit_def subslice_def)

lemma subslice_blit_disjoint [byte_simps]:
  assumes "at + length src \<le> length xs" "hi \<le> length xs"
    and "hi \<le> at \<or> at + length src \<le> lo"
  shows "subslice lo hi (blit xs at src) = subslice lo hi xs"
proof (rule nth_equalityI)
  show "length (subslice lo hi (blit xs at src)) = length (subslice lo hi xs)"
    using assms by simp
next
  fix i assume "i < length (subslice lo hi (blit xs at src))"
  then have "i < hi - lo" using assms by simp
  then show "subslice lo hi (blit xs at src) ! i = subslice lo hi xs ! i"
    using assms by (auto simp: nth_subslice nth_blit)
qed

lemma drop_blit_within:
  assumes "n \<le> at" "at + length src \<le> length xs"
  shows "drop n (blit xs at src) = blit (drop n xs) (at - n) src"
  using assms by (simp add: blit_def drop_take)

lemma blit_Nil [simp]: "blit xs at [] = xs"
  by (simp add: blit_def)

section \<open>Big-endian access\<close>

text \<open>\<open>BigEndian::read_u16\<close> and \<open>read_u32\<close> on the bytes of a subslice, and the inverse writes.\<close>

definition be16 :: "byte \<Rightarrow> byte \<Rightarrow> u16" where
  "be16 a b = push_bit 8 (ucast a) OR ucast b"

definition be32 :: "byte \<Rightarrow> byte \<Rightarrow> byte \<Rightarrow> byte \<Rightarrow> u32" where
  "be32 a b c d = push_bit 24 (ucast a) OR push_bit 16 (ucast b) OR push_bit 8 (ucast c) OR ucast d"

definition to_be16 :: "u16 \<Rightarrow> byte list" where
  "to_be16 w = [ucast (drop_bit 8 w), ucast w]"

definition to_be32 :: "u32 \<Rightarrow> byte list" where
  "to_be32 w = [ucast (drop_bit 24 w), ucast (drop_bit 16 w), ucast (drop_bit 8 w), ucast w]"

definition read_u16 :: "byte list \<Rightarrow> nat \<Rightarrow> u16" where
  "read_u16 xs at = be16 (xs ! at) (xs ! (at + 1))"

definition read_u32 :: "byte list \<Rightarrow> nat \<Rightarrow> u32" where
  "read_u32 xs at = be32 (xs ! at) (xs ! (at + 1)) (xs ! (at + 2)) (xs ! (at + 3))"

definition write_u16 :: "byte list \<Rightarrow> nat \<Rightarrow> u16 \<Rightarrow> byte list" where
  "write_u16 xs at w = blit xs at (to_be16 w)"

definition write_u32 :: "byte list \<Rightarrow> nat \<Rightarrow> u32 \<Rightarrow> byte list" where
  "write_u32 xs at w = blit xs at (to_be32 w)"

lemma length_to_be [simp, byte_simps]: "length (to_be16 w) = 2" "length (to_be32 v) = 4"
  by (simp_all add: to_be16_def to_be32_def)

lemma unat_ucast_wider:
  "unat (ucast (b :: byte) :: u16) = unat b" "unat (ucast b :: u32) = unat b"
  "unat (ucast b :: u64) = unat b" "unat (ucast (w :: u16) :: u32) = unat w"
  "unat (ucast w :: u64) = unat w" "unat (ucast (v :: u32) :: u64) = unat v"
  by (simp_all add: unsigned_ucast_eq take_bit_nat_eq_self_iff
      order.strict_trans [OF unat_byte_bound] order.strict_trans [OF unat_u16_bound]
      order.strict_trans [OF unat_u32_bound])

lemma unat_be16: "unat (be16 a b) = 256 * unat a + unat b"
proof -
  have "be16 a b = push_bit 8 (ucast a) + ucast b"
    unfolding be16_def
    by (rule disjunctive_add [symmetric]) (auto simp: bit_simps dest: bit_imp_le_length)
  moreover have "unat (push_bit 8 (ucast a :: u16)) = 256 * unat a"
    using unat_byte_bound [of a]
    by (simp add: push_bit_eq_mult unat_word_ariths unat_ucast_wider)
  moreover have "unat (ucast b :: u16) = unat b"
    by (simp add: unat_ucast_wider)
  ultimately show ?thesis
    using unat_byte_bound [of a] unat_byte_bound [of b] by (simp add: unat_word_ariths)
qed

lemma unat_be32: "unat (be32 a b c d) =
  16777216 * unat a + 65536 * unat b + 256 * unat c + unat d"
proof -
  have "be32 a b c d = push_bit 24 (ucast a) + (push_bit 16 (ucast b) + (push_bit 8 (ucast c) + ucast d))"
  proof -
    have 1: "(push_bit 8 (ucast c) + ucast d :: u32) = push_bit 8 (ucast c) OR ucast d"
      by (rule disjunctive_add) (auto simp: bit_simps dest: bit_imp_le_length)
    have 2: "push_bit 16 (ucast b) + (push_bit 8 (ucast c) OR ucast d) =
        (push_bit 16 (ucast b) OR (push_bit 8 (ucast c) OR ucast d) :: u32)"
      by (rule disjunctive_add) (auto simp: bit_simps dest: bit_imp_le_length)
    have 3: "push_bit 24 (ucast a) + (push_bit 16 (ucast b) OR (push_bit 8 (ucast c) OR ucast d)) =
        (push_bit 24 (ucast a) OR (push_bit 16 (ucast b) OR (push_bit 8 (ucast c) OR ucast d)) :: u32)"
      by (rule disjunctive_add) (auto simp: bit_simps dest: bit_imp_le_length)
    show ?thesis unfolding be32_def 1 2 3 by (simp add: or.assoc)
  qed
  then show ?thesis
    using unat_byte_bound [of a] unat_byte_bound [of b] unat_byte_bound [of c] unat_byte_bound [of d]
    by (simp add: push_bit_eq_mult unat_word_ariths unat_ucast_wider)
qed

lemma be16_to_be16 [simp]: "be16 (ucast (drop_bit 8 w)) (ucast w) = w"
  unfolding be16_def by (rule bit_word_eqI) (auto simp: bit_simps not_less)

lemma be32_to_be32 [simp]:
  "be32 (ucast (drop_bit 24 w)) (ucast (drop_bit 16 w)) (ucast (drop_bit 8 w)) (ucast w) = w"
  unfolding be32_def
proof (rule bit_word_eqI)
  fix n assume "n < LENGTH(32)"
  then consider "n < 8" | "8 \<le> n" "n < 16" | "16 \<le> n" "n < 24" | "24 \<le> n" "n < 32" by fastforce
  then show "bit (push_bit 24 (ucast (ucast (drop_bit 24 w) :: byte)) OR
      push_bit 16 (ucast (ucast (drop_bit 16 w) :: byte)) OR
      push_bit 8 (ucast (ucast (drop_bit 8 w) :: byte)) OR ucast (ucast w :: byte) :: u32) n = bit w n"
    by cases (auto simp: bit_simps)
qed

lemma byte_high_bits [simp]: "8 \<le> n \<Longrightarrow> \<not> bit (b :: byte) n"
  using bit_imp_le_length [of b n] by auto

lemma be16_halves [simp]:
  "ucast (drop_bit 8 (be16 a b)) = a" "ucast (be16 a b) = b"
  unfolding be16_def by (auto intro!: bit_word_eqI simp: bit_simps)

lemma to_be16_be16 [simp]: "to_be16 (be16 a b) = [a, b]"
  by (simp add: to_be16_def)

lemma read_u16_write_u16 [byte_simps]:
  "at + 2 \<le> length xs \<Longrightarrow> read_u16 (write_u16 xs at w) at = w"
  by (simp add: read_u16_def write_u16_def nth_blit to_be16_def)

lemma read_u32_write_u32 [byte_simps]:
  "at + 4 \<le> length xs \<Longrightarrow> read_u32 (write_u32 xs at w) at = w"
  by (simp add: read_u32_def write_u32_def nth_blit to_be32_def)

lemma length_write [simp, byte_simps]:
  "at + 2 \<le> length xs \<Longrightarrow> length (write_u16 xs at w) = length xs"
  "at + 4 \<le> length xs \<Longrightarrow> length (write_u32 xs at v) = length xs"
  by (simp_all add: write_u16_def write_u32_def)

lemma nth_write_u16:
  "at + 2 \<le> length xs \<Longrightarrow> i < length xs \<Longrightarrow> write_u16 xs at w ! i =
    (if at \<le> i \<and> i < at + 2 then to_be16 w ! (i - at) else xs ! i)"
  by (simp add: write_u16_def nth_blit)

lemma nth_write_u32:
  "at + 4 \<le> length xs \<Longrightarrow> i < length xs \<Longrightarrow> write_u32 xs at w ! i =
    (if at \<le> i \<and> i < at + 4 then to_be32 w ! (i - at) else xs ! i)"
  by (simp add: write_u32_def nth_blit)

lemma read_write_other [byte_simps]:
  "at + 2 \<le> length xs \<Longrightarrow> at' + 2 \<le> length xs \<Longrightarrow> at + 2 \<le> at' \<or> at' + 2 \<le> at
    \<Longrightarrow> read_u16 (write_u16 xs at w) at' = read_u16 xs at'"
  "at + 4 \<le> length xs \<Longrightarrow> at' + 2 \<le> length xs \<Longrightarrow> at + 4 \<le> at' \<or> at' + 2 \<le> at
    \<Longrightarrow> read_u16 (write_u32 xs at v) at' = read_u16 xs at'"
  "at + 2 \<le> length xs \<Longrightarrow> at' + 4 \<le> length xs \<Longrightarrow> at + 2 \<le> at' \<or> at' + 4 \<le> at
    \<Longrightarrow> read_u32 (write_u16 xs at w) at' = read_u32 xs at'"
  by (simp_all add: read_u16_def read_u32_def nth_write_u16 nth_write_u32, auto)

lemma subslice_two: "hi = a + 2 \<Longrightarrow> hi \<le> length xs \<Longrightarrow> subslice a hi xs = [xs ! a, xs ! (a + 1)]"
  by (intro nth_equalityI) (auto simp: nth_subslice less_2_cases_iff)

lemma nth_write_other [byte_simps]:
  "at + 2 \<le> length xs \<Longrightarrow> i < length xs \<Longrightarrow> i < at \<or> at + 2 \<le> i \<Longrightarrow> write_u16 xs at w ! i = xs ! i"
  "at + 4 \<le> length xs \<Longrightarrow> i < length xs \<Longrightarrow> i < at \<or> at + 4 \<le> i \<Longrightarrow> write_u32 xs at v ! i = xs ! i"
  by (auto simp: nth_write_u16 nth_write_u32)

lemma subslice_write_u16_other [byte_simps]:
  "at + 2 \<le> length xs \<Longrightarrow> hi \<le> length xs \<Longrightarrow> hi \<le> at \<or> at + 2 \<le> lo
    \<Longrightarrow> subslice lo hi (write_u16 xs at w) = subslice lo hi xs"
  by (simp add: write_u16_def subslice_blit_disjoint)

section \<open>Splices of appended lists\<close>

lemma blit_append_left: "at + length src \<le> length xs \<Longrightarrow> blit (xs @ ys) at src = blit xs at src @ ys"
  by (simp add: blit_def)

lemma blit_append_right: "blit (xs @ ys) (length xs + at) src = xs @ blit ys at src"
  by (simp add: blit_def add.assoc)

lemma write_u16_append_left: "at + 2 \<le> length xs \<Longrightarrow> write_u16 (xs @ ys) at w = write_u16 xs at w @ ys"
  by (simp add: write_u16_def blit_append_left)

lemma write_u16_append_right: "write_u16 (xs @ ys) (length xs + at) w = xs @ write_u16 ys at w"
  by (simp add: write_u16_def blit_append_right)

lemma write_u32_append_left: "at + 4 \<le> length xs \<Longrightarrow> write_u32 (xs @ ys) at w = write_u32 xs at w @ ys"
  by (simp add: write_u32_def blit_append_left)

lemma write_u32_append_right: "write_u32 (xs @ ys) (length xs + at) w = xs @ write_u32 ys at w"
  by (simp add: write_u32_def blit_append_right)

lemma read_u16_append_left: "at + 2 \<le> length xs \<Longrightarrow> read_u16 (xs @ ys) at = read_u16 xs at"
  by (simp add: read_u16_def nth_append)

lemma read_u16_append_right: "read_u16 (xs @ ys) (length xs + at) = read_u16 ys at"
  by (simp add: read_u16_def nth_append)

lemma read_u32_append_left: "at + 4 \<le> length xs \<Longrightarrow> read_u32 (xs @ ys) at = read_u32 xs at"
  by (simp add: read_u32_def nth_append)

lemma read_u32_append_right: "read_u32 (xs @ ys) (length xs + at) = read_u32 ys at"
  by (simp add: read_u32_def nth_append)

lemma blit_whole_prefix: "length src \<le> length xs \<Longrightarrow> blit xs 0 src = src @ drop (length src) xs"
  by (simp add: blit_def)

lemmas append_access =
  blit_append_left blit_append_right write_u16_append_left write_u16_append_right
  write_u32_append_left write_u32_append_right read_u16_append_left read_u16_append_right
  read_u32_append_left read_u32_append_right

section \<open>Little-endian access\<close>

definition to_le16 :: "u16 \<Rightarrow> byte list" where "to_le16 w = rev (to_be16 w)"
definition to_le32 :: "u32 \<Rightarrow> byte list" where "to_le32 w = rev (to_be32 w)"
definition get_le16 :: "byte list \<Rightarrow> u16" where "get_le16 bs = be16 (bs ! 1) (bs ! 0)"
definition get_le32 :: "byte list \<Rightarrow> u32" where "get_le32 bs = be32 (bs ! 3) (bs ! 2) (bs ! 1) (bs ! 0)"

end
