(* ===== verification/FlowTable.thy ===== *)
theory FlowTable
  imports Base "HOL-Library.AList"
begin

text \<open>
  The table of flows of \<open>src/platform/linux/offload.rs\<close>.  \<open>TcpGROTable\<close> and \<open>UdpGROTable\<close> have the
  same shape, a hash map from flow keys to vectors of items and a pool of vectors to reuse; they are
  instances of \<open>gro_table\<close>.  The hash map is an association list with distinct keys: the list
  order stands for the iteration order, which the standard library leaves open.

  The locale \<open>flow_table\<close> states what the rest of the code relies on, proves what follows from it,
  and is interpreted on \<open>gro_table\<close>.
\<close>

section \<open>The interface\<close>

locale flow_table =
  fixes ok :: "'t \<Rightarrow> bool"
    and lookup :: "'t \<Rightarrow> 'k \<Rightarrow> 'i list option"
    and push_item :: "'k \<Rightarrow> 'i \<Rightarrow> 't \<Rightarrow> 't"
    and set_items :: "'k \<Rightarrow> 'i list \<Rightarrow> 't \<Rightarrow> 't"
    and reset :: "'t \<Rightarrow> 't"
  assumes ok_push: "ok t \<Longrightarrow> ok (push_item k i t)"
    and ok_set: "ok t \<Longrightarrow> ok (set_items k is t)"
    and ok_reset: "ok t \<Longrightarrow> ok (reset t)"
    and lookup_push: "ok t \<Longrightarrow> lookup (push_item k i t) k' =
      (if k' = k then Some ((case lookup t k of None \<Rightarrow> [] | Some is \<Rightarrow> is) @ [i]) else lookup t k')"
    and lookup_set: "ok t \<Longrightarrow> lookup (set_items k is t) k' = (if k' = k then Some is else lookup t k')"
    and lookup_reset: "lookup (reset t) k = None"
begin

text \<open>A run of pushes keeps the items of each flow in order of arrival.\<close>

lemma lookup_pushes:
  "ok t \<Longrightarrow> lookup (fold (\<lambda>(k, i). push_item k i) ps t) k =
    (if filter (\<lambda>p. fst p = k) ps = [] then lookup t k
     else Some ((case lookup t k of None \<Rightarrow> [] | Some is \<Rightarrow> is) @ map snd (filter (\<lambda>p. fst p = k) ps)))"
proof (induction ps arbitrary: t)
  case (Cons p ps)
  then show ?case
    by (cases p) (auto simp: ok_push lookup_push split: option.splits)
qed simp

lemma ok_pushes: "ok t \<Longrightarrow> ok (fold (\<lambda>(k, i). push_item k i) ps t)"
  by (induction ps arbitrary: t) (auto simp: ok_push)

definition every_item :: "('k \<Rightarrow> 'i \<Rightarrow> bool) \<Rightarrow> 't \<Rightarrow> bool" where
  "every_item P t \<longleftrightarrow> (\<forall>k is. lookup t k = Some is \<longrightarrow> (\<forall>i \<in> set is. P k i))"

definition no_empty_flow :: "'t \<Rightarrow> bool" where
  "no_empty_flow t \<longleftrightarrow> (\<forall>k. lookup t k \<noteq> Some [])"

lemma every_item_push:
  "ok t \<Longrightarrow> every_item P t \<Longrightarrow> P k i \<Longrightarrow> every_item P (push_item k i t)"
  unfolding every_item_def by (cases "lookup t k") (auto simp: lookup_push split: if_splits)

lemma every_item_set:
  "ok t \<Longrightarrow> every_item P t \<Longrightarrow> (\<And>i. i \<in> set is \<Longrightarrow> P k i) \<Longrightarrow> every_item P (set_items k is t)"
  unfolding every_item_def by (auto simp: lookup_set split: if_splits)

lemma every_item_reset: "every_item P (reset t)"
  by (simp add: every_item_def lookup_reset)

lemma no_empty_flow_push: "ok t \<Longrightarrow> no_empty_flow t \<Longrightarrow> no_empty_flow (push_item k i t)"
  unfolding no_empty_flow_def by (simp add: lookup_push)

lemma no_empty_flow_set: "ok t \<Longrightarrow> no_empty_flow t \<Longrightarrow> is \<noteq> [] \<Longrightarrow> no_empty_flow (set_items k is t)"
  unfolding no_empty_flow_def by (simp add: lookup_set)

lemma no_empty_flow_reset: "no_empty_flow (reset t)"
  by (simp add: no_empty_flow_def lookup_reset)

end

section \<open>The table\<close>

record ('k, 'i) gro_table =
  items_by_flow :: "('k \<times> 'i list) list"
  items_pool :: "'i list list"

text \<open>\<open>new\<close>: the pool starts with \<open>IDEAL_BATCH_SIZE\<close> empty vectors.\<close>

definition gro_table_new :: "nat \<Rightarrow> ('k, 'i) gro_table" where
  "gro_table_new n = \<lparr>items_by_flow = [], items_pool = replicate n []\<rparr>"

definition flow_items :: "('k, 'i) gro_table \<Rightarrow> 'k \<Rightarrow> 'i list option" where
  "flow_items t k = map_of (items_by_flow t) k"

text \<open>\<open>items_by_flow.entry(key).or_insert_with(|| items_pool.pop().unwrap_or_default()).push(item)\<close>\<close>

definition gro_table_push :: "'k \<Rightarrow> 'i \<Rightarrow> ('k, 'i) gro_table \<Rightarrow> ('k, 'i) gro_table" where
  "gro_table_push k i t =
     (case flow_items t k of
        Some is \<Rightarrow> t\<lparr>items_by_flow := AList.update k (is @ [i]) (items_by_flow t)\<rparr>
      | None \<Rightarrow>
          let (is, pool) = (if items_pool t = [] then ([], [])
                else (last (items_pool t), butlast (items_pool t)))
          in t\<lparr>items_by_flow := AList.update k (is @ [i]) (items_by_flow t), items_pool := pool\<rparr>)"

text \<open>A write through the \<open>&mut Vec\<close> that \<open>get_mut\<close> returned.\<close>

definition gro_table_set :: "'k \<Rightarrow> 'i list \<Rightarrow> ('k, 'i) gro_table \<Rightarrow> ('k, 'i) gro_table" where
  "gro_table_set k is t = t\<lparr>items_by_flow := AList.update k is (items_by_flow t)\<rparr>"

text \<open>\<open>reset\<close>: every vector is drained, cleared and pooled.\<close>

definition gro_table_reset :: "('k, 'i) gro_table \<Rightarrow> ('k, 'i) gro_table" where
  "gro_table_reset t = \<lparr>items_by_flow = [], items_pool = items_pool t @ map (\<lambda>_. []) (items_by_flow t)\<rparr>"

text \<open>The invariant: keys are distinct and every pooled vector is empty.\<close>

definition gro_table_ok :: "('k, 'i) gro_table \<Rightarrow> bool" where
  "gro_table_ok t \<longleftrightarrow> distinct (map fst (items_by_flow t)) \<and> (\<forall>is \<in> set (items_pool t). is = [])"

lemma gro_table_ok_new: "gro_table_ok (gro_table_new n)"
  by (simp add: gro_table_ok_def gro_table_new_def)

lemma last_pool_empty: "gro_table_ok t \<Longrightarrow> items_pool t \<noteq> [] \<Longrightarrow> last (items_pool t) = []"
  by (simp add: gro_table_ok_def)

interpretation gro: flow_table gro_table_ok flow_items gro_table_push gro_table_set gro_table_reset
proof unfold_locales
  fix t :: "('k, 'i) gro_table" and k k' i "is"
  assume ok: "gro_table_ok t"
  show "gro_table_ok (gro_table_push k i t)"
    using ok by (auto simp: gro_table_ok_def gro_table_push_def distinct_update split: option.splits
        dest: in_set_butlastD)
  show "gro_table_ok (gro_table_set k is t)"
    using ok by (simp add: gro_table_ok_def gro_table_set_def distinct_update)
  show "gro_table_ok (gro_table_reset t)"
    using ok by (auto simp: gro_table_ok_def gro_table_reset_def)
  show "flow_items (gro_table_push k i t) k' =
      (if k' = k then Some ((case flow_items t k of None \<Rightarrow> [] | Some is \<Rightarrow> is) @ [i]) else flow_items t k')"
    using last_pool_empty [OF ok]
    by (auto simp: gro_table_push_def flow_items_def update_conv' split: option.splits)
  show "flow_items (gro_table_set k is t) k' = (if k' = k then Some is else flow_items t k')"
    by (simp add: gro_table_set_def flow_items_def update_conv')
qed (simp add: gro_table_reset_def flow_items_def)

section \<open>All items of a table\<close>

definition table_items :: "('k, 'i) gro_table \<Rightarrow> 'i list" where
  "table_items t = concat (map snd (items_by_flow t))"

lemma table_items_reset [simp]: "table_items (gro_table_reset t) = []"
  by (simp add: table_items_def gro_table_reset_def)

lemma table_items_lookup: "flow_items t k = Some is \<Longrightarrow> i \<in> set is \<Longrightarrow> i \<in> set (table_items t)"
  by (force simp: flow_items_def table_items_def dest: map_of_SomeD)

text \<open>After \<open>reset\<close> only empty vectors are left, however full the table was, so the next batch
  starts from nothing.\<close>

lemma reset_push: "gro_table_ok t \<Longrightarrow> flow_items (gro_table_push k i (gro_table_reset t)) k = Some [i]"
  by (simp add: gro.lookup_push gro.ok_reset gro.lookup_reset)

text \<open>Items of an association list that is updated at one key.\<close>

lemma concat_update:
  assumes "distinct (map fst al)" "map_of al k = Some old"
  shows "\<exists>xs ys. concat (map snd al) = xs @ old @ ys
    \<and> (\<forall>new. concat (map snd (AList.update k new al)) = xs @ new @ ys)"
  using assms
proof (induction al)
  case (Cons p al)
  show ?case
  proof (cases "fst p = k")
    case True
    then show ?thesis using Cons.prems
      by (cases p) (auto intro: exI [of _ "[]"])
  next
    case False
    then obtain xs ys where "concat (map snd al) = xs @ old @ ys"
      "\<forall>new. concat (map snd (AList.update k new al)) = xs @ new @ ys"
      using Cons by auto
    then show ?thesis using False
      by (cases p) (intro exI [of _ "snd p @ xs"] exI [of _ ys], auto)
  qed
qed simp

lemma concat_update_new:
  "map_of al k = None \<Longrightarrow> concat (map snd (AList.update k new al)) = concat (map snd al) @ new"
  by (induction al) (auto split: if_splits)

lemma table_items_push:
  assumes "gro_table_ok t"
  shows "\<exists>xs ys. table_items t = xs @ ys \<and> table_items (gro_table_push k i t) = xs @ [i] @ ys"
proof (cases "flow_items t k")
  case None
  then show ?thesis using last_pool_empty [OF assms]
    by (intro exI [of _ "table_items t"] exI [of _ "[]"])
      (simp add: table_items_def gro_table_push_def flow_items_def concat_update_new Let_def)
next
  case (Some old)
  then obtain xs ys where "concat (map snd (items_by_flow t)) = xs @ old @ ys"
    "concat (map snd (AList.update k (old @ [i]) (items_by_flow t))) = xs @ (old @ [i]) @ ys"
    using concat_update [of "items_by_flow t" k old] assms
    by (auto simp: gro_table_ok_def flow_items_def)
  then show ?thesis using Some
    by (intro exI [of _ "xs @ old"] exI [of _ ys]) (simp add: table_items_def gro_table_push_def)
qed

lemma table_items_set:
  assumes "gro_table_ok t" "flow_items t k = Some old"
  shows "\<exists>xs ys. table_items t = xs @ old @ ys \<and> (\<forall>new. table_items (gro_table_set k new t) = xs @ new @ ys)"
  using concat_update [of "items_by_flow t" k old] assms
  by (simp add: gro_table_ok_def flow_items_def table_items_def gro_table_set_def)

end
