(* ===== verification/VirtioHdr.thy ===== *)
theory VirtioHdr
  imports Base
begin

text \<open>
  The constants and the virtio-net header of \<open>src/platform/linux/offload.rs\<close>: \<open>VirtioNetHdr\<close>, its
  \<open>decode\<close> and \<open>encode\<close> (copies of the bytes of a \<open>#[repr(C)]\<close> structure) and its length.  The
  native byte order is that of the supported targets, little-endian.
\<close>

section \<open>Constants\<close>

definition VIRTIO_NET_HDR_GSO_NONE :: byte where "VIRTIO_NET_HDR_GSO_NONE = 0"
definition VIRTIO_NET_HDR_F_NEEDS_CSUM :: byte where "VIRTIO_NET_HDR_F_NEEDS_CSUM = 1"
definition VIRTIO_NET_HDR_GSO_TCPV4 :: byte where "VIRTIO_NET_HDR_GSO_TCPV4 = 1"
definition VIRTIO_NET_HDR_GSO_TCPV6 :: byte where "VIRTIO_NET_HDR_GSO_TCPV6 = 4"
definition VIRTIO_NET_HDR_GSO_UDP_L4 :: byte where "VIRTIO_NET_HDR_GSO_UDP_L4 = 5"
definition IDEAL_BATCH_SIZE :: nat where "IDEAL_BATCH_SIZE = 128"
definition TCP_FLAGS_OFFSET :: nat where "TCP_FLAGS_OFFSET = 13"
definition TCP_FLAG_FIN :: byte where "TCP_FLAG_FIN = 0x01"
definition TCP_FLAG_PSH :: byte where "TCP_FLAG_PSH = 0x08"
definition TCP_FLAG_ACK :: byte where "TCP_FLAG_ACK = 0x10"
definition IPV4_FLAG_MORE_FRAGMENTS :: byte where "IPV4_FLAG_MORE_FRAGMENTS = 0x20"
definition IPV4_SRC_ADDR_OFFSET :: nat where "IPV4_SRC_ADDR_OFFSET = 12"
definition IPV6_SRC_ADDR_OFFSET :: nat where "IPV6_SRC_ADDR_OFFSET = 8"
definition UDP_H_LEN :: nat where "UDP_H_LEN = 8"

text \<open>The protocol numbers \<open>libc::IPPROTO_TCP\<close> and \<open>libc::IPPROTO_UDP\<close>.\<close>

definition IPPROTO_TCP :: byte where "IPPROTO_TCP = 6"
definition IPPROTO_UDP :: byte where "IPPROTO_UDP = 17"

lemmas offload_consts =
  VIRTIO_NET_HDR_GSO_NONE_def VIRTIO_NET_HDR_F_NEEDS_CSUM_def VIRTIO_NET_HDR_GSO_TCPV4_def
  VIRTIO_NET_HDR_GSO_TCPV6_def VIRTIO_NET_HDR_GSO_UDP_L4_def IDEAL_BATCH_SIZE_def
  TCP_FLAGS_OFFSET_def TCP_FLAG_FIN_def TCP_FLAG_PSH_def TCP_FLAG_ACK_def
  IPV4_FLAG_MORE_FRAGMENTS_def IPV4_SRC_ADDR_OFFSET_def IPV6_SRC_ADDR_OFFSET_def UDP_H_LEN_def
  IPPROTO_TCP_def IPPROTO_UDP_def

section \<open>The header\<close>

record VirtioNetHdr =
  flags :: byte
  gso_type :: byte
  hdr_len :: u16
  gso_size :: u16
  csum_start :: u16
  csum_offset :: u16

text \<open>\<open>VirtioNetHdr::default()\<close>: derived, all fields zero.\<close>

definition VirtioNetHdr_default :: VirtioNetHdr where
  "VirtioNetHdr_default =
     \<lparr>flags = 0, gso_type = 0, hdr_len = 0, gso_size = 0, csum_start = 0, csum_offset = 0\<rparr>"

text \<open>
  The C layout rule of \<open>#[repr(C)]\<close>: each field, given as its size and alignment, starts at the next
  multiple of its alignment, and the size is rounded up to the largest alignment.
\<close>

definition align_up :: "nat \<Rightarrow> nat \<Rightarrow> nat" where
  "align_up a n = (n + a - 1) div a * a"

definition repr_c_size :: "(nat \<times> nat) list \<Rightarrow> nat" where
  "repr_c_size fs =
     align_up (foldr (\<lambda>(_, a) m. max a m) fs 1)
       (foldl (\<lambda>at (s, a). align_up a at + s) 0 fs)"

text \<open>\<open>std::mem::size_of::<VirtioNetHdr>()\<close>: two \<open>u8\<close> and four \<open>u16\<close> fields.\<close>

definition VIRTIO_NET_HDR_LEN :: nat where
  "VIRTIO_NET_HDR_LEN = repr_c_size [(1, 1), (1, 1), (2, 2), (2, 2), (2, 2), (2, 2)]"

lemma VIRTIO_NET_HDR_LEN_eq [simp]: "VIRTIO_NET_HDR_LEN = 10"
  by code_simp

definition to_ne16 :: "u16 \<Rightarrow> byte list" where
  "to_ne16 w = [ucast w, ucast (drop_bit 8 w)]"

definition read_ne16 :: "byte list \<Rightarrow> nat \<Rightarrow> u16" where
  "read_ne16 buf at = be16 (buf ! (at + 1)) (buf ! at)"

text \<open>The bytes of the structure in memory; it has no padding.\<close>

definition hdr_bytes :: "VirtioNetHdr \<Rightarrow> byte list" where
  "hdr_bytes hdr = [flags hdr, gso_type hdr] @ to_ne16 (hdr_len hdr) @ to_ne16 (gso_size hdr)
     @ to_ne16 (csum_start hdr) @ to_ne16 (csum_offset hdr)"

definition VirtioNetHdr_decode :: "byte list \<Rightarrow> VirtioNetHdr res" where
  "VirtioNetHdr_decode buf =
     (if length buf < VIRTIO_NET_HDR_LEN then invalid_input ''too short''
      else Ok \<lparr>flags = buf ! 0, gso_type = buf ! 1, hdr_len = read_ne16 buf 2,
               gso_size = read_ne16 buf 4, csum_start = read_ne16 buf 6, csum_offset = read_ne16 buf 8\<rparr>)"

definition VirtioNetHdr_encode :: "VirtioNetHdr \<Rightarrow> byte list \<Rightarrow> byte list res" where
  "VirtioNetHdr_encode hdr buf =
     (if length buf < VIRTIO_NET_HDR_LEN then invalid_input ''too short''
      else Ok (blit buf 0 (hdr_bytes hdr)))"

lemma length_hdr_bytes [simp, byte_simps]: "length (hdr_bytes hdr) = 10"
  by (simp add: hdr_bytes_def to_ne16_def)

lemma encode_Ok: "10 \<le> length buf \<Longrightarrow> VirtioNetHdr_encode hdr buf = Ok (blit buf 0 (hdr_bytes hdr))"
  by (simp add: VirtioNetHdr_encode_def)

lemma decode_hdr_bytes: "VirtioNetHdr_decode (hdr_bytes hdr @ rest) = Ok hdr"
  by (simp add: VirtioNetHdr_decode_def hdr_bytes_def to_ne16_def read_ne16_def)

lemma hdr_bytes_default [simp]: "hdr_bytes VirtioNetHdr_default = replicate 10 0"
  by (simp add: hdr_bytes_def VirtioNetHdr_default_def to_ne16_def numeral_eq_Suc)

lemma decode_determines_prefix:
  "VirtioNetHdr_decode buf = Ok hdr \<Longrightarrow> take 10 buf = hdr_bytes hdr"
proof -
  assume d: "VirtioNetHdr_decode buf = Ok hdr"
  then have len: "10 \<le> length buf" by (auto simp: VirtioNetHdr_decode_def split: if_splits)
  define t where "t = take 10 buf"
  then have "length t = 10" using len by simp
  then obtain b0 b1 b2 b3 b4 b5 b6 b7 b8 b9 where "t = [b0, b1, b2, b3, b4, b5, b6, b7, b8, b9]"
    by (auto simp: length_Suc_conv eval_nat_numeral)
  then have t: "take 10 buf = [b0, b1, b2, b3, b4, b5, b6, b7, b8, b9]" by (simp add: t_def)
  have halves: "to_ne16 (be16 a b) = [b, a]" for a b
    by (simp add: to_ne16_def)
  have nth: "buf ! i = [b0, b1, b2, b3, b4, b5, b6, b7, b8, b9] ! i" if "i < 10" for i
    using that len t [symmetric] by simp
  have "hdr = \<lparr>flags = b0, gso_type = b1, hdr_len = be16 b3 b2, gso_size = be16 b5 b4,
      csum_start = be16 b7 b6, csum_offset = be16 b9 b8\<rparr>"
    using d len by (simp add: VirtioNetHdr_decode_def read_ne16_def nth)
  then show ?thesis by (simp add: t hdr_bytes_def halves)
qed

section \<open>Properties\<close>

text \<open>
  C3. Decoding is the inverse of encoding: a header encoded into any buffer that is long enough is
  read back unchanged, and the bytes after the header are untouched.
\<close>

theorem hdr_encode_decode:
  assumes "VIRTIO_NET_HDR_LEN \<le> length buf"
  shows "\<exists>buf'. VirtioNetHdr_encode hdr buf = Ok buf' \<and> VirtioNetHdr_decode buf' = Ok hdr
    \<and> length buf' = length buf \<and> drop VIRTIO_NET_HDR_LEN buf' = drop VIRTIO_NET_HDR_LEN buf"
  using assms by (simp add: encode_Ok blit_def decode_hdr_bytes)

theorem hdr_encode_decode_witness:
  "\<exists>buf'. VirtioNetHdr_encode (VirtioNetHdr_default\<lparr>gso_size := 1460\<rparr>) (replicate 12 7) = Ok buf'
    \<and> VirtioNetHdr_decode buf' = Ok (VirtioNetHdr_default\<lparr>gso_size := 1460\<rparr>)
    \<and> length buf' = length (replicate 12 (7 :: byte))
    \<and> drop VIRTIO_NET_HDR_LEN buf' = drop VIRTIO_NET_HDR_LEN (replicate 12 7)"
  by (rule hdr_encode_decode) simp

text \<open>
  A buffer shorter than the header is refused by both directions, nothing else is; and the
  header takes exactly ten bytes.
\<close>

theorem hdr_length_is_ten:
  "VIRTIO_NET_HDR_LEN = 10
    \<and> (is_ok (VirtioNetHdr_decode buf) \<longleftrightarrow> 10 \<le> length buf)
    \<and> (is_ok (VirtioNetHdr_encode hdr buf) \<longleftrightarrow> 10 \<le> length buf)"
  by (simp add: VirtioNetHdr_decode_def VirtioNetHdr_encode_def invalid_input_def)

end
