(* ===== verification/GroTables.thy ===== *)
theory GroTables
  imports FlowTable VirtioHdr
begin

text \<open>
  The TCP and UDP tables of \<open>src/platform/linux/offload.rs\<close>: flow keys, items, \<open>lookup_or_insert\<close>
  and \<open>insert\<close> on the table of \<open>FlowTable\<close>; and the growing buffers of the trait \<open>ExpandBuffer\<close>.
\<close>

section \<open>Buffers that grow\<close>

text \<open>
  A \<open>Vec<u8>\<close> or \<open>BytesMut\<close>: its bytes and its capacity, which grows when the bytes need it.
\<close>

record gbuf =
  buf_bytes :: "byte list"
  buf_capacity :: nat

definition gbuf_ok :: "gbuf \<Rightarrow> bool" where
  "gbuf_ok b \<longleftrightarrow> length (buf_bytes b) \<le> buf_capacity b"

definition with_bytes :: "gbuf \<Rightarrow> byte list \<Rightarrow> gbuf" where
  "with_bytes b xs = b\<lparr>buf_bytes := xs, buf_capacity := max (buf_capacity b) (length xs)\<rparr>"

definition buf_resize :: "gbuf \<Rightarrow> nat \<Rightarrow> byte \<Rightarrow> gbuf" where
  "buf_resize b new_len v =
     with_bytes b (take new_len (buf_bytes b) @ replicate (new_len - length (buf_bytes b)) v)"

definition buf_extend_from_slice :: "gbuf \<Rightarrow> byte list \<Rightarrow> gbuf" where
  "buf_extend_from_slice b src = with_bytes b (buf_bytes b @ src)"

lemma with_bytes_sel [simp]:
  "buf_bytes (with_bytes b xs) = xs" "buf_capacity (with_bytes b xs) = max (buf_capacity b) (length xs)"
  by (simp_all add: with_bytes_def)

lemma gbuf_ok_ops [simp]:
  "gbuf_ok (with_bytes b xs)" "gbuf_ok (buf_resize b n v)" "gbuf_ok (buf_extend_from_slice b src)"
  by (simp_all add: gbuf_ok_def buf_resize_def buf_extend_from_slice_def)

section \<open>Flow keys\<close>

record TcpFlowKey =
  tk_src_addr :: "byte list"
  tk_dst_addr :: "byte list"
  tk_src_port :: u16
  tk_dst_port :: u16
  tk_rx_ack :: u32
  tk_is_v6 :: bool

record UdpFlowKey =
  uk_src_addr :: "byte list"
  uk_dst_addr :: "byte list"
  uk_src_port :: u16
  uk_dst_port :: u16
  uk_is_v6 :: bool

text \<open>\<open>key.addr[..n].copy_from_slice(&pkt[at..at + n])\<close> on an array of 16 zeros.\<close>

definition addr_key :: "byte list \<Rightarrow> nat \<Rightarrow> nat \<Rightarrow> byte list" where
  "addr_key pkt at n = blit (replicate 16 0) 0 (subslice at (at + n) pkt)"

definition TcpFlowKey_new :: "byte list \<Rightarrow> nat \<Rightarrow> nat \<Rightarrow> nat \<Rightarrow> TcpFlowKey res" where
  "TcpFlowKey_new pkt src_addr_offset dst_addr_offset tcph_offset =
     (let addr_size = dst_addr_offset - src_addr_offset in
      ensure (src_addr_offset \<le> dst_addr_offset \<and> addr_size \<le> 16 \<and> dst_addr_offset + addr_size \<le> length pkt
        \<and> tcph_offset + 12 \<le> length pkt)
       (Ok \<lparr>tk_src_addr = addr_key pkt src_addr_offset addr_size,
            tk_dst_addr = addr_key pkt dst_addr_offset addr_size,
            tk_src_port = read_u16 pkt tcph_offset,
            tk_dst_port = read_u16 pkt (tcph_offset + 2),
            tk_rx_ack = read_u32 pkt (tcph_offset + 8),
            tk_is_v6 = (addr_size = 16)\<rparr>))"

definition UdpFlowKey_new :: "byte list \<Rightarrow> nat \<Rightarrow> nat \<Rightarrow> nat \<Rightarrow> UdpFlowKey res" where
  "UdpFlowKey_new pkt src_addr_offset dst_addr_offset udph_offset =
     (let addr_size = dst_addr_offset - src_addr_offset in
      ensure (src_addr_offset \<le> dst_addr_offset \<and> addr_size \<le> 16 \<and> dst_addr_offset + addr_size \<le> length pkt
        \<and> udph_offset + 4 \<le> length pkt)
       (Ok \<lparr>uk_src_addr = addr_key pkt src_addr_offset addr_size,
            uk_dst_addr = addr_key pkt dst_addr_offset addr_size,
            uk_src_port = read_u16 pkt udph_offset,
            uk_dst_port = read_u16 pkt (udph_offset + 2),
            uk_is_v6 = (addr_size = 16)\<rparr>))"

section \<open>Items\<close>

record TcpGROItem =
  ti_key :: TcpFlowKey
  ti_sent_seq :: u32
  ti_bufs_index :: u16
  ti_num_merged :: u16
  ti_gso_size :: u16
  ti_iph_len :: byte
  ti_tcph_len :: byte
  ti_psh_set :: bool

record UdpGROItem =
  ui_key :: UdpFlowKey
  ui_bufs_index :: u16
  ui_num_merged :: u16
  ui_gso_size :: u16
  ui_iph_len :: byte
  ui_c_sum_known_invalid :: bool

type_synonym TcpGROTable = "(TcpFlowKey, TcpGROItem) gro_table"
type_synonym UdpGROTable = "(UdpFlowKey, UdpGROItem) gro_table"

definition TcpGROTable_new :: TcpGROTable where
  "TcpGROTable_new = gro_table_new IDEAL_BATCH_SIZE"

definition UdpGROTable_new :: UdpGROTable where
  "UdpGROTable_new = gro_table_new IDEAL_BATCH_SIZE"

definition TcpGROTable_reset :: "TcpGROTable \<Rightarrow> TcpGROTable" where
  "TcpGROTable_reset = gro_table_reset"

definition UdpGROTable_reset :: "UdpGROTable \<Rightarrow> UdpGROTable" where
  "UdpGROTable_reset = gro_table_reset"

text \<open>\<open>TcpGROTable::insert\<close>; the conversions that \<open>expect\<close> a value to fit panic when it does not.\<close>

definition tcp_table_insert :: "byte list \<Rightarrow> nat \<Rightarrow> nat \<Rightarrow> nat \<Rightarrow> nat \<Rightarrow> nat \<Rightarrow> TcpGROTable \<Rightarrow> TcpGROTable res" where
  "tcp_table_insert pkt src_addr_offset dst_addr_offset tcph_offset tcph_len bufs_index table =
     bind_res (TcpFlowKey_new pkt src_addr_offset dst_addr_offset tcph_offset) (\<lambda>key.
       ensure (bufs_index < 2 ^ 16 \<and> tcph_offset + tcph_len \<le> length pkt
         \<and> length pkt - (tcph_offset + tcph_len) < 2 ^ 16 \<and> tcph_offset < 2 ^ 8 \<and> tcph_len < 2 ^ 8
         \<and> tcph_offset + TCP_FLAGS_OFFSET < length pkt)
        (let item = \<lparr>ti_key = key, ti_sent_seq = read_u32 pkt (tcph_offset + 4),
               ti_bufs_index = of_nat bufs_index, ti_num_merged = 0,
               ti_gso_size = of_nat (length pkt - (tcph_offset + tcph_len)),
               ti_iph_len = of_nat tcph_offset, ti_tcph_len = of_nat tcph_len,
               ti_psh_set = (pkt ! (tcph_offset + TCP_FLAGS_OFFSET) AND TCP_FLAG_PSH \<noteq> 0)\<rparr>
         in Ok (gro_table_push key item table)))"

definition udp_table_insert :: "byte list \<Rightarrow> nat \<Rightarrow> nat \<Rightarrow> nat \<Rightarrow> nat \<Rightarrow> bool \<Rightarrow> UdpGROTable \<Rightarrow> UdpGROTable res" where
  "udp_table_insert pkt src_addr_offset dst_addr_offset udph_offset bufs_index c_sum_known_invalid table =
     bind_res (UdpFlowKey_new pkt src_addr_offset dst_addr_offset udph_offset) (\<lambda>key.
       ensure (bufs_index < 2 ^ 16 \<and> udph_offset + UDP_H_LEN \<le> length pkt
         \<and> length pkt - (udph_offset + UDP_H_LEN) < 2 ^ 16 \<and> udph_offset < 2 ^ 8)
        (let item = \<lparr>ui_key = key, ui_bufs_index = of_nat bufs_index, ui_num_merged = 0,
               ui_gso_size = of_nat (length pkt - (udph_offset + UDP_H_LEN)),
               ui_iph_len = of_nat udph_offset, ui_c_sum_known_invalid = c_sum_known_invalid\<rparr>
         in Ok (gro_table_push key item table)))"

text \<open>
  \<open>lookup_or_insert\<close>: the flow of the packet, with its key, when there is one; otherwise nothing,
  and the packet is inserted.
\<close>

definition tcp_lookup_or_insert :: "byte list \<Rightarrow> nat \<Rightarrow> nat \<Rightarrow> nat \<Rightarrow> nat \<Rightarrow> nat \<Rightarrow> TcpGROTable
    \<Rightarrow> ((TcpFlowKey \<times> TcpGROItem list) option \<times> TcpGROTable) res" where
  "tcp_lookup_or_insert pkt src_addr_offset dst_addr_offset tcph_offset tcph_len bufs_index table =
     bind_res (TcpFlowKey_new pkt src_addr_offset dst_addr_offset tcph_offset) (\<lambda>key.
       case flow_items table key of
         Some items \<Rightarrow> Ok (Some (key, items), table)
       | None \<Rightarrow>
           bind_res (tcp_table_insert pkt src_addr_offset dst_addr_offset tcph_offset tcph_len bufs_index table)
             (\<lambda>table. Ok (None, table)))"

definition udp_lookup_or_insert :: "byte list \<Rightarrow> nat \<Rightarrow> nat \<Rightarrow> nat \<Rightarrow> nat \<Rightarrow> UdpGROTable
    \<Rightarrow> ((UdpFlowKey \<times> UdpGROItem list) option \<times> UdpGROTable) res" where
  "udp_lookup_or_insert pkt src_addr_offset dst_addr_offset udph_offset bufs_index table =
     bind_res (UdpFlowKey_new pkt src_addr_offset dst_addr_offset udph_offset) (\<lambda>key.
       case flow_items table key of
         Some items \<Rightarrow> Ok (Some (key, items), table)
       | None \<Rightarrow>
           bind_res (udp_table_insert pkt src_addr_offset dst_addr_offset udph_offset bufs_index False table)
             (\<lambda>table. Ok (None, table)))"

end
