(* ===== verification/Checksum.thy ===== *)
theory Checksum
  imports Base
begin

text \<open>
  The internet checksum of \<open>src/platform/linux/checksum.rs\<close>: the scalar accumulator, its AVX2 and
  SSE4.1 versions on a model of the vector registers, the run-time dispatch, the fold to 16 bits and
  the pseudo-header.  The lemmas relate them to the one's complement sum of RFC 1071, read as a sum
  of 16-bit words modulo \<open>2^16 - 1\<close>.
\<close>

section \<open>The scalar accumulator\<close>

text \<open>The three phases of the loop: whole 32-bit words, then one 16-bit word, then an odd byte.\<close>

fun checksum_no_fold_scalar :: "byte list \<Rightarrow> u64 \<Rightarrow> u64" where
  "checksum_no_fold_scalar (a # b # c # d # rest) acc =
     checksum_no_fold_scalar rest (acc + ucast (be32 a b c d))"
| "checksum_no_fold_scalar [a, b, c] acc = acc + ucast (be16 a b) + push_bit 8 (ucast c)"
| "checksum_no_fold_scalar [a, b] acc = acc + ucast (be16 a b)"
| "checksum_no_fold_scalar [a] acc = acc + push_bit 8 (ucast a)"
| "checksum_no_fold_scalar [] acc = acc"

section \<open>The vector versions\<close>

text \<open>
  A 128- or 256-bit register is the list of its bytes in memory order (least significant first),
  a register of 64-bit lanes the list of its lanes.  \<open>set_epi8\<close> takes its bytes most significant
  first.  The other functions are the intrinsics of the standard library the code calls.
\<close>

definition set_epi8 :: "nat list \<Rightarrow> byte list" where
  "set_epi8 xs = rev (map of_nat xs)"

definition shuffle_lane :: "byte list \<Rightarrow> byte list \<Rightarrow> byte list" where
  "shuffle_lane a msk = map (\<lambda>m. if bit m 7 then 0 else a ! unat (m AND 15)) msk"

definition mm256_shuffle_epi8 :: "byte list \<Rightarrow> byte list \<Rightarrow> byte list" where
  "mm256_shuffle_epi8 a msk =
     shuffle_lane (take 16 a) (take 16 msk) @ shuffle_lane (drop 16 a) (drop 16 msk)"

definition le32 :: "byte list \<Rightarrow> nat \<Rightarrow> u32" where
  "le32 xs i = be32 (xs ! (i + 3)) (xs ! (i + 2)) (xs ! (i + 1)) (xs ! i)"

definition mm256_cvtepu32_epi64 :: "byte list \<Rightarrow> u64 list" where
  "mm256_cvtepu32_epi64 a = map (\<lambda>i. ucast (le32 a i)) [0, 4, 8, 12]"

definition mm_cvtepu32_epi64 :: "byte list \<Rightarrow> u64 list" where
  "mm_cvtepu32_epi64 a = map (\<lambda>i. ucast (le32 a i)) [0, 4]"

definition extracti128 :: "byte list \<Rightarrow> nat \<Rightarrow> byte list" where
  "extracti128 a i = take 16 (drop (16 * i) a)"

definition mm_bsrli_si128 :: "byte list \<Rightarrow> nat \<Rightarrow> byte list" where
  "mm_bsrli_si128 a n = drop n a @ replicate n 0"

definition add_epi64 :: "u64 list \<Rightarrow> u64 list \<Rightarrow> u64 list" where
  "add_epi64 xs ys = map2 (+) xs ys"

definition avx2_shuffle_mask :: "byte list" where
  "avx2_shuffle_mask = set_epi8
     [12, 13, 14, 15, 8, 9, 10, 11, 4, 5, 6, 7, 0, 1, 2, 3, 12, 13, 14, 15, 8, 9, 10, 11,
      4, 5, 6, 7, 0, 1, 2, 3]"

definition sse41_shuffle_mask :: "byte list" where
  "sse41_shuffle_mask = set_epi8 [12, 13, 14, 15, 8, 9, 10, 11, 4, 5, 6, 7, 0, 1, 2, 3]"

function avx2_loop :: "byte list \<Rightarrow> u64 list \<Rightarrow> byte list \<times> u64 list" where
  "avx2_loop b sums =
     (if 32 \<le> length b then
        let swapped = mm256_shuffle_epi8 (take 32 b) avx2_shuffle_mask;
            lower_u64 = mm256_cvtepu32_epi64 (extracti128 swapped 0);
            sums = add_epi64 sums lower_u64;
            upper_u64 = mm256_cvtepu32_epi64 (extracti128 swapped 1);
            sums = add_epi64 sums upper_u64
        in avx2_loop (drop 32 b) sums
      else (b, sums))"
  by pat_completeness auto
termination
  by (relation "measure (\<lambda>(b, _). length b)") auto

declare avx2_loop.simps [simp del]

definition checksum_no_fold_avx2 :: "byte list \<Rightarrow> u64 \<Rightarrow> u64" where
  "checksum_no_fold_avx2 b initial =
     (if 32 \<le> length b then
        let (b, sums) = avx2_loop b [0, 0, 0, 0];
            accumulator = initial + sums ! 0 + sums ! 1 + sums ! 2 + sums ! 3
        in checksum_no_fold_scalar b accumulator
      else checksum_no_fold_scalar b initial)"

function sse41_loop :: "byte list \<Rightarrow> u64 list \<Rightarrow> byte list \<times> u64 list" where
  "sse41_loop b sums =
     (if 16 \<le> length b then
        let swapped = shuffle_lane (take 16 b) sse41_shuffle_mask;
            lower_u64 = mm_cvtepu32_epi64 swapped;
            sums = add_epi64 sums lower_u64;
            upper_u64 = mm_cvtepu32_epi64 (mm_bsrli_si128 swapped 8);
            sums = add_epi64 sums upper_u64
        in sse41_loop (drop 16 b) sums
      else (b, sums))"
  by pat_completeness auto
termination
  by (relation "measure (\<lambda>(b, _). length b)") auto

declare sse41_loop.simps [simp del]

definition checksum_no_fold_sse41 :: "byte list \<Rightarrow> u64 \<Rightarrow> u64" where
  "checksum_no_fold_sse41 b initial =
     (if 16 \<le> length b then
        let (b, sums) = sse41_loop b [0, 0];
            accumulator = initial + sums ! 0 + sums ! 1
        in checksum_no_fold_scalar b accumulator
      else checksum_no_fold_scalar b initial)"

text \<open>What \<open>is_x86_feature_detected!\<close> reports; a target that is not x86-64 has neither.\<close>

record cpu_features =
  has_avx2 :: bool
  has_sse41 :: bool

definition checksum_no_fold_on :: "cpu_features \<Rightarrow> byte list \<Rightarrow> u64 \<Rightarrow> u64" where
  "checksum_no_fold_on cpu b initial =
     (if has_avx2 cpu then checksum_no_fold_avx2 b initial
      else if has_sse41 cpu then checksum_no_fold_sse41 b initial
      else checksum_no_fold_scalar b initial)"

text \<open>
  By \<open>checksum_no_fold_on_eq\<close> below the CPU makes no difference, so the rest of the development
  calls the dispatch at the baseline CPU.
\<close>

definition checksum_no_fold :: "byte list \<Rightarrow> u64 \<Rightarrow> u64" where
  "checksum_no_fold = checksum_no_fold_on \<lparr>has_avx2 = False, has_sse41 = False\<rparr>"

section \<open>The fold and the pseudo-header\<close>

lemma fold_step_less:
  fixes acc :: u64
  assumes "acc > 0xFFFF"
  shows "unat (drop_bit 16 acc + (acc AND 0xFFFF)) < unat acc"
proof -
  have q: "unat (drop_bit 16 acc) = unat acc div 65536"
    by (simp only: unat_drop_bit_eq) (simp add: drop_bit_eq_div)
  have r: "unat (acc AND 0xFFFF) = unat acc mod 65536"
  proof -
    have "acc AND 0xFFFF = take_bit 16 acc"
      by (simp add: take_bit_eq_mask mask_eq_exp_minus_1)
    moreover have "unat (take_bit 16 acc) = unat acc mod 65536"
      by (simp only: unsigned_take_bit_eq) (simp add: take_bit_eq_mod)
    ultimately show ?thesis by simp
  qed
  have "65535 < unat acc" using assms by (simp add: word_less_nat_alt)
  then have "0 < unat acc div 65536" by (simp add: div_greater_zero_iff)
  moreover have "unat acc = unat acc div 65536 * 65536 + unat acc mod 65536" by simp
  ultimately have "unat acc div 65536 + unat acc mod 65536 < unat acc" by linarith
  then show ?thesis
    using unat_u64_bound [of acc] by (simp add: unat_word_ariths q r)
qed

function checksum_fold :: "u64 \<Rightarrow> u64" where
  "checksum_fold accumulator =
     (if accumulator > 0xFFFF
      then checksum_fold (drop_bit 16 accumulator + (accumulator AND 0xFFFF))
      else accumulator)"
  by pat_completeness auto
termination
  by (relation "measure unat") (use fold_step_less in auto)

declare checksum_fold.simps [simp del]

definition checksum :: "byte list \<Rightarrow> u64 \<Rightarrow> u16" where
  "checksum b initial = ucast (checksum_fold (checksum_no_fold b initial))"

definition pseudo_header_checksum_no_fold :: "byte \<Rightarrow> byte list \<Rightarrow> byte list \<Rightarrow> u16 \<Rightarrow> u64" where
  "pseudo_header_checksum_no_fold protocol src_addr dst_addr total_len =
     (let sum = checksum_no_fold src_addr 0;
          sum = checksum_no_fold dst_addr sum;
          trailer = [0, protocol] @ to_be16 total_len
      in checksum_no_fold trailer sum)"

section \<open>The vector versions compute the scalar sum\<close>

lemma checksum_scalar_add:
  "checksum_no_fold_scalar b (x + y) = checksum_no_fold_scalar b x + y"
  by (induction b x arbitrary: y rule: checksum_no_fold_scalar.induct)
    (simp_all add: algebra_simps)

lemma checksum_scalar_16:
  assumes "length a = 16"
  shows "checksum_no_fold_scalar (a @ rest) acc =
    checksum_no_fold_scalar rest (acc +
      (ucast (be32 (a ! 0) (a ! 1) (a ! 2) (a ! 3)) + ucast (be32 (a ! 4) (a ! 5) (a ! 6) (a ! 7)) +
       ucast (be32 (a ! 8) (a ! 9) (a ! 10) (a ! 11)) + ucast (be32 (a ! 12) (a ! 13) (a ! 14) (a ! 15))))"
proof -
  from assms obtain a0 a1 a2 a3 a4 a5 a6 a7 a8 a9 a10 a11 a12 a13 a14 a15 where
    "a = [a0, a1, a2, a3, a4, a5, a6, a7, a8, a9, a10, a11, a12, a13, a14, a15]"
    by (auto simp: length_Suc_conv eval_nat_numeral)
  then show ?thesis by (simp add: add.assoc)
qed

text \<open>The byte shuffle turns each big-endian 32-bit word into a little-endian lane.\<close>

lemma shuffled_lane:
  assumes "length a = 16"
  shows "shuffle_lane a sse41_shuffle_mask =
    [a ! 3, a ! 2, a ! 1, a ! 0, a ! 7, a ! 6, a ! 5, a ! 4,
     a ! 11, a ! 10, a ! 9, a ! 8, a ! 15, a ! 14, a ! 13, a ! 12]"
  by (simp add: shuffle_lane_def sse41_shuffle_mask_def set_epi8_def)

lemma avx2_mask_halves:
  "take 16 avx2_shuffle_mask = sse41_shuffle_mask" "drop 16 avx2_shuffle_mask = sse41_shuffle_mask"
  by (simp_all add: avx2_shuffle_mask_def sse41_shuffle_mask_def set_epi8_def)

lemma sse41_chunk:
  assumes "length a = 16"
  shows "mm_cvtepu32_epi64 (shuffle_lane a sse41_shuffle_mask) =
      [ucast (be32 (a ! 0) (a ! 1) (a ! 2) (a ! 3)), ucast (be32 (a ! 4) (a ! 5) (a ! 6) (a ! 7))]"
    and "mm_cvtepu32_epi64 (mm_bsrli_si128 (shuffle_lane a sse41_shuffle_mask) 8) =
      [ucast (be32 (a ! 8) (a ! 9) (a ! 10) (a ! 11)), ucast (be32 (a ! 12) (a ! 13) (a ! 14) (a ! 15))]"
  unfolding shuffled_lane [OF assms]
  by (simp_all add: mm_cvtepu32_epi64_def mm_bsrli_si128_def le32_def numeral_nat)

lemma avx2_chunk:
  assumes "length a = 16"
  shows "mm256_cvtepu32_epi64 (shuffle_lane a sse41_shuffle_mask) =
      [ucast (be32 (a ! 0) (a ! 1) (a ! 2) (a ! 3)), ucast (be32 (a ! 4) (a ! 5) (a ! 6) (a ! 7)),
       ucast (be32 (a ! 8) (a ! 9) (a ! 10) (a ! 11)), ucast (be32 (a ! 12) (a ! 13) (a ! 14) (a ! 15))]"
  unfolding shuffled_lane [OF assms]
  by (simp add: mm256_cvtepu32_epi64_def le32_def numeral_nat)

lemma avx2_halves:
  assumes "length a = 32"
  shows "extracti128 (mm256_shuffle_epi8 a avx2_shuffle_mask) 0 =
      shuffle_lane (take 16 a) sse41_shuffle_mask"
    and "extracti128 (mm256_shuffle_epi8 a avx2_shuffle_mask) 1 =
      shuffle_lane (drop 16 a) sse41_shuffle_mask"
proof -
  have "length (shuffle_lane x sse41_shuffle_mask) = 16" for x
    by (simp add: shuffle_lane_def sse41_shuffle_mask_def set_epi8_def)
  then show "extracti128 (mm256_shuffle_epi8 a avx2_shuffle_mask) 0 =
      shuffle_lane (take 16 a) sse41_shuffle_mask"
    and "extracti128 (mm256_shuffle_epi8 a avx2_shuffle_mask) 1 =
      shuffle_lane (drop 16 a) sse41_shuffle_mask"
    by (simp_all add: extracti128_def mm256_shuffle_epi8_def avx2_mask_halves)
qed

lemma sum_list_add_epi64: "length xs = length ys \<Longrightarrow> sum_list (add_epi64 xs ys) = sum_list xs + sum_list ys"
  unfolding add_epi64_def by (induction xs ys rule: list_induct2) (simp_all add: algebra_simps)

lemma length_add_epi64 [simp]: "length (add_epi64 xs ys) = min (length xs) (length ys)"
  by (simp add: add_epi64_def)

lemma avx2_loop_sum:
  "length sums = 4 \<Longrightarrow> avx2_loop b sums = (b', sums') \<Longrightarrow>
     length sums' = 4 \<and>
     checksum_no_fold_scalar b' (acc + sum_list sums') = checksum_no_fold_scalar b (acc + sum_list sums)"
proof (induction b sums rule: avx2_loop.induct)
  case (1 b sums)
  show ?case
  proof (cases "32 \<le> length b")
    case False
    with 1 show ?thesis by (simp add: avx2_loop.simps [of b sums])
  next
    case True
    define lo where "lo = take 16 (take 32 b)"
    define hi where "hi = drop 16 (take 32 b)"
    define s1 where "s1 = add_epi64 sums (mm256_cvtepu32_epi64 (shuffle_lane lo sse41_shuffle_mask))"
    define s2 where "s2 = add_epi64 s1 (mm256_cvtepu32_epi64 (shuffle_lane hi sse41_shuffle_mask))"
    have len: "length lo = 16" "length hi = 16" and b: "b = lo @ hi @ drop 32 b"
      using True append_take_drop_id [of 32 b] append_take_drop_id [of 16 "take 32 b"]
      unfolding lo_def hi_def by (simp_all del: take_take append_take_drop_id flip: append_assoc)
    have step: "avx2_loop b sums = avx2_loop (drop 32 b) s2"
      using True by (subst avx2_loop.simps)
        (simp add: Let_def s1_def s2_def lo_def hi_def avx2_halves del: take_take One_nat_def)
    have s: "length s2 = 4" "sum_list s2 = sum_list sums
        + sum_list (mm256_cvtepu32_epi64 (shuffle_lane lo sse41_shuffle_mask))
        + sum_list (mm256_cvtepu32_epi64 (shuffle_lane hi sse41_shuffle_mask))"
      using "1.prems"(1) len by (simp_all add: s1_def s2_def sum_list_add_epi64 avx2_chunk)
    have "length sums' = 4 \<and> checksum_no_fold_scalar b' (acc + sum_list sums') =
        checksum_no_fold_scalar (drop 32 b) (acc + sum_list s2)"
      using "1.IH" [OF True refl refl refl refl refl] "1.prems" s(1) True step
      by (simp add: Let_def s1_def s2_def lo_def hi_def avx2_halves del: take_take One_nat_def)
    moreover have "checksum_no_fold_scalar b (acc + sum_list sums) =
        checksum_no_fold_scalar (drop 32 b) (acc + sum_list s2)"
      by (subst b) (simp add: checksum_scalar_16 len s(2) avx2_chunk algebra_simps)
    ultimately show ?thesis by simp
  qed
qed
lemma sse41_loop_sum:
  "length sums = 2 \<Longrightarrow> sse41_loop b sums = (b', sums') \<Longrightarrow>
     length sums' = 2 \<and>
     checksum_no_fold_scalar b' (acc + sum_list sums') = checksum_no_fold_scalar b (acc + sum_list sums)"
proof (induction b sums rule: sse41_loop.induct)
  case (1 b sums)
  show ?case
  proof (cases "16 \<le> length b")
    case False
    with 1 show ?thesis by (simp add: sse41_loop.simps [of b sums])
  next
    case True
    define a where "a = take 16 b"
    define s1 where "s1 = add_epi64 sums (mm_cvtepu32_epi64 (shuffle_lane a sse41_shuffle_mask))"
    define s2 where "s2 = add_epi64 s1 (mm_cvtepu32_epi64 (mm_bsrli_si128 (shuffle_lane a sse41_shuffle_mask) 8))"
    have len: "length a = 16" and b: "b = a @ drop 16 b"
      using True by (simp_all add: a_def)
    have step: "sse41_loop b sums = sse41_loop (drop 16 b) s2"
      using True by (subst sse41_loop.simps) (simp add: Let_def s1_def s2_def a_def)
    have s: "length s2 = 2" "sum_list s2 = sum_list sums
        + sum_list (mm_cvtepu32_epi64 (shuffle_lane a sse41_shuffle_mask))
        + sum_list (mm_cvtepu32_epi64 (mm_bsrli_si128 (shuffle_lane a sse41_shuffle_mask) 8))"
      using "1.prems"(1) len by (simp_all add: s1_def s2_def sum_list_add_epi64 sse41_chunk)
    have "length sums' = 2 \<and> checksum_no_fold_scalar b' (acc + sum_list sums') =
        checksum_no_fold_scalar (drop 16 b) (acc + sum_list s2)"
      using "1.IH" [OF True refl refl refl refl refl] "1.prems" s(1) True step
      by (simp add: Let_def s1_def s2_def a_def)
    moreover have "checksum_no_fold_scalar b (acc + sum_list sums) =
        checksum_no_fold_scalar (drop 16 b) (acc + sum_list s2)"
      by (subst b) (simp add: checksum_scalar_16 len s(2) sse41_chunk algebra_simps)
    ultimately show ?thesis by simp
  qed
qed

lemma avx2_eq_scalar: "checksum_no_fold_avx2 b initial = checksum_no_fold_scalar b initial"
proof -
  obtain b' sums where loop: "avx2_loop b [0, 0, 0, 0] = (b', sums)" by fastforce
  note sums = avx2_loop_sum [OF _ loop, of initial, simplified]
  then have "sum_list sums = sums ! 0 + sums ! 1 + sums ! 2 + sums ! 3"
    by (auto simp: length_Suc_conv numeral_eq_Suc algebra_simps)
  with sums show ?thesis by (simp add: checksum_no_fold_avx2_def loop add.assoc)
qed

lemma sse41_eq_scalar: "checksum_no_fold_sse41 b initial = checksum_no_fold_scalar b initial"
proof -
  obtain b' sums where loop: "sse41_loop b [0, 0] = (b', sums)" by fastforce
  note sums = sse41_loop_sum [OF _ loop, of initial, simplified]
  then have "sum_list sums = sums ! 0 + sums ! 1"
    by (auto simp: length_Suc_conv numeral_eq_Suc)
  with sums show ?thesis by (simp add: checksum_no_fold_sse41_def loop add.assoc)
qed

lemma checksum_no_fold_scalar [simp]: "checksum_no_fold b initial = checksum_no_fold_scalar b initial"
  by (simp add: checksum_no_fold_def checksum_no_fold_on_def)

section \<open>The accumulator as a sum\<close>

text \<open>RFC 1071's sum: 16-bit big-endian words, an odd last byte padded with zero.\<close>

fun words16_sum :: "byte list \<Rightarrow> nat" where
  "words16_sum (a # b # rest) = 256 * unat a + unat b + words16_sum rest"
| "words16_sum [a] = 256 * unat a"
| "words16_sum [] = 0"

text \<open>The exact value the accumulator adds.\<close>

fun acc_sum :: "byte list \<Rightarrow> nat" where
  "acc_sum (a # b # c # d # rest) = unat (be32 a b c d) + acc_sum rest"
| "acc_sum [a, b, c] = unat (be16 a b) + 256 * unat c"
| "acc_sum [a, b] = unat (be16 a b)"
| "acc_sum [a] = 256 * unat a"
| "acc_sum [] = 0"

lemma unat_push_byte: "unat (push_bit 8 (ucast (c :: byte)) :: u64) = 256 * unat c"
  using unat_byte_bound [of c]
  by (simp add: push_bit_eq_mult unat_word_ariths unat_ucast_wider)

lemma unat_checksum_scalar:
  "unat (checksum_no_fold_scalar b acc) = (unat acc + acc_sum b) mod 2 ^ 64"
  by (induction b acc rule: checksum_no_fold_scalar.induct)
    (simp_all add: unat_word_ariths unat_ucast_wider unat_push_byte mod_simps add.assoc unat_u64_bound)

lemma acc_sum_bound: "acc_sum b \<le> 2 ^ 30 * length b"
proof (induction b rule: acc_sum.induct)
  case (1 a b c d rest)
  then show ?case using unat_u32_bound [of "be32 a b c d"] by simp
next
  case (2 a b c)
  then show ?case using unat_u16_bound [of "be16 a b"] unat_byte_bound [of c] by simp
next
  case (3 a b)
  then show ?case using unat_u16_bound [of "be16 a b"] by simp
next
  case (4 a)
  then show ?case using unat_byte_bound [of a] by simp
qed simp

lemma unat_checksum_no_overflow:
  "unat acc + 2 ^ 30 * length b < 2 ^ 64 \<Longrightarrow> unat (checksum_no_fold_scalar b acc) = unat acc + acc_sum b"
  using acc_sum_bound [of b] by (simp add: unat_checksum_scalar)

lemma acc_sum_cong: "acc_sum b mod 65535 = words16_sum b mod 65535"
proof (induction b rule: acc_sum.induct)
  case (1 a b c d rest)
  have "acc_sum (a # b # c # d # rest) =
      (256 * unat a + unat b) * 65535 + (256 * unat a + unat b + 256 * unat c + unat d + acc_sum rest)"
    by (simp add: unat_be32)
  then have "acc_sum (a # b # c # d # rest) mod 65535 =
      (256 * unat a + unat b + 256 * unat c + unat d + acc_sum rest) mod 65535"
    by (metis mod_mult_self3)
  also have "\<dots> = words16_sum (a # b # c # d # rest) mod 65535"
  proof -
    have "words16_sum (a # b # c # d # rest) = 256 * unat a + unat b + 256 * unat c + unat d + words16_sum rest"
      by simp
    then show ?thesis by (simp only: mod_add_cong [OF refl 1])
  qed
  finally show ?case .
qed (simp_all add: unat_be16)

lemma acc_sum_eq_0: "acc_sum b = 0 \<longleftrightarrow> words16_sum b = 0"
  by (induction b rule: acc_sum.induct) (auto simp: unat_be32 unat_be16)

section \<open>The fold\<close>

text \<open>
  The one's complement representative of a sum: the only value between 1 and 65535 congruent to it,
  and 0 for the sum 0.
\<close>

definition norm16 :: "nat \<Rightarrow> nat" where
  "norm16 n = (if n = 0 then 0 else (n - 1) mod 65535 + 1)"

lemma norm16_le [simp]: "norm16 n \<le> 65535"
  using mod_less_divisor [of 65535 "n - 1"] unfolding norm16_def by (simp add: Suc_le_eq)

lemma norm16_less [simp]: "norm16 n < 65536"
  using norm16_le [of n] by linarith

lemma norm16_small: "n \<le> 65535 \<Longrightarrow> norm16 n = n"
  by (simp add: norm16_def)

lemma norm16_mod: "norm16 n mod 65535 = n mod 65535"
proof (cases n)
  case (Suc m)
  then show ?thesis by (simp add: norm16_def) (metis mod_Suc_eq)
qed (simp add: norm16_def)

lemma norm16_eq_0: "norm16 n = 0 \<longleftrightarrow> n = 0"
  by (simp add: norm16_def)

lemma norm16_cong:
  assumes "m mod 65535 = n mod 65535" and "m = 0 \<longleftrightarrow> n = 0"
  shows "norm16 m = norm16 n"
proof (cases "n = 0")
  case False
  have bounds: "norm16 m \<le> 65535" "norm16 n \<le> 65535" "0 < norm16 m" "0 < norm16 n"
    using False assms(2) by (simp_all add: norm16_eq_0 neq0_conv [symmetric] del: neq0_conv)
  have "norm16 m mod 65535 = norm16 n mod 65535" using assms(1) by (simp add: norm16_mod)
  with bounds show ?thesis
    by (metis mod_less mod_self nat_less_le less_numeral_extra(3))
qed (use assms in \<open>simp add: norm16_def\<close>)

lemma norm16_unfold:
  assumes "65535 < n"
  shows "norm16 (n div 65536 + n mod 65536) = norm16 n"
proof (rule norm16_cong)
  have "n = 65536 * (n div 65536) + n mod 65536" by simp
  then have "n = 65535 * (n div 65536) + (n div 65536 + n mod 65536)" by linarith
  then show "(n div 65536 + n mod 65536) mod 65535 = n mod 65535" by (metis mod_mult_self4)
  show "(n div 65536 + n mod 65536 = 0) = (n = 0)" using assms by (simp add: div_eq_0_iff)
qed

lemma unat_fold_step:
  fixes acc :: u64
  shows "unat (drop_bit 16 acc + (acc AND 0xFFFF)) = unat acc div 65536 + unat acc mod 65536"
proof -
  have "acc AND 0xFFFF = take_bit 16 acc"
    by (simp add: take_bit_eq_mask mask_eq_exp_minus_1)
  moreover have "unat (take_bit 16 acc) = unat acc mod 65536"
    by (simp only: unsigned_take_bit_eq) (simp add: take_bit_eq_mod)
  moreover have "unat (drop_bit 16 acc) = unat acc div 65536"
    by (simp only: unat_drop_bit_eq) (simp add: drop_bit_eq_div)
  moreover have "unat acc div 65536 + unat acc mod 65536 < 2 ^ 64"
    using unat_u64_bound [of acc] by (simp add: less_mult_imp_div_less trans_less_add1)
  ultimately show ?thesis by (simp add: unat_word_ariths)
qed

lemma unat_checksum_fold: "unat (checksum_fold acc) = norm16 (unat acc)"
proof (induction acc rule: checksum_fold.induct)
  case (1 acc)
  show ?case
  proof (cases "acc > 0xFFFF")
    case True
    then have "65535 < unat acc" by (simp add: word_less_nat_alt)
    with True 1 show ?thesis
      by (subst checksum_fold.simps) (simp add: unat_fold_step norm16_unfold)
  next
    case False
    then have "unat acc \<le> 65535" by (simp add: word_less_nat_alt)
    with False show ?thesis by (subst checksum_fold.simps) (simp add: norm16_small)
  qed
qed

lemma unat_checksum_ucast: "unat (ucast (checksum_fold acc) :: u16) = norm16 (unat acc)"
  by (simp add: unsigned_ucast_eq take_bit_nat_eq_self_iff unat_checksum_fold)

section \<open>The checksum is RFC 1071's\<close>

definition rfc1071 :: "byte list \<Rightarrow> u16" where
  "rfc1071 b = of_nat (norm16 (words16_sum b))"

lemma unat_rfc1071: "unat (rfc1071 b) = norm16 (words16_sum b)"
  by (simp add: rfc1071_def unat_of_nat)

lemma unat_checksum:
  assumes "unat initial + 2 ^ 30 * length b < 2 ^ 64"
  shows "unat (checksum b initial) = norm16 (unat initial + words16_sum b)"
proof -
  have "unat (checksum b initial) = norm16 (unat initial + acc_sum b)"
    by (simp add: checksum_def unat_checksum_ucast unat_checksum_no_overflow [OF assms])
  also have "\<dots> = norm16 (unat initial + words16_sum b)"
    by (rule norm16_cong) (auto simp: acc_sum_eq_0 intro: mod_add_cong acc_sum_cong)
  finally show ?thesis .
qed

lemma words16_sum_append: "even (length xs) \<Longrightarrow> words16_sum (xs @ ys) = words16_sum xs + words16_sum ys"
  by (induction xs rule: words16_sum.induct) simp_all

lemma words16_sum_to_be16 [simp]: "words16_sum (to_be16 w) = unat w"
proof -
  have "256 * unat (ucast (drop_bit 8 w) :: byte) + unat (ucast w :: byte) = unat w"
    using unat_be16 [of "ucast (drop_bit 8 w)" "ucast w"] by simp
  then show ?thesis by (simp add: to_be16_def)
qed

definition pseudo_header :: "byte \<Rightarrow> byte list \<Rightarrow> byte list \<Rightarrow> u16 \<Rightarrow> byte list" where
  "pseudo_header protocol src dst len = src @ dst @ [0, protocol] @ to_be16 len"

lemma unat_pseudo_header_checksum:
  assumes "length src \<le> 16" "length dst \<le> 16"
  shows "unat (pseudo_header_checksum_no_fold protocol src dst len)
    = acc_sum src + acc_sum dst + acc_sum ([0, protocol] @ to_be16 len)"
    and "unat (pseudo_header_checksum_no_fold protocol src dst len) \<le> 2 ^ 36"
proof -
  let ?t = "[0, protocol] @ to_be16 len"
  have b: "acc_sum src \<le> 2 ^ 34" "acc_sum dst \<le> 2 ^ 34" "acc_sum ?t \<le> 2 ^ 32"
    using acc_sum_bound [of src] acc_sum_bound [of dst] acc_sum_bound [of ?t] assms by simp_all
  have 1: "unat (checksum_no_fold_scalar src 0) = acc_sum src"
    using unat_checksum_no_overflow [of 0 src] assms by simp
  have 2: "unat (checksum_no_fold_scalar dst (checksum_no_fold_scalar src 0)) = acc_sum src + acc_sum dst"
    using unat_checksum_no_overflow [of "checksum_no_fold_scalar src 0" dst] assms b 1 by simp
  have 3: "unat (checksum_no_fold_scalar ?t (checksum_no_fold_scalar dst (checksum_no_fold_scalar src 0)))
      = acc_sum src + acc_sum dst + acc_sum ?t"
    using unat_checksum_no_overflow [of "checksum_no_fold_scalar dst (checksum_no_fold_scalar src 0)" ?t] b 2
    by simp
  show "unat (pseudo_header_checksum_no_fold protocol src dst len) = acc_sum src + acc_sum dst + acc_sum ?t"
    using 3 by (simp add: pseudo_header_checksum_no_fold_def Let_def)
  then show "unat (pseudo_header_checksum_no_fold protocol src dst len) \<le> 2 ^ 36"
    using b by simp
qed

lemma pseudo_header_checksum_cong:
  assumes "length src \<le> 16" "length dst \<le> 16" "even (length src)" "even (length dst)"
  shows "unat (pseudo_header_checksum_no_fold protocol src dst len) mod 65535
      = words16_sum (pseudo_header protocol src dst len) mod 65535"
    and "unat (pseudo_header_checksum_no_fold protocol src dst len) = 0
      \<longleftrightarrow> words16_sum (pseudo_header protocol src dst len) = 0"
proof -
  let ?t = "[0, protocol] @ to_be16 len"
  have eq: "words16_sum (pseudo_header protocol src dst len)
      = words16_sum src + words16_sum dst + words16_sum ?t"
    using assms by (simp add: pseudo_header_def words16_sum_append del: words16_sum.simps)
  note sum = unat_pseudo_header_checksum(1) [OF assms(1,2), of protocol len]
  show "unat (pseudo_header_checksum_no_fold protocol src dst len) mod 65535
      = words16_sum (pseudo_header protocol src dst len) mod 65535"
    unfolding eq sum by (intro mod_add_cong acc_sum_cong)
  show "unat (pseudo_header_checksum_no_fold protocol src dst len) = 0
      \<longleftrightarrow> words16_sum (pseudo_header protocol src dst len) = 0"
    unfolding eq sum by (simp add: acc_sum_eq_0)
qed

text \<open>With a pseudo-header as the initial value, the checksum covers both.\<close>

lemma checksum_with_pseudo_header:
  assumes "length src \<le> 16" "length dst \<le> 16" "even (length src)" "even (length dst)"
    and "length b < 2 ^ 32"
  shows "checksum b (pseudo_header_checksum_no_fold protocol src dst len)
    = rfc1071 (pseudo_header protocol src dst len @ b)"
proof -
  let ?p = "pseudo_header_checksum_no_fold protocol src dst len"
  let ?h = "pseudo_header protocol src dst len"
  have "unat ?p + 2 ^ 30 * length b < 2 ^ 64"
    using unat_pseudo_header_checksum(2) [OF assms(1,2), of protocol len] assms(5) by simp
  then have "unat (checksum b ?p) = norm16 (unat ?p + words16_sum b)" by (rule unat_checksum)
  also have "\<dots> = norm16 (words16_sum ?h + words16_sum b)"
    using pseudo_header_checksum_cong [OF assms(1-4), of protocol len]
    by (intro norm16_cong) (auto intro: mod_add_cong)
  also have "\<dots> = unat (rfc1071 (?h @ b))"
    using assms by (simp add: unat_rfc1071 words16_sum_append pseudo_header_def add.assoc)
  finally show ?thesis by (simp add: word_unat_eq_iff)
qed

section \<open>Inserting the complement makes a checksum valid\<close>

lemma unat_NOT_u16: "unat (NOT (w :: u16)) = 65535 - unat w"
proof -
  have "NOT w = 65535 - w" by (simp add: not_eq_complement)
  moreover have "w \<le> 65535" using unat_u16_bound [of w] by (simp add: word_le_nat_alt)
  ultimately show ?thesis by (simp add: unat_sub)
qed

lemma norm16_complement: "norm16 (s + (65535 - norm16 s)) = 65535"
proof (cases "s = 0")
  case False
  define q where "q = (s - 1) div 65535"
  have "s = 65535 * q + norm16 s"
    using False by (simp add: norm16_def q_def)
  then have "s + (65535 - norm16 s) = 65535 * Suc q"
    using norm16_le [of s] by simp
  moreover have "norm16 (65535 * Suc q) = 65535"
  proof -
    have "65535 * Suc q - 1 = 65534 + 65535 * q" by simp
    then show ?thesis by (simp add: norm16_def)
  qed
  ultimately show ?thesis by simp
qed (simp add: norm16_def)

lemma words16_sum_write:
  assumes "even at" "at + 2 \<le> length xs" "subslice at (at + 2) xs = [0, 0]"
  shows "words16_sum (write_u16 xs at w) = words16_sum xs + unat w"
proof -
  have xs: "xs = take at xs @ [0, 0] @ drop (at + 2) xs"
    using assms(3) by (metis subslice_def add_diff_cancel_left' append_take_drop_id drop_drop add.commute)
  have "words16_sum (write_u16 xs at w) = words16_sum (take at xs) + (unat w + words16_sum (drop (at + 2) xs))"
    using assms by (simp add: write_u16_def blit_def words16_sum_append min_def)
  moreover have "words16_sum xs = words16_sum (take at xs) + words16_sum (drop (at + 2) xs)"
    using assms by (subst xs) (simp add: words16_sum_append min_def)
  ultimately show ?thesis by simp
qed

lemma checksum_complement_valid:
  assumes "even at" "at + 2 \<le> length xs" "subslice at (at + 2) xs = [0, 0]"
    and "unat initial + 2 ^ 30 * length xs < 2 ^ 64"
  shows "NOT (checksum (write_u16 xs at (NOT (checksum xs initial))) initial) = 0"
proof -
  let ?c = "NOT (checksum xs initial)"
  have "unat (checksum (write_u16 xs at ?c) initial) = norm16 (unat initial + words16_sum (write_u16 xs at ?c))"
    using assms by (intro unat_checksum) simp
  also have "\<dots> = norm16 ((unat initial + words16_sum xs) + (65535 - norm16 (unat initial + words16_sum xs)))"
    using assms by (simp add: words16_sum_write unat_NOT_u16 unat_checksum add.assoc)
  also have "\<dots> = 65535" by (rule norm16_complement)
  finally have "checksum (write_u16 xs at ?c) initial = 65535"
    by (simp add: word_unat_eq_iff)
  then show ?thesis by simp
qed

section \<open>Properties\<close>

text \<open>
  C1. Whatever vector extension the CPU reports, the dispatch computes what the scalar loop
  computes, for every input and every initial value, overflow of the accumulator included.
\<close>

theorem checksum_no_fold_on_eq:
  "checksum_no_fold_on cpu b initial = checksum_no_fold_scalar b initial"
  by (simp add: checksum_no_fold_on_def avx2_eq_scalar sse41_eq_scalar)

text \<open>
  C2. The checksum of a segment with a pseudo-header as the initial value is RFC 1071's one's
  complement sum of the 16-bit words of pseudo-header and segment together.
\<close>

theorem checksum_is_rfc1071:
  assumes "length src \<le> 16" "length dst \<le> 16" "even (length src)" "even (length dst)"
    and "length b < 2 ^ 32"
  shows "checksum b (pseudo_header_checksum_no_fold protocol src dst len)
    = rfc1071 (pseudo_header protocol src dst len @ b)"
  using assms by (rule checksum_with_pseudo_header)

theorem checksum_is_rfc1071_witness:
  "checksum [1, 2, 3] (pseudo_header_checksum_no_fold 17 [10, 0, 0, 1] [10, 0, 0, 2] 3)
    = rfc1071 (pseudo_header 17 [10, 0, 0, 1] [10, 0, 0, 2] 3 @ [1, 2, 3])"
  by (rule checksum_is_rfc1071) simp_all

text \<open>
  Writing the complement of the checksum into a zeroed 16-bit field at an even offset makes the
  region verify: the complement of its checksum is then zero, which is the receiver's test.
\<close>

theorem checksum_insert_verifies:
  assumes "even at" "at + 2 \<le> length xs" "subslice at (at + 2) xs = [0, 0]"
    and "unat initial + 2 ^ 30 * length xs < 2 ^ 64"
  shows "NOT (checksum (write_u16 xs at (NOT (checksum xs initial))) initial) = 0"
  using assms by (rule checksum_complement_valid)

theorem checksum_insert_verifies_witness:
  "NOT (checksum (write_u16 [1, 2, 0, 0, 5] 2 (NOT (checksum [1, 2, 0, 0, 5] 7))) 7) = (0 :: u16)"
  by (rule checksum_insert_verifies) (simp_all add: subslice_def)

end
