(* ===== verification/GroCoalesce.thy ===== *)
theory GroCoalesce
  imports GroTables Checksum
begin

text \<open>
  Merging one packet into another (\<open>src/platform/linux/offload.rs\<close>): whether two packets can be
  merged (\<open>ip_headers_can_coalesce\<close>, \<open>tcp_packets_can_coalesce\<close>, \<open>udp_packets_can_coalesce\<close>), whether a
  checksum is valid, and the merge itself (\<open>coalesce_tcp_packets\<close>, \<open>coalesce_udp_packets\<close>).
\<close>

section \<open>Whether two packets can be merged\<close>

datatype can_coalesce = Prepend | Unavailable | Append

definition ip_headers_can_coalesce :: "byte list \<Rightarrow> byte list \<Rightarrow> bool" where
  "ip_headers_can_coalesce pkt_a pkt_b =
     (if length pkt_a < 9 \<or> length pkt_b < 9 then False
      else if drop_bit 4 (pkt_a ! 0) = 6 then
        (if pkt_a ! 0 \<noteq> pkt_b ! 0 \<or> drop_bit 4 (pkt_a ! 1) \<noteq> drop_bit 4 (pkt_b ! 1) then False
         else if pkt_a ! 7 \<noteq> pkt_b ! 7 then False
         else True)
      else if pkt_a ! 1 \<noteq> pkt_b ! 1 then False
      else if drop_bit 5 (pkt_a ! 6) \<noteq> drop_bit 5 (pkt_b ! 6) then False
      else if pkt_a ! 8 \<noteq> pkt_b ! 8 then False
      else True)"

text \<open>\<open>&bufs[index].as_ref()[offset..]\<close>.\<close>

definition packet_at :: "gbuf list \<Rightarrow> nat \<Rightarrow> nat \<Rightarrow> byte list res" where
  "packet_at bufs index offset =
     ensure (index < length bufs \<and> offset \<le> length (buf_bytes (bufs ! index)))
       (Ok (drop offset (buf_bytes (bufs ! index))))"

definition udp_packets_can_coalesce :: "byte list \<Rightarrow> byte \<Rightarrow> u16 \<Rightarrow> UdpGROItem \<Rightarrow> gbuf list \<Rightarrow> nat
    \<Rightarrow> can_coalesce res" where
  "udp_packets_can_coalesce pkt iph_len gso_sz item bufs bufs_offset =
     bind_res (packet_at bufs (unat (ui_bufs_index item)) bufs_offset) (\<lambda>pkt_target.
       if \<not> ip_headers_can_coalesce pkt pkt_target then Ok Unavailable
       else ensure (unat iph_len + UDP_H_LEN \<le> length pkt_target \<and> ui_gso_size item \<noteq> 0)
         (if length (drop (unat iph_len + UDP_H_LEN) pkt_target) mod unat (ui_gso_size item) \<noteq> 0 then
            Ok Unavailable
          else if gso_sz > ui_gso_size item then Ok Unavailable
          else Ok Append))"

definition tcp_packets_can_coalesce :: "byte list \<Rightarrow> byte \<Rightarrow> byte \<Rightarrow> u32 \<Rightarrow> bool \<Rightarrow> u16 \<Rightarrow> TcpGROItem
    \<Rightarrow> gbuf list \<Rightarrow> nat \<Rightarrow> can_coalesce res" where
  "tcp_packets_can_coalesce pkt iph_len tcph_len seq psh_set gso_sz item bufs bufs_offset =
     bind_res (packet_at bufs (unat (ti_bufs_index item)) bufs_offset) (\<lambda>pkt_target.
       if tcph_len \<noteq> ti_tcph_len item then Ok Unavailable
       else ensure (tcph_len > 20 \<longrightarrow> unat iph_len + unat tcph_len \<le> length pkt
             \<and> unat (ti_iph_len item) + unat tcph_len \<le> length pkt_target)
        (if tcph_len > 20
            \<and> subslice (unat iph_len + 20) (unat iph_len + unat tcph_len) pkt
              \<noteq> subslice (unat (ti_iph_len item) + 20) (unat (ti_iph_len item) + unat tcph_len) pkt_target
         then Ok Unavailable
         else if \<not> ip_headers_can_coalesce pkt pkt_target then Ok Unavailable
         else
           let lhs_len = unat (ti_gso_size item) + unat (ti_num_merged item) * unat (ti_gso_size item)
           in if seq = ti_sent_seq item + of_nat lhs_len then
                if ti_psh_set item then Ok Unavailable
                else ensure (unat iph_len + unat tcph_len \<le> length pkt_target \<and> ti_gso_size item \<noteq> 0)
                  (if length (drop (unat iph_len + unat tcph_len) pkt_target) mod unat (ti_gso_size item) \<noteq> 0 then
                     Ok Unavailable
                   else if gso_sz > ti_gso_size item then Ok Unavailable
                   else Ok Append)
              else if seq + ucast gso_sz = ti_sent_seq item then
                if psh_set then Ok Unavailable
                else if gso_sz < ti_gso_size item then Ok Unavailable
                else if gso_sz > ti_gso_size item \<and> ti_num_merged item > 0 then Ok Unavailable
                else Ok Prepend
              else Ok Unavailable))"

section \<open>Whether a checksum is valid\<close>

definition saturating_sub_u16 :: "u16 \<Rightarrow> u16 \<Rightarrow> u16" where
  "saturating_sub_u16 a b = (if a < b then 0 else a - b)"

definition checksum_valid :: "byte list \<Rightarrow> byte \<Rightarrow> byte \<Rightarrow> bool \<Rightarrow> bool res" where
  "checksum_valid pkt iph_len proto is_v6 =
     (let (src_addr_at, addr_size) =
           (if is_v6 then (IPV6_SRC_ADDR_OFFSET, 16) else (IPV4_SRC_ADDR_OFFSET, 4));
          len_for_pseudo = saturating_sub_u16 (of_nat (length pkt)) (ucast iph_len)
      in ensure (src_addr_at + addr_size * 2 \<le> length pkt \<and> unat iph_len \<le> length pkt)
          (let c_sum = pseudo_header_checksum_no_fold proto
                 (subslice src_addr_at (src_addr_at + addr_size) pkt)
                 (subslice (src_addr_at + addr_size) (src_addr_at + addr_size * 2) pkt)
                 len_for_pseudo
           in Ok (NOT (checksum (drop (unat iph_len) pkt) c_sum) = 0)))"

section \<open>The merge\<close>

datatype coalesce_result = InsufficientCap | PSHEnding | ItemInvalidCSum | PktInvalidCSum | Success

definition coalesce_udp_packets :: "byte list \<Rightarrow> UdpGROItem \<Rightarrow> gbuf list \<Rightarrow> nat \<Rightarrow> bool
    \<Rightarrow> (coalesce_result \<times> UdpGROItem \<times> gbuf list) res" where
  "coalesce_udp_packets pkt item bufs bufs_offset is_v6 =
     (let index = unat (ui_bufs_index item);
          headers_len = unat (ui_iph_len item) + UDP_H_LEN
      in bind_res (packet_at bufs index bufs_offset) (\<lambda>pkt_head.
       ensure (headers_len \<le> length pkt_head + length pkt)
        (let coalesced_len = length pkt_head + length pkt - headers_len
         in if buf_capacity (bufs ! index) < bufs_offset * 2 + coalesced_len then
              Ok (InsufficientCap, item, bufs)
            else
              bind_res (if ui_num_merged item = 0 then
                  (if ui_c_sum_known_invalid item then Ok False
                   else checksum_valid pkt_head (ui_iph_len item) IPPROTO_UDP is_v6)
                else Ok True) (\<lambda>item_valid.
              if \<not> item_valid then Ok (ItemInvalidCSum, item, bufs)
              else bind_res (checksum_valid pkt (ui_iph_len item) IPPROTO_UDP is_v6) (\<lambda>pkt_valid.
                if \<not> pkt_valid then Ok (PktInvalidCSum, item, bufs)
                else ensure (headers_len \<le> length pkt)
                  (Ok (Success, item\<lparr>ui_num_merged := ui_num_merged item + 1\<rparr>,
                     bufs[index := buf_extend_from_slice (bufs ! index) (drop headers_len pkt)])))))))"

text \<open>The end of both branches of \<open>coalesce_tcp_packets\<close>.\<close>

definition tcp_merged_item :: "u16 \<Rightarrow> TcpGROItem \<Rightarrow> TcpGROItem" where
  "tcp_merged_item gso_sz item =
     (let item = (if gso_sz > ti_gso_size item then item\<lparr>ti_gso_size := gso_sz\<rparr> else item)
      in item\<lparr>ti_num_merged := ti_num_merged item + 1\<rparr>)"

definition coalesce_tcp_packets :: "can_coalesce \<Rightarrow> byte list \<Rightarrow> nat \<Rightarrow> u16 \<Rightarrow> u32 \<Rightarrow> bool \<Rightarrow> TcpGROItem
    \<Rightarrow> gbuf list \<Rightarrow> nat \<Rightarrow> bool \<Rightarrow> (coalesce_result \<times> TcpGROItem \<times> gbuf list) res" where
  "coalesce_tcp_packets mode pkt pkt_bufs_index gso_sz seq psh_set item bufs bufs_offset is_v6 =
     (let index = unat (ti_bufs_index item);
          headers_len = unat (ti_iph_len item + ti_tcph_len item)
      in bind_res (packet_at bufs index bufs_offset) (\<lambda>target.
       ensure (headers_len \<le> length target + length pkt)
        (let coalesced_len = length target + length pkt - headers_len;
             item_valid = (if ti_num_merged item = 0
               then checksum_valid target (ti_iph_len item) IPPROTO_TCP is_v6 else Ok True);
             pkt_valid = checksum_valid pkt (ti_iph_len item) IPPROTO_TCP is_v6
         in if mode = Prepend then
              ensure (pkt_bufs_index < length bufs)
               (if buf_capacity (bufs ! pkt_bufs_index) < 2 * bufs_offset + coalesced_len then
                  Ok (InsufficientCap, item, bufs)
                else if psh_set then Ok (PSHEnding, item, bufs)
                else bind_res item_valid (\<lambda>v. if \<not> v then Ok (ItemInvalidCSum, item, bufs)
                else bind_res pkt_valid (\<lambda>v. if \<not> v then Ok (PktInvalidCSum, item, bufs)
                else ensure (length pkt \<le> coalesced_len)
                 (let item = item\<lparr>ti_sent_seq := seq\<rparr>;
                      extend_by = coalesced_len - length pkt;
                      len = length (buf_bytes (bufs ! pkt_bufs_index));
                      bufs = bufs[pkt_bufs_index := buf_resize (bufs ! pkt_bufs_index) (len + extend_by) 0]
                  in ensure (bufs_offset + headers_len + extend_by \<le> length (buf_bytes (bufs ! index))
                        \<and> bufs_offset + length pkt + extend_by \<le> length (buf_bytes (bufs ! pkt_bufs_index)))
                      (let src = subslice (bufs_offset + headers_len) (bufs_offset + headers_len + extend_by)
                             (buf_bytes (bufs ! index));
                           front = (bufs ! pkt_bufs_index)\<lparr>buf_bytes :=
                             blit (buf_bytes (bufs ! pkt_bufs_index)) (bufs_offset + length pkt) src\<rparr>;
                           bufs = bufs[pkt_bufs_index := front];
                           bufs = bufs[index := bufs ! pkt_bufs_index, pkt_bufs_index := bufs ! index]
                       in Ok (Success, tcp_merged_item gso_sz item, bufs))))))
            else
              if buf_capacity (bufs ! index) < 2 * bufs_offset + coalesced_len then
                Ok (InsufficientCap, item, bufs)
              else bind_res item_valid (\<lambda>v. if \<not> v then Ok (ItemInvalidCSum, item, bufs)
              else bind_res pkt_valid (\<lambda>v. if \<not> v then Ok (PktInvalidCSum, item, bufs)
              else
                let at = bufs_offset + unat (ti_iph_len item) + TCP_FLAGS_OFFSET;
                    bytes = buf_bytes (bufs ! index)
                in ensure ((psh_set \<longrightarrow> at < length bytes) \<and> headers_len \<le> length pkt)
                  (let item = (if psh_set then item\<lparr>ti_psh_set := psh_set\<rparr> else item);
                       bytes = (if psh_set then bytes[at := bytes ! at OR TCP_FLAG_PSH] else bytes);
                       target = (bufs ! index)\<lparr>buf_bytes := bytes\<rparr>
                   in Ok (Success, tcp_merged_item gso_sz item,
                        bufs[index := buf_extend_from_slice target (drop headers_len pkt)])))))))"

end
