(* ===== verification/Gro.thy ===== *)
theory Gro
  imports GroCoalesce
begin

text \<open>
  Generic receive offload (\<open>src/platform/linux/offload.rs\<close>): \<open>tcp_gro\<close> and \<open>udp_gro\<close> treat one
  packet, \<open>apply_tcp_coalesce_accounting\<close> and \<open>apply_udp_coalesce_accounting\<close> write the headers of
  the merged packets, \<open>packet_is_gro_candidate\<close> classifies, \<open>handle_gro\<close> and \<open>GROTable::apply_gro\<close>
  treat a batch.
\<close>

datatype gro_result = Noop | TableInsert | Coalesced

section \<open>TCP\<close>

text \<open>What \<open>tcp_gro\<close> knows of the packet once its checks are passed.\<close>

record tcp_packet =
  tp_bytes :: "byte list"
  tp_iph_len :: nat
  tp_tcph_len :: nat
  tp_psh_set :: bool
  tp_gso_size :: u16
  tp_seq :: u32

text \<open>A fragment: the flag, or an offset.\<close>

definition ipv4_fragment :: "byte list \<Rightarrow> bool" where
  "ipv4_fragment pkt \<longleftrightarrow>
     pkt ! 6 AND IPV4_FLAG_MORE_FRAGMENTS \<noteq> 0 \<or> push_bit 3 (pkt ! 6) \<noteq> 0 \<or> pkt ! 7 \<noteq> 0"

text \<open>The checks of \<open>tcp_gro\<close>, in order; \<open>None\<close> is the early return of \<open>Noop\<close>.\<close>

definition tcp_gro_check :: "byte list \<Rightarrow> bool \<Rightarrow> tcp_packet option res" where
  "tcp_gro_check pkt is_v6 =
     (if length pkt > 65535 then Ok None
      else ensure (0 < length pkt)
       (let iph_len = (if is_v6 then 40 else unat ((pkt ! 0 AND 0x0F) * 4))
        in ensure (if is_v6 then 6 \<le> length pkt \<and> iph_len \<le> length pkt else 4 \<le> length pkt)
         (if is_v6 \<and> unat (read_u16 pkt 4) \<noteq> length pkt - iph_len then Ok None
          else if \<not> is_v6 \<and> unat (read_u16 pkt 2) \<noteq> length pkt then Ok None
          else if length pkt < iph_len then Ok None
          else if length pkt < iph_len + TCP_FLAGS_OFFSET + 1 then Ok None
          else
            let tcph_len = unat (drop_bit 4 (pkt ! (iph_len + 12)) * 4)
            in if \<not> (20 \<le> tcph_len \<and> tcph_len \<le> 60) then Ok None
               else if length pkt < iph_len + tcph_len then Ok None
               else if \<not> is_v6 \<and> ipv4_fragment pkt then Ok None
               else
                 let tcp_flags = pkt ! (iph_len + TCP_FLAGS_OFFSET)
                 in if tcp_flags \<noteq> TCP_FLAG_ACK \<and> tcp_flags \<noteq> TCP_FLAG_ACK OR TCP_FLAG_PSH then Ok None
                    else
                      let gso_sz = of_nat (length pkt - tcph_len - iph_len)
                      in if gso_sz < (1 :: u16) then Ok None
                         else Ok (Some \<lparr>tp_bytes = pkt, tp_iph_len = iph_len, tp_tcph_len = tcph_len,
                                tp_psh_set = (tcp_flags \<noteq> TCP_FLAG_ACK), tp_gso_size = gso_sz,
                                tp_seq = read_u32 pkt (iph_len + 4)\<rparr>))))"

text \<open>
  The loop over the items of the flow, from the last to the first: the number given is that of the
  items not yet visited.  \<open>Some\<close> is a \<open>return\<close> from inside the loop.
\<close>

fun tcp_gro_loop :: "tcp_packet \<Rightarrow> nat \<Rightarrow> nat \<Rightarrow> bool \<Rightarrow> nat \<Rightarrow> TcpGROItem list \<Rightarrow> gbuf list
    \<Rightarrow> (gro_result option \<times> TcpGROItem list \<times> gbuf list) res" where
  "tcp_gro_loop p pkt_i offset is_v6 0 items bufs = Ok (None, items, bufs)"
| "tcp_gro_loop p pkt_i offset is_v6 (Suc i) items bufs =
     (let item = items ! i in
      bind_res (tcp_packets_can_coalesce (tp_bytes p) (of_nat (tp_iph_len p)) (of_nat (tp_tcph_len p))
          (tp_seq p) (tp_psh_set p) (tp_gso_size p) item bufs offset) (\<lambda>can.
      if can = Unavailable then tcp_gro_loop p pkt_i offset is_v6 i items bufs
      else bind_res (coalesce_tcp_packets can (tp_bytes p) pkt_i (tp_gso_size p) (tp_seq p) (tp_psh_set p)
             item bufs offset is_v6) (\<lambda>(result, item, bufs).
        case result of
          Success \<Rightarrow> Ok (Some Coalesced, items[i := item], bufs)
        | ItemInvalidCSum \<Rightarrow>
            let index = unat (ti_bufs_index item);
                bytes = buf_bytes (bufs ! index)
            in ensure (index < length bufs \<and> VIRTIO_NET_HDR_LEN \<le> offset \<and> offset \<le> length bytes)
                (tcp_gro_loop p pkt_i offset is_v6 i (take i items @ drop (Suc i) items)
                   (bufs[index := (bufs ! index)\<lparr>buf_bytes :=
                      blit bytes (offset - VIRTIO_NET_HDR_LEN) (replicate VIRTIO_NET_HDR_LEN 0)\<rparr>]))
        | PktInvalidCSum \<Rightarrow> Ok (Some Noop, items[i := item], bufs)
        | _ \<Rightarrow> tcp_gro_loop p pkt_i offset is_v6 i (items[i := item]) bufs)))"

definition tcp_gro :: "gbuf list \<Rightarrow> nat \<Rightarrow> nat \<Rightarrow> TcpGROTable \<Rightarrow> bool
    \<Rightarrow> (gro_result \<times> gbuf list \<times> TcpGROTable) res" where
  "tcp_gro bufs offset pkt_i table is_v6 =
     bind_res (packet_at bufs pkt_i offset) (\<lambda>pkt.
     bind_res (tcp_gro_check pkt is_v6) (\<lambda>checked.
       case checked of
         None \<Rightarrow> Ok (Noop, bufs, table)
       | Some p \<Rightarrow>
           let (src_addr_offset, addr_len) =
                 (if is_v6 then (IPV6_SRC_ADDR_OFFSET, 16) else (IPV4_SRC_ADDR_OFFSET, 4))
           in bind_res (tcp_lookup_or_insert pkt src_addr_offset (src_addr_offset + addr_len)
                 (tp_iph_len p) (tp_tcph_len p) pkt_i table) (\<lambda>(found, table).
              case found of
                None \<Rightarrow> Ok (TableInsert, bufs, table)
              | Some (key, items) \<Rightarrow>
                  bind_res (tcp_gro_loop p pkt_i offset is_v6 (length items) items bufs)
                    (\<lambda>(returned, items, bufs).
                     let table = gro_table_set key items table
                     in case returned of
                          Some r \<Rightarrow> Ok (r, bufs, table)
                        | None \<Rightarrow>
                            bind_res (tcp_table_insert pkt src_addr_offset (src_addr_offset + addr_len)
                                (tp_iph_len p) (tp_tcph_len p) pkt_i table)
                              (\<lambda>table. Ok (TableInsert, bufs, table))))))"

section \<open>UDP\<close>

record udp_packet =
  up_bytes :: "byte list"
  up_iph_len :: nat
  up_gso_size :: u16

definition udp_gro_check :: "byte list \<Rightarrow> bool \<Rightarrow> udp_packet option res" where
  "udp_gro_check pkt is_v6 =
     (if length pkt > 65535 then Ok None
      else ensure (0 < length pkt)
       (let iph_len = (if is_v6 then 40 else unat ((pkt ! 0 AND 0x0F) * 4))
        in ensure (if is_v6 then 6 \<le> length pkt \<and> iph_len \<le> length pkt else 4 \<le> length pkt)
         (if is_v6 \<and> unat (read_u16 pkt 4) \<noteq> length pkt - iph_len then Ok None
          else if \<not> is_v6 \<and> unat (read_u16 pkt 2) \<noteq> length pkt then Ok None
          else if length pkt < iph_len \<or> length pkt < iph_len + UDP_H_LEN then Ok None
          else if \<not> is_v6 \<and> ipv4_fragment pkt then Ok None
          else
            let gso_sz = of_nat (length pkt - UDP_H_LEN - iph_len)
            in if gso_sz < (1 :: u16) then Ok None
               else Ok (Some \<lparr>up_bytes = pkt, up_iph_len = iph_len, up_gso_size = gso_sz\<rparr>))))"

text \<open>Only the last item of the flow is tried, so that its packets are not reordered.\<close>

definition udp_gro :: "gbuf list \<Rightarrow> nat \<Rightarrow> nat \<Rightarrow> UdpGROTable \<Rightarrow> bool
    \<Rightarrow> (gro_result \<times> gbuf list \<times> UdpGROTable) res" where
  "udp_gro bufs offset pkt_i table is_v6 =
     bind_res (packet_at bufs pkt_i offset) (\<lambda>pkt.
     bind_res (udp_gro_check pkt is_v6) (\<lambda>checked.
       case checked of
         None \<Rightarrow> Ok (Noop, bufs, table)
       | Some p \<Rightarrow>
           let (src_addr_offset, addr_len) =
                 (if is_v6 then (IPV6_SRC_ADDR_OFFSET, 16) else (IPV4_SRC_ADDR_OFFSET, 4))
           in bind_res (udp_lookup_or_insert pkt src_addr_offset (src_addr_offset + addr_len)
                 (up_iph_len p) pkt_i table) (\<lambda>(found, table).
              case found of
                None \<Rightarrow> Ok (TableInsert, bufs, table)
              | Some (key, items) \<Rightarrow>
                  ensure (items \<noteq> [])
                   (bind_res (udp_packets_can_coalesce pkt (of_nat (up_iph_len p)) (up_gso_size p)
                       (last items) bufs offset) (\<lambda>can.
                    bind_res (if can = Append
                        then coalesce_udp_packets pkt (last items) bufs offset is_v6
                        else Ok (InsufficientCap, last items, bufs)) (\<lambda>(result, item, bufs).
                    let table = gro_table_set key (butlast items @ [item]) table
                    in if result = Success then Ok (Coalesced, bufs, table)
                       else
                         bind_res (packet_at bufs pkt_i offset) (\<lambda>pkt.
                         bind_res (udp_table_insert pkt src_addr_offset (src_addr_offset + addr_len)
                             (up_iph_len p) pkt_i (result = PktInvalidCSum) table)
                           (\<lambda>table. Ok (TableInsert, bufs, table)))))))))"

section \<open>The headers of merged packets\<close>

text \<open>
  \<open>hdr.encode(&mut buf[offset - VIRTIO_NET_HDR_LEN..])\<close>.
\<close>

definition encode_before :: "VirtioNetHdr \<Rightarrow> nat \<Rightarrow> byte list \<Rightarrow> byte list res" where
  "encode_before hdr offset buf =
     ensure (VIRTIO_NET_HDR_LEN \<le> offset \<and> offset - VIRTIO_NET_HDR_LEN \<le> length buf)
       (bind_res (VirtioNetHdr_encode hdr (drop (offset - VIRTIO_NET_HDR_LEN) buf))
         (\<lambda>tail. Ok (take (offset - VIRTIO_NET_HDR_LEN) buf @ tail)))"

text \<open>
  The IP header of a merged packet: payload length (IPv6), or total length and header checksum.
\<close>

definition merged_ip_header :: "bool \<Rightarrow> byte \<Rightarrow> byte list \<Rightarrow> byte list" where
  "merged_ip_header is_v6 iph_len pkt =
     (let pkt_len = of_nat (length pkt) :: u16
      in if is_v6 then write_u16 pkt 4 (pkt_len - ucast iph_len)
         else
           let pkt = pkt[10 := 0, 11 := 0];
               pkt = write_u16 pkt 2 pkt_len;
               iph_csum = NOT (checksum (take (unat iph_len) pkt) 0)
           in write_u16 pkt 10 iph_csum)"

definition tcp_item_accounting :: "nat \<Rightarrow> TcpGROItem \<Rightarrow> gbuf list \<Rightarrow> gbuf list res" where
  "tcp_item_accounting offset item bufs =
     (let index = unat (ti_bufs_index item);
          buf = buf_bytes (bufs ! index);
          iph_len = ti_iph_len item;
          is_v6 = tk_is_v6 (ti_key item)
      in ensure (index < length bufs)
       (if ti_num_merged item > 0 then
          ensure (offset \<le> length buf)
           (let hdr = \<lparr>flags = VIRTIO_NET_HDR_F_NEEDS_CSUM,
                  gso_type = (if is_v6 then VIRTIO_NET_HDR_GSO_TCPV6 else VIRTIO_NET_HDR_GSO_TCPV4),
                  hdr_len = ucast (iph_len + ti_tcph_len item), gso_size = ti_gso_size item,
                  csum_start = ucast iph_len, csum_offset = 16\<rparr>;
                pkt = drop offset buf;
                pkt_len = of_nat (length pkt) :: u16;
                (addr_len, src_addr_at) =
                  (if is_v6 then (16, IPV6_SRC_ADDR_OFFSET) else (4, IPV4_SRC_ADDR_OFFSET));
                src_addr = subslice src_addr_at (src_addr_at + addr_len) pkt;
                dst_addr = subslice (src_addr_at + addr_len) (src_addr_at + addr_len * 2) pkt
            in ensure (src_addr_at + addr_len * 2 \<le> length pkt \<and> (is_v6 \<or> unat iph_len \<le> length pkt))
              (let pkt = merged_ip_header is_v6 iph_len pkt;
                   buf = take offset buf @ pkt
               in bind_res (encode_before hdr offset buf) (\<lambda>buf.
                  let pkt = drop offset buf;
                      psum = pseudo_header_checksum_no_fold IPPROTO_TCP src_addr dst_addr
                        (pkt_len - ucast iph_len);
                      tcp_csum = checksum [] psum;
                      at = unat (csum_start hdr + csum_offset hdr)
                  in ensure (at + 2 \<le> length pkt)
                      (Ok (bufs[index := (bufs ! index)\<lparr>buf_bytes := take offset buf @ write_u16 pkt at tcp_csum\<rparr>])))))
        else
          bind_res (encode_before VirtioNetHdr_default offset buf)
            (\<lambda>buf. Ok (bufs[index := (bufs ! index)\<lparr>buf_bytes := buf\<rparr>]))))"

definition udp_item_accounting :: "nat \<Rightarrow> UdpGROItem \<Rightarrow> gbuf list \<Rightarrow> gbuf list res" where
  "udp_item_accounting offset item bufs =
     (let index = unat (ui_bufs_index item);
          buf = buf_bytes (bufs ! index);
          iph_len = ui_iph_len item;
          is_v6 = uk_is_v6 (ui_key item)
      in ensure (index < length bufs)
       (if ui_num_merged item > 0 then
          ensure (offset \<le> length buf)
           (let hdr = \<lparr>flags = VIRTIO_NET_HDR_F_NEEDS_CSUM, gso_type = VIRTIO_NET_HDR_GSO_UDP_L4,
                  hdr_len = ucast iph_len + of_nat UDP_H_LEN, gso_size = ui_gso_size item,
                  csum_start = ucast iph_len, csum_offset = 6\<rparr>;
                pkt = drop offset buf;
                pkt_len = of_nat (length pkt) :: u16;
                (addr_len, src_addr_at) =
                  (if is_v6 then (16, IPV6_SRC_ADDR_OFFSET) else (4, IPV4_SRC_ADDR_OFFSET));
                src_addr = subslice src_addr_at (src_addr_at + addr_len) pkt;
                dst_addr = subslice (src_addr_at + addr_len) (src_addr_at + addr_len * 2) pkt
            in ensure (src_addr_at + addr_len * 2 \<le> length pkt \<and> (is_v6 \<or> unat iph_len \<le> length pkt))
              (let pkt = merged_ip_header is_v6 iph_len pkt;
                   buf = take offset buf @ pkt
               in bind_res (encode_before hdr offset buf) (\<lambda>buf.
                  let pkt = drop offset buf
                  in ensure (unat iph_len + 6 \<le> length pkt)
                    (let pkt = write_u16 pkt (unat iph_len + 4) (pkt_len - ucast iph_len);
                         psum = pseudo_header_checksum_no_fold IPPROTO_UDP src_addr dst_addr
                           (pkt_len - ucast iph_len);
                         udp_csum = checksum [] psum;
                         at = unat (csum_start hdr + csum_offset hdr)
                     in ensure (at + 2 \<le> length pkt)
                      (Ok (bufs[index := (bufs ! index)\<lparr>buf_bytes := take offset buf @ write_u16 pkt at udp_csum\<rparr>]))))))
        else
          bind_res (encode_before VirtioNetHdr_default offset buf)
            (\<lambda>buf. Ok (bufs[index := (bufs ! index)\<lparr>buf_bytes := buf\<rparr>]))))"

text \<open>The loop over the items; it stops at the first error.\<close>

fun each_item :: "('i \<Rightarrow> gbuf list \<Rightarrow> gbuf list res) \<Rightarrow> 'i list \<Rightarrow> gbuf list \<Rightarrow> gbuf list res" where
  "each_item f [] bufs = Ok bufs"
| "each_item f (item # items) bufs = bind_res (f item bufs) (each_item f items)"

definition apply_tcp_coalesce_accounting :: "gbuf list \<Rightarrow> nat \<Rightarrow> TcpGROTable \<Rightarrow> gbuf list res" where
  "apply_tcp_coalesce_accounting bufs offset table =
     each_item (tcp_item_accounting offset) (table_items table) bufs"

definition apply_udp_coalesce_accounting :: "gbuf list \<Rightarrow> nat \<Rightarrow> UdpGROTable \<Rightarrow> gbuf list res" where
  "apply_udp_coalesce_accounting bufs offset table =
     each_item (udp_item_accounting offset) (table_items table) bufs"

section \<open>A batch\<close>

datatype gro_candidate_type = NotGRO | Tcp4GRO | Tcp6GRO | Udp4GRO | Udp6GRO

definition packet_is_gro_candidate :: "byte list \<Rightarrow> bool \<Rightarrow> gro_candidate_type" where
  "packet_is_gro_candidate b can_udp_gro =
     (if length b < 28 then NotGRO
      else if drop_bit 4 (b ! 0) = 4 then
        (if b ! 0 AND 0x0F \<noteq> 5 then NotGRO
         else if b ! 9 = 6 \<and> 40 \<le> length b then Tcp4GRO
         else if b ! 9 = 17 \<and> can_udp_gro then Udp4GRO
         else NotGRO)
      else if drop_bit 4 (b ! 0) = 6 then
        (if b ! 6 = 6 \<and> 60 \<le> length b then Tcp6GRO
         else if b ! 6 = 17 \<and> 48 \<le> length b \<and> can_udp_gro then Udp6GRO
         else NotGRO)
      else NotGRO)"

text \<open>The state of the loop of \<open>handle_gro\<close>.\<close>

record gro_state =
  gs_bufs :: "gbuf list"
  gs_tcp :: TcpGROTable
  gs_udp :: UdpGROTable
  gs_to_write :: "nat list"

text \<open>One pass: packet \<open>i\<close>.\<close>

definition handle_gro_packet :: "nat \<Rightarrow> bool \<Rightarrow> nat \<Rightarrow> gro_state \<Rightarrow> gro_state res" where
  "handle_gro_packet offset can_udp_gro i s =
     (let bytes = buf_bytes (gs_bufs s ! i)
      in if offset < VIRTIO_NET_HDR_LEN \<or> offset \<ge> length bytes then invalid_input ''invalid offset''
      else
        let tcp = (\<lambda>v6. bind_res (tcp_gro (gs_bufs s) offset i (gs_tcp s) v6)
              (\<lambda>(r, bufs, t). Ok (r, s\<lparr>gs_bufs := bufs, gs_tcp := t\<rparr>)));
            udp = (\<lambda>v6. bind_res (udp_gro (gs_bufs s) offset i (gs_udp s) v6)
              (\<lambda>(r, bufs, t). Ok (r, s\<lparr>gs_bufs := bufs, gs_udp := t\<rparr>)))
        in bind_res (case packet_is_gro_candidate (drop offset bytes) can_udp_gro of
               Tcp4GRO \<Rightarrow> tcp False | Tcp6GRO \<Rightarrow> tcp True
             | Udp4GRO \<Rightarrow> udp False | Udp6GRO \<Rightarrow> udp True
             | NotGRO \<Rightarrow> Ok (Noop, s)) (\<lambda>(result, s).
           case result of
             Noop \<Rightarrow>
               let bytes = buf_bytes (gs_bufs s ! i)
               in ensure (offset \<le> length bytes)
                 (bind_res (VirtioNetHdr_encode VirtioNetHdr_default
                     (subslice (offset - VIRTIO_NET_HDR_LEN) offset bytes)) (\<lambda>hdr.
                  Ok (s\<lparr>gs_bufs := (gs_bufs s)[i := (gs_bufs s ! i)\<lparr>buf_bytes :=
                           blit bytes (offset - VIRTIO_NET_HDR_LEN) hdr\<rparr>],
                        gs_to_write := gs_to_write s @ [i]\<rparr>)))
           | TableInsert \<Rightarrow> Ok (s\<lparr>gs_to_write := gs_to_write s @ [i]\<rparr>)
           | Coalesced \<Rightarrow> Ok s))"

fun handle_gro_loop :: "nat \<Rightarrow> bool \<Rightarrow> nat list \<Rightarrow> gro_state \<Rightarrow> gro_state res" where
  "handle_gro_loop offset can_udp_gro [] s = Ok s"
| "handle_gro_loop offset can_udp_gro (i # is) s =
     bind_res (handle_gro_packet offset can_udp_gro i s) (handle_gro_loop offset can_udp_gro is)"

text \<open>
  The code makes both accountings before it looks at their results.  Here the UDP one is left out
  when the TCP one fails, which by \<open>apply_gro_total\<close> does not happen.
\<close>

definition handle_gro :: "nat \<Rightarrow> bool \<Rightarrow> gro_state \<Rightarrow> gro_state res" where
  "handle_gro offset can_udp_gro s =
     (if length (gs_bufs s) > 65535 then invalid_input ''too many packet buffers''
      else bind_res (handle_gro_loop offset can_udp_gro [0..<length (gs_bufs s)] s) (\<lambda>s.
        bind_res (apply_tcp_coalesce_accounting (gs_bufs s) offset (gs_tcp s)) (\<lambda>bufs.
        bind_res (apply_udp_coalesce_accounting bufs offset (gs_udp s)) (\<lambda>bufs.
          Ok (s\<lparr>gs_bufs := bufs\<rparr>)))))"

text \<open>\<open>GROTable\<close>: its three parts; \<open>new\<close>, \<open>reset\<close> and \<open>apply_gro\<close>.\<close>

record GROTable =
  gt_to_write :: "nat list"
  gt_tcp_gro_table :: TcpGROTable
  gt_udp_gro_table :: UdpGROTable

definition GROTable_new :: GROTable where
  "GROTable_new = \<lparr>gt_to_write = [], gt_tcp_gro_table = TcpGROTable_new, gt_udp_gro_table = UdpGROTable_new\<rparr>"

definition GROTable_reset :: "GROTable \<Rightarrow> GROTable" where
  "GROTable_reset g = \<lparr>gt_to_write = [], gt_tcp_gro_table = TcpGROTable_reset (gt_tcp_gro_table g),
     gt_udp_gro_table = UdpGROTable_reset (gt_udp_gro_table g)\<rparr>"

definition apply_gro :: "GROTable \<Rightarrow> gbuf list \<Rightarrow> nat \<Rightarrow> bool \<Rightarrow> (GROTable \<times> gbuf list) res" where
  "apply_gro g bufs offset can_udp_gro =
     (let g = GROTable_reset g
      in bind_res (handle_gro offset can_udp_gro \<lparr>gs_bufs = bufs, gs_tcp = gt_tcp_gro_table g,
            gs_udp = gt_udp_gro_table g, gs_to_write = gt_to_write g\<rparr>) (\<lambda>s.
         Ok (\<lparr>gt_to_write = gs_to_write s, gt_tcp_gro_table = gs_tcp s, gt_udp_gro_table = gs_udp s\<rparr>,
             gs_bufs s)))"

end
