(* ===== verification/GroInv.thy ===== *)
theory GroInv
  imports Gro "HOL-Library.Multiset"
begin

text \<open>
  The invariant of \<open>handle_gro\<close>: which packets of the batch each buffer holds (\<open>group_ok\<close>), that TCP
  packets in a buffer are consecutive (\<open>consecutive\<close>), and how the buffers partition the packets
  treated so far (\<open>gro_inv\<close>), with one lemma per way a packet can be treated.
\<close>

section \<open>Groups\<close>

text \<open>The payload of input packet \<open>i\<close>, after headers of \<open>h\<close> bytes.\<close>

definition payload :: "gbuf list \<Rightarrow> nat \<Rightarrow> nat \<Rightarrow> nat \<Rightarrow> byte list" where
  "payload bufs0 offset h i = drop (offset + h) (buf_bytes (bufs0 ! i))"

text \<open>
  Buffer \<open>b\<close> at index \<open>j\<close> holds the packets \<open>ps\<close> in order: all but the last have exactly \<open>g\<close> bytes
  of payload, the last at most \<open>g\<close>, so that cutting the payload every \<open>g\<close> bytes gives them back.
\<close>

definition group_ok :: "gbuf list \<Rightarrow> nat \<Rightarrow> nat \<Rightarrow> nat \<Rightarrow> nat \<Rightarrow> nat \<Rightarrow> gbuf \<Rightarrow> nat list \<Rightarrow> bool" where
  "group_ok bufs0 offset h g nm j b ps \<longleftrightarrow>
     ps \<noteq> [] \<and> length ps = nm + 1 \<and> offset + h < length (buf_bytes b) \<and> 0 < g
     \<and> drop (offset + h) (buf_bytes b) = concat (map (payload bufs0 offset h) ps)
     \<and> (\<forall>i \<in> set (butlast ps). length (payload bufs0 offset h i) = g)
     \<and> 0 < length (payload bufs0 offset h (last ps)) \<and> length (payload bufs0 offset h (last ps)) \<le> g
     \<and> (nm = 0 \<longrightarrow> ps = [j] \<and> drop offset (buf_bytes b) = drop offset (buf_bytes (bufs0 ! j)))
     \<and> (\<forall>i \<in> set ps. offset < length (buf_bytes (bufs0 ! i)))"

lemma group_okD:
  assumes "group_ok bufs0 offset h g nm j b ps"
  shows "ps \<noteq> []" "length ps = nm + 1" "offset + h < length (buf_bytes b)" "0 < g"
    "drop (offset + h) (buf_bytes b) = concat (map (payload bufs0 offset h) ps)"
    "nm = 0 \<Longrightarrow> ps = [j]" "nm = 0 \<Longrightarrow> drop offset (buf_bytes b) = drop offset (buf_bytes (bufs0 ! j))"
  using assms by (auto simp: group_ok_def)

lemma group_head_room:
  "group_ok bufs0 offset h g nm j b ps \<Longrightarrow> offset \<le> length (buf_bytes (bufs0 ! hd ps))"
  by (auto simp: group_ok_def intro: less_imp_le)

lemma length_concat_const:
  "(\<forall>i \<in> set ps. length (f i) = g) \<Longrightarrow> length (concat (map f ps)) = length ps * g"
  by (induction ps) auto

lemma group_total:
  assumes "group_ok bufs0 offset h g nm j b ps"
  shows "length (drop (offset + h) (buf_bytes b)) = nm * g + length (payload bufs0 offset h (last ps))"
proof -
  have ps: "ps = butlast ps @ [last ps]" "length (butlast ps) = nm" using assms by (auto simp: group_ok_def)
  have "length (concat (map (payload bufs0 offset h) (butlast ps))) = nm * g"
    using assms ps(2) by (subst length_concat_const) (auto simp: group_ok_def)
  moreover have "drop (offset + h) (buf_bytes b) = concat (map (payload bufs0 offset h) (butlast ps @ [last ps]))"
    using assms ps(1) by (simp add: group_ok_def)
  ultimately show ?thesis by simp
qed

text \<open>A total that is a multiple of \<open>g\<close> has no short packet at the end.\<close>

lemma group_full:
  assumes "group_ok bufs0 offset h g nm j b ps" "length (drop (offset + h) (buf_bytes b)) mod g = 0"
  shows "length (payload bufs0 offset h (last ps)) = g"
    and "length (drop (offset + h) (buf_bytes b)) = (nm + 1) * g"
proof -
  let ?l = "length (payload bufs0 offset h (last ps))"
  have l: "0 < ?l" "?l \<le> g" using assms(1) by (auto simp: group_ok_def)
  have "?l mod g = 0" using assms(2) unfolding group_total [OF assms(1)] by simp
  then show "?l = g" using l by (metis le_neq_implies_less mod_less not_less_zero)
  then show "length (drop (offset + h) (buf_bytes b)) = (nm + 1) * g"
    unfolding group_total [OF assms(1)] by simp
qed

lemma group_append:
  assumes "group_ok bufs0 offset h g nm j b ps" "length (drop (offset + h) (buf_bytes b)) mod g = 0"
    and "drop (offset + h) (buf_bytes b') = drop (offset + h) (buf_bytes b) @ payload bufs0 offset h i"
    and "0 < length (payload bufs0 offset h i)" "length (payload bufs0 offset h i) \<le> g"
    and "offset < length (buf_bytes (bufs0 ! i))"
  shows "group_ok bufs0 offset h g (nm + 1) j b' (ps @ [i])"
proof -
  have all: "\<forall>k \<in> set ps. length (payload bufs0 offset h k) = g"
  proof
    fix k assume "k \<in> set ps"
    then have "k \<in> set (butlast ps) \<or> k = last ps"
      by (metis append_butlast_last_id assms(1) group_okD(1) in_set_conv_decomp rotate1.simps(2) set_ConsD set_rotate1)
    then show "length (payload bufs0 offset h k) = g"
      using assms(1) group_full(1) [OF assms(1,2)] by (auto simp: group_ok_def)
  qed
  have "length (drop (offset + h) (buf_bytes b')) > 0" unfolding assms(3) using assms(4) by simp
  then have "offset + h < length (buf_bytes b')" by simp
  then show ?thesis using assms all by (auto simp: group_ok_def)
qed

lemma group_prepend:
  assumes "group_ok bufs0 offset h g nm j b ps"
    and "drop (offset + h) (buf_bytes b') = payload bufs0 offset h i @ drop (offset + h) (buf_bytes b)"
    and "g' = length (payload bufs0 offset h i)" "g \<le> g'" "g < g' \<Longrightarrow> nm = 0"
    and "offset < length (buf_bytes (bufs0 ! i))"
  shows "group_ok bufs0 offset h g' (nm + 1) j b' (i # ps)"
proof -
  have "length (drop (offset + h) (buf_bytes b')) > 0"
    unfolding assms(2) using group_okD(3) [OF assms(1)] by simp
  then have len: "offset + h < length (buf_bytes b')" by simp
  have "\<forall>k \<in> set (butlast ps). length (payload bufs0 offset h k) = g'"
  proof (cases "nm = 0")
    case True
    then have "butlast ps = []" using group_okD(6) [OF assms(1)] by simp
    then show ?thesis by simp
  next
    case False
    then have "g' = g" using assms(4,5) by (cases "g < g'") simp_all
    then show ?thesis using assms(1) by (simp add: group_ok_def)
  qed
  note full = this
  show ?thesis
    unfolding group_ok_def
  proof (intro conjI)
    show "drop (offset + h) (buf_bytes b') = concat (map (payload bufs0 offset h) (i # ps))"
      using assms(2) group_okD(5) [OF assms(1)] by simp
    show "\<forall>k \<in> set (butlast (i # ps)). length (payload bufs0 offset h k) = g'"
      using full assms(3) [symmetric] by (cases "ps = []") simp_all
    show "\<forall>k \<in> set (i # ps). offset < length (buf_bytes (bufs0 ! k))"
      using assms(1,6) by (auto simp: group_ok_def)
    show "0 < length (payload bufs0 offset h (last (i # ps)))"
      "length (payload bufs0 offset h (last (i # ps))) \<le> g'" "0 < g'"
      using assms(1,4) by (auto simp: group_ok_def)
    show "i # ps \<noteq> []" "length (i # ps) = nm + 1 + 1" "offset + h < length (buf_bytes b')"
      using group_okD(2) [OF assms(1)] len by simp_all
    show "nm + 1 = 0 \<longrightarrow> i # ps = [j] \<and> drop offset (buf_bytes b') = drop offset (buf_bytes (bufs0 ! j))"
      by simp
  qed
qed

section \<open>Consecutive sequence numbers\<close>

fun consecutive :: "(nat \<Rightarrow> u32) \<Rightarrow> (nat \<Rightarrow> nat) \<Rightarrow> nat list \<Rightarrow> bool" where
  "consecutive sq len (i # j # ps) \<longleftrightarrow> sq j = sq i + of_nat (len i) \<and> consecutive sq len (j # ps)"
| "consecutive sq len _ \<longleftrightarrow> True"

lemma consecutive_end:
  "ps \<noteq> [] \<Longrightarrow> consecutive sq len ps \<Longrightarrow>
     sq (last ps) + of_nat (len (last ps)) = sq (hd ps) + of_nat (sum_list (map len ps))"
  by (induction sq len ps rule: consecutive.induct) (auto simp: algebra_simps)

lemma consecutive_append:
  "ps \<noteq> [] \<Longrightarrow> consecutive sq len (ps @ [i]) \<longleftrightarrow>
     consecutive sq len ps \<and> sq i = sq (last ps) + of_nat (len (last ps))"
  by (induction sq len ps rule: consecutive.induct) auto

lemma consecutive_Cons:
  "ps \<noteq> [] \<Longrightarrow> consecutive sq len (i # ps) \<longleftrightarrow> consecutive sq len ps \<and> sq (hd ps) = sq i + of_nat (len i)"
  by (cases ps) auto

section \<open>The invariant of a batch\<close>

text \<open>
  An owner is the index of a buffer with what is promised of the buffer and its packets; the items
  of the two tables are owners.
\<close>

type_synonym owner = "nat \<times> (gbuf \<Rightarrow> nat list \<Rightarrow> bool)"

definition plain :: "gbuf list \<Rightarrow> nat \<Rightarrow> nat \<Rightarrow> gbuf \<Rightarrow> nat list \<Rightarrow> bool" where
  "plain bufs0 offset j b ps \<longleftrightarrow> ps = [j] \<and> drop offset (buf_bytes b) = drop offset (buf_bytes (bufs0 ! j))
     \<and> subslice (offset - VIRTIO_NET_HDR_LEN) offset (buf_bytes b) = replicate VIRTIO_NET_HDR_LEN 0"

text \<open>
  After \<open>n\<close> packets: later buffers are as they were; the packets so far are spread over the
  buffers to write, \<open>parts j\<close> being those in buffer \<open>j\<close>; owners are buffers to write and keep their
  promise; every other buffer to write holds its own packet.
\<close>

definition gro_inv :: "gbuf list \<Rightarrow> nat \<Rightarrow> nat \<Rightarrow> gbuf list \<Rightarrow> nat list \<Rightarrow> owner list \<Rightarrow> (nat \<Rightarrow> nat list) \<Rightarrow> bool" where
  "gro_inv bufs0 offset n bufs W Os parts \<longleftrightarrow>
     length bufs = length bufs0 \<and> n \<le> length bufs0
     \<and> (\<forall>i. n \<le> i \<longrightarrow> i < length bufs0 \<longrightarrow> bufs ! i = bufs0 ! i)
     \<and> sorted W \<and> distinct W \<and> set W \<subseteq> {..<n}
     \<and> mset (concat (map parts W)) = mset [0..<n]
     \<and> distinct (map fst Os) \<and> (\<forall>(j, P) \<in> set Os. j \<in> set W \<and> P (bufs ! j) (parts j))
     \<and> (\<forall>j \<in> set W. j \<notin> fst ` set Os \<longrightarrow> plain bufs0 offset j (bufs ! j) (parts j))"

lemma gro_invD:
  assumes "gro_inv bufs0 offset n bufs W Os parts"
  shows "length bufs = length bufs0" "n \<le> length bufs0"
    "\<And>i. n \<le> i \<Longrightarrow> i < length bufs0 \<Longrightarrow> bufs ! i = bufs0 ! i"
    "sorted W" "distinct W" "set W \<subseteq> {..<n}" "mset (concat (map parts W)) = mset [0..<n]"
    "distinct (map fst Os)" "\<And>j P. (j, P) \<in> set Os \<Longrightarrow> j \<in> set W \<and> P (bufs ! j) (parts j)"
    "\<And>j. j \<in> set W \<Longrightarrow> j \<notin> fst ` set Os \<Longrightarrow> plain bufs0 offset j (bufs ! j) (parts j)"
  using assms by (auto simp: gro_inv_def)

lemma gro_invI:
  assumes "length bufs = length bufs0" "n \<le> length bufs0"
    and "\<And>i. n \<le> i \<Longrightarrow> i < length bufs0 \<Longrightarrow> bufs ! i = bufs0 ! i"
    and "sorted W" "distinct W" "set W \<subseteq> {..<n}" "mset (concat (map parts W)) = mset [0..<n]"
    and "distinct (map fst Os)" "\<And>j P. (j, P) \<in> set Os \<Longrightarrow> j \<in> set W \<and> P (bufs ! j) (parts j)"
    and "\<And>j. j \<in> set W \<Longrightarrow> j \<notin> fst ` set Os \<Longrightarrow> plain bufs0 offset j (bufs ! j) (parts j)"
  shows "gro_inv bufs0 offset n bufs W Os parts"
  using assms unfolding gro_inv_def by blast

lemma gro_inv_init: "gro_inv bufs0 offset 0 bufs0 [] [] parts"
  by (simp add: gro_inv_def)

lemma gro_inv_perm:
  assumes "gro_inv bufs0 offset n bufs W Os parts" "mset Os' = mset Os"
  shows "gro_inv bufs0 offset n bufs W Os' parts"
proof -
  have st: "set Os' = set Os" using assms(2) by (metis set_mset_mset)
  have "distinct (map fst Os') = distinct (map fst Os)"
    using assms(2) by (intro mset_eq_imp_distinct_iff) simp
  then show ?thesis using assms(1) unfolding gro_inv_def st by simp
qed

lemma gro_inv_fresh:
  assumes "gro_inv bufs0 offset n bufs W Os parts"
  shows "n \<notin> set W" "n \<notin> fst ` set Os" "\<And>j. j \<in> set W \<Longrightarrow> j \<noteq> n \<and> j < length bufs"
    and "sorted (W @ [n])" "set (W @ [n]) \<subseteq> {..<Suc n}" "distinct (W @ [n])"
    and "mset (concat (map (parts(n := [n])) (W @ [n]))) = mset [0..<Suc n]"
proof -
  note D = gro_invD [OF assms]
  show fresh: "n \<notin> set W" using D(6) by auto
  show "n \<notin> fst ` set Os"
  proof
    assume "n \<in> fst ` set Os"
    then obtain P where "(n, P) \<in> set Os" by auto
    then show False using D(9) [of n P] fresh by simp
  qed
  show "j \<noteq> n \<and> j < length bufs" if "j \<in> set W" for j
  proof -
    have "j < n" using D(6) that by auto
    then show ?thesis using D(1,2) by simp
  qed
  show "sorted (W @ [n])" "set (W @ [n]) \<subseteq> {..<Suc n}" using D(4,6) by (auto simp: sorted_append)
  show "distinct (W @ [n])" using D(5) fresh by simp
  show "mset (concat (map (parts(n := [n])) (W @ [n]))) = mset [0..<Suc n]"
    using D(7) fresh by simp
qed

text \<open>Packet \<open>n\<close> is written on its own.\<close>

lemma gro_inv_noop:
  assumes inv: "gro_inv bufs0 offset n bufs W Os parts" and n: "n < length bufs0"
    and b: "plain bufs0 offset n b [n]"
  shows "gro_inv bufs0 offset (Suc n) (bufs[n := b]) (W @ [n]) Os (parts(n := [n]))"
proof (rule gro_invI)
  note D = gro_invD [OF inv] and F = gro_inv_fresh [OF inv]
  show "j \<in> set (W @ [n]) \<and> P (bufs[n := b] ! j) ((parts(n := [n])) j)" if "(j, P) \<in> set Os" for j P
    using D(9) [OF that] F(3) [of j] by simp
  show "plain bufs0 offset j (bufs[n := b] ! j) ((parts(n := [n])) j)"
    if "j \<in> set (W @ [n])" "j \<notin> fst ` set Os" for j
    using that D(1,10) F(3) [of j] b n by (cases "j = n") auto
  show "bufs[n := b] ! i = bufs0 ! i" if "Suc n \<le> i" "i < length bufs0" for i
    using D(3) [of i] that by simp
qed (use gro_invD [OF inv] gro_inv_fresh [OF inv] n in \<open>simp_all only: length_list_update Suc_le_eq\<close>)

text \<open>Packet \<open>n\<close> starts a group.\<close>

lemma gro_inv_insert:
  assumes inv: "gro_inv bufs0 offset n bufs W Os parts" and n: "n < length bufs0"
    and P: "P (bufs ! n) [n]"
  shows "gro_inv bufs0 offset (Suc n) bufs (W @ [n]) ((n, P) # Os) (parts(n := [n]))"
proof (rule gro_invI)
  note D = gro_invD [OF inv] and F = gro_inv_fresh [OF inv]
  show "j \<in> set (W @ [n]) \<and> Q (bufs ! j) ((parts(n := [n])) j)" if "(j, Q) \<in> set ((n, P) # Os)" for j Q
  proof (cases "(j, Q) = (n, P)")
    case False
    then show ?thesis using that D(9) [of j Q] F(3) [of j] by auto
  qed (use P in simp)
  show "plain bufs0 offset j (bufs ! j) ((parts(n := [n])) j)"
    if "j \<in> set (W @ [n])" "j \<notin> fst ` set ((n, P) # Os)" for j
    using that D(10) [of j] by simp
  show "distinct (map fst ((n, P) # Os))" using D(8) F(2) by simp
  show "bufs ! i = bufs0 ! i" if "Suc n \<le> i" "i < length bufs0" for i
    using D(3) [of i] that by simp
qed (use gro_invD [OF inv] gro_inv_fresh [OF inv] n in \<open>simp_all only: Suc_le_eq\<close>)

text \<open>An owner gives its buffer up.\<close>

lemma gro_inv_remove:
  assumes inv: "gro_inv bufs0 offset n bufs W ((j, P) # Os) parts"
    and b: "plain bufs0 offset j b (parts j)"
  shows "gro_inv bufs0 offset n (bufs[j := b]) W Os parts"
proof (rule gro_invI)
  note D = gro_invD [OF inv] and F = gro_inv_fresh [OF inv]
  have j: "j \<in> set W" "j \<notin> fst ` set Os" "j < n" using D(8) D(9) [of j P] D(6) by auto
  have jl: "j < length bufs" using F(3) j(1) by simp
  show "plain bufs0 offset k (bufs[j := b] ! k) (parts k)" if "k \<in> set W" "k \<notin> fst ` set Os" for k
    using D(10) [OF that(1)] that(2) b jl by (cases "k = j") auto
  show "k \<in> set W \<and> Q (bufs[j := b] ! k) (parts k)" if "(k, Q) \<in> set Os" for k Q
  proof -
    have "k \<noteq> j" using that j(2) by force
    then show ?thesis using D(9) [of k Q] that by simp
  qed
  show "bufs[j := b] ! i = bufs0 ! i" if "n \<le> i" "i < length bufs0" for i
    using D(3) [OF that] j(3) that by simp
  show "distinct (map fst Os)" using D(8) by simp
qed (use gro_invD [OF inv] in \<open>simp_all only: length_list_update\<close>)

text \<open>Packet \<open>n\<close> is merged into the buffer of an owner.\<close>

lemma gro_inv_merge:
  assumes inv: "gro_inv bufs0 offset n bufs W ((j, P) # Os) parts" and n: "n < length bufs0"
    and bufs': "length bufs' = length bufs" "\<And>k. k \<noteq> j \<Longrightarrow> k \<noteq> n \<Longrightarrow> bufs' ! k = bufs ! k"
    and P': "P' (bufs' ! j) ps" and ps: "mset ps = add_mset n (mset (parts j))"
  shows "gro_inv bufs0 offset (Suc n) bufs' W ((j, P') # Os) (parts(j := ps))"
proof (rule gro_invI)
  note D = gro_invD [OF inv] and F = gro_inv_fresh [OF inv]
  have j: "j \<in> set W" "j \<notin> fst ` set Os" "j < n" using D(8) D(9) [of j P] D(6) by auto
  show "mset (concat (map (parts(j := ps)) W)) = mset [0..<Suc n]"
  proof -
    obtain xs ys where W: "W = xs @ j # ys" using split_list [OF j(1)] by blast
    then have "j \<notin> set xs" "j \<notin> set ys" using D(5) by auto
    then have "mset (concat (map (parts(j := ps)) W)) = add_mset n (mset (concat (map parts W)))"
      using ps by (simp add: W)
    then show ?thesis using D(7) by simp
  qed
  show "plain bufs0 offset k (bufs' ! k) ((parts(j := ps)) k)"
    if "k \<in> set W" "k \<notin> fst ` set ((j, P') # Os)" for k
    using that D(10) [of k] F(3) [of k] bufs'(2) [of k] by simp
  show "k \<in> set W \<and> Q (bufs' ! k) ((parts(j := ps)) k)" if "(k, Q) \<in> set ((j, P') # Os)" for k Q
  proof (cases "(k, Q) = (j, P')")
    case False
    then have k: "(k, Q) \<in> set Os" "k \<noteq> j" using that j(2) by force+
    then show ?thesis using D(9) [of k Q] F(3) [of k] bufs'(2) [of k] by simp
  qed (use P' j in simp)
  show "bufs' ! i = bufs0 ! i" if "Suc n \<le> i" "i < length bufs0" for i
    using D(3) [of i] that j(3) bufs'(2) [of i] by simp
  show "length bufs' = length bufs0" using D(1) bufs'(1) by simp
  show "distinct (map fst ((j, P') # Os))" using D(8) by simp
  show "set W \<subseteq> {..<Suc n}" using D(6) by auto
qed (use gro_invD [OF inv] n in \<open>simp_all only: Suc_le_eq\<close>)

end
