(* ===== verification/GroStep.thy ===== *)
theory GroStep
  imports GroInv
begin

text \<open>
  One packet of \<open>handle_gro\<close>: what an item of a table promises of its buffer (\<open>tcp_item_ok\<close>,
  \<open>udp_item_ok\<close>), and that the checks, the comparison, the merge, \<open>tcp_gro\<close> and \<open>udp_gro\<close> neither
  panic nor break the invariant of \<open>GroInv\<close>.
\<close>

section \<open>What the items promise\<close>

definition tcp_seq_of :: "gbuf list \<Rightarrow> nat \<Rightarrow> nat \<Rightarrow> nat \<Rightarrow> u32" where
  "tcp_seq_of bufs0 offset iph i = read_u32 (drop offset (buf_bytes (bufs0 ! i))) (iph + 4)"

text \<open>The header of \<open>h\<close> bytes in \<open>b\<close> is that in \<open>b0\<close>, up to the given places.\<close>

definition same_header :: "nat \<Rightarrow> nat \<Rightarrow> nat set \<Rightarrow> gbuf \<Rightarrow> gbuf \<Rightarrow> bool" where
  "same_header offset h X b b0 \<longleftrightarrow>
     (\<forall>k < h. k \<notin> X \<longrightarrow> buf_bytes b ! (offset + k) = buf_bytes b0 ! (offset + k))"

definition ip_len :: "bool \<Rightarrow> nat" where
  "ip_len is_v6 = (if is_v6 then 40 else 20)"

text \<open>The version nibble and the TCP data offset of packet \<open>i\<close> of the batch.\<close>

definition version_ok :: "bool \<Rightarrow> byte list \<Rightarrow> bool" where
  "version_ok v6 pkt \<longleftrightarrow> drop_bit 4 (pkt ! 0) = (if v6 then 6 else 4)"

definition tcp_doff :: "byte list \<Rightarrow> nat \<Rightarrow> nat" where
  "tcp_doff pkt iph = unat (drop_bit 4 (pkt ! (iph + 12)) * 4)"

definition head_ok :: "gbuf list \<Rightarrow> nat \<Rightarrow> bool \<Rightarrow> nat option \<Rightarrow> nat \<Rightarrow> bool" where
  "head_ok bufs0 offset v6 tcph i \<longleftrightarrow>
     (let pkt = drop offset (buf_bytes (bufs0 ! i)) in
       version_ok v6 pkt \<and> (\<forall>t. tcph = Some t \<longrightarrow> tcp_doff pkt (ip_len v6) = t))"

definition tcp_item_ok :: "gbuf list \<Rightarrow> nat \<Rightarrow> TcpGROItem \<Rightarrow> gbuf \<Rightarrow> nat list \<Rightarrow> bool" where
  "tcp_item_ok bufs0 offset item b ps \<longleftrightarrow>
     (let iph = unat (ti_iph_len item); h = iph + unat (ti_tcph_len item) in
       iph = (if tk_is_v6 (ti_key item) then 40 else 20)
       \<and> 20 \<le> unat (ti_tcph_len item) \<and> unat (ti_tcph_len item) \<le> 60
       \<and> group_ok bufs0 offset h (unat (ti_gso_size item)) (unat (ti_num_merged item))
           (unat (ti_bufs_index item)) b ps
       \<and> ti_sent_seq item = tcp_seq_of bufs0 offset iph (hd ps)
       \<and> consecutive (tcp_seq_of bufs0 offset iph) (\<lambda>i. length (payload bufs0 offset h i)) ps
       \<and> same_header offset h {iph + TCP_FLAGS_OFFSET} b (bufs0 ! hd ps)
       \<and> head_ok bufs0 offset (tk_is_v6 (ti_key item)) (Some (unat (ti_tcph_len item))) (hd ps))"

definition udp_item_ok :: "gbuf list \<Rightarrow> nat \<Rightarrow> UdpGROItem \<Rightarrow> gbuf \<Rightarrow> nat list \<Rightarrow> bool" where
  "udp_item_ok bufs0 offset item b ps \<longleftrightarrow>
     (let iph = unat (ui_iph_len item); h = iph + UDP_H_LEN in
       iph = (if uk_is_v6 (ui_key item) then 40 else 20)
       \<and> group_ok bufs0 offset h (unat (ui_gso_size item)) (unat (ui_num_merged item))
           (unat (ui_bufs_index item)) b ps
       \<and> same_header offset h {} b (bufs0 ! hd ps)
       \<and> head_ok bufs0 offset (uk_is_v6 (ui_key item)) None (hd ps))"

definition tcp_owner :: "gbuf list \<Rightarrow> nat \<Rightarrow> TcpGROItem \<Rightarrow> owner" where
  "tcp_owner bufs0 offset item = (unat (ti_bufs_index item), tcp_item_ok bufs0 offset item)"

definition udp_owner :: "gbuf list \<Rightarrow> nat \<Rightarrow> UdpGROItem \<Rightarrow> owner" where
  "udp_owner bufs0 offset item = (unat (ui_bufs_index item), udp_item_ok bufs0 offset item)"

section \<open>The checks on the packet\<close>

text \<open>A packet that is a candidate: long enough, and its IP header has the length assumed.\<close>

definition candidate :: "byte list \<Rightarrow> bool \<Rightarrow> bool" where
  "candidate pkt is_v6 \<longleftrightarrow> 28 \<le> length pkt \<and> (is_v6 \<longrightarrow> 48 \<le> length pkt) \<and> (\<not> is_v6 \<longrightarrow> pkt ! 0 AND 0x0F = 5)
     \<and> version_ok is_v6 pkt"

lemma packet_is_gro_candidateD:
  "packet_is_gro_candidate b c = Tcp4GRO \<Longrightarrow> candidate b False"
  "packet_is_gro_candidate b c = Tcp6GRO \<Longrightarrow> candidate b True"
  "packet_is_gro_candidate b c = Udp4GRO \<Longrightarrow> candidate b False"
  "packet_is_gro_candidate b c = Udp6GRO \<Longrightarrow> candidate b True"
  by (auto simp: packet_is_gro_candidate_def candidate_def version_ok_def split: if_splits)

definition tcp_packet_ok :: "tcp_packet \<Rightarrow> byte list \<Rightarrow> bool \<Rightarrow> bool" where
  "tcp_packet_ok p pkt is_v6 \<longleftrightarrow> tp_bytes p = pkt \<and> length pkt \<le> 65535 \<and> tp_iph_len p = ip_len is_v6
     \<and> 20 \<le> tp_tcph_len p \<and> tp_tcph_len p \<le> 60 \<and> tp_iph_len p + tp_tcph_len p < length pkt
     \<and> unat (tp_gso_size p) = length pkt - (tp_iph_len p + tp_tcph_len p)
     \<and> tp_seq p = read_u32 pkt (tp_iph_len p + 4)
     \<and> version_ok is_v6 pkt \<and> tcp_doff pkt (ip_len is_v6) = tp_tcph_len p"

lemma gso_size_exact:
  fixes n h :: nat
  assumes "n \<le> 65535" "\<not> of_nat (n - t - h) < (1 :: u16)"
  shows "unat (of_nat (n - t - h) :: u16) = n - (h + t)" "h + t < n"
proof -
  have 1: "unat (of_nat (n - t - h) :: u16) = n - t - h" using assms(1) by (simp add: unat_of_nat)
  moreover have "unat (of_nat (n - t - h) :: u16) \<noteq> 0" using assms(2) by (simp add: word_less_nat_alt)
  ultimately show "h + t < n" by simp
  show "unat (of_nat (n - t - h) :: u16) = n - (h + t)" using 1 by simp
qed

lemma candidate_ip_len:
  assumes "candidate pkt is_v6"
  shows "(if is_v6 then 40 else unat ((pkt ! 0 AND 0x0F) * 4)) = ip_len is_v6" "0 < length pkt"
    "ensure (0 < length pkt) r = r"
    "ensure (if is_v6 then 6 \<le> length pkt \<and> ip_len is_v6 \<le> length pkt else 4 \<le> length pkt) r = r"
  using assms by (auto simp: candidate_def ip_len_def ensure_def)

lemma if_Noop: "(if c then Ok None else x) \<noteq> Ok None \<longleftrightarrow> \<not> c \<and> x \<noteq> Ok None"
  by simp

lemma tcp_gro_check_candidate:
  assumes "candidate pkt is_v6"
  shows "tcp_gro_check pkt is_v6 = Ok None
    \<or> (\<exists>p. tcp_gro_check pkt is_v6 = Ok (Some p) \<and> tcp_packet_ok p pkt is_v6)"
proof (rule disjCI)
  note c = candidate_ip_len [OF assms]
  define t where "t = unat (drop_bit 4 (pkt ! (ip_len is_v6 + 12)) * 4)"
  define g where "g = (of_nat (length pkt - t - ip_len is_v6) :: u16)"
  define f where "f = pkt ! (ip_len is_v6 + TCP_FLAGS_OFFSET)"
  assume no: "\<not> (\<exists>p. tcp_gro_check pkt is_v6 = Ok (Some p) \<and> tcp_packet_ok p pkt is_v6)"
  show "tcp_gro_check pkt is_v6 = Ok None"
  proof (rule ccontr)
    assume ne: "tcp_gro_check pkt is_v6 \<noteq> Ok None"
    define p where "p = \<lparr>tp_bytes = pkt, tp_iph_len = ip_len is_v6, tp_tcph_len = t,
      tp_psh_set = (f \<noteq> TCP_FLAG_ACK), tp_gso_size = g, tp_seq = read_u32 pkt (ip_len is_v6 + 4)\<rparr>"
    note check = tcp_gro_check_def [of pkt is_v6, unfolded Let_def c(1,3,4), folded t_def g_def f_def, folded p_def]
    note no_return = ne [unfolded check if_Noop]
    have "tcp_gro_check pkt is_v6 = Ok (Some p)"
      unfolding check using no_return by (simp only: if_False)
    moreover have "length pkt \<le> 65535 \<and> 20 \<le> t \<and> t \<le> 60 \<and> \<not> g < 1"
      using no_return by simp
    ultimately have "tcp_gro_check pkt is_v6 = Ok (Some p) \<and> length pkt \<le> 65535 \<and> 20 \<le> t \<and> t \<le> 60 \<and> \<not> g < 1"
      by simp
    moreover from this have "unat g = length pkt - (ip_len is_v6 + t)" "ip_len is_v6 + t < length pkt"
      using gso_size_exact [of "length pkt" t "ip_len is_v6"] by (simp_all add: g_def)
    ultimately show False using no assms by (auto simp: tcp_packet_ok_def p_def candidate_def tcp_doff_def t_def)
  qed
qed

definition udp_packet_ok :: "udp_packet \<Rightarrow> byte list \<Rightarrow> bool \<Rightarrow> bool" where
  "udp_packet_ok p pkt is_v6 \<longleftrightarrow> up_bytes p = pkt \<and> length pkt \<le> 65535 \<and> up_iph_len p = ip_len is_v6
     \<and> up_iph_len p + UDP_H_LEN < length pkt
     \<and> unat (up_gso_size p) = length pkt - (up_iph_len p + UDP_H_LEN) \<and> version_ok is_v6 pkt"

lemma udp_gro_check_candidate:
  assumes "candidate pkt is_v6"
  shows "udp_gro_check pkt is_v6 = Ok None
    \<or> (\<exists>p. udp_gro_check pkt is_v6 = Ok (Some p) \<and> udp_packet_ok p pkt is_v6)"
proof (rule disjCI)
  note c = candidate_ip_len [OF assms]
  define g where "g = (of_nat (length pkt - UDP_H_LEN - ip_len is_v6) :: u16)"
  assume no: "\<not> (\<exists>p. udp_gro_check pkt is_v6 = Ok (Some p) \<and> udp_packet_ok p pkt is_v6)"
  show "udp_gro_check pkt is_v6 = Ok None"
  proof (rule ccontr)
    assume ne: "udp_gro_check pkt is_v6 \<noteq> Ok None"
    define p where "p = \<lparr>up_bytes = pkt, up_iph_len = ip_len is_v6, up_gso_size = g\<rparr>"
    have "udp_gro_check pkt is_v6 = Ok (Some p) \<and> length pkt \<le> 65535 \<and> \<not> g < 1"
      using ne unfolding udp_gro_check_def Let_def c(1,3,4) g_def [symmetric] p_def
      by (simp only: split: if_splits) simp_all
    moreover from this have "unat g = length pkt - (ip_len is_v6 + UDP_H_LEN)" "ip_len is_v6 + UDP_H_LEN < length pkt"
      using gso_size_exact [of "length pkt" UDP_H_LEN "ip_len is_v6"] by (simp_all add: g_def)
    ultimately show False using no assms by (auto simp: udp_packet_ok_def p_def candidate_def)
  qed
qed

section \<open>One merge\<close>

lemma packet_at_Ok:
  "j < length bufs \<Longrightarrow> offset \<le> length (buf_bytes (bufs ! j)) \<Longrightarrow>
     packet_at bufs j offset = Ok (drop offset (buf_bytes (bufs ! j)))"
  by (simp add: packet_at_def)

lemma checksum_valid_Ok:
  assumes "ip_len is_v6 \<le> unat iph" "unat iph \<le> length pkt"
  shows "\<exists>v. checksum_valid pkt iph proto is_v6 = Ok v"
  using assms by (cases is_v6) (simp_all add: checksum_valid_def Let_def ip_len_def offload_consts ensure_def)

lemma tcp_item_okD:
  assumes "tcp_item_ok bufs0 offset item b ps"
  shows "unat (ti_iph_len item) = ip_len (tk_is_v6 (ti_key item))"
    "20 \<le> unat (ti_tcph_len item)" "unat (ti_tcph_len item) \<le> 60"
    "group_ok bufs0 offset (unat (ti_iph_len item) + unat (ti_tcph_len item)) (unat (ti_gso_size item))
      (unat (ti_num_merged item)) (unat (ti_bufs_index item)) b ps"
    "ti_sent_seq item = tcp_seq_of bufs0 offset (unat (ti_iph_len item)) (hd ps)"
    "consecutive (tcp_seq_of bufs0 offset (unat (ti_iph_len item)))
      (\<lambda>i. length (payload bufs0 offset (unat (ti_iph_len item) + unat (ti_tcph_len item)) i)) ps"
    "same_header offset (unat (ti_iph_len item) + unat (ti_tcph_len item))
      {unat (ti_iph_len item) + TCP_FLAGS_OFFSET} b (bufs0 ! hd ps)"
    "head_ok bufs0 offset (tk_is_v6 (ti_key item)) (Some (unat (ti_tcph_len item))) (hd ps)"
  using assms unfolding tcp_item_ok_def Let_def ip_len_def by blast+

lemma ip_len_cases: "ip_len v = 20 \<or> ip_len v = 40"
  by (simp add: ip_len_def)

lemma unat_small_byte: "n < 256 \<Longrightarrow> unat (of_nat n :: byte) = n"
  by (simp add: unat_of_nat)

lemma tcp_packet_bytes:
  assumes "tcp_packet_ok p pkt v6"
  shows "unat (of_nat (tp_iph_len p) :: byte) = ip_len v6" "unat (of_nat (tp_tcph_len p) :: byte) = tp_tcph_len p"
  using assms ip_len_cases [of v6] by (auto simp: tcp_packet_ok_def unat_small_byte)

lemma tcp_can_coalesce:
  assumes item: "tcp_item_ok bufs0 offset item (bufs ! unat (ti_bufs_index item)) ps"
    and j: "unat (ti_bufs_index item) < length bufs"
    and p: "tcp_packet_ok p pkt v6" and key: "tk_is_v6 (ti_key item) = v6"
  defines "r \<equiv> tcp_packets_can_coalesce pkt (of_nat (tp_iph_len p)) (of_nat (tp_tcph_len p)) (tp_seq p)
      (tp_psh_set p) (tp_gso_size p) item bufs offset"
    and "h \<equiv> unat (ti_iph_len item) + unat (ti_tcph_len item)"
  shows "\<exists>c. r = Ok c \<and> (c \<noteq> Unavailable \<longrightarrow> tp_tcph_len p = unat (ti_tcph_len item))
    \<and> (c = Append \<longrightarrow> tp_seq p = ti_sent_seq item
          + of_nat (unat (ti_gso_size item) + unat (ti_num_merged item) * unat (ti_gso_size item))
        \<and> length (drop (offset + h) (buf_bytes (bufs ! unat (ti_bufs_index item)))) mod unat (ti_gso_size item) = 0
        \<and> tp_gso_size p \<le> ti_gso_size item)
    \<and> (c = Prepend \<longrightarrow> tp_seq p + ucast (tp_gso_size p) = ti_sent_seq item \<and> ti_gso_size item \<le> tp_gso_size p
        \<and> (ti_gso_size item < tp_gso_size p \<longrightarrow> ti_num_merged item = 0))"
proof -
  let ?b = "buf_bytes (bufs ! unat (ti_bufs_index item))"
  note I = tcp_item_okD [OF item] and B = tcp_packet_bytes [OF p]
  note G = group_okD [OF I(4)]
  have at: "packet_at bufs (unat (ti_bufs_index item)) offset = Ok (drop offset ?b)"
    using j G(3) by (intro packet_at_Ok) simp_all
  have g: "ti_gso_size item \<noteq> 0" using G(4) by auto
  have ih: "unat (ti_iph_len item) = ip_len v6" using I(1) key by simp
  show ?thesis
  proof (cases "of_nat (tp_tcph_len p) \<noteq> ti_tcph_len item")
    case True
    then have "r = Ok Unavailable" unfolding r_def tcp_packets_can_coalesce_def at by simp
    then show ?thesis by simp
  next
    case False
    then have t: "of_nat (tp_tcph_len p) = ti_tcph_len item" by simp
    then have tl: "unat (ti_tcph_len item) = tp_tcph_len p" using B(2) by simp
    have e1: "ensure (of_nat (tp_tcph_len p) > (20 :: byte) \<longrightarrow>
        unat (of_nat (tp_iph_len p) :: byte) + unat (of_nat (tp_tcph_len p) :: byte) \<le> length pkt
        \<and> unat (ti_iph_len item) + unat (of_nat (tp_tcph_len p) :: byte) \<le> length (drop offset ?b)) x = x" for x
      using p G(3) B ih tl by (auto simp: ensure_def tcp_packet_ok_def)
    have e2: "ensure (unat (of_nat (tp_iph_len p) :: byte) + unat (of_nat (tp_tcph_len p) :: byte) \<le> length (drop offset ?b)
        \<and> ti_gso_size item \<noteq> 0) x = x" for x
      using G(3) B ih tl g by (auto simp: ensure_def)
    have d: "drop (unat (of_nat (tp_iph_len p) :: byte) + unat (of_nat (tp_tcph_len p) :: byte)) (drop offset ?b)
        = drop (offset + h) ?b"
      using B ih tl by (simp add: h_def add.commute add.left_commute)
    show ?thesis
      unfolding r_def tcp_packets_can_coalesce_def at bind_res_simps e1 e2 d Let_def
      using tl by (simp add: t not_less word_greater_zero_iff)
  qed
qed

text \<open>The outcomes of a merge; nothing else changes when it is refused.\<close>

lemma same_headerI:
  "(\<And>k. k < h \<Longrightarrow> k \<notin> X \<Longrightarrow> buf_bytes b ! (offset + k) = buf_bytes b0 ! (offset + k)) \<Longrightarrow> same_header offset h X b b0"
  by (simp add: same_header_def)

lemma unat_add_bytes: "unat (a :: byte) + unat b < 256 \<Longrightarrow> unat (a + b) = unat a + unat b"
  by (simp add: unat_word_ariths)

lemma coalesce_tcp_append:
  fixes bufs :: "gbuf list" and n :: nat and gso_sz :: u16 and seq :: u32 and psh :: bool
  assumes item: "tcp_item_ok bufs0 offset item (bufs ! unat (ti_bufs_index item)) ps"
    and j: "unat (ti_bufs_index item) < length bufs"
    and p: "tcp_packet_ok p pkt v6" and key: "tk_is_v6 (ti_key item) = v6"
    and t: "tp_tcph_len p = unat (ti_tcph_len item)"
  defines "r \<equiv> coalesce_tcp_packets Append pkt n gso_sz seq psh item bufs offset v6"
    and "h \<equiv> unat (ti_iph_len item) + unat (ti_tcph_len item)"
    and "j \<equiv> unat (ti_bufs_index item)"
  shows "r = Ok (InsufficientCap, item, bufs) \<or> r = Ok (PktInvalidCSum, item, bufs)
    \<or> (r = Ok (ItemInvalidCSum, item, bufs) \<and> ti_num_merged item = 0)
    \<or> (\<exists>item' b. r = Ok (Success, item', bufs[j := b])
        \<and> item' = tcp_merged_item gso_sz (item\<lparr>ti_psh_set := ti_psh_set item \<or> psh\<rparr>)
        \<and> drop (offset + h) (buf_bytes b) = drop (offset + h) (buf_bytes (bufs ! j)) @ drop h pkt
        \<and> same_header offset h {unat (ti_iph_len item) + TCP_FLAGS_OFFSET} b (bufs ! j))"
proof -
  let ?b = "buf_bytes (bufs ! j)"
  note I = tcp_item_okD [OF item]
  note G = group_okD [OF I(4)]
  have ih: "unat (ti_iph_len item) = ip_len v6" using I(1) key by simp
  have hb: "unat (ti_iph_len item + ti_tcph_len item) = h"
    using ih ip_len_cases [of v6] I(3) by (auto simp: h_def unat_add_bytes)
  have at: "packet_at bufs j offset = Ok (drop offset ?b)"
    using j G(3) unfolding j_def by (intro packet_at_Ok) simp_all
  have pkt: "h < length pkt" "unat (ti_iph_len item) \<le> h"
    using p t ih by (simp_all add: tcp_packet_ok_def h_def)
  obtain v1 where v1: "checksum_valid (drop offset ?b) (ti_iph_len item) IPPROTO_TCP v6 = Ok v1"
  proof -
    have "unat (ti_iph_len item) \<le> length (drop offset ?b)" using G(3) unfolding j_def length_drop by linarith
    then show thesis using that checksum_valid_Ok [of v6 "ti_iph_len item"] ih by (metis le_refl)
  qed
  obtain v2 where v2: "checksum_valid pkt (ti_iph_len item) IPPROTO_TCP v6 = Ok v2"
    using checksum_valid_Ok [of v6 "ti_iph_len item" pkt] ih pkt by auto
  define f where "f = offset + unat (ti_iph_len item) + TCP_FLAGS_OFFSET"
  have f: "f < offset + h" "f < length ?b"
    using G(3) I(2) by (simp_all add: f_def h_def j_def TCP_FLAGS_OFFSET_def)
  have len: "h \<le> length (drop offset ?b) + length pkt" using pkt by simp
  let ?bytes = "if psh then ?b[f := ?b ! f OR TCP_FLAG_PSH] else ?b"
  let ?item = "if psh then item\<lparr>ti_psh_set := psh\<rparr> else item"
  let ?new = "buf_extend_from_slice ((bufs ! j)\<lparr>buf_bytes := ?bytes\<rparr>) (drop h pkt)"
  let ?cap = "buf_capacity (bufs ! j) < 2 * offset + (length (drop offset ?b) + length pkt - h)"
  let ?iv = "ti_num_merged item = 0 \<longrightarrow> v1"
  have r: "r = (if ?cap then Ok (InsufficientCap, item, bufs)
      else if \<not> ?iv then Ok (ItemInvalidCSum, item, bufs)
      else if \<not> v2 then Ok (PktInvalidCSum, item, bufs)
      else Ok (Success, tcp_merged_item gso_sz ?item, bufs[j := ?new]))"
    unfolding r_def coalesce_tcp_packets_def Let_def j_def [symmetric] at bind_res_simps hb v1 v2 f_def [symmetric]
    using len f pkt by (simp add: ensure_def)
  have it: "?item = item\<lparr>ti_psh_set := ti_psh_set item \<or> psh\<rparr>" by simp
  have "drop (offset + h) ?bytes = drop (offset + h) ?b" using f by simp
  then have d: "drop (offset + h) (buf_bytes ?new) = drop (offset + h) ?b @ drop h pkt"
    using G(3) by (simp add: buf_extend_from_slice_def h_def j_def)
  have s: "same_header offset h {unat (ti_iph_len item) + TCP_FLAGS_OFFSET} ?new (bufs ! j)"
    using G(3) by (intro same_headerI)
      (auto simp: buf_extend_from_slice_def nth_append f_def h_def j_def add.assoc)
  show ?thesis using d s it unfolding r by (auto split: if_splits)
qed

lemma coalesce_tcp_prepend:
  fixes bufs :: "gbuf list" and n :: nat and gso_sz :: u16 and seq :: u32 and psh :: bool
  assumes item: "tcp_item_ok bufs0 offset item (bufs ! unat (ti_bufs_index item)) ps"
    and j: "unat (ti_bufs_index item) < length bufs"
    and p: "tcp_packet_ok p pkt v6" and key: "tk_is_v6 (ti_key item) = v6"
    and t: "tp_tcph_len p = unat (ti_tcph_len item)"
    and n: "n < length bufs" "n \<noteq> unat (ti_bufs_index item)"
    and pkt: "pkt = drop offset (buf_bytes (bufs ! n))" "offset \<le> length (buf_bytes (bufs ! n))"
  defines "r \<equiv> coalesce_tcp_packets Prepend pkt n gso_sz seq psh item bufs offset v6"
    and "h \<equiv> unat (ti_iph_len item) + unat (ti_tcph_len item)"
    and "j \<equiv> unat (ti_bufs_index item)"
  shows "r = Ok (InsufficientCap, item, bufs) \<or> r = Ok (PSHEnding, item, bufs) \<or> r = Ok (PktInvalidCSum, item, bufs)
    \<or> (r = Ok (ItemInvalidCSum, item, bufs) \<and> ti_num_merged item = 0)
    \<or> (\<exists>item' b. r = Ok (Success, item', bufs[n := bufs ! j, j := b])
        \<and> item' = tcp_merged_item gso_sz (item\<lparr>ti_sent_seq := seq\<rparr>)
        \<and> drop (offset + h) (buf_bytes b) = drop h pkt @ drop (offset + h) (buf_bytes (bufs ! j))
        \<and> same_header offset h {} b (bufs ! n))"
proof -
  let ?b = "buf_bytes (bufs ! j)" and ?q = "buf_bytes (bufs ! n)"
  note I = tcp_item_okD [OF item]
  note G = group_okD [OF I(4)]
  have ih: "unat (ti_iph_len item) = ip_len v6" using I(1) key by simp
  have hb: "unat (ti_iph_len item + ti_tcph_len item) = h"
    using ih ip_len_cases [of v6] I(3) by (auto simp: h_def unat_add_bytes)
  have bl: "offset + h < length ?b" using G(3) by (simp add: h_def j_def)
  have at: "packet_at bufs j offset = Ok (drop offset ?b)"
    using j bl unfolding j_def by (intro packet_at_Ok) simp_all
  have pl: "h < length pkt" "unat (ti_iph_len item) \<le> h" "length ?q = offset + length pkt"
    using p t ih pkt by (simp_all add: tcp_packet_ok_def h_def)
  obtain v1 where v1: "checksum_valid (drop offset ?b) (ti_iph_len item) IPPROTO_TCP v6 = Ok v1"
  proof -
    have "unat (ti_iph_len item) \<le> length (drop offset ?b)" using bl pl(2) unfolding length_drop by linarith
    then show thesis using that checksum_valid_Ok [of v6 "ti_iph_len item"] ih by (metis le_refl)
  qed
  obtain v2 where v2: "checksum_valid pkt (ti_iph_len item) IPPROTO_TCP v6 = Ok v2"
    using checksum_valid_Ok [of v6 "ti_iph_len item" pkt] ih pl by auto
  define c where "c = length (drop offset ?b) + length pkt - h"
  define e where "e = c - length pkt"
  have e: "e = length ?b - (offset + h)" "length pkt \<le> c" using bl pl by (simp_all add: e_def c_def)
  have e': "length ?b - offset - h = e" "offset + h + e = length ?b" using e bl by simp_all
  define tl where "tl = drop (offset + h) ?b"
  have "length tl = e" by (simp add: tl_def e(1))
  moreover have "subslice (offset + h) (offset + h + e) ?b = take e tl" by (simp add: subslice_def tl_def)
  ultimately have tl: "length tl = e" "subslice (offset + h) (offset + h + e) ?b = tl" by simp_all
  define q where "q = buf_resize (bufs ! n) (length ?q + e) 0"
  have q: "buf_bytes q = ?q @ replicate e 0" by (simp add: q_def buf_resize_def)
  define new where "new = q\<lparr>buf_bytes := ?q @ tl\<rparr>"
  have b: "blit (?q @ replicate e 0) (offset + length pkt) tl = ?q @ tl"
    using pl(3) tl(1) by (simp add: blit_def)
  have nj: "j < length bufs" "j \<noteq> n" "n \<noteq> j" using j n(2) by (simp_all add: j_def)
  let ?cap = "buf_capacity (bufs ! n) < 2 * offset + c"
  let ?iv = "ti_num_merged item = 0 \<longrightarrow> v1"
  have r: "r = (if ?cap then Ok (InsufficientCap, item, bufs)
      else if psh then Ok (PSHEnding, item, bufs)
      else if \<not> ?iv then Ok (ItemInvalidCSum, item, bufs)
      else if \<not> v2 then Ok (PktInvalidCSum, item, bufs)
      else Ok (Success, tcp_merged_item gso_sz (item\<lparr>ti_sent_seq := seq\<rparr>), bufs[n := bufs ! j, j := new]))"
  proof -
    have 1: "ensure (h \<le> length (drop offset ?b) + length pkt) x = x" "ensure (n < length bufs) x = x"
      "ensure (length pkt \<le> c) x = x" for x :: "(coalesce_result \<times> TcpGROItem \<times> gbuf list) res"
      using pl n e by (simp_all add: ensure_def)
    have 2: "bufs[n := q] ! j = bufs ! j" "bufs[n := q] ! n = q" using nj n by simp_all
    have 3: "ensure (offset + h + e \<le> length ?b \<and> offset + length pkt + e \<le> length (buf_bytes q)) x = x"
      for x :: "(coalesce_result \<times> TcpGROItem \<times> gbuf list) res"
      using e'(2) pl(3) q by (simp add: ensure_def)
    have 4: "bufs[n := q, n := new, j := bufs[n := q, n := new] ! n, n := bufs[n := q, n := new] ! j]
        = bufs[n := bufs ! j, j := new]"
      using nj n by (simp add: list_update_swap)
    show ?thesis
      unfolding r_def coalesce_tcp_packets_def Let_def j_def [symmetric] at bind_res_simps hb v1 v2
        c_def [symmetric] e_def [symmetric] q_def [symmetric] 1 2 3 tl(2) q b new_def [symmetric] 4
      using e'(2) pl(3) by (simp add: ensure_def)
  qed
  have d: "drop (offset + h) (buf_bytes new) = drop h pkt @ tl"
  proof -
    have "drop h pkt = drop (offset + h) ?q" unfolding pkt(1) by (simp add: add.commute)
    moreover have "offset + h \<le> length ?q" using pl(1,3) by linarith
    ultimately show ?thesis by (simp add: new_def)
  qed
  have s: "same_header offset h {} new (bufs ! n)"
  proof (rule same_headerI)
    fix k assume "k < h"
    then have "offset + k < length ?q" using pl(1,3) by linarith
    then show "buf_bytes new ! (offset + k) = ?q ! (offset + k)" by (simp add: new_def nth_append)
  qed
  show ?thesis using d s unfolding r tl_def by (auto split: if_splits)
qed

section \<open>The item after a merge\<close>

lemma same_header_trans:
  "same_header offset h X a b \<Longrightarrow> same_header offset h Y b c \<Longrightarrow> X \<subseteq> Z \<Longrightarrow> Y \<subseteq> Z \<Longrightarrow> same_header offset h Z a c"
  unfolding same_header_def by (metis subsetD)

lemma tcp_merged_item_sel [simp]:
  "ti_key (tcp_merged_item g item) = ti_key item" "ti_sent_seq (tcp_merged_item g item) = ti_sent_seq item"
  "ti_bufs_index (tcp_merged_item g item) = ti_bufs_index item"
  "ti_num_merged (tcp_merged_item g item) = ti_num_merged item + 1"
  "ti_gso_size (tcp_merged_item g item) = max g (ti_gso_size item)"
  "ti_iph_len (tcp_merged_item g item) = ti_iph_len item" "ti_tcph_len (tcp_merged_item g item) = ti_tcph_len item"
  by (auto simp: tcp_merged_item_def Let_def max_def)

lemma unat_succ_u16: "unat (w :: u16) + 1 < 65536 \<Longrightarrow> unat (w + 1) = unat w + 1"
  by (simp add: unat_word_ariths)

lemma sum_list_group:
  assumes "group_ok bufs0 offset h g nm j b ps"
  shows "sum_list (map (\<lambda>i. length (payload bufs0 offset h i)) ps) = length (drop (offset + h) (buf_bytes b))"
  unfolding group_okD(5) [OF assms] by (simp add: length_concat comp_def)

lemma tcp_item_okI:
  assumes "unat (ti_iph_len item) = ip_len (tk_is_v6 (ti_key item))"
    "20 \<le> unat (ti_tcph_len item)" "unat (ti_tcph_len item) \<le> 60"
    "h = unat (ti_iph_len item) + unat (ti_tcph_len item)"
    "group_ok bufs0 offset h (unat (ti_gso_size item)) (unat (ti_num_merged item)) (unat (ti_bufs_index item)) b ps"
    "ti_sent_seq item = tcp_seq_of bufs0 offset (unat (ti_iph_len item)) (hd ps)"
    "consecutive (tcp_seq_of bufs0 offset (unat (ti_iph_len item)))
      (\<lambda>i. length (payload bufs0 offset h i)) ps"
    "same_header offset h {unat (ti_iph_len item) + TCP_FLAGS_OFFSET} b (bufs0 ! hd ps)"
    "head_ok bufs0 offset (tk_is_v6 (ti_key item)) (Some (unat (ti_tcph_len item))) (hd ps)"
  shows "tcp_item_ok bufs0 offset item b ps"
  using assms unfolding tcp_item_ok_def Let_def ip_len_def by simp

text \<open>What the packet being treated is in the batch.\<close>

definition tcp_current :: "gbuf list \<Rightarrow> nat \<Rightarrow> nat \<Rightarrow> tcp_packet \<Rightarrow> bool \<Rightarrow> bool" where
  "tcp_current bufs0 offset n p v6 \<longleftrightarrow> n < length bufs0 \<and> length bufs0 \<le> 65535
     \<and> offset < length (buf_bytes (bufs0 ! n)) \<and> tcp_packet_ok p (drop offset (buf_bytes (bufs0 ! n))) v6"

lemma tcp_currentD:
  assumes "tcp_current bufs0 offset n p v6" "h = ip_len v6 + tp_tcph_len p"
  shows "payload bufs0 offset h n = drop h (drop offset (buf_bytes (bufs0 ! n)))"
    "length (payload bufs0 offset h n) = unat (tp_gso_size p)" "0 < unat (tp_gso_size p)"
    "tp_seq p = tcp_seq_of bufs0 offset (ip_len v6) n"
    "head_ok bufs0 offset v6 (Some (tp_tcph_len p)) n"
  using assms by (auto simp: tcp_current_def tcp_packet_ok_def payload_def tcp_seq_of_def head_ok_def add.commute)

lemma tcp_append_item_ok:
  assumes item: "tcp_item_ok bufs0 offset item b ps"
    and cur: "tcp_current bufs0 offset n p v6" and key: "tk_is_v6 (ti_key item) = v6"
    and t: "tp_tcph_len p = unat (ti_tcph_len item)" and lps: "length ps < 65535"
    and sq: "tp_seq p = ti_sent_seq item
      + of_nat (unat (ti_gso_size item) + unat (ti_num_merged item) * unat (ti_gso_size item))"
    and g: "tp_gso_size p \<le> ti_gso_size item"
  defines "h \<equiv> unat (ti_iph_len item) + unat (ti_tcph_len item)"
  assumes full: "length (drop (offset + h) (buf_bytes b)) mod unat (ti_gso_size item) = 0"
    and b': "drop (offset + h) (buf_bytes b') = drop (offset + h) (buf_bytes b)
      @ drop h (drop offset (buf_bytes (bufs0 ! n)))"
    and hdr: "same_header offset h {unat (ti_iph_len item) + TCP_FLAGS_OFFSET} b' b"
  shows "tcp_item_ok bufs0 offset (tcp_merged_item (tp_gso_size p) (item\<lparr>ti_psh_set := v\<rparr>)) b' (ps @ [n])"
proof -
  let ?len = "\<lambda>i. length (payload bufs0 offset h i)" and ?sq = "tcp_seq_of bufs0 offset (unat (ti_iph_len item))"
  note I = tcp_item_okD [OF item, folded h_def]
  have ih: "unat (ti_iph_len item) = ip_len v6" using I(1) key by simp
  then have h: "h = ip_len v6 + tp_tcph_len p" by (simp add: h_def t)
  note C = tcp_currentD [OF cur h]
  have "unat (ti_num_merged item) + 1 < 65536" using group_okD(2) [OF I(4)] lps by simp
  then have nm: "unat (ti_num_merged item + 1) = unat (ti_num_merged item) + 1" by (rule unat_succ_u16)
  have "group_ok bufs0 offset h (unat (ti_gso_size item)) (unat (ti_num_merged item) + 1)
      (unat (ti_bufs_index item)) b' (ps @ [n])"
    using I(4) full b' C(2,3) g cur
    by (intro group_append) (simp_all add: C(1) word_le_nat_alt tcp_current_def)
  moreover have "consecutive ?sq ?len (ps @ [n])"
  proof -
    have "sum_list (map ?len ps) = unat (ti_gso_size item) + unat (ti_num_merged item) * unat (ti_gso_size item)"
      using sum_list_group [OF I(4)] group_full(2) [OF I(4) full] by simp
    then have "?sq n = ?sq (last ps) + of_nat (?len (last ps))"
      using consecutive_end [OF group_okD(1) [OF I(4)] I(6)] C(4) sq I(5) ih by simp
    then show ?thesis using I(6) group_okD(1) [OF I(4)] by (simp add: consecutive_append)
  qed
  moreover have "hd (ps @ [n]) = hd ps" using group_okD(1) [OF I(4)] by simp
  moreover have "same_header offset h {unat (ti_iph_len item) + TCP_FLAGS_OFFSET} b' (bufs0 ! hd ps)"
    using same_header_trans [OF hdr I(7)] by simp
  moreover have "max (tp_gso_size p) (ti_gso_size item) = ti_gso_size item" using g by (simp add: max_def)
  ultimately show ?thesis
    using I(1-3,5,8) nm by (intro tcp_item_okI [where h = h]) (simp_all add: h_def)
qed

lemma tcp_prepend_item_ok:
  assumes item: "tcp_item_ok bufs0 offset item b ps"
    and cur: "tcp_current bufs0 offset n p v6" and key: "tk_is_v6 (ti_key item) = v6"
    and t: "tp_tcph_len p = unat (ti_tcph_len item)" and lps: "length ps < 65535"
    and sq: "tp_seq p + ucast (tp_gso_size p) = ti_sent_seq item"
    and g: "ti_gso_size item \<le> tp_gso_size p" "ti_gso_size item < tp_gso_size p \<Longrightarrow> ti_num_merged item = 0"
  defines "h \<equiv> unat (ti_iph_len item) + unat (ti_tcph_len item)"
  assumes b': "drop (offset + h) (buf_bytes b') = drop h (drop offset (buf_bytes (bufs0 ! n)))
      @ drop (offset + h) (buf_bytes b)"
    and hdr: "same_header offset h {} b' (bufs0 ! n)"
  shows "tcp_item_ok bufs0 offset (tcp_merged_item (tp_gso_size p) (item\<lparr>ti_sent_seq := tp_seq p\<rparr>)) b' (n # ps)"
proof -
  let ?len = "\<lambda>i. length (payload bufs0 offset h i)" and ?sq = "tcp_seq_of bufs0 offset (unat (ti_iph_len item))"
  note I = tcp_item_okD [OF item, folded h_def]
  have ih: "unat (ti_iph_len item) = ip_len v6" using I(1) key by simp
  then have h: "h = ip_len v6 + tp_tcph_len p" by (simp add: h_def t)
  note C = tcp_currentD [OF cur h]
  have "unat (ti_num_merged item) + 1 < 65536" using group_okD(2) [OF I(4)] lps by simp
  then have nm: "unat (ti_num_merged item + 1) = unat (ti_num_merged item) + 1" by (rule unat_succ_u16)
  have g': "unat (ti_gso_size item) < unat (tp_gso_size p) \<Longrightarrow> unat (ti_num_merged item) = 0"
    using g(2) by (simp add: word_less_nat_alt)
  have "group_ok bufs0 offset h (unat (tp_gso_size p)) (unat (ti_num_merged item) + 1)
      (unat (ti_bufs_index item)) b' (n # ps)"
    by (rule group_prepend [OF I(4) _ C(2) [symmetric]])
      (use b' g(1) g' cur in \<open>simp_all add: C(1) word_le_nat_alt tcp_current_def\<close>)
  moreover have "consecutive ?sq ?len (n # ps)"
    using I(5,6) sq C(2,4) ih group_okD(1) [OF I(4)]
    by (simp add: consecutive_Cons)
  moreover have "same_header offset h {unat (ti_iph_len item) + TCP_FLAGS_OFFSET} b' (bufs0 ! n)"
    using hdr by (simp add: same_header_def)
  moreover have "max (tp_gso_size p) (ti_gso_size item) = tp_gso_size p" using g(1) by (simp add: max_def)
  ultimately show ?thesis
    using I(1-3) nm C(4,5) t key ih by (intro tcp_item_okI [where h = h]) (simp_all add: h_def)
qed

lemma tcp_coalesce_outcome:
  fixes bufs :: "gbuf list"
  assumes item: "tcp_item_ok bufs0 offset item (bufs ! unat (ti_bufs_index item)) ps"
    and j: "unat (ti_bufs_index item) < length bufs" "unat (ti_bufs_index item) \<noteq> n"
    and cur: "tcp_current bufs0 offset n p v6" and n: "n < length bufs" "bufs ! n = bufs0 ! n"
    and key: "tk_is_v6 (ti_key item) = v6" and lps: "length ps < 65535"
    and can: "tcp_packets_can_coalesce (tp_bytes p) (of_nat (tp_iph_len p)) (of_nat (tp_tcph_len p)) (tp_seq p)
      (tp_psh_set p) (tp_gso_size p) item bufs offset = Ok c" "c \<noteq> Unavailable"
  shows "\<exists>res item' bufs'.
    coalesce_tcp_packets c (tp_bytes p) n (tp_gso_size p) (tp_seq p) (tp_psh_set p) item bufs offset v6
      = Ok (res, item', bufs') \<and>
    (if res = Success then ti_key item' = ti_key item \<and> ti_bufs_index item' = ti_bufs_index item
        \<and> length bufs' = length bufs
        \<and> (\<forall>k. k \<noteq> unat (ti_bufs_index item) \<longrightarrow> k \<noteq> n \<longrightarrow> bufs' ! k = bufs ! k)
        \<and> (\<exists>ps'. mset ps' = add_mset n (mset ps)
             \<and> tcp_item_ok bufs0 offset item' (bufs' ! unat (ti_bufs_index item)) ps')
     else item' = item \<and> bufs' = bufs \<and> (res = ItemInvalidCSum \<longrightarrow> ti_num_merged item = 0))"
proof -
  let ?pkt = "drop offset (buf_bytes (bufs0 ! n))" and ?j = "unat (ti_bufs_index item)"
  have p: "tcp_packet_ok p ?pkt v6" and ol: "offset \<le> length (buf_bytes (bufs ! n))"
    using cur n(2) by (simp_all add: tcp_current_def)
  have pb: "tp_bytes p = ?pkt" using p by (simp add: tcp_packet_ok_def)
  have pk: "?pkt = drop offset (buf_bytes (bufs ! n))" using n(2) by simp
  note cc = tcp_can_coalesce [OF item j(1) p key, folded pb, unfolded can(1)]
  have t: "tp_tcph_len p = unat (ti_tcph_len item)" using cc can(2) by auto
  consider "c = Append" | "c = Prepend" using can(2) by (cases c) auto
  then show ?thesis
  proof cases
    case 1
    note o = coalesce_tcp_append [OF item j(1) p key t, where n = n and gso_sz = "tp_gso_size p"
        and seq = "tp_seq p" and psh = "tp_psh_set p", folded 1 pb]
    have a: "tp_seq p = ti_sent_seq item
          + of_nat (unat (ti_gso_size item) + unat (ti_num_merged item) * unat (ti_gso_size item))"
      "length (drop (offset + (unat (ti_iph_len item) + unat (ti_tcph_len item))) (buf_bytes (bufs ! ?j)))
        mod unat (ti_gso_size item) = 0" "tp_gso_size p \<le> ti_gso_size item"
      using cc 1 by auto
    note fin = tcp_append_item_ok [OF item cur key t lps a(1,3,2)]
    from o show ?thesis
    proof (elim disjE exE conjE)
      fix item' b
      assume r: "coalesce_tcp_packets c (tp_bytes p) n (tp_gso_size p) (tp_seq p) (tp_psh_set p) item bufs offset v6
          = Ok (Success, item', bufs[?j := b])"
        and i: "item' = tcp_merged_item (tp_gso_size p) (item\<lparr>ti_psh_set := ti_psh_set item \<or> tp_psh_set p\<rparr>)"
        and d: "drop (offset + (unat (ti_iph_len item) + unat (ti_tcph_len item))) (buf_bytes b) =
          drop (offset + (unat (ti_iph_len item) + unat (ti_tcph_len item))) (buf_bytes (bufs ! ?j)) @
          drop (unat (ti_iph_len item) + unat (ti_tcph_len item)) (tp_bytes p)"
        and h: "same_header offset (unat (ti_iph_len item) + unat (ti_tcph_len item))
          {unat (ti_iph_len item) + TCP_FLAGS_OFFSET} b (bufs ! ?j)"
      have "tcp_item_ok bufs0 offset item' b (ps @ [n])" unfolding i by (rule fin [OF d [unfolded pb] h])
      then have "tcp_item_ok bufs0 offset item' (bufs[?j := b] ! ?j) (ps @ [n])" using j(1) by simp
      then have "\<exists>ps'. mset ps' = add_mset n (mset ps) \<and> tcp_item_ok bufs0 offset item' (bufs[?j := b] ! ?j) ps'"
        by (intro exI [of _ "ps @ [n]"]) simp
      then show ?thesis using i by - (intro exI conjI, rule r, simp)
    qed (simp_all)
  next
    case 2
    note o = coalesce_tcp_prepend [OF item j(1) p key t n(1) j(2) [symmetric] pk ol, where gso_sz = "tp_gso_size p"
        and seq = "tp_seq p" and psh = "tp_psh_set p", folded 2 pb]
    have a: "tp_seq p + ucast (tp_gso_size p) = ti_sent_seq item" "ti_gso_size item \<le> tp_gso_size p"
      "ti_gso_size item < tp_gso_size p \<Longrightarrow> ti_num_merged item = 0"
      using cc 2 by auto
    note fin = tcp_prepend_item_ok [OF item cur key t lps a]
    from o show ?thesis
    proof (elim disjE exE conjE)
      fix item' b
      assume r: "coalesce_tcp_packets c (tp_bytes p) n (tp_gso_size p) (tp_seq p) (tp_psh_set p) item bufs offset v6
          = Ok (Success, item', bufs[n := bufs ! ?j, ?j := b])"
        and i: "item' = tcp_merged_item (tp_gso_size p) (item\<lparr>ti_sent_seq := tp_seq p\<rparr>)"
        and d: "drop (offset + (unat (ti_iph_len item) + unat (ti_tcph_len item))) (buf_bytes b) =
          drop (unat (ti_iph_len item) + unat (ti_tcph_len item)) (tp_bytes p) @
          drop (offset + (unat (ti_iph_len item) + unat (ti_tcph_len item))) (buf_bytes (bufs ! ?j))"
        and h: "same_header offset (unat (ti_iph_len item) + unat (ti_tcph_len item)) {} b (bufs ! n)"
      have "tcp_item_ok bufs0 offset item' b (n # ps)"
        unfolding i by (rule fin [OF _ d [unfolded pb] h [unfolded n(2)]])
      then have "tcp_item_ok bufs0 offset item' (bufs[n := bufs ! ?j, ?j := b] ! ?j) (n # ps)" using j(1) by simp
      then have "\<exists>ps'. mset ps' = add_mset n (mset ps) \<and> tcp_item_ok bufs0 offset item' (bufs[n := bufs ! ?j, ?j := b] ! ?j) ps'"
        by (intro exI [of _ "n # ps"]) simp
      then show ?thesis using i by - (intro exI conjI, rule r, simp)
    qed (simp_all)
  qed
qed

section \<open>The TCP loop\<close>

lemma gro_inv_parts_length:
  assumes "gro_inv bufs0 offset n bufs W Os parts" "j \<in> set W"
  shows "length (parts j) \<le> n"
proof -
  have "length (concat (map parts W)) = n"
    using gro_invD(7) [OF assms(1)] by (metis length_upt minus_nat.diff_0 size_mset)
  moreover have "length (parts j) \<le> length (concat (map parts W))"
    using assms(2) by (auto simp: length_concat comp_def intro: member_le_sum_list)
  ultimately show ?thesis by simp
qed

lemma plain_zeroed:
  assumes "VIRTIO_NET_HDR_LEN \<le> offset" "offset \<le> length (buf_bytes b)"
    and "drop offset (buf_bytes b) = drop offset (buf_bytes (bufs0 ! j))"
  shows "plain bufs0 offset j (b\<lparr>buf_bytes := blit (buf_bytes b) (offset - VIRTIO_NET_HDR_LEN)
    (replicate VIRTIO_NET_HDR_LEN 0)\<rparr>) [j]"
  using assms by (simp add: plain_def drop_blit)

text \<open>How the loop ends: untreated, with the invariant at \<open>n\<close>, or merged, with the invariant at \<open>n + 1\<close>.\<close>

definition loop_post :: "gbuf list \<Rightarrow> nat \<Rightarrow> nat \<Rightarrow> nat list \<Rightarrow> owner list \<Rightarrow> TcpFlowKey \<Rightarrow> gro_result option
    \<Rightarrow> TcpGROItem list \<Rightarrow> gbuf list \<Rightarrow> bool" where
  "loop_post bufs0 offset n W Os k r items bufs \<longleftrightarrow>
     (\<forall>it \<in> set items. ti_key it = k) \<and>
     (\<exists>parts. if r = Some Coalesced
        then gro_inv bufs0 offset (Suc n) bufs W (map (tcp_owner bufs0 offset) items @ Os) parts
        else (r = None \<or> r = Some Noop)
          \<and> gro_inv bufs0 offset n bufs W (map (tcp_owner bufs0 offset) items @ Os) parts)"

lemma tcp_gro_loop_ok:
  assumes "tcp_current bufs0 offset n p v6" "VIRTIO_NET_HDR_LEN \<le> offset" "tk_is_v6 k = v6"
    and "gro_inv bufs0 offset n bufs W (map (tcp_owner bufs0 offset) items @ Os) parts"
    and "i \<le> length items" "\<forall>it \<in> set items. ti_key it = k"
  shows "\<exists>r items' bufs'. tcp_gro_loop p n offset v6 i items bufs = Ok (r, items', bufs')
    \<and> loop_post bufs0 offset n W Os k r items' bufs'"
  using assms
proof (induction i arbitrary: items bufs)
  case 0
  then show ?case by (auto simp: loop_post_def)
next
  case (Suc i)
  let ?own = "tcp_owner bufs0 offset"
  define item rest where "item = items ! i" and "rest = take i items @ drop (Suc i) items"
  let ?j = "unat (ti_bufs_index item)"
  have i: "i < length items" using Suc.prems(5) by simp
  note inv = Suc.prems(4)
  have ms: "mset (map ?own items @ Os) = mset (?own item # map ?own rest @ Os)"
    using i unfolding item_def rest_def by (subst id_take_nth_drop [OF i]) simp
  have ms': "mset (map ?own (items[i := x]) @ Os) = mset (?own x # map ?own rest @ Os)" for x
    using i unfolding rest_def by (simp add: upd_conv_take_nth_drop)
  have inv1: "gro_inv bufs0 offset n bufs W ((?j, tcp_item_ok bufs0 offset item) # map ?own rest @ Os) parts"
    using gro_inv_perm [OF inv ms [symmetric]] by (simp add: tcp_owner_def)
  note D = gro_invD [OF inv1] and F = gro_inv_fresh [OF inv1]
  have jW: "?j \<in> set W" and item: "tcp_item_ok bufs0 offset item (bufs ! ?j) (parts ?j)"
    using D(9) [of ?j "tcp_item_ok bufs0 offset item"] by simp_all
  have j: "?j < length bufs" "?j \<noteq> n" using F(3) [OF jW] by simp_all
  have n: "n < length bufs0" "n < length bufs" "bufs ! n = bufs0 ! n"
    using Suc.prems(1) D(1) D(3) [of n] by (simp_all add: tcp_current_def)
  have key: "tk_is_v6 (ti_key item) = v6" using Suc.prems(3,6) i by (simp add: item_def)
  have lps: "length (parts ?j) < 65535"
    using gro_inv_parts_length [OF inv1 jW] Suc.prems(1) by (simp add: tcp_current_def)
  have p: "tcp_packet_ok p (tp_bytes p) v6" using Suc.prems(1) by (auto simp: tcp_current_def tcp_packet_ok_def)
  have keys: "\<forall>it \<in> set rest. ti_key it = k" "ti_key item = k"
    using Suc.prems(6) i by (auto simp: rest_def item_def dest: in_set_takeD in_set_dropD)
  have IH: "\<exists>r items' bufs'. tcp_gro_loop p n offset v6 i items bufs = Ok (r, items', bufs')
      \<and> loop_post bufs0 offset n W Os k r items' bufs'"
    using Suc.IH [OF Suc.prems(1-4)] i Suc.prems(6) by simp
  obtain c where c: "tcp_packets_can_coalesce (tp_bytes p) (of_nat (tp_iph_len p)) (of_nat (tp_tcph_len p)) (tp_seq p)
      (tp_psh_set p) (tp_gso_size p) item bufs offset = Ok c"
    using tcp_can_coalesce [OF item j(1) p key] by auto
  show ?case
  proof (cases "c = Unavailable")
    case True
    then show ?thesis using IH c by (simp add: item_def)
  next
    case False
    obtain res item' bufs' where o: "coalesce_tcp_packets c (tp_bytes p) n (tp_gso_size p) (tp_seq p) (tp_psh_set p)
        item bufs offset v6 = Ok (res, item', bufs')"
      and post: "if res = Success then ti_key item' = ti_key item \<and> ti_bufs_index item' = ti_bufs_index item
          \<and> length bufs' = length bufs
          \<and> (\<forall>k. k \<noteq> ?j \<longrightarrow> k \<noteq> n \<longrightarrow> bufs' ! k = bufs ! k)
          \<and> (\<exists>ps'. mset ps' = add_mset n (mset (parts ?j)) \<and> tcp_item_ok bufs0 offset item' (bufs' ! ?j) ps')
        else item' = item \<and> bufs' = bufs \<and> (res = ItemInvalidCSum \<longrightarrow> ti_num_merged item = 0)"
      using tcp_coalesce_outcome [OF item j Suc.prems(1) n(2,3) key lps c False] by blast
    have same: "items[i := item] = items" by (simp add: item_def)
    show ?thesis
    proof (cases res)
      case Success
      then obtain ps' where ps': "mset ps' = add_mset n (mset (parts ?j))"
        "tcp_item_ok bufs0 offset item' (bufs' ! ?j) ps'" using post by auto
      have "gro_inv bufs0 offset (Suc n) bufs' W ((?j, tcp_item_ok bufs0 offset item') # map ?own rest @ Os)
          (parts(?j := ps'))"
        using post Success ps' by (intro gro_inv_merge [OF inv1 n(1)]) auto
      then have "gro_inv bufs0 offset (Suc n) bufs' W (map ?own (items[i := item']) @ Os) (parts(?j := ps'))"
        using post Success by (intro gro_inv_perm [OF _ ms']) (simp add: tcp_owner_def)
      then show ?thesis using Success c o False post i keys Suc.prems(6)
        by (auto simp: loop_post_def set_update_subset_insert [THEN subsetD] simp flip: item_def
            dest!: set_update_subset_insert [THEN subsetD])
    next
      case PktInvalidCSum
      then show ?thesis using c o False post same Suc.prems
        by (auto simp: loop_post_def simp flip: item_def)
    next
      case ItemInvalidCSum
      then have it: "item' = item" "bufs' = bufs" "unat (ti_num_merged item) = 0" using post by auto
      note I = tcp_item_okD [OF item]
      note G = group_okD [OF I(4)]
      have ol: "offset \<le> length (buf_bytes (bufs ! ?j))" using G(3) by simp
      let ?z = "(bufs ! ?j)\<lparr>buf_bytes := blit (buf_bytes (bufs ! ?j)) (offset - VIRTIO_NET_HDR_LEN)
          (replicate VIRTIO_NET_HDR_LEN 0)\<rparr>"
      have "plain bufs0 offset ?j ?z (parts ?j)"
        using plain_zeroed [OF Suc.prems(2) ol G(7) [OF it(3)]] G(6) [OF it(3)] by simp
      then have inv2: "gro_inv bufs0 offset n (bufs[?j := ?z]) W (map ?own rest @ Os) parts"
        by (rule gro_inv_remove [OF inv1])
      have "i \<le> length rest" using i by (simp add: rest_def)
      note IH2 = Suc.IH [OF Suc.prems(1-3) inv2 this keys(1)]
      then show ?thesis using c o False it ItemInvalidCSum j(1) ol Suc.prems(2)
        by (simp add: ensure_def Let_def flip: item_def rest_def)
    qed (use IH c o False post same in \<open>auto simp flip: item_def\<close>)
  qed
qed

section \<open>One TCP packet\<close>

definition tcp_table_ok :: "TcpGROTable \<Rightarrow> bool" where
  "tcp_table_ok t \<longleftrightarrow> gro_table_ok t \<and> gro.every_item (\<lambda>k it. ti_key it = k) t"

text \<open>The offsets \<open>tcp_gro\<close> and \<open>udp_gro\<close> compute for the addresses.\<close>

definition addr_at :: "bool \<Rightarrow> nat \<times> nat" where
  "addr_at is_v6 = (if is_v6 then (IPV6_SRC_ADDR_OFFSET, 16) else (IPV4_SRC_ADDR_OFFSET, 4))"

lemma addr_at_bounds: "fst (addr_at v6) + snd (addr_at v6) * 2 = ip_len v6"
  "snd (addr_at v6) \<le> 16" "snd (addr_at v6) = 16 \<longleftrightarrow> v6"
  by (simp_all add: addr_at_def ip_len_def offload_consts)

lemma TcpFlowKey_new_Ok:
  assumes "ip_len v6 + 12 \<le> length pkt"
  shows "\<exists>k. TcpFlowKey_new pkt (fst (addr_at v6)) (fst (addr_at v6) + snd (addr_at v6)) (ip_len v6) = Ok k
    \<and> tk_is_v6 k = v6"
  using assms addr_at_bounds [of v6] by (auto simp: TcpFlowKey_new_def Let_def ensure_def)

lemma single_group:
  assumes "offset + h < length (buf_bytes (bufs0 ! n))"
    and "g = length (buf_bytes (bufs0 ! n)) - (offset + h)"
  shows "group_ok bufs0 offset h g 0 n (bufs0 ! n) [n]"
  using assms by (auto simp: group_ok_def payload_def)

lemma tcp_table_insert_ok:
  assumes cur: "tcp_current bufs0 offset n p v6" and tab: "tcp_table_ok table"
    and key: "TcpFlowKey_new (tp_bytes p) src dst (ip_len v6) = Ok k" "tk_is_v6 k = v6"
  shows "\<exists>item. tcp_table_insert (tp_bytes p) src dst (tp_iph_len p) (tp_tcph_len p) n table
      = Ok (gro_table_push k item table)
    \<and> tcp_owner bufs0 offset item = (n, tcp_item_ok bufs0 offset item)
    \<and> tcp_item_ok bufs0 offset item (bufs0 ! n) [n]
    \<and> tcp_table_ok (gro_table_push k item table)"
proof -
  let ?pkt = "drop offset (buf_bytes (bufs0 ! n))"
  have C: "n < 65535" "offset < length (buf_bytes (bufs0 ! n))" "tcp_packet_ok p ?pkt v6"
    using cur by (auto simp: tcp_current_def)
  then have P: "tp_bytes p = ?pkt" "length ?pkt \<le> 65535" "tp_iph_len p = ip_len v6" "20 \<le> tp_tcph_len p"
    "tp_tcph_len p \<le> 60" "tp_iph_len p + tp_tcph_len p < length ?pkt"
    unfolding tcp_packet_ok_def by blast+
  note head = tcp_currentD(5) [OF cur refl]
  define item where "item = \<lparr>ti_key = k, ti_sent_seq = read_u32 (tp_bytes p) (ip_len v6 + 4),
     ti_bufs_index = of_nat n, ti_num_merged = 0,
     ti_gso_size = of_nat (length (tp_bytes p) - (ip_len v6 + tp_tcph_len p)),
     ti_iph_len = of_nat (ip_len v6), ti_tcph_len = of_nat (tp_tcph_len p),
     ti_psh_set = (tp_bytes p ! (ip_len v6 + TCP_FLAGS_OFFSET) AND TCP_FLAG_PSH \<noteq> 0)\<rparr>"
  have i: "tcp_table_insert (tp_bytes p) src dst (tp_iph_len p) (tp_tcph_len p) n table
      = Ok (gro_table_push k item table)"
    using P C(1) ip_len_cases [of v6] key
    by (auto simp: tcp_table_insert_def item_def ensure_def TCP_FLAGS_OFFSET_def)
  have u: "unat (ti_bufs_index item) = n" "unat (ti_iph_len item) = ip_len v6" "unat (ti_tcph_len item) = tp_tcph_len p"
    using C(1) P(5) ip_len_cases [of v6] by (auto simp: item_def unat_of_nat)
  have g: "unat (ti_gso_size item) = length (buf_bytes (bufs0 ! n)) - (offset + (ip_len v6 + tp_tcph_len p))"
    using P(1,2) by (simp add: item_def unat_of_nat)
  have "tcp_item_ok bufs0 offset item (bufs0 ! n) [n]"
  proof (rule tcp_item_okI [where h = "ip_len v6 + tp_tcph_len p"])
    show "group_ok bufs0 offset (ip_len v6 + tp_tcph_len p) (unat (ti_gso_size item)) (unat (ti_num_merged item))
        (unat (ti_bufs_index item)) (bufs0 ! n) [n]"
      using single_group [OF _ g] P(3,6) u(1) by (simp add: item_def)
  qed (use P u key(2) head in \<open>simp_all add: item_def tcp_seq_of_def same_header_def\<close>)
  moreover have "tcp_table_ok (gro_table_push k item table)"
    using tab by (simp add: tcp_table_ok_def gro.ok_push gro.every_item_push item_def)
  ultimately show ?thesis using i u(1) by (auto simp: tcp_owner_def)
qed

definition gro_post :: "gbuf list \<Rightarrow> nat \<Rightarrow> nat \<Rightarrow> nat list \<Rightarrow> gro_result \<Rightarrow> gbuf list \<Rightarrow> owner list \<Rightarrow> bool" where
  "gro_post bufs0 offset n W r bufs Os \<longleftrightarrow>
     (\<exists>parts. case r of
        Noop \<Rightarrow> gro_inv bufs0 offset n bufs W Os parts
      | TableInsert \<Rightarrow> gro_inv bufs0 offset (Suc n) bufs (W @ [n]) Os parts
      | Coalesced \<Rightarrow> gro_inv bufs0 offset (Suc n) bufs W Os parts)"

lemma gro_post_insert:
  assumes "gro_inv bufs0 offset n bufs W Os parts" "n < length bufs0" "P (bufs0 ! n) [n]"
    and "mset Os' = add_mset (n, P) (mset Os)"
  shows "gro_post bufs0 offset n W TableInsert bufs Os'"
proof -
  have "P (bufs ! n) [n]" using assms(2,3) gro_invD(3) [OF assms(1), of n] by simp
  then have "gro_inv bufs0 offset (Suc n) bufs (W @ [n]) ((n, P) # Os) (parts(n := [n]))"
    by (intro gro_inv_insert [where P = P] assms(1,2))
  then have "gro_inv bufs0 offset (Suc n) bufs (W @ [n]) Os' (parts(n := [n]))"
    by (rule gro_inv_perm) (simp add: assms(4))
  then show ?thesis unfolding gro_post_def by auto
qed

lemma mset_items_push:
  "gro_table_ok t \<Longrightarrow> mset (table_items (gro_table_push k i t)) = add_mset i (mset (table_items t))"
  using table_items_push [of t k i] by auto

lemma tcp_gro_ok:
  assumes cand: "candidate (drop offset (buf_bytes (bufs0 ! n))) v6"
    and n: "n < length bufs0" "length bufs0 \<le> 65535"
    and off: "offset < length (buf_bytes (bufs0 ! n))" "VIRTIO_NET_HDR_LEN \<le> offset"
    and tab: "tcp_table_ok table"
    and inv: "gro_inv bufs0 offset n bufs W (map (tcp_owner bufs0 offset) (table_items table) @ Os) parts"
  shows "\<exists>r bufs' table'. tcp_gro bufs offset n table v6 = Ok (r, bufs', table') \<and> tcp_table_ok table'
    \<and> gro_post bufs0 offset n W r bufs' (map (tcp_owner bufs0 offset) (table_items table') @ Os)"
proof -
  let ?own = "tcp_owner bufs0 offset" and ?pkt = "drop offset (buf_bytes (bufs0 ! n))"
  note D = gro_invD [OF inv]
  have bn: "bufs ! n = bufs0 ! n" using D(3) [of n] n by simp
  have at: "packet_at bufs n offset = Ok ?pkt"
    using n off D(1) bn by (simp add: packet_at_def ensure_def)
  have a: "(if v6 then (IPV6_SRC_ADDR_OFFSET, 16) else (IPV4_SRC_ADDR_OFFSET, 4)) = addr_at v6"
    by (simp add: addr_at_def)
  define src where "src = fst (addr_at v6)"
  define dst where "dst = fst (addr_at v6) + snd (addr_at v6)"
  have a': "addr_at v6 = (src, dst - src)" "src \<le> dst" by (simp_all add: src_def dst_def)
  from tcp_gro_check_candidate [OF cand] consider "tcp_gro_check ?pkt v6 = Ok None"
    | p where "tcp_gro_check ?pkt v6 = Ok (Some p)" "tcp_packet_ok p ?pkt v6" by auto
  then show ?thesis
  proof cases
    case 1
    then have "tcp_gro bufs offset n table v6 = Ok (Noop, bufs, table)" by (simp add: tcp_gro_def at)
    then show ?thesis using tab inv by (auto simp: gro_post_def)
  next
    case (2 p)
    have cur: "tcp_current bufs0 offset n p v6" using 2(2) n off by (simp add: tcp_current_def)
    have pb: "tp_bytes p = ?pkt" "tp_iph_len p = ip_len v6" using 2(2) by (simp_all add: tcp_packet_ok_def)
    have "ip_len v6 + 12 \<le> length ?pkt" using 2(2) by (auto simp: tcp_packet_ok_def)
    then obtain k where k: "TcpFlowKey_new ?pkt src dst (ip_len v6) = Ok k" "tk_is_v6 k = v6"
      using TcpFlowKey_new_Ok [of v6 ?pkt] by (auto simp: src_def dst_def)
    note ins = tcp_table_insert_ok [OF cur _ k(1) [folded pb(1)] k(2)]
    show ?thesis
    proof (cases "flow_items table k")
      case None
      obtain item where item: "tcp_table_insert ?pkt src dst (ip_len v6) (tp_tcph_len p) n table
          = Ok (gro_table_push k item table)" "?own item = (n, tcp_item_ok bufs0 offset item)"
        "tcp_item_ok bufs0 offset item (bufs0 ! n) [n]" "tcp_table_ok (gro_table_push k item table)"
        using ins [OF tab] unfolding pb by blast
      have "tcp_gro bufs offset n table v6 = Ok (TableInsert, bufs, gro_table_push k item table)"
        using 2(1) a' None k item(1)
        by (simp add: tcp_gro_def at a tcp_lookup_or_insert_def pb)
      moreover have "gro_post bufs0 offset n W TableInsert bufs
          (map ?own (table_items (gro_table_push k item table)) @ Os)"
        using tab item(2) by (intro gro_post_insert [where P = "tcp_item_ok bufs0 offset item", OF inv n(1) item(3)])
          (simp add: mset_items_push tcp_table_ok_def)
      ultimately show ?thesis using item(4) by blast
    next
      case (Some items)
      have tok: "gro_table_ok table" using tab by (simp add: tcp_table_ok_def)
      obtain xs ys where T: "table_items table = xs @ items @ ys"
        "\<And>new. table_items (gro_table_set k new table) = xs @ new @ ys"
        using table_items_set [OF tok Some] by blast
      define Os' where "Os' = map ?own (xs @ ys) @ Os"
      have perm: "mset (map ?own (xs @ new @ ys) @ Os) = mset (map ?own new @ Os')" for new
        by (simp add: Os'_def)
      have "gro_inv bufs0 offset n bufs W (map ?own items @ Os') parts"
        using inv unfolding T(1) by (rule gro_inv_perm) (simp only: perm)
      moreover have keys: "\<forall>it \<in> set items. ti_key it = k"
        using tab Some by (auto simp: tcp_table_ok_def gro.every_item_def)
      ultimately obtain r items' bufs' where loop: "tcp_gro_loop p n offset v6 (length items) items bufs = Ok (r, items', bufs')"
        "loop_post bufs0 offset n W Os' k r items' bufs'"
        using tcp_gro_loop_ok [OF cur off(2) k(2)] by blast
      let ?t = "gro_table_set k items' table"
      have keys': "\<forall>it \<in> set items'. ti_key it = k" using loop(2) by (simp add: loop_post_def)
      have tab': "tcp_table_ok ?t"
        using tab keys' by (auto simp: tcp_table_ok_def gro.ok_set intro!: gro.every_item_set)
      have run: "tcp_gro bufs offset n table v6 = (case r of Some r \<Rightarrow> Ok (r, bufs', ?t)
          | None \<Rightarrow> bind_res (tcp_table_insert ?pkt src dst (ip_len v6) (tp_tcph_len p) n ?t)
              (\<lambda>table. Ok (TableInsert, bufs', table)))"
        using 2(1) a' Some k loop(1)
        by (simp add: tcp_gro_def at a tcp_lookup_or_insert_def pb Let_def split: option.split)
      have inv_items: "gro_inv bufs0 offset m bufs' W (map ?own (table_items ?t) @ Os) parts'"
        if "gro_inv bufs0 offset m bufs' W (map ?own items' @ Os') parts'" for m parts'
        using that unfolding T(2) by (rule gro_inv_perm) (simp only: perm)
      show ?thesis
      proof (cases r)
        case (Some x)
        have "gro_post bufs0 offset n W x bufs' (map ?own (table_items ?t) @ Os)"
          using loop(2) inv_items unfolding loop_post_def gro_post_def Some
          by (cases x) auto
        then show ?thesis using run tab' Some by auto
      next
        case None
        obtain item where item: "tcp_table_insert ?pkt src dst (ip_len v6) (tp_tcph_len p) n ?t
            = Ok (gro_table_push k item ?t)" "?own item = (n, tcp_item_ok bufs0 offset item)"
          "tcp_item_ok bufs0 offset item (bufs0 ! n) [n]" "tcp_table_ok (gro_table_push k item ?t)"
          using ins [OF tab'] unfolding pb by blast
        obtain parts' where inv': "gro_inv bufs0 offset n bufs' W (map ?own (table_items ?t) @ Os) parts'"
          using loop(2) inv_items None unfolding loop_post_def by auto
        have "gro_post bufs0 offset n W TableInsert bufs'
            (map ?own (table_items (gro_table_push k item ?t)) @ Os)"
          using tab' item(2) by (intro gro_post_insert [where P = "tcp_item_ok bufs0 offset item", OF inv' n(1) item(3)])
            (simp add: mset_items_push tcp_table_ok_def)
        then show ?thesis using run None item by auto
      qed
    qed
  qed
qed

section \<open>One UDP packet\<close>

lemma udp_item_okD:
  assumes "udp_item_ok bufs0 offset item b ps"
  shows "unat (ui_iph_len item) = ip_len (uk_is_v6 (ui_key item))"
    "group_ok bufs0 offset (unat (ui_iph_len item) + UDP_H_LEN) (unat (ui_gso_size item))
      (unat (ui_num_merged item)) (unat (ui_bufs_index item)) b ps"
    "same_header offset (unat (ui_iph_len item) + UDP_H_LEN) {} b (bufs0 ! hd ps)"
    "head_ok bufs0 offset (uk_is_v6 (ui_key item)) None (hd ps)"
  using assms unfolding udp_item_ok_def Let_def ip_len_def by blast+

lemma udp_item_okI:
  assumes "unat (ui_iph_len item) = ip_len (uk_is_v6 (ui_key item))"
    "h = unat (ui_iph_len item) + UDP_H_LEN"
    "group_ok bufs0 offset h (unat (ui_gso_size item)) (unat (ui_num_merged item)) (unat (ui_bufs_index item)) b ps"
    "same_header offset h {} b (bufs0 ! hd ps)"
    "head_ok bufs0 offset (uk_is_v6 (ui_key item)) None (hd ps)"
  shows "udp_item_ok bufs0 offset item b ps"
  using assms unfolding udp_item_ok_def Let_def ip_len_def by simp

definition udp_current :: "gbuf list \<Rightarrow> nat \<Rightarrow> nat \<Rightarrow> udp_packet \<Rightarrow> bool \<Rightarrow> bool" where
  "udp_current bufs0 offset n p v6 \<longleftrightarrow> n < length bufs0 \<and> length bufs0 \<le> 65535
     \<and> offset < length (buf_bytes (bufs0 ! n)) \<and> udp_packet_ok p (drop offset (buf_bytes (bufs0 ! n))) v6"

lemma udp_currentD:
  assumes "udp_current bufs0 offset n p v6" "h = ip_len v6 + UDP_H_LEN"
  shows "payload bufs0 offset h n = drop h (drop offset (buf_bytes (bufs0 ! n)))"
    "length (payload bufs0 offset h n) = unat (up_gso_size p)" "0 < unat (up_gso_size p)"
    "head_ok bufs0 offset v6 None n"
  using assms by (auto simp: udp_current_def udp_packet_ok_def payload_def head_ok_def add.commute)

lemma udp_merge_outcome:
  fixes bufs :: "gbuf list"
  assumes item: "udp_item_ok bufs0 offset item (bufs ! unat (ui_bufs_index item)) ps"
    and j: "unat (ui_bufs_index item) < length bufs"
    and cur: "udp_current bufs0 offset n p v6"
    and key: "uk_is_v6 (ui_key item) = v6" and lps: "length ps < 65535"
  defines "pkt \<equiv> drop offset (buf_bytes (bufs0 ! n))" and "j \<equiv> unat (ui_bufs_index item)"
  shows "\<exists>c. udp_packets_can_coalesce pkt (of_nat (up_iph_len p)) (up_gso_size p) item bufs offset = Ok c
    \<and> (c = Append \<longrightarrow> (\<exists>res item' bufs'. coalesce_udp_packets pkt item bufs offset v6 = Ok (res, item', bufs')
        \<and> (if res = Success then ui_key item' = ui_key item \<and> ui_bufs_index item' = ui_bufs_index item
             \<and> (\<exists>b. bufs' = bufs[j := b] \<and> udp_item_ok bufs0 offset item' b (ps @ [n]))
           else item' = item \<and> bufs' = bufs)))"
proof -
  let ?b = "buf_bytes (bufs ! j)"
  define h where "h = unat (ui_iph_len item) + UDP_H_LEN"
  note I = udp_item_okD [OF item, folded h_def j_def]
  note G = group_okD [OF I(2)]
  have ih: "unat (ui_iph_len item) = ip_len v6" using I(1) key by simp
  then have h: "h = ip_len v6 + UDP_H_LEN" by (simp add: h_def)
  note C = udp_currentD [OF cur h]
  have P: "up_iph_len p = ip_len v6" "h < length pkt" "offset < length (buf_bytes (bufs0 ! n))"
    using cur by (auto simp: udp_current_def udp_packet_ok_def h pkt_def)
  have pl: "drop h pkt = payload bufs0 offset h n" by (simp add: pkt_def C(1))
  have u: "unat (of_nat (up_iph_len p) :: byte) + UDP_H_LEN = h"
    using P(1) ip_len_cases [of v6] by (auto simp: h unat_of_nat)
  have at: "packet_at bufs j offset = Ok (drop offset ?b)"
    using j G(3) by (intro packet_at_Ok) (simp_all add: j_def)
  have bl: "h \<le> length (drop offset ?b)" using G(3) by simp
  have d: "drop h (drop offset ?b) = drop (offset + h) ?b" by (simp add: add.commute)
  have g: "ui_gso_size item \<noteq> 0" using G(4) by auto
  have can: "udp_packets_can_coalesce pkt (of_nat (up_iph_len p)) (up_gso_size p) item bufs offset =
    Ok (if \<not> ip_headers_can_coalesce pkt (drop offset ?b) then Unavailable
        else if length (drop (offset + h) ?b) mod unat (ui_gso_size item) \<noteq> 0 then Unavailable
        else if up_gso_size p > ui_gso_size item then Unavailable else Append)"
    unfolding udp_packets_can_coalesce_def j_def [symmetric] at bind_res_simps u d
    using bl g by (simp add: ensure_def)
  obtain v1 where v1: "checksum_valid (drop offset ?b) (ui_iph_len item) IPPROTO_UDP v6 = Ok v1"
    using checksum_valid_Ok [of v6 "ui_iph_len item" "drop offset ?b"] ih bl by (auto simp: h)
  obtain v2 where v2: "checksum_valid pkt (ui_iph_len item) IPPROTO_UDP v6 = Ok v2"
    using checksum_valid_Ok [of v6 "ui_iph_len item" pkt] ih P(2) by (auto simp: h)
  let ?new = "buf_extend_from_slice (bufs ! j) (drop h pkt)"
  let ?item = "item\<lparr>ui_num_merged := ui_num_merged item + 1\<rparr>"
  let ?cap = "buf_capacity (bufs ! j) < offset * 2 + (length (drop offset ?b) + length pkt - h)"
  have co: "coalesce_udp_packets pkt item bufs offset v6 = (if ?cap then Ok (InsufficientCap, item, bufs)
      else if \<not> (ui_num_merged item = 0 \<longrightarrow> \<not> ui_c_sum_known_invalid item \<and> v1) then Ok (ItemInvalidCSum, item, bufs)
      else if \<not> v2 then Ok (PktInvalidCSum, item, bufs)
      else Ok (Success, ?item, bufs[j := ?new]))"
    unfolding coalesce_udp_packets_def Let_def j_def [symmetric] at bind_res_simps h_def [symmetric] v1 v2
    using P(2) by (simp add: ensure_def)
  have fin: "udp_item_ok bufs0 offset ?item ?new (ps @ [n])"
    if "length (drop (offset + h) ?b) mod unat (ui_gso_size item) = 0" "\<not> up_gso_size p > ui_gso_size item"
  proof (rule udp_item_okI [where h = h])
    have "unat (ui_num_merged item) + 1 < 65536" using G(2) lps by simp
    then have nm: "unat (ui_num_merged item + 1) = unat (ui_num_merged item) + 1" by (rule unat_succ_u16)
    have "drop (offset + h) (buf_bytes ?new) = drop (offset + h) ?b @ payload bufs0 offset h n"
      using G(3) pl by (simp add: buf_extend_from_slice_def)
    moreover have "0 < length (payload bufs0 offset h n)"
      "length (payload bufs0 offset h n) \<le> unat (ui_gso_size item)"
      using that(2) C(3) unfolding C(2) by (simp_all add: not_less word_le_nat_alt)
    ultimately show "group_ok bufs0 offset h (unat (ui_gso_size ?item)) (unat (ui_num_merged ?item))
        (unat (ui_bufs_index ?item)) ?new (ps @ [n])"
      using group_append [OF I(2) that(1), of ?new n] P(3) nm by (simp flip: j_def)
    have "same_header offset h {} ?new (bufs ! j)"
      using G(3) by (intro same_headerI) (auto simp: buf_extend_from_slice_def nth_append)
    then show "same_header offset h {} ?new (bufs0 ! hd (ps @ [n]))"
      using same_header_trans [OF _ I(3)] G(1) by simp
  qed (use I(1,4) G(1) in \<open>simp_all add: h_def\<close>)
  show ?thesis using fin by (auto simp: can co)
qed

definition udp_table_ok :: "UdpGROTable \<Rightarrow> bool" where
  "udp_table_ok t \<longleftrightarrow> gro_table_ok t \<and> gro.every_item (\<lambda>k it. ui_key it = k) t \<and> gro.no_empty_flow t"

lemma UdpFlowKey_new_Ok:
  assumes "ip_len v6 + 4 \<le> length pkt"
  shows "\<exists>k. UdpFlowKey_new pkt (fst (addr_at v6)) (fst (addr_at v6) + snd (addr_at v6)) (ip_len v6) = Ok k
    \<and> uk_is_v6 k = v6"
  using assms addr_at_bounds [of v6] by (auto simp: UdpFlowKey_new_def Let_def ensure_def)

lemma udp_table_insert_ok:
  assumes cur: "udp_current bufs0 offset n p v6" and tab: "udp_table_ok table"
    and key: "UdpFlowKey_new (drop offset (buf_bytes (bufs0 ! n))) src dst (ip_len v6) = Ok k" "uk_is_v6 k = v6"
  shows "\<exists>item. udp_table_insert (drop offset (buf_bytes (bufs0 ! n))) src dst (up_iph_len p) n invalid table
      = Ok (gro_table_push k item table)
    \<and> udp_owner bufs0 offset item = (n, udp_item_ok bufs0 offset item)
    \<and> udp_item_ok bufs0 offset item (bufs0 ! n) [n]
    \<and> udp_table_ok (gro_table_push k item table)"
proof -
  let ?pkt = "drop offset (buf_bytes (bufs0 ! n))"
  have C: "n < 65535" "offset < length (buf_bytes (bufs0 ! n))" "udp_packet_ok p ?pkt v6"
    using cur by (auto simp: udp_current_def)
  then have P: "length ?pkt \<le> 65535" "up_iph_len p = ip_len v6" "up_iph_len p + UDP_H_LEN < length ?pkt"
    unfolding udp_packet_ok_def by blast+
  define item where "item = \<lparr>ui_key = k, ui_bufs_index = of_nat n, ui_num_merged = 0,
     ui_gso_size = of_nat (length ?pkt - (ip_len v6 + UDP_H_LEN)),
     ui_iph_len = of_nat (ip_len v6), ui_c_sum_known_invalid = invalid\<rparr>"
  have i: "udp_table_insert ?pkt src dst (up_iph_len p) n invalid table = Ok (gro_table_push k item table)"
    using P C(1) ip_len_cases [of v6] key by (auto simp: udp_table_insert_def item_def ensure_def)
  have u: "unat (ui_bufs_index item) = n" "unat (ui_iph_len item) = ip_len v6"
    using C(1) ip_len_cases [of v6] by (auto simp: item_def unat_of_nat)
  have g: "unat (ui_gso_size item) = length (buf_bytes (bufs0 ! n)) - (offset + (ip_len v6 + UDP_H_LEN))"
    using P(1) by (simp add: item_def unat_of_nat)
  have "udp_item_ok bufs0 offset item (bufs0 ! n) [n]"
  proof (rule udp_item_okI [where h = "ip_len v6 + UDP_H_LEN"])
    show "group_ok bufs0 offset (ip_len v6 + UDP_H_LEN) (unat (ui_gso_size item)) (unat (ui_num_merged item))
        (unat (ui_bufs_index item)) (bufs0 ! n) [n]"
      using single_group [OF _ g] P(2,3) u(1) by (simp add: item_def)
  qed (use P u key(2) udp_currentD(4) [OF cur refl] in \<open>simp_all add: item_def same_header_def\<close>)
  moreover have "udp_table_ok (gro_table_push k item table)"
    using tab by (simp add: udp_table_ok_def gro.ok_push gro.every_item_push gro.no_empty_flow_push item_def)
  ultimately show ?thesis using i u(1) by (auto simp: udp_owner_def)
qed

lemma udp_gro_ok:
  assumes cand: "candidate (drop offset (buf_bytes (bufs0 ! n))) v6"
    and n: "n < length bufs0" "length bufs0 \<le> 65535"
    and off: "offset < length (buf_bytes (bufs0 ! n))"
    and tab: "udp_table_ok table"
    and inv: "gro_inv bufs0 offset n bufs W (map (udp_owner bufs0 offset) (table_items table) @ Os) parts"
  shows "\<exists>r bufs' table'. udp_gro bufs offset n table v6 = Ok (r, bufs', table') \<and> udp_table_ok table'
    \<and> gro_post bufs0 offset n W r bufs' (map (udp_owner bufs0 offset) (table_items table') @ Os)"
proof -
  let ?own = "udp_owner bufs0 offset" and ?pkt = "drop offset (buf_bytes (bufs0 ! n))"
  note D = gro_invD [OF inv]
  have bn: "bufs ! n = bufs0 ! n" using D(3) [of n] n by simp
  have at: "packet_at bufs n offset = Ok ?pkt"
    using n off D(1) bn by (simp add: packet_at_def ensure_def)
  have a: "(if v6 then (IPV6_SRC_ADDR_OFFSET, 16) else (IPV4_SRC_ADDR_OFFSET, 4)) = addr_at v6"
    by (simp add: addr_at_def)
  define src where "src = fst (addr_at v6)"
  define dst where "dst = fst (addr_at v6) + snd (addr_at v6)"
  have a': "addr_at v6 = (src, dst - src)" "src \<le> dst" by (simp_all add: src_def dst_def)
  from udp_gro_check_candidate [OF cand] consider "udp_gro_check ?pkt v6 = Ok None"
    | p where "udp_gro_check ?pkt v6 = Ok (Some p)" "udp_packet_ok p ?pkt v6" by auto
  then show ?thesis
  proof cases
    case 1
    then have "udp_gro bufs offset n table v6 = Ok (Noop, bufs, table)" by (simp add: udp_gro_def at)
    then show ?thesis using tab inv by (auto simp: gro_post_def)
  next
    case (2 p)
    have cur: "udp_current bufs0 offset n p v6" using 2(2) n off by (simp add: udp_current_def)
    have pb: "up_iph_len p = ip_len v6" using 2(2) by (simp_all add: udp_packet_ok_def)
    have "ip_len v6 + 4 \<le> length ?pkt" using 2(2) by (auto simp: udp_packet_ok_def UDP_H_LEN_def)
    then obtain k where k: "UdpFlowKey_new ?pkt src dst (ip_len v6) = Ok k" "uk_is_v6 k = v6"
      using UdpFlowKey_new_Ok [of v6 ?pkt] by (auto simp: src_def dst_def)
    note ins = udp_table_insert_ok [OF cur _ k, unfolded pb]
    show ?thesis
    proof (cases "flow_items table k")
      case None
      obtain item where item: "udp_table_insert ?pkt src dst (ip_len v6) n False table
          = Ok (gro_table_push k item table)" "?own item = (n, udp_item_ok bufs0 offset item)"
        "udp_item_ok bufs0 offset item (bufs0 ! n) [n]" "udp_table_ok (gro_table_push k item table)"
        using ins [OF tab] by blast
      have "udp_gro bufs offset n table v6 = Ok (TableInsert, bufs, gro_table_push k item table)"
        using 2(1) a' None k item(1)
        by (simp add: udp_gro_def at a udp_lookup_or_insert_def pb)
      moreover have "gro_post bufs0 offset n W TableInsert bufs
          (map ?own (table_items (gro_table_push k item table)) @ Os)"
        using tab item(2) by (intro gro_post_insert [where P = "udp_item_ok bufs0 offset item", OF inv n(1) item(3)])
          (simp add: mset_items_push udp_table_ok_def)
      ultimately show ?thesis using item(4) by blast
    next
      case (Some items)
      have tok: "gro_table_ok table" and ne: "items \<noteq> []"
        using tab Some by (auto simp: udp_table_ok_def gro.no_empty_flow_def)
      obtain xs ys where T: "table_items table = xs @ items @ ys"
        "\<And>new. table_items (gro_table_set k new table) = xs @ new @ ys"
        using table_items_set [OF tok Some] by blast
      define item rest where "item = last items" and "rest = butlast items"
      have items: "items = rest @ [item]" using ne by (simp add: item_def rest_def)
      let ?j = "unat (ui_bufs_index item)"
      define Os' where "Os' = map ?own (xs @ rest @ ys) @ Os"
      have perm: "mset (map ?own (xs @ (rest @ [it]) @ ys) @ Os) = mset (?own it # Os')" for it
        by (simp add: Os'_def)
      have inv1: "gro_inv bufs0 offset n bufs W ((?j, udp_item_ok bufs0 offset item) # Os') parts"
        using inv unfolding T(1) items by (rule gro_inv_perm) (simp only: perm, simp add: udp_owner_def)
      note D1 = gro_invD [OF inv1] and F = gro_inv_fresh [OF inv1]
      have keys: "ui_key it = k" if "it \<in> set items" for it
        using tab Some that by (auto simp: udp_table_ok_def gro.every_item_def)
      have jW: "?j \<in> set W" and io: "udp_item_ok bufs0 offset item (bufs ! ?j) (parts ?j)"
        using D1(9) [of ?j "udp_item_ok bufs0 offset item"] by simp_all
      have j: "?j < length bufs" "?j \<noteq> n" using F(3) [OF jW] by simp_all
      have key: "uk_is_v6 (ui_key item) = v6" using keys [of item] k(2) items by simp
      have lps: "length (parts ?j) < 65535"
        using gro_inv_parts_length [OF inv1 jW] n by simp
      obtain c where c: "udp_packets_can_coalesce ?pkt (of_nat (up_iph_len p)) (up_gso_size p) item bufs offset = Ok c"
        and co: "c = Append \<Longrightarrow> \<exists>res item' bufs'. coalesce_udp_packets ?pkt item bufs offset v6 = Ok (res, item', bufs')
          \<and> (if res = Success then ui_key item' = ui_key item \<and> ui_bufs_index item' = ui_bufs_index item
             \<and> (\<exists>b. bufs' = bufs[?j := b] \<and> udp_item_ok bufs0 offset item' b (parts ?j @ [n]))
           else item' = item \<and> bufs' = bufs)"
        using udp_merge_outcome [OF io j(1) cur key lps] by blast
      obtain res item' bufs' where o: "(if c = Append then coalesce_udp_packets ?pkt item bufs offset v6
          else Ok (InsufficientCap, item, bufs)) = Ok (res, item', bufs')"
        and post: "if res = Success then ui_key item' = ui_key item \<and> ui_bufs_index item' = ui_bufs_index item
             \<and> (\<exists>b. bufs' = bufs[?j := b] \<and> udp_item_ok bufs0 offset item' b (parts ?j @ [n]))
           else item' = item \<and> bufs' = bufs"
        using co by (cases "c = Append") fastforce+
      let ?t = "gro_table_set k (rest @ [item']) table"
      have "ui_key item' = k" using post keys [of item] items by (auto split: if_splits)
      then have "ui_key it = k" if "it \<in> set (rest @ [item'])" for it
      proof -
        from that consider "it \<in> set rest" | "it = item'" by auto
        then show ?thesis
        proof cases
          case 1
          then show ?thesis using keys [of it] by (simp add: items)
        qed (use \<open>ui_key item' = k\<close> in simp)
      qed
      then have tab': "udp_table_ok ?t"
      proof -
        assume all: "\<And>it. it \<in> set (rest @ [item']) \<Longrightarrow> ui_key it = k"
        have t: "gro_table_ok table" "gro.every_item (\<lambda>k it. ui_key it = k) table" "gro.no_empty_flow table"
          using tab unfolding udp_table_ok_def by blast+
        show ?thesis
          unfolding udp_table_ok_def
          by (intro conjI gro.ok_set gro.every_item_set gro.no_empty_flow_set t all) simp_all
      qed
      have run: "udp_gro bufs offset n table v6 = (if res = Success then Ok (Coalesced, bufs', ?t)
          else bind_res (packet_at bufs' n offset) (\<lambda>pkt.
            bind_res (udp_table_insert pkt src dst (ip_len v6) n (res = PktInvalidCSum) ?t)
              (\<lambda>table. Ok (TableInsert, bufs', table))))"
      proof (cases "c = Append")
        case True
        then show ?thesis using 2(1) a' Some k c o ne
          by (simp add: udp_gro_def at a udp_lookup_or_insert_def pb Let_def ensure_def flip: item_def rest_def)
      next
        case False
        then have "res = InsufficientCap" "item' = item" "bufs' = bufs" using o by simp_all
        then show ?thesis using 2(1) a' Some k c ne False
          by (simp add: udp_gro_def at a udp_lookup_or_insert_def pb Let_def ensure_def flip: item_def rest_def)
      qed
      show ?thesis
      proof (cases "res = Success")
        case True
        then obtain b where b: "bufs' = bufs[?j := b]" "udp_item_ok bufs0 offset item' b (parts ?j @ [n])"
          "ui_bufs_index item' = ui_bufs_index item" using post by auto
        have "gro_inv bufs0 offset (Suc n) bufs' W ((?j, udp_item_ok bufs0 offset item') # Os')
            (parts(?j := parts ?j @ [n]))"
          using b j by (intro gro_inv_merge [OF inv1 n(1)]) auto
        then have "gro_inv bufs0 offset (Suc n) bufs' W (map ?own (table_items ?t) @ Os)
            (parts(?j := parts ?j @ [n]))"
          unfolding T(2) using b(3) by (rule_tac gro_inv_perm) (auto simp only: perm, simp add: udp_owner_def)
        then have "gro_post bufs0 offset n W Coalesced bufs' (map ?own (table_items ?t) @ Os)"
          by (auto simp: gro_post_def)
        then show ?thesis using run tab' True by auto
      next
        case False
        then have same: "item' = item" "bufs' = bufs" using post by auto
        obtain it where it: "udp_table_insert ?pkt src dst (ip_len v6) n (res = PktInvalidCSum) ?t
            = Ok (gro_table_push k it ?t)" "?own it = (n, udp_item_ok bufs0 offset it)"
          "udp_item_ok bufs0 offset it (bufs0 ! n) [n]" "udp_table_ok (gro_table_push k it ?t)"
          using ins [OF tab'] by blast
        have inv': "gro_inv bufs0 offset n bufs W (map ?own (table_items ?t) @ Os) parts"
          using inv unfolding T same items .
        have "gro_post bufs0 offset n W TableInsert bufs (map ?own (table_items (gro_table_push k it ?t)) @ Os)"
          using tab' it(2) by (intro gro_post_insert [where P = "udp_item_ok bufs0 offset it", OF inv' n(1) it(3)])
            (simp add: mset_items_push udp_table_ok_def)
        then show ?thesis using run False it at same by auto
      qed
    qed
  qed
qed

end
