(* ===== verification/GsoSplit.thy ===== *)
theory GsoSplit
  imports Checksum VirtioHdr
begin

text \<open>
  Segmentation of what the kernel delivers (\<open>src/platform/linux/offload.rs\<close>): \<open>gso_none_checksum\<close>
  completes the checksum of a packet that is not segmented, \<open>gso_split\<close> cuts a GSO packet into
  segments.  The source's \<open>while\<close> loop is \<open>gso_loop\<close>, one pass of it is \<open>gso_segment\<close>; the values
  the loop only reads are the record \<open>gso_job\<close>.
\<close>

section \<open>A packet without GSO\<close>

definition gso_none_checksum :: "byte list \<Rightarrow> u16 \<Rightarrow> u16 \<Rightarrow> byte list res" where
  "gso_none_checksum in_buf start offset =
     (let start = unat start;
          csum_at = start + unat offset
      in if start > length in_buf \<or> csum_at + 2 > length in_buf
         then invalid_input ''checksum offsets exceed packet length''
         else
           let initial = read_u16 in_buf csum_at;
               in_buf = in_buf[csum_at := 0, csum_at + 1 := 0];
               computed_checksum = checksum (drop start in_buf) (ucast initial)
           in Ok (write_u16 in_buf csum_at (NOT computed_checksum)))"

section \<open>Segmentation\<close>

record gso_job =
  job_input :: "byte list"       \<comment> \<open>the packet, its checksum fields cleared\<close>
  job_hdr :: VirtioNetHdr
  job_is_v6 :: bool
  job_out_offset :: nat
  job_protocol :: byte
  job_first_tcp_seq_num :: u32
  job_src_addr_bytes :: "byte list"
  job_dst_addr_bytes :: "byte list"

definition transport_csum_at :: "VirtioNetHdr \<Rightarrow> nat" where
  "transport_csum_at h = unat (csum_start h) + unat (csum_offset h)"

text \<open>The pseudo-header sum for a segment with that many bytes of data.\<close>

definition segment_csum_no_fold :: "gso_job \<Rightarrow> nat \<Rightarrow> u64" where
  "segment_csum_no_fold job segment_data_len =
     (let transport_header_len = unat (hdr_len (job_hdr job) - csum_start (job_hdr job));
          len_for_pseudo = of_nat (transport_header_len + segment_data_len)
      in pseudo_header_checksum_no_fold (job_protocol job) (job_src_addr_bytes job) (job_dst_addr_bytes job)
           len_for_pseudo)"

text \<open>The IP header of segment \<open>i\<close>: copied, then its length, ID and checksum updated.\<close>

definition gso_ip_header :: "gso_job \<Rightarrow> nat \<Rightarrow> nat \<Rightarrow> byte list \<Rightarrow> byte list" where
  "gso_ip_header job i total_len out =
     (let iph_len = unat (csum_start (job_hdr job));
          out = blit out 0 (take iph_len (job_input job))
      in if \<not> job_is_v6 job then
           let out = (if i > 0 then write_u16 out 4 (read_u16 out 4 + of_nat i) else out);
               out = write_u16 out 2 (of_nat total_len);
               ipv4_csum = NOT (checksum (take iph_len out) 0)
           in write_u16 out 10 ipv4_csum
         else write_u16 out 4 (of_nat (total_len - 40)))"

text \<open>The transport header of segment \<open>i\<close>: copied, then sequence number and flags, or the UDP length.\<close>

definition gso_transport_header :: "gso_job \<Rightarrow> nat \<Rightarrow> nat \<Rightarrow> nat \<Rightarrow> byte list \<Rightarrow> byte list" where
  "gso_transport_header job i next_segment_end segment_data_len out =
     (let h = job_hdr job;
          start = unat (csum_start h);
          out = blit out start (subslice start (unat (hdr_len h)) (job_input job))
      in if job_protocol job = IPPROTO_TCP then
           let tcp_seq = job_first_tcp_seq_num job + ucast (gso_size h) * of_nat i;
               out = write_u32 out (start + 4) tcp_seq
           in if next_segment_end \<noteq> length (job_input job)
              then out[start + TCP_FLAGS_OFFSET :=
                     out ! (start + TCP_FLAGS_OFFSET) AND NOT (TCP_FLAG_FIN OR TCP_FLAG_PSH)]
              else out
         else
           let udp_len = of_nat (segment_data_len + unat (hdr_len h - csum_start h))
           in write_u16 out (start + 4) udp_len)"

text \<open>One pass of the loop, on \<open>out = &mut out_bufs[i][out_offset..]\<close>.\<close>

definition gso_segment :: "gso_job \<Rightarrow> nat \<Rightarrow> nat \<Rightarrow> nat \<Rightarrow> byte list \<Rightarrow> byte list res" where
  "gso_segment job i next_segment_data_at next_segment_end out =
     (let h = job_hdr job;
          segment_data_len = next_segment_end - next_segment_data_at;
          total_len = unat (hdr_len h) + segment_data_len;
          out = gso_ip_header job i total_len out;
          out = gso_transport_header job i next_segment_end segment_data_len out;
          out = blit out (unat (hdr_len h)) (subslice next_segment_data_at next_segment_end (job_input job));
          transport_csum = NOT (checksum (subslice (unat (csum_start h)) total_len out)
            (segment_csum_no_fold job segment_data_len))
      in ensure (transport_csum_at h + 2 \<le> length out)
           (Ok (write_u16 out (transport_csum_at h) transport_csum)))"

text \<open>
  The loop stops because \<open>i\<close> grows and \<open>i = out_bufs.len()\<close> is an error.
\<close>

function gso_loop :: "gso_job \<Rightarrow> nat \<Rightarrow> nat \<Rightarrow> byte list list \<Rightarrow> nat list
    \<Rightarrow> (nat \<times> byte list list \<times> nat list) res" where
  "gso_loop job i next_segment_data_at out_bufs sizes =
     (if next_segment_data_at < length (job_input job) then
        if i = length out_bufs then invalid_input ''too many GSO segments''
        else if i < length out_bufs \<and> i < length sizes then
          let next_segment_end = next_segment_data_at + unat (gso_size (job_hdr job));
              next_segment_end = (if next_segment_end > length (job_input job)
                then length (job_input job) else next_segment_end);
              total_len = unat (hdr_len (job_hdr job)) + (next_segment_end - next_segment_data_at);
              sizes = sizes[i := total_len];
              out_buf = out_bufs ! i
          in if job_out_offset job > length out_buf \<or> length out_buf - job_out_offset job < total_len
             then invalid_input ''output buffer too small''
             else (case gso_segment job i next_segment_data_at next_segment_end
                          (drop (job_out_offset job) out_buf) of
                 Ok out \<Rightarrow>
                   gso_loop job (i + 1) (next_segment_data_at + unat (gso_size (job_hdr job)))
                     (out_bufs[i := take (job_out_offset job) out_buf @ out]) sizes
               | Err e \<Rightarrow> Err e
               | Panic \<Rightarrow> Panic)
        else Panic
      else Ok (i, out_bufs, sizes))"
  by pat_completeness auto
termination
  by (relation "measure (\<lambda>(_, i, _, out_bufs, _). length out_bufs - i)") auto

declare gso_loop.simps [simp del]

definition is_tcp_gso :: "VirtioNetHdr \<Rightarrow> bool" where
  "is_tcp_gso h \<longleftrightarrow> gso_type h = VIRTIO_NET_HDR_GSO_TCPV4 \<or> gso_type h = VIRTIO_NET_HDR_GSO_TCPV6"

text \<open>
  \<open>gso_split\<close>: the number of segments, the input with its checksum fields cleared, the output
  buffers and their sizes.
\<close>

definition gso_split :: "byte list \<Rightarrow> VirtioNetHdr \<Rightarrow> byte list list \<Rightarrow> nat list \<Rightarrow> nat \<Rightarrow> bool
    \<Rightarrow> (nat \<times> byte list \<times> byte list list \<times> nat list) res" where
  "gso_split inp h out_bufs sizes offset v6 =
     (if length sizes < length out_bufs then
        invalid_input ''sizes must be at least as long as out_bufs''
      else if length out_bufs > 65535 then invalid_input ''too many packet buffers''
      else if gso_size h = 0 then invalid_input ''virtioNetHdr.gsoSize must be non-zero''
      else if hdr_len h < csum_start h then
        invalid_input ''virtioNetHdr.hdrLen is smaller than csumStart''
      else if unat (csum_start h) < (if v6 then 40 else 20) then
        invalid_input ''virtioNetHdr.csumStart is smaller than the IP header''
      else if length inp < unat (hdr_len h) then
        invalid_input ''input shorter than virtioNetHdr.hdrLen''
      else if v6 \<and> length inp < 40 then invalid_input ''IPv6 packet is too short''
      else if \<not> v6 \<and> length inp < 20 then invalid_input ''IPv4 packet is too short''
      else
        let inp = (if v6 then inp else inp[10 := 0, 11 := 0]);
            src_addr_offset = (if v6 then IPV6_SRC_ADDR_OFFSET else IPV4_SRC_ADDR_OFFSET);
            addr_len = (if v6 then 16 else 4);
            csum_at = transport_csum_at h
        in if csum_at + 1 \<ge> length inp then invalid_input ''checksum offset exceeds input length''
        else
          let inp = inp[csum_at := 0, csum_at + 1 := 0]
          in if is_tcp_gso h \<and> (unat (hdr_len h) < unat (csum_start h) + 20
               \<or> unat (csum_start h) + TCP_FLAGS_OFFSET + 1 > length inp) then
            invalid_input ''TCP header is too short''
          else if \<not> is_tcp_gso h \<and> unat (hdr_len h) < unat (csum_start h) + UDP_H_LEN then
            invalid_input ''UDP header is too short''
          else if src_addr_offset + 2 * addr_len > length inp then
            invalid_input ''packet addresses exceed input length''
          else
            let job = \<lparr>job_input = inp, job_hdr = h, job_is_v6 = v6, job_out_offset = offset,
                  job_protocol = (if is_tcp_gso h then IPPROTO_TCP else IPPROTO_UDP),
                  job_first_tcp_seq_num =
                    (if is_tcp_gso h then read_u32 inp (unat (csum_start h) + 4) else 0),
                  job_src_addr_bytes = subslice src_addr_offset (src_addr_offset + addr_len) inp,
                  job_dst_addr_bytes =
                    subslice (src_addr_offset + addr_len) (src_addr_offset + 2 * addr_len) inp\<rparr>
            in bind_res (gso_loop job 0 (unat (hdr_len h)) out_bufs sizes)
                 (\<lambda>(i, out_bufs, sizes). Ok (i, inp, out_bufs, sizes)))"

end
