(* ===== verification/GsoSpec.thy ===== *)
theory GsoSpec
  imports GsoSplit
begin

text \<open>
  What \<open>gso_split\<close> promises.  \<open>gso_segment_bytes\<close> gives the bytes of a segment as a function of
  the packet and the header; the loop places exactly these bytes into the buffers
  (\<open>gso_loop_eq\<close>), and the properties at the end read the segments back from the buffers.
\<close>

section \<open>What a segment is\<close>

text \<open>
  The bytes of segment \<open>i\<close>, over input range \<open>a..b\<close>, as a function of the job alone: IP header,
  transport header, data.
\<close>

definition gso_ip_bytes :: "gso_job \<Rightarrow> nat \<Rightarrow> nat \<Rightarrow> byte list" where
  "gso_ip_bytes job i total_len =
     (let iph_len = unat (csum_start (job_hdr job));
          ip = take iph_len (job_input job)
      in if \<not> job_is_v6 job then
           let ip = (if i > 0 then write_u16 ip 4 (read_u16 ip 4 + of_nat i) else ip);
               ip = write_u16 ip 2 (of_nat total_len)
           in write_u16 ip 10 (NOT (checksum ip 0))
         else write_u16 ip 4 (of_nat (total_len - 40)))"

definition gso_transport_bytes :: "gso_job \<Rightarrow> nat \<Rightarrow> nat \<Rightarrow> nat \<Rightarrow> byte list" where
  "gso_transport_bytes job i next_segment_end segment_data_len =
     (let h = job_hdr job;
          th = subslice (unat (csum_start h)) (unat (hdr_len h)) (job_input job)
      in if job_protocol job = IPPROTO_TCP then
           let th = write_u32 th 4 (job_first_tcp_seq_num job + ucast (gso_size h) * of_nat i)
           in if next_segment_end \<noteq> length (job_input job)
              then th[TCP_FLAGS_OFFSET := th ! TCP_FLAGS_OFFSET AND NOT (TCP_FLAG_FIN OR TCP_FLAG_PSH)]
              else th
         else write_u16 th 4 (of_nat (segment_data_len + unat (hdr_len h - csum_start h))))"

definition gso_segment_bytes :: "gso_job \<Rightarrow> nat \<Rightarrow> nat \<Rightarrow> nat \<Rightarrow> byte list" where
  "gso_segment_bytes job i a b =
     (let h = job_hdr job;
          data = subslice a b (job_input job);
          th = gso_transport_bytes job i b (b - a);
          csum = NOT (checksum (th @ data) (segment_csum_no_fold job (b - a)))
      in gso_ip_bytes job i (unat (hdr_len h) + (b - a))
         @ write_u16 th (unat (csum_offset h)) csum @ data)"

text \<open>What the checks of \<open>gso_split\<close> establish, and that the checksum field is in the header.\<close>

definition job_ok :: "gso_job \<Rightarrow> bool" where
  "job_ok job \<longleftrightarrow>
     (let h = job_hdr job; start = unat (csum_start h); hl = unat (hdr_len h) in
       gso_size h \<noteq> 0 \<and> (if job_is_v6 job then 40 else 20) \<le> start
       \<and> start + (if job_protocol job = IPPROTO_TCP then 20 else 8) \<le> hl
       \<and> hl \<le> length (job_input job)
       \<and> start + unat (csum_offset h) + 2 \<le> hl)"

lemma job_okD:
  assumes "job_ok job"
  shows "gso_size (job_hdr job) \<noteq> 0"
    and "20 \<le> unat (csum_start (job_hdr job))"
    and "job_is_v6 job \<Longrightarrow> 40 \<le> unat (csum_start (job_hdr job))"
    and "unat (csum_start (job_hdr job)) + 8 \<le> unat (hdr_len (job_hdr job))"
    and "job_protocol job = IPPROTO_TCP \<Longrightarrow> unat (csum_start (job_hdr job)) + 20 \<le> unat (hdr_len (job_hdr job))"
    and "unat (hdr_len (job_hdr job)) \<le> length (job_input job)"
    and "unat (csum_start (job_hdr job)) + unat (csum_offset (job_hdr job)) + 2 \<le> unat (hdr_len (job_hdr job))"
  using assms by (auto simp: job_ok_def Let_def split: if_splits)

lemma unat_hdr_minus:
  assumes "job_ok job"
  shows "unat (hdr_len (job_hdr job) - csum_start (job_hdr job))
    = unat (hdr_len (job_hdr job)) - unat (csum_start (job_hdr job))"
proof -
  have "csum_start (job_hdr job) \<le> hdr_len (job_hdr job)"
    using job_okD(4) [OF assms] by (simp add: word_le_nat_alt)
  then show ?thesis by (rule unat_sub)
qed

lemma length_gso_ip_bytes [simp]:
  assumes "job_ok job"
  shows "length (gso_ip_bytes job i t) = unat (csum_start (job_hdr job))"
proof -
  define ip where "ip = take (unat (csum_start (job_hdr job))) (job_input job)"
  have "length ip = unat (csum_start (job_hdr job))" "20 \<le> length ip"
    using job_okD [OF assms] by (simp_all add: ip_def)
  then show ?thesis by (simp add: gso_ip_bytes_def Let_def flip: ip_def)
qed

lemma length_gso_transport_bytes [simp]:
  assumes "job_ok job"
  shows "length (gso_transport_bytes job i e l)
    = unat (hdr_len (job_hdr job)) - unat (csum_start (job_hdr job))"
proof -
  define th where "th = subslice (unat (csum_start (job_hdr job))) (unat (hdr_len (job_hdr job))) (job_input job)"
  have "length th = unat (hdr_len (job_hdr job)) - unat (csum_start (job_hdr job))" "8 \<le> length th"
    using job_okD [OF assms] by (simp_all add: th_def)
  then show ?thesis by (simp add: gso_transport_bytes_def Let_def flip: th_def)
qed

lemma gso_ip_header_eq:
  assumes "job_ok job" "unat (csum_start (job_hdr job)) \<le> length out"
  shows "gso_ip_header job i t out = gso_ip_bytes job i t @ drop (unat (csum_start (job_hdr job))) out"
proof -
  let ?n = "unat (csum_start (job_hdr job))"
  have n: "?n \<le> length (job_input job)" "20 \<le> ?n"
    using job_okD [OF assms(1)] by simp_all
  have b: "blit out 0 (take ?n (job_input job)) = take ?n (job_input job) @ drop ?n out"
    using n assms(2) by (simp add: blit_whole_prefix min_def)
  show ?thesis
    using n by (simp add: gso_ip_header_def gso_ip_bytes_def Let_def b append_access min_def)
qed

lemma gso_transport_header_eq:
  assumes "job_ok job" "length p = unat (csum_start (job_hdr job))"
    and "unat (hdr_len (job_hdr job)) - unat (csum_start (job_hdr job)) \<le> length q"
  shows "gso_transport_header job i e l (p @ q) = p @ gso_transport_bytes job i e l
    @ drop (unat (hdr_len (job_hdr job)) - unat (csum_start (job_hdr job))) q"
proof -
  let ?s = "unat (csum_start (job_hdr job))"
  define th where "th = subslice ?s (unat (hdr_len (job_hdr job))) (job_input job)"
  have len: "length th = unat (hdr_len (job_hdr job)) - ?s" "8 \<le> length th"
    and tcp: "job_protocol job = IPPROTO_TCP \<Longrightarrow> 20 \<le> length th"
    using job_okD [OF assms(1)] by (simp_all add: th_def)
  have b: "blit (p @ q) ?s th = p @ th @ drop (length th) q"
    using blit_append_right [of p q 0 th] assms len by (simp add: blit_whole_prefix)
  have w32: "write_u32 (p @ th @ r) (?s + 4) v = p @ write_u32 th 4 v @ r" for v r
    using len write_u32_append_right [of p "th @ r" 4 v] assms(2) by (simp add: write_u32_append_left)
  have w16: "write_u16 (p @ th @ r) (?s + 4) v = p @ write_u16 th 4 v @ r" for v r
    using len write_u16_append_right [of p "th @ r" 4 v] assms(2) by (simp add: write_u16_append_left)
  have nth: "(p @ x @ r) ! (?s + 13) = x ! 13" "(p @ x @ r)[?s + 13 := v] = p @ x[13 := v] @ r"
    if "20 \<le> length x" for x r v
    using that assms(2) by (simp_all add: nth_append list_update_append)
  show ?thesis
  proof (cases "job_protocol job = IPPROTO_TCP")
    case True
    have "20 \<le> length (write_u32 th 4 v)" for v using tcp [OF True] by simp
    note this [THEN nth(1)] this [THEN nth(2)]
    with True show ?thesis
      using len by (simp add: gso_transport_header_def gso_transport_bytes_def Let_def b w32
          TCP_FLAGS_OFFSET_def flip: th_def)
  next
    case False
    then show ?thesis
      using len by (simp add: gso_transport_header_def gso_transport_bytes_def Let_def b w16 flip: th_def)
  qed
qed

text \<open>One pass of the loop writes exactly the segment, whatever the buffer held.\<close>

lemma gso_segment_eq:
  assumes ok: "job_ok job" and ab: "a \<le> b" "b \<le> length (job_input job)"
    and len: "unat (hdr_len (job_hdr job)) + (b - a) \<le> length out"
  shows "gso_segment job i a b out =
    Ok (gso_segment_bytes job i a b @ drop (unat (hdr_len (job_hdr job)) + (b - a)) out)"
proof -
  let ?s = "unat (csum_start (job_hdr job))" and ?h = "unat (hdr_len (job_hdr job))"
  let ?off = "unat (csum_offset (job_hdr job))"
  let ?ip = "gso_ip_bytes job i (?h + (b - a))" and ?th = "gso_transport_bytes job i b (b - a)"
  let ?data = "subslice a b (job_input job)" and ?rest = "drop (?h + (b - a)) out"
  have hs: "?s + 8 \<le> ?h" "?s + ?off + 2 \<le> ?h" using job_okD [OF ok] by simp_all
  have l: "length ?ip = ?s" "length ?th = ?h - ?s" "length ?data = b - a" using ok ab by simp_all
  have 1: "gso_ip_header job i (?h + (b - a)) out = ?ip @ drop ?s out"
    using ok len hs by (intro gso_ip_header_eq) simp_all
  have 2: "gso_transport_header job i b (b - a) (?ip @ drop ?s out) = ?ip @ ?th @ drop ?h out"
  proof -
    have "?h \<le> length out" using len by simp
    then have "?h - ?s \<le> length (drop ?s out)" by (simp add: diff_le_mono)
    then show ?thesis using ok l hs by (simp add: gso_transport_header_eq)
  qed
  have 3: "blit (?ip @ ?th @ drop ?h out) ?h ?data = ?ip @ ?th @ ?data @ ?rest"
    using blit_append_right [of "?ip @ ?th" "drop ?h out" 0 ?data] l hs len
    by (simp add: blit_whole_prefix add.commute)
  have 4: "subslice ?s (?h + (b - a)) (?ip @ ?th @ ?data @ ?rest) = ?th @ ?data"
    using l hs diff_le_mono [of ?h "?h + (b - a)" ?s] by (simp add: subslice_def)
  have 5: "write_u16 (?ip @ ?th @ ?data @ ?rest) (?s + ?off) c = ?ip @ write_u16 ?th ?off c @ ?data @ ?rest" for c
    using write_u16_append_right [of ?ip "?th @ ?data @ ?rest" ?off c] l hs
    by (simp add: write_u16_append_left)
  show ?thesis
    using l hs len by (simp add: gso_segment_def Let_def 1 2 3 4 5 transport_csum_at_def
        gso_segment_bytes_def ensure_def)
qed

lemma length_gso_segment_bytes [simp]:
  assumes "job_ok job" "a \<le> b" "b \<le> length (job_input job)"
  shows "length (gso_segment_bytes job i a b) = unat (hdr_len (job_hdr job)) + (b - a)"
proof -
  show ?thesis using assms job_okD [OF assms(1)] by (simp add: gso_segment_bytes_def Let_def)
qed


section \<open>The loop\<close>

text \<open>Segment \<open>k\<close> covers the input from \<open>segment_start job k\<close> up to \<open>segment_end job k\<close>.\<close>

definition gso_step :: "gso_job \<Rightarrow> nat" where
  "gso_step job = unat (gso_size (job_hdr job))"

definition segment_start :: "gso_job \<Rightarrow> nat \<Rightarrow> nat" where
  "segment_start job k = unat (hdr_len (job_hdr job)) + k * gso_step job"

definition segment_end :: "gso_job \<Rightarrow> nat \<Rightarrow> nat" where
  "segment_end job k = min (length (job_input job)) (segment_start job (k + 1))"

definition segment_count :: "gso_job \<Rightarrow> nat" where
  "segment_count job =
     (length (job_input job) - unat (hdr_len (job_hdr job)) + gso_step job - 1) div gso_step job"

definition segment_len :: "gso_job \<Rightarrow> nat \<Rightarrow> nat" where
  "segment_len job k = unat (hdr_len (job_hdr job)) + (segment_end job k - segment_start job k)"

definition segment_of :: "gso_job \<Rightarrow> nat \<Rightarrow> byte list" where
  "segment_of job k = gso_segment_bytes job k (segment_start job k) (segment_end job k)"

definition place_segment :: "gso_job \<Rightarrow> nat \<Rightarrow> byte list \<Rightarrow> byte list" where
  "place_segment job k buf = blit buf (job_out_offset job) (segment_of job k)"

definition placed_bufs :: "gso_job \<Rightarrow> nat \<Rightarrow> byte list list \<Rightarrow> byte list list" where
  "placed_bufs job i bufs = map (\<lambda>k. if i \<le> k \<and> k < segment_count job
     then place_segment job k (bufs ! k) else bufs ! k) [0..<length bufs]"

definition placed_sizes :: "gso_job \<Rightarrow> nat \<Rightarrow> nat list \<Rightarrow> nat list" where
  "placed_sizes job i sizes = map (\<lambda>k. if i \<le> k \<and> k < segment_count job
     then segment_len job k else sizes ! k) [0..<length sizes]"

text \<open>There are enough buffers and each is long enough for its segment.\<close>

definition segments_fit :: "gso_job \<Rightarrow> nat \<Rightarrow> byte list list \<Rightarrow> bool" where
  "segments_fit job i bufs \<longleftrightarrow> segment_count job \<le> length bufs
     \<and> (\<forall>k \<in> {i..<segment_count job}. job_out_offset job + segment_len job k \<le> length (bufs ! k))"

lemma gso_step_pos: "job_ok job \<Longrightarrow> 0 < gso_step job"
  by (auto simp: gso_step_def dest!: job_okD(1)) (metis unat_gt_0)

lemma less_segment_count:
  assumes "job_ok job"
  shows "k < segment_count job \<longleftrightarrow> segment_start job k < length (job_input job)"
proof -
  let ?g = "gso_step job" and ?h = "unat (hdr_len (job_hdr job))" and ?n = "length (job_input job)"
  have g: "0 < ?g" using gso_step_pos [OF assms] .
  have h: "?h \<le> ?n" using job_okD [OF assms] by simp
  have "k < segment_count job \<longleftrightarrow> Suc k * ?g \<le> ?n - ?h + ?g - 1"
    unfolding segment_count_def using less_eq_div_iff_mult_less_eq [OF g, of "Suc k"] by (simp add: Suc_le_eq)
  also have "\<dots> \<longleftrightarrow> k * ?g < ?n - ?h" using g by (simp, arith)
  also have "\<dots> \<longleftrightarrow> segment_start job k < ?n" using h by (simp add: segment_start_def, arith)
  finally show ?thesis .
qed

lemma segment_bounds:
  assumes "job_ok job" "k < segment_count job"
  shows "segment_start job k < segment_end job k" "segment_end job k \<le> length (job_input job)"
    and "segment_end job k - segment_start job k \<le> gso_step job"
    and "segment_len job k \<le> unat (hdr_len (job_hdr job)) + gso_step job"
    and "length (segment_of job k) = segment_len job k"
proof -
  note lt = iffD1 [OF less_segment_count [OF assms(1)] assms(2)]
  show 1: "segment_start job k < segment_end job k" "segment_end job k \<le> length (job_input job)"
    using lt gso_step_pos [OF assms(1)] by (auto simp: segment_end_def segment_start_def)
  show 2: "segment_end job k - segment_start job k \<le> gso_step job"
    by (simp add: segment_end_def segment_start_def)
  then show "segment_len job k \<le> unat (hdr_len (job_hdr job)) + gso_step job"
    by (simp add: segment_len_def)
  show "length (segment_of job k) = segment_len job k"
    using assms 1 by (simp add: segment_of_def segment_len_def)
qed

lemma placed_bufs_step:
  assumes "i < segment_count job" "i < length bufs"
  shows "placed_bufs job (Suc i) (bufs[i := place_segment job i (bufs ! i)]) = placed_bufs job i bufs"
  using assms by (intro nth_equalityI) (auto simp: placed_bufs_def nth_list_update)

lemma placed_sizes_step:
  assumes "i < segment_count job" "i < length sizes"
  shows "placed_sizes job (Suc i) (sizes[i := segment_len job i]) = placed_sizes job i sizes"
  using assms by (intro nth_equalityI) (auto simp: placed_sizes_def nth_list_update)

lemma placed_done:
  "placed_bufs job (segment_count job) bufs = bufs" "placed_sizes job (segment_count job) sizes = sizes"
  by (auto intro!: nth_equalityI simp: placed_bufs_def placed_sizes_def)

lemma segments_fit_step:
  assumes "i < segment_count job" "job_out_offset job + segment_len job i \<le> length (bufs ! i)"
  shows "segments_fit job (Suc i) (bufs[i := b]) \<longleftrightarrow> segments_fit job i bufs"
proof -
  have "{i..<segment_count job} = insert i {Suc i..<segment_count job}" using assms(1) by auto
  then show ?thesis using assms(2) by (auto simp: segments_fit_def)
qed

text \<open>One pass of the loop, in terms of the segment.\<close>

lemma gso_loop_step:
  assumes ok: "job_ok job" and i: "i < segment_count job" "i < length bufs" "length bufs \<le> length sizes"
  shows "gso_loop job i (segment_start job i) bufs sizes =
    (if job_out_offset job + segment_len job i \<le> length (bufs ! i)
     then gso_loop job (Suc i) (segment_start job (Suc i))
       (bufs[i := place_segment job i (bufs ! i)]) (sizes[i := segment_len job i])
     else invalid_input ''output buffer too small'')"
proof -
  let ?a = "segment_start job i" and ?b = "segment_end job i" and ?o = "job_out_offset job"
  let ?buf = "bufs ! i"
  note b = segment_bounds [OF ok i(1)]
  have e: "(if segment_start job (Suc i) > length (job_input job) then length (job_input job)
      else segment_start job (Suc i)) = ?b"
    by (simp add: segment_end_def min_def)
  have nxt: "?a + gso_step job = segment_start job (Suc i)" by (simp add: segment_start_def)
  have lt: "?a < length (job_input job)" using b by simp
  have unfold: "gso_loop job i ?a bufs sizes =
    (if ?o > length ?buf \<or> length ?buf - ?o < segment_len job i then invalid_input ''output buffer too small''
     else (case gso_segment job i ?a ?b (drop ?o ?buf) of
        Ok out \<Rightarrow> gso_loop job (i + 1) (segment_start job (Suc i)) (bufs[i := take ?o ?buf @ out])
            (sizes[i := segment_len job i])
      | Err e \<Rightarrow> Err e | Panic \<Rightarrow> Panic))"
    using lt i by (subst gso_loop.simps) (simp add: Let_def nxt segment_len_def split: res.split flip: e gso_step_def)
  show ?thesis
  proof (cases "?o + segment_len job i \<le> length ?buf")
    case True
    then have "gso_segment job i ?a ?b (drop ?o ?buf) =
        Ok (segment_of job i @ drop (segment_len job i) (drop ?o ?buf))"
      using gso_segment_eq [OF ok _ b(2), where a = ?a and i = i and out = "drop ?o ?buf"] b(1)
      by (simp add: segment_of_def segment_len_def)
    moreover have "\<not> (?o > length ?buf \<or> length ?buf - ?o < segment_len job i)" using True by arith
    ultimately show ?thesis
      using True b(5) by (simp add: unfold place_segment_def blit_def add.commute)
  qed (auto simp: unfold)
qed

lemma gso_loop_eq:
  assumes "job_ok job" "i \<le> segment_count job" "i \<le> length bufs" "length bufs \<le> length sizes"
  shows "if segments_fit job i bufs
    then gso_loop job i (segment_start job i) bufs sizes
      = Ok (segment_count job, placed_bufs job i bufs, placed_sizes job i sizes)
    else gso_loop job i (segment_start job i) bufs sizes \<in>
      {invalid_input ''too many GSO segments'', invalid_input ''output buffer too small''}"
  using assms
proof (induction "segment_count job - i" arbitrary: i bufs sizes)
  case 0
  then have i: "i = segment_count job" by simp
  then have "\<not> segment_start job i < length (job_input job)"
    using less_segment_count [OF 0(2), of i] by simp
  then have "gso_loop job i (segment_start job i) bufs sizes = Ok (i, bufs, sizes)"
    by (subst gso_loop.simps) simp
  then show ?case using i 0 by (simp add: placed_done segments_fit_def)
next
  case (Suc d)
  then have i: "i < segment_count job" by simp
  show ?case
  proof (cases "i < length bufs")
    case False
    then have "gso_loop job i (segment_start job i) bufs sizes = invalid_input ''too many GSO segments''"
      using Suc.prems i less_segment_count [OF Suc.prems(1), of i] by (subst gso_loop.simps) simp
    moreover have "\<not> segments_fit job i bufs" using False i by (simp add: segments_fit_def)
    ultimately show ?thesis by simp
  next
    case True
    show ?thesis
    proof (cases "job_out_offset job + segment_len job i \<le> length (bufs ! i)")
      case False
      then have "\<not> segments_fit job i bufs" using i by (auto simp: segments_fit_def)
      then show ?thesis using gso_loop_step [OF Suc.prems(1) i True Suc.prems(4)] False by simp
    next
      case fit: True
      let ?bufs = "bufs[i := place_segment job i (bufs ! i)]" and ?sizes = "sizes[i := segment_len job i]"
      have "d = segment_count job - Suc i" using Suc.hyps(2) by simp
      note IH = Suc.hyps(1) [OF this, of ?bufs ?sizes]
      show ?thesis
        using IH Suc.hyps(2) Suc.prems i True fit
        by (cases "segments_fit job i bufs")
          (simp_all add: gso_loop_step segments_fit_step placed_bufs_step placed_sizes_step)
    qed
  qed
qed

section \<open>What gso_split accepts\<close>

definition gso_cleared :: "byte list \<Rightarrow> VirtioNetHdr \<Rightarrow> bool \<Rightarrow> byte list" where
  "gso_cleared inp h v6 =
     (let inp = (if v6 then inp else inp[10 := 0, 11 := 0]); at = transport_csum_at h
      in inp[at := 0, at + 1 := 0])"

definition gso_job_for :: "byte list \<Rightarrow> VirtioNetHdr \<Rightarrow> bool \<Rightarrow> nat \<Rightarrow> gso_job" where
  "gso_job_for inp h v6 offset =
     (let inp = gso_cleared inp h v6; src = (if v6 then 8 else 12); n = (if v6 then 16 else 4)
      in \<lparr>job_input = inp, job_hdr = h, job_is_v6 = v6, job_out_offset = offset,
          job_protocol = (if is_tcp_gso h then IPPROTO_TCP else IPPROTO_UDP),
          job_first_tcp_seq_num = (if is_tcp_gso h then read_u32 inp (unat (csum_start h) + 4) else 0),
          job_src_addr_bytes = subslice src (src + n) inp,
          job_dst_addr_bytes = subslice (src + n) (src + 2 * n) inp\<rparr>)"

definition gso_accepts :: "byte list \<Rightarrow> VirtioNetHdr \<Rightarrow> bool \<Rightarrow> bool" where
  "gso_accepts inp h v6 \<longleftrightarrow> gso_size h \<noteq> 0 \<and> (if v6 then 40 else 20) \<le> unat (csum_start h)
     \<and> unat (csum_start h) + (if is_tcp_gso h then 20 else 8) \<le> unat (hdr_len h)
     \<and> unat (hdr_len h) \<le> length inp \<and> transport_csum_at h + 2 \<le> length inp"

lemma length_gso_cleared [simp]: "length (gso_cleared inp h v6) = length inp"
  by (simp add: gso_cleared_def Let_def)

lemma gso_job_for_sel [simp]:
  "job_input (gso_job_for inp h v6 offset) = gso_cleared inp h v6"
  "job_hdr (gso_job_for inp h v6 offset) = h"
  "job_is_v6 (gso_job_for inp h v6 offset) = v6"
  "job_out_offset (gso_job_for inp h v6 offset) = offset"
  "job_protocol (gso_job_for inp h v6 offset) = (if is_tcp_gso h then IPPROTO_TCP else IPPROTO_UDP)"
  by (simp_all add: gso_job_for_def Let_def)

lemma gso_split_eq:
  assumes "length bufs \<le> length sizes" "length bufs \<le> 65535" "gso_accepts inp h v6"
  shows "gso_split inp h bufs sizes offset v6 =
    bind_res (gso_loop (gso_job_for inp h v6 offset) 0 (unat (hdr_len h)) bufs sizes)
      (\<lambda>(i, out_bufs, sizes). Ok (i, gso_cleared inp h v6, out_bufs, sizes))"
proof -
  have "csum_start h \<le> hdr_len h" using assms(3) by (simp add: gso_accepts_def word_le_nat_alt)
  then show ?thesis
    using assms unfolding gso_split_def gso_accepts_def gso_job_for_def gso_cleared_def
    by (cases v6; cases "is_tcp_gso h")
      (simp_all add: Let_def offload_consts not_less word_less_nat_alt word_le_nat_alt transport_csum_at_def)
qed

lemma gso_split_refuses:
  assumes "\<not> (length bufs \<le> length sizes \<and> length bufs \<le> 65535 \<and> gso_accepts inp h v6)"
  shows "is_invalid_input (gso_split inp h bufs sizes offset v6)"
  using assms unfolding gso_split_def gso_accepts_def
  by (cases v6; cases "is_tcp_gso h")
    (auto simp: Let_def offload_consts not_less not_le word_less_nat_alt word_le_nat_alt)

lemma gso_job_ok:
  assumes "gso_accepts inp h v6" "transport_csum_at h + 2 \<le> unat (hdr_len h)"
  shows "job_ok (gso_job_for inp h v6 offset)"
  using assms by (auto simp: job_ok_def gso_accepts_def transport_csum_at_def offload_consts Let_def)

section \<open>What a successful split returns\<close>

lemma gso_split_OkE:
  assumes "gso_split inp h bufs sizes offset v6 = Ok (n, inp', bufs', sizes')"
    and "transport_csum_at h + 2 \<le> unat (hdr_len h)"
  obtains job where "job = gso_job_for inp h v6 offset" "job_ok job" "gso_accepts inp h v6"
    "length bufs \<le> length sizes" "segments_fit job 0 bufs" "n = segment_count job"
    "inp' = gso_cleared inp h v6" "bufs' = placed_bufs job 0 bufs" "sizes' = placed_sizes job 0 sizes"
proof -
  let ?job = "gso_job_for inp h v6 offset"
  have acc: "length bufs \<le> length sizes \<and> length bufs \<le> 65535 \<and> gso_accepts inp h v6"
    using gso_split_refuses [of bufs sizes inp h v6 offset] assms(1) by auto
  then have ok: "job_ok ?job" using assms(2) by (simp add: gso_job_ok)
  have start: "unat (hdr_len h) = segment_start ?job 0" by (simp add: segment_start_def)
  note loop = gso_loop_eq [OF ok, of 0 bufs sizes, simplified]
  show thesis
  proof (cases "segments_fit ?job 0 bufs")
    case True
    then show thesis using that [OF refl ok] acc assms(1) loop by (simp add: gso_split_eq start)
  next
    case False
    then show thesis using acc assms(1) loop by (auto simp: gso_split_eq start invalid_input_def)
  qed
qed

lemma split_segment:
  assumes "job_ok job" "length bufs \<le> length sizes" "segments_fit job 0 bufs" "k < segment_count job"
  shows "placed_sizes job 0 sizes ! k = segment_len job k"
    and "subslice (job_out_offset job) (job_out_offset job + segment_len job k) (placed_bufs job 0 bufs ! k)
      = segment_of job k"
    and "subslice (job_out_offset job + d) (job_out_offset job + segment_len job k) (placed_bufs job 0 bufs ! k)
      = drop d (segment_of job k)"
proof -
  have k: "k < length bufs" "job_out_offset job + segment_len job k \<le> length (bufs ! k)"
    using assms by (simp_all add: segments_fit_def)
  note len = segment_bounds(5) [OF assms(1,4)]
  show "placed_sizes job 0 sizes ! k = segment_len job k"
    using assms k by (simp add: placed_sizes_def)
  show 1: "subslice (job_out_offset job) (job_out_offset job + segment_len job k) (placed_bufs job 0 bufs ! k)
      = segment_of job k"
    using assms k len by (simp add: placed_bufs_def place_segment_def)
  then show "subslice (job_out_offset job + d) (job_out_offset job + segment_len job k) (placed_bufs job 0 bufs ! k)
      = drop d (segment_of job k)"
    by (simp add: subslice_def drop_take flip: 1, simp add: add.commute)
qed

lemma segment_parts:
  assumes "job_ok job" "k < segment_count job"
  defines "s \<equiv> unat (csum_start (job_hdr job))" and "hl \<equiv> unat (hdr_len (job_hdr job))"
    and "data \<equiv> subslice (segment_start job k) (segment_end job k) (job_input job)"
    and "th \<equiv> gso_transport_bytes job k (segment_end job k) (segment_end job k - segment_start job k)"
  shows "segment_of job k = gso_ip_bytes job k (segment_len job k)
      @ write_u16 (th @ data) (unat (csum_offset (job_hdr job)))
          (NOT (checksum (th @ data) (segment_csum_no_fold job (segment_end job k - segment_start job k))))"
    and "drop hl (segment_of job k) = data"
    and "take s (segment_of job k) = gso_ip_bytes job k (segment_len job k)"
proof -
  note ok = job_okD [OF assms(1)]
  have l: "length th = hl - s" using assms(1) by (simp add: th_def hl_def s_def)
  have le: "unat (csum_offset (job_hdr job)) + 2 \<le> length th" using ok(4,7) l by (simp add: hl_def s_def)
  show eq: "segment_of job k = gso_ip_bytes job k (segment_len job k)
      @ write_u16 (th @ data) (unat (csum_offset (job_hdr job)))
          (NOT (checksum (th @ data) (segment_csum_no_fold job (segment_end job k - segment_start job k))))"
    using le by (simp add: segment_of_def gso_segment_bytes_def Let_def segment_len_def th_def data_def
        write_u16_append_left)
  show "take s (segment_of job k) = gso_ip_bytes job k (segment_len job k)"
    using assms(1) by (simp add: eq s_def)
  show "drop hl (segment_of job k) = data"
    using assms(1) ok(4) le l by (simp add: eq hl_def s_def write_u16_append_left)
qed

lemma concat_segment_data:
  assumes "job_ok job" "m \<le> segment_count job"
  shows "concat (map (\<lambda>k. subslice (segment_start job k) (segment_end job k) (job_input job)) [0..<m])
    = subslice (unat (hdr_len (job_hdr job))) (min (length (job_input job)) (segment_start job m)) (job_input job)"
  using assms(2)
proof (induction m)
  case 0
  show ?case using job_okD(6) [OF assms(1)] by (simp add: segment_start_def)
next
  case (Suc m)
  have lt: "segment_start job m < length (job_input job)"
    using Suc.prems less_segment_count [OF assms(1), of m] by simp
  have "segment_start job m \<le> segment_end job m" "unat (hdr_len (job_hdr job)) \<le> segment_start job m"
    using lt by (simp_all add: segment_end_def segment_start_def)
  moreover have "min (length (job_input job)) (segment_start job (Suc m)) = segment_end job m"
    by (simp add: segment_end_def)
  moreover have "min (length (job_input job)) (segment_start job m) = segment_start job m" using lt by simp
  ultimately show ?case using Suc by (simp add: subslice_append)
qed

section \<open>The headers of a segment\<close>

text \<open>The fields the split relies on: where the checksum of the protocol is, and that it was cleared.\<close>

definition csum_offset_ok :: "VirtioNetHdr \<Rightarrow> bool" where
  "csum_offset_ok h \<longleftrightarrow> csum_offset h = (if is_tcp_gso h then 16 else 6)"

lemma csum_in_header:
  "gso_accepts inp h v6 \<Longrightarrow> csum_offset_ok h \<Longrightarrow> transport_csum_at h + 2 \<le> unat (hdr_len h)"
  by (auto simp: gso_accepts_def csum_offset_ok_def transport_csum_at_def split: if_splits)

lemma gso_cleared_nth:
  assumes "i < length inp" "length inp \<ge> 20"
  shows "gso_cleared inp h v6 ! i = (if i = transport_csum_at h \<or> i = transport_csum_at h + 1 then 0
    else if \<not> v6 \<and> (i = 10 \<or> i = 11) then 0 else inp ! i)"
  using assms by (auto simp: gso_cleared_def Let_def nth_list_update)

lemma drop_gso_cleared:
  assumes "transport_csum_at h + 2 \<le> n" "12 \<le> n"
  shows "drop n (gso_cleared inp h v6) = drop n inp"
  using assms by (simp add: gso_cleared_def Let_def)

lemma subslice_gso_cleared:
  assumes "hi \<le> transport_csum_at h" "12 \<le> lo \<or> hi \<le> 10 \<or> v6" "hi \<le> length inp"
  shows "subslice lo hi (gso_cleared inp h v6) = subslice lo hi inp"
  by (rule nth_equalityI) (use assms in \<open>auto simp: nth_subslice gso_cleared_def Let_def nth_list_update\<close>)

text \<open>The transport part of a segment verifies against the pseudo-header of its own length.\<close>

lemma transport_field_zero:
  assumes "gso_accepts inp h v6" "csum_offset_ok h"
  shows "subslice (unat (csum_offset h)) (unat (csum_offset h) + 2)
    (gso_transport_bytes (gso_job_for inp h v6 offset) k e l @ rest) = [0, 0]"
proof -
  let ?s = "unat (csum_start h)" and ?hl = "unat (hdr_len h)" and ?at = "transport_csum_at h"
  define th where "th = subslice ?s ?hl (gso_cleared inp h v6)"
  have acc: "20 \<le> ?s" "?hl \<le> length inp" "?s + (if is_tcp_gso h then 20 else 8) \<le> ?hl"
    using assms(1) by (auto simp: gso_accepts_def split: if_splits)
  have len: "length th = ?hl - ?s" using acc by (simp add: th_def)
  have off: "unat (csum_offset h) = (if is_tcp_gso h then 16 else 6)"
    using assms(2) by (simp add: csum_offset_ok_def)
  have z: "th ! (if is_tcp_gso h then 16 else 6) = 0" "th ! (if is_tcp_gso h then 17 else 7) = 0"
    using acc off by (auto simp: th_def nth_subslice gso_cleared_nth transport_csum_at_def)
  show ?thesis
    using acc len z off
    by (auto simp: subslice_two gso_transport_bytes_def Let_def offload_consts nth_append byte_simps simp flip: th_def)
qed

lemma segment_transport_valid:
  assumes acc: "gso_accepts inp h v6" and off: "csum_offset_ok h"
    and k: "k < segment_count (gso_job_for inp h v6 offset)"
  defines "job \<equiv> gso_job_for inp h v6 offset"
  shows "NOT (checksum (drop (unat (csum_start h)) (segment_of job k))
      (segment_csum_no_fold job (segment_end job k - segment_start job k))) = 0"
proof -
  have ok: "job_ok job" using acc csum_in_header [OF acc off] by (simp add: job_def gso_job_ok)
  define th where "th = gso_transport_bytes job k (segment_end job k) (segment_end job k - segment_start job k)"
  define data where "data = subslice (segment_start job k) (segment_end job k) (job_input job)"
  define c where "c = segment_csum_no_fold job (segment_end job k - segment_start job k)"
  note b = segment_bounds [OF ok k [folded job_def]]
  have h: "job_hdr job = h" by (simp add: job_def)
  have parts: "drop (unat (csum_start h)) (segment_of job k) =
      write_u16 (th @ data) (unat (csum_offset h)) (NOT (checksum (th @ data) c))"
    using segment_parts(1) [OF ok k [folded job_def]] ok
    by (simp add: h th_def data_def c_def flip: segment_len_def)
  have lth: "length th \<le> 65535" "unat (csum_offset h) + 2 \<le> length th"
    using ok unat_u16_bound [of "hdr_len h"] job_okD(7) [OF ok] by (simp_all add: th_def h)
  have ldata: "length data \<le> 65535"
    using b(2,3) unat_u16_bound [of "gso_size h"] by (simp add: data_def gso_step_def h)
  have c: "unat c \<le> 2 ^ 36" unfolding c_def segment_csum_no_fold_def Let_def
    by (rule unat_pseudo_header_checksum)
      (simp_all add: job_def gso_job_for_def Let_def order.trans [OF length_subslice_le])
  have even: "even (unat (csum_offset h))" using off by (simp add: csum_offset_ok_def)
  have zero: "subslice (unat (csum_offset h)) (unat (csum_offset h) + 2) (th @ data) = [0, 0]"
    unfolding th_def job_def by (rule transport_field_zero [OF acc off])
  show ?thesis
    unfolding parts c_def [symmetric] using even zero lth ldata c by (intro checksum_complement_valid) simp_all
qed

text \<open>The addresses of a segment are those of the packet.\<close>

lemma gso_ip_bytes_addrs:
  assumes "job_ok job" "(if job_is_v6 job then 8 else 12) \<le> lo" "hi \<le> unat (csum_start (job_hdr job))"
  shows "subslice lo hi (gso_ip_bytes job k t) = subslice lo hi (job_input job)"
proof -
  define ip where "ip = take (unat (csum_start (job_hdr job))) (job_input job)"
  have len: "length ip = unat (csum_start (job_hdr job))" "20 \<le> length ip"
    using job_okD [OF assms(1)] by (simp_all add: ip_def)
  have "subslice lo hi (gso_ip_bytes job k t) = subslice lo hi ip"
    using assms(2,3) len by (auto simp: gso_ip_bytes_def Let_def subslice_write_u16_other simp flip: ip_def split: if_splits)
  also have "\<dots> = subslice lo hi (job_input job)"
    using assms(3) by (simp add: ip_def subslice_def drop_take min_def)
  finally show ?thesis .
qed

lemma subslice_segment:
  assumes "job_ok job" "k < segment_count job" "hi \<le> unat (csum_start (job_hdr job))"
  shows "subslice lo hi (segment_of job k) = subslice lo hi (gso_ip_bytes job k (segment_len job k))"
  using assms segment_parts(1) [OF assms(1,2)] by (simp add: subslice_def)

lemma segment_addrs:
  assumes acc: "gso_accepts inp h v6" and off: "csum_offset_ok h"
    and k: "k < segment_count (gso_job_for inp h v6 offset)"
  defines "job \<equiv> gso_job_for inp h v6 offset"
  shows "job_src_addr_bytes job = (if v6 then subslice 8 24 (segment_of job k) else subslice 12 16 (segment_of job k))"
    and "job_dst_addr_bytes job = (if v6 then subslice 24 40 (segment_of job k) else subslice 16 20 (segment_of job k))"
proof -
  have ok: "job_ok job" using acc csum_in_header [OF acc off] by (simp add: job_def gso_job_ok)
  have s: "(if v6 then 40 else 20) \<le> unat (csum_start h)" using acc by (simp add: gso_accepts_def)
  have h: "job_hdr job = h" "job_is_v6 job = v6" by (simp_all add: job_def)
  have "subslice lo hi (segment_of job k) = subslice lo hi (gso_cleared inp h v6)"
    if "(if v6 then 8 else 12) \<le> lo" "hi \<le> (if v6 then 40 else 20)" for lo hi
  proof -
    have "hi \<le> unat (csum_start h)" using that s by (simp split: if_splits)
    with that show ?thesis using subslice_segment [OF ok k [folded job_def], of hi lo] gso_ip_bytes_addrs [OF ok, of lo hi]
      by (simp add: h) (simp add: job_def)
  qed
  then show "job_src_addr_bytes job = (if v6 then subslice 8 24 (segment_of job k) else subslice 12 16 (segment_of job k))"
    and "job_dst_addr_bytes job = (if v6 then subslice 24 40 (segment_of job k) else subslice 16 20 (segment_of job k))"
    by (auto simp: job_def gso_job_for_def Let_def)
qed

text \<open>The IP header of a segment: its length, ID and checksum, and nothing else changed.\<close>

lemma nth_gso_ip_bytes_v4:
  fixes k t :: nat
  assumes ok: "job_ok job" and v4: "\<not> job_is_v6 job" and zero: "job_input job ! 10 = 0" "job_input job ! 11 = 0"
  defines "ip \<equiv> gso_ip_bytes job k t" and "inp \<equiv> job_input job"
  shows "NOT (checksum ip 0) = 0" "read_u16 ip 2 = of_nat t" "read_u16 ip 4 = read_u16 inp 4 + of_nat k"
    and "\<And>i. i < unat (csum_start (job_hdr job)) \<Longrightarrow> i \<notin> {2, 3, 4, 5, 10, 11} \<Longrightarrow> ip ! i = inp ! i"
proof -
  define x where "x = take (unat (csum_start (job_hdr job))) inp"
  have len: "length x = unat (csum_start (job_hdr job))" "20 \<le> length x"
    using job_okD [OF ok] by (simp_all add: x_def inp_def)
  have nx: "x ! i = inp ! i" if "i < unat (csum_start (job_hdr job))" for i using that by (simp add: x_def)
  have s: "20 \<le> unat (csum_start (job_hdr job))" using job_okD [OF ok] by simp
  define y where "y = write_u16 (if k > 0 then write_u16 x 4 (read_u16 x 4 + of_nat k) else x) 2 (of_nat t)"
  have ip: "ip = write_u16 y 10 (NOT (checksum y 0))"
    using v4 by (simp add: ip_def gso_ip_bytes_def Let_def y_def x_def inp_def)
  have ly: "length y = length x" using len by (simp add: y_def)
  have y: "y ! 10 = 0" "y ! 11 = 0" "read_u16 y 2 = of_nat t" "read_u16 y 4 = read_u16 x 4 + of_nat k"
    using len zero nx s by (simp_all add: y_def byte_simps inp_def)
  show "NOT (checksum ip 0) = 0"
    unfolding ip using y len ly unat_u16_bound [of "csum_start (job_hdr job)"]
    by (intro checksum_complement_valid) (simp_all add: subslice_two)
  have x4: "read_u16 x 4 = read_u16 inp 4" using s nx by (simp add: read_u16_def)
  show "read_u16 ip 2 = of_nat t" "read_u16 ip 4 = read_u16 inp 4 + of_nat k"
    using y len ly x4 by (simp_all add: ip byte_simps)
  show "ip ! i = inp ! i" if "i < unat (csum_start (job_hdr job))" "i \<notin> {2, 3, 4, 5, 10, 11}" for i
  proof -
    have "i < 2 \<or> 6 \<le> i \<and> i < 10 \<or> 12 \<le> i" using that(2) by auto
    then have "ip ! i = x ! i" using that(1) len ly
      by (elim disjE) (simp_all add: ip nth_write_u16 y_def)
    then show ?thesis using nx that by simp
  qed
qed

lemma nth_gso_ip_bytes_v6:
  fixes k t :: nat
  assumes ok: "job_ok job" and v6: "job_is_v6 job"
  defines "ip \<equiv> gso_ip_bytes job k t" and "inp \<equiv> job_input job"
  shows "read_u16 ip 4 = of_nat (t - 40)"
    and "\<And>i. i < unat (csum_start (job_hdr job)) \<Longrightarrow> i \<notin> {4, 5} \<Longrightarrow> ip ! i = inp ! i"
proof -
  have len: "40 \<le> unat (csum_start (job_hdr job))" "unat (csum_start (job_hdr job)) \<le> length inp"
    using job_okD [OF ok] v6 by (simp_all add: inp_def)
  have ip: "ip = write_u16 (take (unat (csum_start (job_hdr job))) inp) 4 (of_nat (t - 40))"
    using v6 by (simp add: ip_def gso_ip_bytes_def Let_def inp_def)
  show "read_u16 ip 4 = of_nat (t - 40)" using len by (simp add: ip byte_simps)
  show "ip ! i = inp ! i" if "i < unat (csum_start (job_hdr job))" "i \<notin> {4, 5}" for i
    using that len by (auto simp: ip nth_write_u16)
qed

text \<open>The transport header of a segment: sequence number and flags, or the UDP length.\<close>

definition th_changed :: "VirtioNetHdr \<Rightarrow> nat set" where
  "th_changed h = (if is_tcp_gso h then {4, 5, 6, 7, 13, 16, 17} else {4, 5, 6, 7})"

lemma last_segment:
  assumes "job_ok job" "k < segment_count job"
  shows "segment_end job k \<noteq> length (job_input job) \<longleftrightarrow> k + 1 < segment_count job"
  using less_segment_count [OF assms(1), of "k + 1"] by (auto simp: segment_end_def min_def)

lemma nth_segment_transport:
  assumes acc: "gso_accepts inp h v6" and off: "csum_offset_ok h"
    and k: "k < segment_count (gso_job_for inp h v6 offset)"
  defines "job \<equiv> gso_job_for inp h v6 offset" and "s \<equiv> unat (csum_start h)"
  shows "is_tcp_gso h \<Longrightarrow> read_u32 (segment_of job k) (s + 4) = read_u32 inp (s + 4) + ucast (gso_size h) * of_nat k"
    and "is_tcp_gso h \<Longrightarrow> segment_of job k ! (s + 13) = (if k + 1 < segment_count job
      then inp ! (s + 13) AND NOT (TCP_FLAG_FIN OR TCP_FLAG_PSH) else inp ! (s + 13))"
    and "\<not> is_tcp_gso h \<Longrightarrow> read_u16 (segment_of job k) (s + 4) = of_nat (segment_len job k - s)"
    and "\<And>i. s + i < unat (hdr_len h) \<Longrightarrow> i \<notin> th_changed h \<Longrightarrow> segment_of job k ! (s + i) = inp ! (s + i)"
proof -
  have ok: "job_ok job" using acc csum_in_header [OF acc off] by (simp add: job_def gso_job_ok)
  have h: "job_hdr job = h" by (simp add: job_def)
  define th where "th = gso_transport_bytes job k (segment_end job k) (segment_end job k - segment_start job k)"
  define c where "c = NOT (checksum (th @ subslice (segment_start job k) (segment_end job k) (job_input job))
     (segment_csum_no_fold job (segment_end job k - segment_start job k)))"
  define x where "x = subslice s (unat (hdr_len h)) (job_input job)"
  have sb: "20 \<le> s" "s + (if is_tcp_gso h then 20 else 8) \<le> unat (hdr_len h)" "unat (hdr_len h) \<le> length inp"
    using acc by (auto simp: gso_accepts_def s_def split: if_splits)
  have o: "unat (csum_offset h) = (if is_tcp_gso h then 16 else 6)" using off by (simp add: csum_offset_ok_def)
  have lx: "length x = unat (hdr_len h) - s" using sb by (simp add: x_def job_def)
  have lth: "length th = unat (hdr_len h) - s" using ok by (simp add: th_def h s_def)
  have seg: "segment_of job k ! (s + i) = write_u16 th (unat (csum_offset h)) c ! i" if "s + i < unat (hdr_len h)" for i
    using that lth segment_parts(1) [OF ok k [folded job_def]] ok sb o
    by (cases "is_tcp_gso h")
      (auto simp: h nth_append th_def [symmetric] c_def [symmetric] write_u16_append_left simp flip: s_def)
  have nx: "x ! i = inp ! (s + i)" if "s + i < unat (hdr_len h)"
    "s + i \<noteq> transport_csum_at h" "s + i \<noteq> transport_csum_at h + 1" for i
    using that sb by (simp add: x_def nth_subslice job_def gso_cleared_nth)
  have at: "transport_csum_at h = s + (if is_tcp_gso h then 16 else 6)" by (simp add: transport_csum_at_def o s_def)
  have th_tcp: "th = (let y = write_u32 x 4 (job_first_tcp_seq_num job + ucast (gso_size h) * of_nat k)
      in if k + 1 < segment_count job then y[13 := y ! 13 AND NOT (TCP_FLAG_FIN OR TCP_FLAG_PSH)] else y)"
    if "is_tcp_gso h"
  proof -
    have "job_protocol job = IPPROTO_TCP" using that by (simp add: job_def)
    then show ?thesis using last_segment [OF ok k [folded job_def]]
      by (simp add: th_def gso_transport_bytes_def Let_def h TCP_FLAGS_OFFSET_def flip: s_def x_def)
  qed
  have th_udp: "th = write_u16 x 4 (of_nat (segment_end job k - segment_start job k + unat (hdr_len h - csum_start h)))"
    if "\<not> is_tcp_gso h"
  proof -
    have "job_protocol job \<noteq> IPPROTO_TCP" using that by (simp add: job_def offload_consts)
    then show ?thesis by (simp add: th_def gso_transport_bytes_def Let_def h flip: s_def x_def)
  qed
  show "is_tcp_gso h \<Longrightarrow> read_u32 (segment_of job k) (s + 4) = read_u32 inp (s + 4) + ucast (gso_size h) * of_nat k"
  proof -
    assume t: "is_tcp_gso h"
    have "read_u32 (segment_of job k) (s + 4) = read_u32 th 4"
      using seg [of 4] seg [of 5] seg [of 6] seg [of 7] t sb lth o
      by (simp add: read_u32_def nth_write_other ac_simps)
    also have "\<dots> = job_first_tcp_seq_num job + ucast (gso_size h) * of_nat k"
      using t sb lx by (simp add: th_tcp Let_def read_u32_def nth_write_u32 to_be32_def)
    also have "job_first_tcp_seq_num job = read_u32 inp (s + 4)"
      using t sb at by (simp add: job_def gso_job_for_def Let_def read_u32_def gso_cleared_nth flip: s_def)
    finally show ?thesis .
  qed
  show "is_tcp_gso h \<Longrightarrow> segment_of job k ! (s + 13) = (if k + 1 < segment_count job
      then inp ! (s + 13) AND NOT (TCP_FLAG_FIN OR TCP_FLAG_PSH) else inp ! (s + 13))"
    using seg [of 13] nx [of 13] sb lth o lx at last_segment [OF ok k [folded job_def]]
    by (simp add: th_tcp Let_def nth_write_other)
  show "\<not> is_tcp_gso h \<Longrightarrow> read_u16 (segment_of job k) (s + 4) = of_nat (segment_len job k - s)"
  proof -
    assume t: "\<not> is_tcp_gso h"
    have "read_u16 (segment_of job k) (s + 4) = read_u16 th 4"
      using seg [of 4] seg [of 5] t sb lth o by (simp add: read_u16_def nth_write_other ac_simps)
    also have "\<dots> = of_nat (segment_end job k - segment_start job k + unat (hdr_len h - csum_start h))"
      using t sb lx by (simp add: th_udp read_u16_write_u16)
    also have "unat (hdr_len h - csum_start h) = unat (hdr_len h) - s"
      using unat_hdr_minus [OF ok] by (simp add: h s_def)
    also have "segment_end job k - segment_start job k + (unat (hdr_len h) - s) = segment_len job k - s"
      using sb by (simp add: segment_len_def h split: if_splits)
    finally show ?thesis .
  qed
  show "segment_of job k ! (s + i) = inp ! (s + i)" if i: "s + i < unat (hdr_len h)" "i \<notin> th_changed h" for i
  proof -
    have "\<not> (4 \<le> i \<and> i < 8)" "\<not> (6 \<le> i \<and> i < 8)" "is_tcp_gso h \<Longrightarrow> i \<noteq> 13 \<and> \<not> (16 \<le> i \<and> i < 18)"
      using i(2) by (auto simp: th_changed_def split: if_splits)
    then show ?thesis using i(1) seg [of i] nx [of i] sb lth o lx at
      by (cases "is_tcp_gso h") (auto simp: th_tcp th_udp Let_def nth_write_u16 nth_write_u32)
  qed
qed

section \<open>Properties\<close>

lemma gso_split_outcome:
  assumes "transport_csum_at h + 2 \<le> unat (hdr_len h)"
  shows "if length bufs \<le> length sizes \<and> length bufs \<le> 65535 \<and> gso_accepts inp h v6
      \<and> segments_fit (gso_job_for inp h v6 offset) 0 bufs
    then is_ok (gso_split inp h bufs sizes offset v6)
    else is_invalid_input (gso_split inp h bufs sizes offset v6)"
proof (cases "length bufs \<le> length sizes \<and> length bufs \<le> 65535 \<and> gso_accepts inp h v6")
  case False
  then show ?thesis using gso_split_refuses [OF False] by auto
next
  case True
  let ?job = "gso_job_for inp h v6 offset"
  have ok: "job_ok ?job" using True assms by (simp add: gso_job_ok)
  have start: "unat (hdr_len h) = segment_start ?job 0" by (simp add: segment_start_def)
  show ?thesis using True assms gso_loop_eq [OF ok, of 0 bufs sizes]
    by (cases "segments_fit ?job 0 bufs") (auto simp: gso_split_eq start invalid_input_def is_invalid_input_def)
qed

text \<open>The segment the caller finds in buffer \<open>k\<close>: \<open>&out_bufs[k][offset..offset + sizes[k]]\<close>.\<close>

definition nth_segment :: "nat \<Rightarrow> byte list list \<Rightarrow> nat list \<Rightarrow> nat \<Rightarrow> byte list" where
  "nth_segment offset bufs sizes k = subslice offset (offset + sizes ! k) (bufs ! k)"

lemma nth_segment_eq:
  assumes "gso_split inp h bufs sizes offset v6 = Ok (n, inp', bufs', sizes')"
    and "transport_csum_at h + 2 \<le> unat (hdr_len h)" "k < n"
  shows "nth_segment offset bufs' sizes' k = segment_of (gso_job_for inp h v6 offset) k"
    and "sizes' ! k = segment_len (gso_job_for inp h v6 offset) k"
    and "n = segment_count (gso_job_for inp h v6 offset)"
proof -
  from assms(1,2) obtain job where job: "job = gso_job_for inp h v6 offset" "job_ok job"
    "length bufs \<le> length sizes" "segments_fit job 0 bufs" "n = segment_count job"
    "bufs' = placed_bufs job 0 bufs" "sizes' = placed_sizes job 0 sizes"
    by (rule gso_split_OkE)
  have off: "job_out_offset job = offset" using job(1) by simp
  show "n = segment_count (gso_job_for inp h v6 offset)" using job by simp
  show "sizes' ! k = segment_len (gso_job_for inp h v6 offset) k"
    "nth_segment offset bufs' sizes' k = segment_of (gso_job_for inp h v6 offset) k"
    using split_segment [of job bufs sizes k] job assms(3) off by (simp_all add: nth_segment_def)
qed

lemma gso_split_accepts:
  "gso_split inp h bufs sizes offset v6 = Ok r \<Longrightarrow> gso_accepts inp h v6"
  using gso_split_refuses [of bufs sizes inp h v6 offset] by auto


definition gso_example_packet :: "byte list" where
  "gso_example_packet = [0x45, 0, 0, 45, 0, 1, 0, 0, 64, 6, 0, 0, 10, 0, 0, 1, 10, 0, 0, 2]
     @ [0, 80, 0, 81, 0, 0, 0, 9, 0, 0, 0, 0, 0x50, 0x18, 1, 0, 0, 0, 0, 0] @ [1, 2, 3, 4, 5]"

definition gso_example_hdr :: VirtioNetHdr where
  "gso_example_hdr = \<lparr>flags = 1, gso_type = 1, hdr_len = 40, gso_size = 3, csum_start = 20, csum_offset = 16\<rparr>"


lemma gso_split_Ok_eq:
  assumes "length bufs \<le> length sizes" "length bufs \<le> 65535" "gso_accepts inp h v6"
    "transport_csum_at h + 2 \<le> unat (hdr_len h)" "segments_fit (gso_job_for inp h v6 offset) 0 bufs"
  defines "job \<equiv> gso_job_for inp h v6 offset"
  shows "gso_split inp h bufs sizes offset v6 =
    Ok (segment_count job, gso_cleared inp h v6, placed_bufs job 0 bufs, placed_sizes job 0 sizes)"
proof -
  have ok: "job_ok job" using assms by (simp add: job_def gso_job_ok)
  have "unat (hdr_len h) = segment_start job 0" by (simp add: segment_start_def job_def)
  then show ?thesis
    using gso_loop_eq [OF ok, of 0 bufs sizes] assms by (simp add: gso_split_eq)
qed

definition gso_example_job :: gso_job where
  "gso_example_job = gso_job_for gso_example_packet gso_example_hdr False 2"

lemma gso_example_Ok:
  "gso_split gso_example_packet gso_example_hdr (replicate 3 (replicate 50 7)) [0, 0, 0] 2 False
    = Ok (2, gso_cleared gso_example_packet gso_example_hdr False,
        placed_bufs gso_example_job 0 (replicate 3 (replicate 50 7)), placed_sizes gso_example_job 0 [0, 0, 0])"
proof -
  have "segment_count gso_example_job = 2" by code_simp
  moreover have "segments_fit gso_example_job 0 (replicate 3 (replicate 50 7))" by code_simp
  moreover have "gso_accepts gso_example_packet gso_example_hdr False" by code_simp
  moreover have "transport_csum_at gso_example_hdr + 2 \<le> unat (hdr_len gso_example_hdr)" by code_simp
  ultimately show ?thesis unfolding gso_example_job_def
    by (subst gso_split_Ok_eq) simp_all
qed

lemma gso_example_hdr_ok:
  "transport_csum_at gso_example_hdr + 2 \<le> unat (hdr_len gso_example_hdr)" "csum_offset_ok gso_example_hdr"
  by code_simp+


text \<open>
  C5. The transport checksum of every segment is right: over the pseudo-header of the segment's own
  addresses, protocol and length, followed by its transport header and data, the receiver's check
  gives zero.
\<close>

theorem gso_split_transport_checksum:
  assumes "gso_split inp h bufs sizes offset v6 = Ok (n, inp', bufs', sizes')"
    and "csum_offset_ok h" "k < n"
  defines "seg \<equiv> nth_segment offset bufs' sizes' k" and "s \<equiv> unat (csum_start h)"
  shows "NOT (rfc1071 (pseudo_header (if is_tcp_gso h then IPPROTO_TCP else IPPROTO_UDP)
      (if v6 then subslice 8 24 seg else subslice 12 16 seg)
      (if v6 then subslice 24 40 seg else subslice 16 20 seg)
      (of_nat (length seg - s)) @ drop s seg)) = 0"
proof -
  note acc = gso_split_accepts [OF assms(1)]
  note hdr = csum_in_header [OF acc assms(2)]
  define job where "job = gso_job_for inp h v6 offset"
  note seg = nth_segment_eq [OF assms(1) hdr assms(3), folded job_def]
  have ok: "job_ok job" using acc hdr by (simp add: job_def gso_job_ok)
  have k: "k < segment_count job" using assms(3) seg(3) by simp
  note b = segment_bounds [OF ok k]
  have s: "s + 8 \<le> unat (hdr_len h)" "unat (hdr_len h) \<le> length inp" "20 \<le> s"
    using acc by (auto simp: gso_accepts_def s_def split: if_splits)
  have len: "length seg - s = unat (hdr_len h - csum_start h) + (segment_end job k - segment_start job k)"
    using b(5) s unat_hdr_minus [OF ok] by (simp add: seg_def seg(1) segment_len_def s_def) (simp add: job_def)
  have lens: "length (job_src_addr_bytes job) = (if v6 then 16 else 4)"
    "length (job_dst_addr_bytes job) = (if v6 then 16 else 4)"
    using acc by (auto simp: job_def gso_job_for_def Let_def gso_accepts_def)
  have "length seg < 2 ^ 32" using b(4,5) unat_u16_bound [of "hdr_len h"] unat_u16_bound [of "gso_size h"]
    by (simp add: seg_def seg(1) gso_step_def job_def)
  then have "checksum (drop s seg) (segment_csum_no_fold job (segment_end job k - segment_start job k)) =
      rfc1071 (pseudo_header (job_protocol job) (job_src_addr_bytes job) (job_dst_addr_bytes job)
        (of_nat (length seg - s)) @ drop s seg)"
    using lens len by (simp add: segment_csum_no_fold_def Let_def checksum_with_pseudo_header) (simp add: job_def)
  moreover have "NOT (checksum (drop s seg) (segment_csum_no_fold job (segment_end job k - segment_start job k))) = 0"
    using segment_transport_valid [OF acc assms(2) k [unfolded job_def], folded job_def]
    by (simp add: seg_def seg(1) s_def)
  ultimately have "NOT (rfc1071 (pseudo_header (job_protocol job) (job_src_addr_bytes job) (job_dst_addr_bytes job)
      (of_nat (length seg - s)) @ drop s seg)) = 0" by simp
  moreover have "job_protocol job = (if is_tcp_gso h then IPPROTO_TCP else IPPROTO_UDP)"
    by (simp add: job_def)
  ultimately show ?thesis
    using segment_addrs [OF acc assms(2) k [unfolded job_def], folded job_def, folded seg(1)]
    by (simp only: seg_def)
qed

definition gso_example_seg :: "byte list" where
  "gso_example_seg = nth_segment 2 (placed_bufs gso_example_job 0 (replicate 3 (replicate 50 7)))
     (placed_sizes gso_example_job 0 [0, 0, 0]) 1"

theorem gso_split_transport_checksum_witness:
  "NOT (rfc1071 (pseudo_header (if is_tcp_gso gso_example_hdr then IPPROTO_TCP else IPPROTO_UDP)
      (if False then subslice 8 24 gso_example_seg else subslice 12 16 gso_example_seg)
      (if False then subslice 24 40 gso_example_seg else subslice 16 20 gso_example_seg)
      (of_nat (length gso_example_seg - unat (csum_start gso_example_hdr))) @ drop (unat (csum_start gso_example_hdr)) gso_example_seg)) = 0"
  unfolding gso_example_seg_def by (rule gso_split_transport_checksum [OF gso_example_Ok gso_example_hdr_ok(2)]) simp

text \<open>
  C6. The IP header of every segment: total length and ID (IPv4) or payload length (IPv6) are those
  of the segment, the ID counts up from the packet's, the IPv4 header checksum verifies, and every
  other byte is the packet's.
\<close>

theorem gso_split_ip_header:
  assumes "gso_split inp h bufs sizes offset v6 = Ok (n, inp', bufs', sizes')"
    and "csum_offset_ok h" "k < n"
  defines "seg \<equiv> nth_segment offset bufs' sizes' k" and "s \<equiv> unat (csum_start h)"
  shows "if v6 then read_u16 seg 4 = of_nat (length seg - 40)
      \<and> (\<forall>i < s. i \<notin> {4, 5} \<longrightarrow> seg ! i = inp ! i)
    else NOT (checksum (take s seg) 0) = 0 \<and> read_u16 seg 2 = of_nat (length seg)
      \<and> read_u16 seg 4 = read_u16 inp 4 + of_nat k
      \<and> (\<forall>i < s. i \<notin> {2, 3, 4, 5, 10, 11} \<longrightarrow> seg ! i = inp ! i)"
proof -
  note acc = gso_split_accepts [OF assms(1)]
  note hdr = csum_in_header [OF acc assms(2)]
  define job where "job = gso_job_for inp h v6 offset"
  note seg = nth_segment_eq [OF assms(1) hdr assms(3), folded job_def]
  have ok: "job_ok job" using acc hdr by (simp add: job_def gso_job_ok)
  have k: "k < segment_count job" using assms(3) seg(3) by simp
  have h: "job_hdr job = h" "job_is_v6 job = v6" "job_input job = gso_cleared inp h v6" by (simp_all add: job_def)
  have s: "(if v6 then 40 else 20) \<le> s" "s + 6 \<le> transport_csum_at h" "s \<le> length inp"
    using acc assms(2) by (auto simp: gso_accepts_def csum_offset_ok_def transport_csum_at_def s_def split: if_splits)
  have len: "length seg = segment_len job k" using segment_bounds(5) [OF ok k] by (simp add: seg_def seg(1))
  define ip where "ip = gso_ip_bytes job k (segment_len job k)"
  have ip: "take s seg = ip" using segment_parts(3) [OF ok k] by (simp add: seg_def seg(1) h s_def ip_def)
  have nth: "seg ! i = ip ! i" if "i < s" for i using that by (simp flip: ip)
  have rd: "read_u16 seg i = read_u16 ip i" if "i + 1 < s" for i using that by (simp add: read_u16_def nth)
  have cl: "gso_cleared inp h v6 ! i = inp ! i" if "i < s" "v6 \<or> i \<noteq> 10 \<and> i \<noteq> 11" for i
    using that s by (auto simp: gso_cleared_nth split: if_splits)
  have zero: "gso_cleared inp h v6 ! 10 = 0" "gso_cleared inp h v6 ! 11 = 0" if "\<not> v6"
    using that s by (simp_all add: gso_cleared_nth)
  show ?thesis
  proof (cases v6)
    case True
    then show ?thesis using nth_gso_ip_bytes_v6 [OF ok, where k = k and t = "segment_len job k"] s cl nth
      by (simp add: h rd len flip: ip_def s_def)
  next
    case False
    have "read_u16 (gso_cleared inp h v6) 4 = read_u16 inp 4" using cl s by (simp add: read_u16_def split: if_splits)
    then show ?thesis
      using nth_gso_ip_bytes_v4 [OF ok, where k = k and t = "segment_len job k"] zero False s cl nth
      by (simp add: h rd len ip flip: ip_def s_def)
  qed
qed

theorem gso_split_ip_header_witness:
  "NOT (checksum (take (unat (csum_start gso_example_hdr)) gso_example_seg) 0) = 0
    \<and> read_u16 gso_example_seg 4 = read_u16 gso_example_packet 4 + of_nat 1"
  unfolding gso_example_seg_def
  using gso_split_ip_header [OF gso_example_Ok gso_example_hdr_ok(2), of 1] by simp

text \<open>
  C7. The transport header of every segment: TCP sequence numbers advance by \<open>gso_size\<close> per segment
  and FIN and PSH survive on the last one only; the UDP length is the segment's; every other byte
  but the checksum is the packet's.
\<close>

theorem gso_split_transport_header:
  assumes "gso_split inp h bufs sizes offset v6 = Ok (n, inp', bufs', sizes')"
    and "csum_offset_ok h" "k < n"
  defines "seg \<equiv> nth_segment offset bufs' sizes' k" and "s \<equiv> unat (csum_start h)"
  shows "(if is_tcp_gso h
      then read_u32 seg (s + 4) = read_u32 inp (s + 4) + ucast (gso_size h) * of_nat k
        \<and> seg ! (s + 13) =
          (if k + 1 < n then inp ! (s + 13) AND NOT (TCP_FLAG_FIN OR TCP_FLAG_PSH) else inp ! (s + 13))
      else read_u16 seg (s + 4) = of_nat (length seg - s))
    \<and> (\<forall>i. s + i < unat (hdr_len h) \<and> i \<notin> th_changed h \<longrightarrow> seg ! (s + i) = inp ! (s + i))"
proof -
  note acc = gso_split_accepts [OF assms(1)]
  note hdr = csum_in_header [OF acc assms(2)]
  note seg = nth_segment_eq [OF assms(1) hdr assms(3)]
  have k: "k < segment_count (gso_job_for inp h v6 offset)" using assms(3) seg(3) by simp
  have len: "length seg = segment_len (gso_job_for inp h v6 offset) k"
    using segment_bounds(5) [OF gso_job_ok [OF acc hdr] k] by (simp add: seg_def seg(1))
  note t = nth_segment_transport [OF acc assms(2) k, folded seg(1) seg_def s_def len seg(3)]
  show ?thesis using t by auto
qed

theorem gso_split_transport_header_witness:
  "gso_example_seg ! (unat (csum_start gso_example_hdr) + 13) = gso_example_packet ! (unat (csum_start gso_example_hdr) + 13)
    \<and> read_u32 gso_example_seg (unat (csum_start gso_example_hdr) + 4) =
      read_u32 gso_example_packet (unat (csum_start gso_example_hdr) + 4) + ucast (gso_size gso_example_hdr) * of_nat 1"
proof -
  have tcp: "is_tcp_gso gso_example_hdr" by code_simp
  show ?thesis
    using gso_split_transport_header [OF gso_example_Ok gso_example_hdr_ok(2), of 1] tcp
    by (simp add: gso_example_seg_def)
qed



text \<open>
  Without that proviso the split panics: the code checks the checksum offset against the packet,
  not against the segment, and a short last segment ends before it.
\<close>

theorem gso_split_can_panic:
  "gso_split (replicate 48 0) \<lparr>flags = 1, gso_type = 5, hdr_len = 28, gso_size = 2, csum_start = 20, csum_offset = 20\<rparr>
     (replicate 10 (replicate 30 0)) (replicate 10 0) 0 False = Panic"
proof -
  define h where "h = \<lparr>flags = 1, gso_type = 5, hdr_len = 28, gso_size = 2, csum_start = 20, csum_offset = 20\<rparr>"
  define job where "job = gso_job_for (replicate 48 0) h False 0"
  have acc: "gso_accepts (replicate 48 0) h False" unfolding h_def by code_simp
  have len: "length (job_input job) = 48" "job_out_offset job = 0" "job_hdr job = h" "job_is_v6 job = False"
    "job_protocol job = IPPROTO_UDP"
    by (simp_all add: job_def h_def is_tcp_gso_def offload_consts)
  have h: "unat (hdr_len h) = 28" "unat (csum_start h) = 20" "transport_csum_at h = 40" "unat (gso_size h) = 2"
    by (simp_all add: h_def transport_csum_at_def)
  have "gso_segment job 0 28 30 (replicate 30 0) = Panic"
    by (simp add: gso_segment_def Let_def len h gso_ip_header_def gso_transport_header_def offload_consts)
  then have "gso_loop job 0 28 (replicate 10 (replicate 30 0)) (replicate 10 0) = Panic"
    by (subst gso_loop.simps) (simp add: Let_def len h)
  then show ?thesis
    using acc by (simp add: gso_split_eq h flip: h_def job_def)
qed

end
