(* ===== verification/GroBatch.thy ===== *)
theory GroBatch
  imports GroStep GsoSpec
begin

text \<open>
  The batch: what one call of \<open>apply_gro\<close> (\<open>platform/linux/offload.rs\<close>) does to the whole list of
  buffers.  The one-packet steps of theory \<open>GroStep\<close> are composed into the loop of
  \<open>handle_gro\<close>, then into the two header passes that follow it, and the result is joined with
  \<open>gso_split\<close>: a merged packet, split again by its own header, gives back the segments.
\<close>

section \<open>A batch\<close>

definition state_inv :: "gbuf list \<Rightarrow> nat \<Rightarrow> nat \<Rightarrow> gro_state \<Rightarrow> bool" where
  "state_inv bufs0 offset n s \<longleftrightarrow> tcp_table_ok (gs_tcp s) \<and> udp_table_ok (gs_udp s) \<and>
     (\<exists>parts. gro_inv bufs0 offset n (gs_bufs s) (gs_to_write s)
        (map (tcp_owner bufs0 offset) (table_items (gs_tcp s)) @ map (udp_owner bufs0 offset) (table_items (gs_udp s)))
        parts)"

text \<open>What the end of a pass makes of the outcome of \<open>tcp_gro\<close> or \<open>udp_gro\<close>.\<close>

definition finish_packet :: "nat \<Rightarrow> nat \<Rightarrow> gro_result \<times> gro_state \<Rightarrow> gro_state res" where
  "finish_packet offset i = (\<lambda>(result, s). case result of
       Noop \<Rightarrow>
         let bytes = buf_bytes (gs_bufs s ! i)
         in ensure (offset \<le> length bytes)
           (bind_res (VirtioNetHdr_encode VirtioNetHdr_default
               (subslice (offset - VIRTIO_NET_HDR_LEN) offset bytes)) (\<lambda>hdr.
            Ok (s\<lparr>gs_bufs := (gs_bufs s)[i := (gs_bufs s ! i)\<lparr>buf_bytes :=
                     blit bytes (offset - VIRTIO_NET_HDR_LEN) hdr\<rparr>],
                  gs_to_write := gs_to_write s @ [i]\<rparr>)))
     | TableInsert \<Rightarrow> Ok (s\<lparr>gs_to_write := gs_to_write s @ [i]\<rparr>)
     | Coalesced \<Rightarrow> Ok s)"

lemma finish_packet_ok:
  assumes post: "gro_post bufs0 offset n (gs_to_write s) r (gs_bufs s)
      (map (tcp_owner bufs0 offset) (table_items (gs_tcp s)) @ map (udp_owner bufs0 offset) (table_items (gs_udp s)))"
    and tabs: "tcp_table_ok (gs_tcp s)" "udp_table_ok (gs_udp s)"
    and n: "n < length bufs0" "offset < length (buf_bytes (bufs0 ! n))" "VIRTIO_NET_HDR_LEN \<le> offset"
  shows "\<exists>s'. finish_packet offset n (r, s) = Ok s' \<and> state_inv bufs0 offset (Suc n) s'"
proof (cases r)
  case Noop
  then obtain parts where inv: "gro_inv bufs0 offset n (gs_bufs s) (gs_to_write s)
      (map (tcp_owner bufs0 offset) (table_items (gs_tcp s)) @ map (udp_owner bufs0 offset) (table_items (gs_udp s))) parts"
    using post by (auto simp: gro_post_def)
  let ?b = "buf_bytes (gs_bufs s ! n)"
  have b: "gs_bufs s ! n = bufs0 ! n" using gro_invD(3) [OF inv, of n] n by simp
  have "VirtioNetHdr_encode VirtioNetHdr_default (subslice (offset - VIRTIO_NET_HDR_LEN) offset ?b)
      = Ok (replicate VIRTIO_NET_HDR_LEN 0)"
    using n b by (simp add: encode_Ok blit_def)
  then have run: "finish_packet offset n (r, s) = Ok (s\<lparr>gs_bufs := (gs_bufs s)[n := (gs_bufs s ! n)\<lparr>buf_bytes :=
      blit ?b (offset - VIRTIO_NET_HDR_LEN) (replicate VIRTIO_NET_HDR_LEN 0)\<rparr>],
      gs_to_write := gs_to_write s @ [n]\<rparr>)"
    using Noop n b by (simp add: finish_packet_def Let_def)
  have "plain bufs0 offset n ((gs_bufs s ! n)\<lparr>buf_bytes :=
      blit ?b (offset - VIRTIO_NET_HDR_LEN) (replicate VIRTIO_NET_HDR_LEN 0)\<rparr>) [n]"
    using n by (intro plain_zeroed) (simp_all add: b)
  from gro_inv_noop [OF inv n(1) this] tabs run show ?thesis
    by (auto simp: state_inv_def)
qed (use post tabs in \<open>auto simp: gro_post_def finish_packet_def state_inv_def\<close>)

lemma handle_gro_packet_eq:
  "handle_gro_packet offset can i s =
     (let bytes = buf_bytes (gs_bufs s ! i)
      in if offset < VIRTIO_NET_HDR_LEN \<or> offset \<ge> length bytes then invalid_input ''invalid offset''
      else
        let tcp = (\<lambda>v6. bind_res (tcp_gro (gs_bufs s) offset i (gs_tcp s) v6)
              (\<lambda>(r, bufs, t). Ok (r, s\<lparr>gs_bufs := bufs, gs_tcp := t\<rparr>)));
            udp = (\<lambda>v6. bind_res (udp_gro (gs_bufs s) offset i (gs_udp s) v6)
              (\<lambda>(r, bufs, t). Ok (r, s\<lparr>gs_bufs := bufs, gs_udp := t\<rparr>)))
        in bind_res (case packet_is_gro_candidate (drop offset bytes) can of
               Tcp4GRO \<Rightarrow> tcp False | Tcp6GRO \<Rightarrow> tcp True
             | Udp4GRO \<Rightarrow> udp False | Udp6GRO \<Rightarrow> udp True
             | NotGRO \<Rightarrow> Ok (Noop, s)) (finish_packet offset i))"
  unfolding handle_gro_packet_def finish_packet_def ..

lemma handle_gro_packet_ok:
  assumes inv: "state_inv bufs0 offset n s" and N: "n < length bufs0" "length bufs0 \<le> 65535"
  shows "if VIRTIO_NET_HDR_LEN \<le> offset \<and> offset < length (buf_bytes (bufs0 ! n))
    then \<exists>s'. handle_gro_packet offset can n s = Ok s' \<and> state_inv bufs0 offset (Suc n) s'
    else handle_gro_packet offset can n s = invalid_input ''invalid offset''"
proof -
  let ?to = "tcp_owner bufs0 offset" and ?uo = "udp_owner bufs0 offset"
  obtain parts where i: "tcp_table_ok (gs_tcp s)" "udp_table_ok (gs_udp s)"
    "gro_inv bufs0 offset n (gs_bufs s) (gs_to_write s)
      (map ?to (table_items (gs_tcp s)) @ map ?uo (table_items (gs_udp s))) parts"
    using inv by (auto simp: state_inv_def)
  have b: "gs_bufs s ! n = bufs0 ! n" using gro_invD(3) [OF i(3), of n] N by simp
  show ?thesis
  proof (cases "VIRTIO_NET_HDR_LEN \<le> offset \<and> offset < length (buf_bytes (bufs0 ! n))")
    case False
    then show ?thesis by (auto simp: handle_gro_packet_def b)
  next
    case off: True
    let ?pkt = "drop offset (buf_bytes (bufs0 ! n))"
    note fin = finish_packet_ok [OF _ _ _ N(1)]
    have tcp: "\<exists>s'. bind_res (bind_res (tcp_gro (gs_bufs s) offset n (gs_tcp s) v6)
          (\<lambda>(r, bufs, t). Ok (r, s\<lparr>gs_bufs := bufs, gs_tcp := t\<rparr>))) (finish_packet offset n) = Ok s'
        \<and> state_inv bufs0 offset (Suc n) s'" if cand: "candidate ?pkt v6" for v6
    proof -
      obtain r bufs t where r: "tcp_gro (gs_bufs s) offset n (gs_tcp s) v6 = Ok (r, bufs, t)" "tcp_table_ok t"
        "gro_post bufs0 offset n (gs_to_write s) r bufs (map ?to (table_items t) @ map ?uo (table_items (gs_udp s)))"
        using tcp_gro_ok [OF cand N _ _ i(1) i(3)] off by auto
      show ?thesis using fin [of offset "s\<lparr>gs_bufs := bufs, gs_tcp := t\<rparr>" r] r i(2) off by simp
    qed
    have udp: "\<exists>s'. bind_res (bind_res (udp_gro (gs_bufs s) offset n (gs_udp s) v6)
          (\<lambda>(r, bufs, t). Ok (r, s\<lparr>gs_bufs := bufs, gs_udp := t\<rparr>))) (finish_packet offset n) = Ok s'
        \<and> state_inv bufs0 offset (Suc n) s'" if cand: "candidate ?pkt v6" for v6
    proof -
      have "gro_inv bufs0 offset n (gs_bufs s) (gs_to_write s)
          (map ?uo (table_items (gs_udp s)) @ map ?to (table_items (gs_tcp s))) parts"
        using i(3) by (rule gro_inv_perm) (simp add: add.commute)
      then obtain r bufs t where r: "udp_gro (gs_bufs s) offset n (gs_udp s) v6 = Ok (r, bufs, t)" "udp_table_ok t"
        "gro_post bufs0 offset n (gs_to_write s) r bufs (map ?uo (table_items t) @ map ?to (table_items (gs_tcp s)))"
        using udp_gro_ok [OF cand N _ i(2)] off by blast
      have "gro_post bufs0 offset n (gs_to_write s) r bufs (map ?to (table_items (gs_tcp s)) @ map ?uo (table_items t))"
        using r(3) unfolding gro_post_def
        by (elim ex_forward) (auto split: gro_result.splits elim!: gro_inv_perm)
      then show ?thesis using fin [of offset "s\<lparr>gs_bufs := bufs, gs_udp := t\<rparr>" r] r(1,2) i(1) off by simp
    qed
    have none: "\<exists>s'. finish_packet offset n (Noop, s) = Ok s' \<and> state_inv bufs0 offset (Suc n) s'"
      using i off by (intro fin) (auto simp: gro_post_def)
    have "\<exists>s'. handle_gro_packet offset can n s = Ok s' \<and> state_inv bufs0 offset (Suc n) s'"
      using off tcp udp none packet_is_gro_candidateD [of ?pkt can]
      by (cases "packet_is_gro_candidate ?pkt can") (simp_all add: handle_gro_packet_eq b Let_def)
    then show ?thesis using off by simp
  qed
qed

lemma handle_gro_loop_append:
  "handle_gro_loop offset can (xs @ ys) s = bind_res (handle_gro_loop offset can xs s) (handle_gro_loop offset can ys)"
  by (induction xs arbitrary: s) (auto simp: bind_res_def split: res.splits)

text \<open>Every buffer leaves room for the header and holds at least one byte of packet.\<close>

definition gro_buffers_ok :: "nat \<Rightarrow> gbuf list \<Rightarrow> bool" where
  "gro_buffers_ok offset bufs \<longleftrightarrow> (\<forall>b \<in> set bufs. VIRTIO_NET_HDR_LEN \<le> offset \<and> offset < length (buf_bytes b))"

lemma handle_gro_loop_ok:
  assumes "state_inv bufs0 offset 0 s" "n \<le> length bufs0" "length bufs0 \<le> 65535"
  shows "if gro_buffers_ok offset (take n bufs0)
    then \<exists>s'. handle_gro_loop offset can [0..<n] s = Ok s' \<and> state_inv bufs0 offset n s'
    else handle_gro_loop offset can [0..<n] s = invalid_input ''invalid offset''"
  using assms(2)
proof (induction n)
  case 0
  then show ?case using assms by (simp add: gro_buffers_ok_def)
next
  case (Suc n)
  have t: "take (Suc n) bufs0 = take n bufs0 @ [bufs0 ! n]" using Suc.prems by (simp add: take_Suc_conv_app_nth)
  show ?case
  proof (cases "gro_buffers_ok offset (take n bufs0)")
    case True
    then obtain s' where s': "handle_gro_loop offset can [0..<n] s = Ok s'" "state_inv bufs0 offset n s'"
      using Suc by auto
    show ?thesis
      using handle_gro_packet_ok [OF s'(2) _ assms(3), of can] True Suc.prems
      by (auto simp: handle_gro_loop_append s'(1) t gro_buffers_ok_def bind_res_def invalid_input_def)
  next
    case False
    then show ?thesis using Suc
      by (auto simp: handle_gro_loop_append t gro_buffers_ok_def invalid_input_def)
  qed
qed

section \<open>The accounting\<close>

text \<open>The loop over items with distinct buffers: each changes its own buffer, in any order.\<close>

lemma each_item_ok:
  assumes step: "\<And>item bufs. item \<in> set items \<Longrightarrow> ix item < length bufs \<Longrightarrow> pre item (bufs ! ix item)
      \<Longrightarrow> f item bufs = Ok (bufs[ix item := g item (bufs ! ix item)])"
    and "distinct (map ix items)" "\<And>item. item \<in> set items \<Longrightarrow> ix item < length bufs \<and> pre item (bufs ! ix item)"
  shows "\<exists>bufs'. each_item f items bufs = Ok bufs' \<and> length bufs' = length bufs
    \<and> (\<forall>item \<in> set items. bufs' ! ix item = g item (bufs ! ix item))
    \<and> (\<forall>j. j \<notin> ix ` set items \<longrightarrow> bufs' ! j = bufs ! j)"
  using assms
proof (induction items arbitrary: bufs)
  case (Cons item items)
  let ?bufs = "bufs[ix item := g item (bufs ! ix item)]"
  have ne: "ix item \<noteq> ix it" if "it \<in> set items" for it
    using Cons.prems(2) imageI [OF that, of ix] by auto
  have "\<exists>bufs'. each_item f items ?bufs = Ok bufs' \<and> length bufs' = length ?bufs
    \<and> (\<forall>item \<in> set items. bufs' ! ix item = g item (?bufs ! ix item))
    \<and> (\<forall>j. j \<notin> ix ` set items \<longrightarrow> bufs' ! j = ?bufs ! j)"
    using Cons.prems ne by (intro Cons.IH) auto
  then obtain bufs' where b: "each_item f items ?bufs = Ok bufs'" "length bufs' = length bufs"
    "\<And>it. it \<in> set items \<Longrightarrow> bufs' ! ix it = g it (bufs ! ix it)"
    "\<And>j. j \<notin> ix ` set items \<Longrightarrow> bufs' ! j = ?bufs ! j"
    using ne by auto
  have "f item bufs = Ok ?bufs" using Cons.prems(1) [of item bufs] Cons.prems(3) [of item] by simp
  moreover have "bufs' ! ix item = g item (bufs ! ix item)"
    using b(4) [of "ix item"] ne Cons.prems(3) [of item] by auto
  ultimately show ?case using b by (intro exI [of _ bufs']) auto
qed simp

lemma encode_before_Ok:
  assumes "VIRTIO_NET_HDR_LEN \<le> offset" "offset \<le> length buf"
  shows "encode_before hdr offset buf = Ok (take (offset - VIRTIO_NET_HDR_LEN) buf @ hdr_bytes hdr @ drop offset buf)"
proof -
  have "offset - VIRTIO_NET_HDR_LEN \<le> length buf" using assms by linarith
  then show ?thesis using assms by (simp add: encode_before_def encode_Ok blit_whole_prefix)
qed

lemma length_merged_ip_header [simp]: "20 \<le> length pkt \<Longrightarrow> length (merged_ip_header v6 iph pkt) = length pkt"
  by (simp add: merged_ip_header_def Let_def)

lemma nth_merged_ip_header:
  assumes "20 \<le> length pkt" "12 \<le> k" "k < length pkt"
  shows "merged_ip_header v6 iph pkt ! k = pkt ! k"
  using assms by (simp add: merged_ip_header_def Let_def nth_write_u16)

lemma hd_merged_ip_header:
  assumes "20 \<le> length pkt" shows "merged_ip_header v6 iph pkt ! 0 = pkt ! 0"
proof -
  have "pkt \<noteq> []" using assms by auto
  then show ?thesis using assms by (simp add: merged_ip_header_def Let_def nth_write_u16)
qed

text \<open>A header that agrees with that of packet \<open>i\<close> where the version and the data offset are.\<close>

lemma head_ok_transfer:
  assumes "head_ok bufs0 offset v6 tcph i" "same_header offset h X b (bufs0 ! i)"
    and "offset \<le> length (buf_bytes b)" "offset \<le> length (buf_bytes (bufs0 ! i))"
    and "\<forall>k \<in> {0} \<union> (if tcph = None then {} else {ip_len v6 + 12}).
      k < h \<and> k \<notin> X \<and> P ! k = drop offset (buf_bytes b) ! k"
  shows "version_ok v6 P" "tcph = Some t \<Longrightarrow> tcp_doff P (ip_len v6) = t"
proof -
  have eq: "P ! k = drop offset (buf_bytes (bufs0 ! i)) ! k"
    if "k \<in> {0} \<union> (if tcph = None then {} else {ip_len v6 + 12})" for k
    using assms(2-4) bspec [OF assms(5) that] by (simp add: same_header_def)
  show "version_ok v6 P" using eq [of 0] assms(1) by (simp add: head_ok_def version_ok_def Let_def)
  show "tcp_doff P (ip_len v6) = t" if "tcph = Some t"
    using eq [of "ip_len v6 + 12"] assms(1) that by (simp add: head_ok_def tcp_doff_def Let_def)
qed

lemma drop_merged_ip_header:
  assumes "20 \<le> length pkt" "12 \<le> n"
  shows "drop n (merged_ip_header v6 iph pkt) = drop n pkt"
  using assms by (intro nth_equalityI) (simp_all add: nth_merged_ip_header)

text \<open>What the accounting of an item makes of its buffer.\<close>

definition tcp_item_hdr :: "TcpGROItem \<Rightarrow> VirtioNetHdr" where
  "tcp_item_hdr item = \<lparr>flags = VIRTIO_NET_HDR_F_NEEDS_CSUM,
     gso_type = (if tk_is_v6 (ti_key item) then VIRTIO_NET_HDR_GSO_TCPV6 else VIRTIO_NET_HDR_GSO_TCPV4),
     hdr_len = ucast (ti_iph_len item + ti_tcph_len item), gso_size = ti_gso_size item,
     csum_start = ucast (ti_iph_len item), csum_offset = 16\<rparr>"

definition udp_item_hdr :: "UdpGROItem \<Rightarrow> VirtioNetHdr" where
  "udp_item_hdr item = \<lparr>flags = VIRTIO_NET_HDR_F_NEEDS_CSUM, gso_type = VIRTIO_NET_HDR_GSO_UDP_L4,
     hdr_len = ucast (ui_iph_len item) + of_nat UDP_H_LEN, gso_size = ui_gso_size item,
     csum_start = ucast (ui_iph_len item), csum_offset = 6\<rparr>"

text \<open>The partial checksum left for the kernel: that of the pseudo-header alone.\<close>

definition partial_csum :: "byte \<Rightarrow> bool \<Rightarrow> byte \<Rightarrow> byte list \<Rightarrow> u16" where
  "partial_csum proto v6 iph pkt =
     (let (src, n) = addr_at v6
      in checksum [] (pseudo_header_checksum_no_fold proto (subslice src (src + n) pkt)
           (subslice (src + n) (src + n * 2) pkt) (of_nat (length pkt) - ucast iph)))"

definition tcp_accounted :: "nat \<Rightarrow> TcpGROItem \<Rightarrow> gbuf \<Rightarrow> gbuf" where
  "tcp_accounted offset item b =
     (let buf = buf_bytes b; pkt = drop offset buf; v6 = tk_is_v6 (ti_key item); iph = ti_iph_len item
      in b\<lparr>buf_bytes := take (offset - VIRTIO_NET_HDR_LEN) buf @
          (if ti_num_merged item > 0
           then hdr_bytes (tcp_item_hdr item)
             @ write_u16 (merged_ip_header v6 iph pkt) (unat iph + 16) (partial_csum IPPROTO_TCP v6 iph pkt)
           else hdr_bytes VirtioNetHdr_default @ pkt)\<rparr>)"

definition udp_accounted :: "nat \<Rightarrow> UdpGROItem \<Rightarrow> gbuf \<Rightarrow> gbuf" where
  "udp_accounted offset item b =
     (let buf = buf_bytes b; pkt = drop offset buf; v6 = uk_is_v6 (ui_key item); iph = ui_iph_len item
      in b\<lparr>buf_bytes := take (offset - VIRTIO_NET_HDR_LEN) buf @
          (if ui_num_merged item > 0
           then hdr_bytes (udp_item_hdr item)
             @ write_u16 (write_u16 (merged_ip_header v6 iph pkt) (unat iph + 4) (of_nat (length pkt) - ucast iph))
                 (unat iph + 6) (partial_csum IPPROTO_UDP v6 iph pkt)
           else hdr_bytes VirtioNetHdr_default @ pkt)\<rparr>)"

lemma csum_at_iph:
  assumes "unat (iph :: byte) = ip_len v"
  shows "unat (ucast iph + 16 :: u16) = unat iph + 16" "unat (ucast iph + 6 :: u16) = unat iph + 6"
    "unat (ucast iph + of_nat UDP_H_LEN :: u16) = unat iph + UDP_H_LEN"
  using assms ip_len_cases [of v] by (auto simp: unat_word_ariths unat_ucast_wider UDP_H_LEN_def)

lemma tcp_item_accounting_ok:
  assumes item: "tcp_item_ok bufs0 offset item (bufs ! unat (ti_bufs_index item)) ps"
    and j: "unat (ti_bufs_index item) < length bufs" and off: "VIRTIO_NET_HDR_LEN \<le> offset"
  shows "tcp_item_accounting offset item bufs
    = Ok (bufs[unat (ti_bufs_index item) := tcp_accounted offset item (bufs ! unat (ti_bufs_index item))])"
proof -
  let ?buf = "buf_bytes (bufs ! unat (ti_bufs_index item))"
  let ?v6 = "tk_is_v6 (ti_key item)"
  note I = tcp_item_okD [OF item]
  note G = group_okD [OF I(4)]
  have len: "offset + 20 + ip_len ?v6 \<le> length ?buf" using G(3) I(1,2) by simp
  then have l: "offset \<le> length ?buf" "20 \<le> length (drop offset ?buf)" "unat (ti_iph_len item) \<le> length ?buf - offset"
    "unat (ti_iph_len item) + 18 \<le> length ?buf - offset"
    using ip_len_cases [of ?v6] I(1) by auto
  have a: "(if ?v6 then (16, IPV6_SRC_ADDR_OFFSET) else (4, IPV4_SRC_ADDR_OFFSET)) = (snd (addr_at ?v6), fst (addr_at ?v6))"
    by (simp add: addr_at_def)
  have al: "fst (addr_at ?v6) + snd (addr_at ?v6) * 2 \<le> length (drop offset ?buf)"
    using len unfolding addr_at_bounds by simp
  have e: "ensure (fst (addr_at ?v6) + snd (addr_at ?v6) * 2 \<le> length (drop offset ?buf)
      \<and> (?v6 \<or> unat (ti_iph_len item) \<le> length (drop offset ?buf))) x = x" for x :: "gbuf list res"
    using al l(3) by (simp add: ensure_def)
  show ?thesis
  proof (cases "ti_num_merged item > 0")
    case False
    then show ?thesis using j off l(1)
      by (simp add: tcp_item_accounting_def Let_def encode_before_Ok tcp_accounted_def)
  next
    case True
    have t: "drop offset (take offset ?buf @ x) = x" "take (offset - n) (take offset ?buf @ x) = take (offset - n) ?buf"
      for x n using l(1) by (simp_all add: min_def)
    have t2: "drop offset (take (offset - VIRTIO_NET_HDR_LEN) ?buf @ hdr_bytes h @ x) = x"
      "take offset (take (offset - VIRTIO_NET_HDR_LEN) ?buf @ hdr_bytes h @ x)
        = take (offset - VIRTIO_NET_HDR_LEN) ?buf @ hdr_bytes h"
      for x h using l(1) off by simp_all
    have eb: "encode_before h offset (take offset ?buf @ x) =
        Ok (take (offset - VIRTIO_NET_HDR_LEN) ?buf @ hdr_bytes h @ x)" for h x
      using off l(1) t by (subst encode_before_Ok) simp_all
    have "ensure (unat (ucast (ti_iph_len item) + 16 :: u16) + 2
        \<le> length (merged_ip_header ?v6 (ti_iph_len item) (drop offset ?buf))) x = x" for x :: "gbuf list res"
      using csum_at_iph(1) [OF I(1)] l(2,4) by (simp add: ensure_def)
    then show ?thesis
      using True j l(1) csum_at_iph(1) [OF I(1)]
      unfolding tcp_item_accounting_def Let_def a prod.case e eb bind_res_simps t2
      by (simp add: tcp_accounted_def tcp_item_hdr_def partial_csum_def Let_def case_prod_unfold)
  qed
qed

lemma udp_item_accounting_ok:
  assumes item: "udp_item_ok bufs0 offset item (bufs ! unat (ui_bufs_index item)) ps"
    and j: "unat (ui_bufs_index item) < length bufs" and off: "VIRTIO_NET_HDR_LEN \<le> offset"
  shows "udp_item_accounting offset item bufs
    = Ok (bufs[unat (ui_bufs_index item) := udp_accounted offset item (bufs ! unat (ui_bufs_index item))])"
proof -
  let ?buf = "buf_bytes (bufs ! unat (ui_bufs_index item))"
  let ?v6 = "uk_is_v6 (ui_key item)"
  note I = udp_item_okD [OF item]
  note G = group_okD [OF I(2)]
  have len: "offset + 8 + ip_len ?v6 \<le> length ?buf" using G(3) I(1) by (simp add: UDP_H_LEN_def)
  then have l: "offset \<le> length ?buf" "20 \<le> length (drop offset ?buf)" "unat (ui_iph_len item) \<le> length ?buf - offset"
    "unat (ui_iph_len item) + 8 \<le> length ?buf - offset"
    using ip_len_cases [of ?v6] I(1) by auto
  have a: "(if ?v6 then (16, IPV6_SRC_ADDR_OFFSET) else (4, IPV4_SRC_ADDR_OFFSET)) = (snd (addr_at ?v6), fst (addr_at ?v6))"
    by (simp add: addr_at_def)
  have al: "fst (addr_at ?v6) + snd (addr_at ?v6) * 2 \<le> length (drop offset ?buf)"
    using len unfolding addr_at_bounds by simp
  have e: "ensure (fst (addr_at ?v6) + snd (addr_at ?v6) * 2 \<le> length (drop offset ?buf)
      \<and> (?v6 \<or> unat (ui_iph_len item) \<le> length (drop offset ?buf))) x = x" for x :: "gbuf list res"
    using al l(3) by (simp add: ensure_def)
  show ?thesis
  proof (cases "ui_num_merged item > 0")
    case False
    then show ?thesis using j off l(1)
      by (simp add: udp_item_accounting_def Let_def encode_before_Ok udp_accounted_def)
  next
    case True
    have t: "drop offset (take offset ?buf @ x) = x" "take (offset - n) (take offset ?buf @ x) = take (offset - n) ?buf"
      for x n using l(1) by (simp_all add: min_def)
    have t2: "drop offset (take (offset - VIRTIO_NET_HDR_LEN) ?buf @ hdr_bytes h @ x) = x"
      "take offset (take (offset - VIRTIO_NET_HDR_LEN) ?buf @ hdr_bytes h @ x)
        = take (offset - VIRTIO_NET_HDR_LEN) ?buf @ hdr_bytes h"
      for x h using l(1) off by simp_all
    have eb: "encode_before h offset (take offset ?buf @ x) =
        Ok (take (offset - VIRTIO_NET_HDR_LEN) ?buf @ hdr_bytes h @ x)" for h x
      using off l(1) t by (subst encode_before_Ok) simp_all
    show ?thesis
      using True j l csum_at_iph(2) [OF I(1)]
      unfolding udp_item_accounting_def Let_def a prod.case e eb bind_res_simps t2
      by (simp add: udp_accounted_def udp_item_hdr_def partial_csum_def Let_def case_prod_unfold ensure_def)
  qed
qed

section \<open>What is written\<close>

text \<open>
  \<open>pkt\<close> with the header \<open>hdr\<close> is the merge of the packets \<open>ps\<close>: \<open>gso_split\<close> accepts it, its IP header
  has the right lengths and checksum, and its payload cut every \<open>gso_size\<close> bytes is theirs; TCP
  packets are consecutive.
\<close>

definition merged_packet :: "gbuf list \<Rightarrow> nat \<Rightarrow> VirtioNetHdr \<Rightarrow> bool \<Rightarrow> byte list \<Rightarrow> nat list \<Rightarrow> bool" where
  "merged_packet bufs0 offset hdr v6 pkt ps \<longleftrightarrow>
     (let h = unat (hdr_len hdr); g = unat (gso_size hdr) in
       2 \<le> length ps \<and> flags hdr = VIRTIO_NET_HDR_F_NEEDS_CSUM \<and> unat (csum_start hdr) = ip_len v6
       \<and> gso_accepts pkt hdr v6 \<and> csum_offset_ok hdr
       \<and> version_ok v6 pkt \<and> h = ip_len v6 + (if is_tcp_gso hdr then tcp_doff pkt (ip_len v6) else UDP_H_LEN)
       \<and> (gso_type hdr = VIRTIO_NET_HDR_GSO_UDP_L4
          \<or> gso_type hdr = (if v6 then VIRTIO_NET_HDR_GSO_TCPV6 else VIRTIO_NET_HDR_GSO_TCPV4))
       \<and> (if v6 then read_u16 pkt 4 = of_nat (length pkt) - 40
          else read_u16 pkt 2 = of_nat (length pkt) \<and> NOT (checksum (take 20 pkt) 0) = 0)
       \<and> drop h pkt = concat (map (payload bufs0 offset h) ps)
       \<and> (\<forall>i \<in> set (butlast ps). length (payload bufs0 offset h i) = g)
       \<and> 0 < length (payload bufs0 offset h (last ps)) \<and> length (payload bufs0 offset h (last ps)) \<le> g
       \<and> (is_tcp_gso hdr \<longrightarrow> consecutive (tcp_seq_of bufs0 offset (ip_len v6))
            (\<lambda>i. length (payload bufs0 offset h i)) ps))"

text \<open>Buffer \<open>b\<close>, written at index \<open>j\<close>, holds the packets \<open>ps\<close>.\<close>

definition holds_packets :: "gbuf list \<Rightarrow> nat \<Rightarrow> nat \<Rightarrow> gbuf \<Rightarrow> nat list \<Rightarrow> bool" where
  "holds_packets bufs0 offset j b ps \<longleftrightarrow>
     (let pkt = drop offset (buf_bytes b) in
       \<exists>hdr. VirtioNetHdr_decode (drop (offset - VIRTIO_NET_HDR_LEN) (buf_bytes b)) = Ok hdr \<and>
         (if hdr = VirtioNetHdr_default then ps = [j] \<and> pkt = drop offset (buf_bytes (bufs0 ! j))
          else \<exists>v6. merged_packet bufs0 offset hdr v6 pkt ps))"

lemma take_write_u16:
  assumes "at + 2 \<le> n" "n \<le> length xs"
  shows "take n (write_u16 xs at w) = write_u16 (take n xs) at w"
  using write_u16_append_left [of at "take n xs" "drop n xs" w] assms by simp

lemma merged_ip_header_v4:
  assumes "20 \<le> length pkt" "unat iph = 20"
  shows "NOT (checksum (take 20 (merged_ip_header False iph pkt)) 0) = 0"
    "read_u16 (merged_ip_header False iph pkt) 2 = of_nat (length pkt)"
proof -
  define y where "y = take 20 (write_u16 (pkt[10 := 0, 11 := 0]) 2 (of_nat (length pkt)))"
  have ly: "length y = 20" using assms by (simp add: y_def)
  have z: "subslice 10 12 y = [0, 0]"
    using assms by (simp add: subslice_two y_def nth_write_u16)
  have "take 20 (merged_ip_header False iph pkt) = write_u16 y 10 (NOT (checksum y 0))"
    using assms by (simp add: merged_ip_header_def Let_def y_def take_write_u16)
  then show "NOT (checksum (take 20 (merged_ip_header False iph pkt)) 0) = 0"
    using ly z by (simp add: checksum_complement_valid)
  show "read_u16 (merged_ip_header False iph pkt) 2 = of_nat (length pkt)"
    using assms by (simp add: merged_ip_header_def Let_def byte_simps)
qed

lemma merged_ip_header_v6:
  assumes "40 \<le> length pkt" "unat iph = 40"
  shows "read_u16 (merged_ip_header True iph pkt) 4 = of_nat (length pkt) - 40"
proof -
  have "(ucast iph :: u16) = 40"
    using assms(2) by (simp add: word_unat_eq_iff unat_ucast_wider)
  then show ?thesis using assms by (simp add: merged_ip_header_def Let_def byte_simps)
qed

text \<open>A merged packet whose transport header was changed after the IP header.\<close>

definition ip_header_ok :: "bool \<Rightarrow> byte list \<Rightarrow> bool" where
  "ip_header_ok v6 pkt \<longleftrightarrow> (if v6 then read_u16 pkt 4 = of_nat (length pkt) - 40
     else read_u16 pkt 2 = of_nat (length pkt) \<and> NOT (checksum (take 20 pkt) 0) = 0)"

lemma ip_header_ok_merged:
  "ip_len v6 \<le> length pkt \<Longrightarrow> unat iph = ip_len v6 \<Longrightarrow> ip_header_ok v6 (merged_ip_header v6 iph pkt)"
  using merged_ip_header_v4 [of pkt iph] merged_ip_header_v6 [of pkt iph]
  by (cases v6) (simp_all add: ip_header_ok_def ip_len_def)

lemma ip_header_ok_write:
  assumes "ip_header_ok v6 pkt" "20 \<le> at" "at + 2 \<le> length pkt"
  shows "ip_header_ok v6 (write_u16 pkt at w)"
proof -
  have "take 20 (write_u16 pkt at w) = take 20 pkt" using assms(2,3) by (simp add: write_u16_def take_blit)
  then show ?thesis using assms by (simp add: ip_header_ok_def byte_simps)
qed

lemma drop_write_u16: "at + 2 \<le> n \<Longrightarrow> at + 2 \<le> length xs \<Longrightarrow> drop n (write_u16 xs at w) = drop n xs"
  by (simp add: write_u16_def drop_blit)

lemma hdr_not_default: "flags hdr = VIRTIO_NET_HDR_F_NEEDS_CSUM \<Longrightarrow> hdr \<noteq> VirtioNetHdr_default"
  by (auto simp: VirtioNetHdr_default_def VIRTIO_NET_HDR_F_NEEDS_CSUM_def)

lemma decode_written:
  assumes "VIRTIO_NET_HDR_LEN \<le> offset" "offset \<le> length buf"
  shows "VirtioNetHdr_decode (drop (offset - VIRTIO_NET_HDR_LEN)
      (take (offset - VIRTIO_NET_HDR_LEN) buf @ hdr_bytes hdr @ pkt)) = Ok hdr"
    "drop offset (take (offset - VIRTIO_NET_HDR_LEN) buf @ hdr_bytes hdr @ pkt) = pkt"
  using assms by (simp_all add: decode_hdr_bytes)

lemma tcp_accounted_holds:
  assumes item: "tcp_item_ok bufs0 offset item b ps" and off: "VIRTIO_NET_HDR_LEN \<le> offset"
  shows "holds_packets bufs0 offset (unat (ti_bufs_index item)) (tcp_accounted offset item b) ps"
proof -
  let ?v6 = "tk_is_v6 (ti_key item)" and ?iph = "ti_iph_len item" and ?pkt = "drop offset (buf_bytes b)"
  define h where "h = unat ?iph + unat (ti_tcph_len item)"
  note I = tcp_item_okD [OF item, folded h_def]
  note G = group_okD [OF I(4)]
  have ol: "offset \<le> length (buf_bytes b)" using G(3) by simp
  note dec = decode_written [OF off ol]
  show ?thesis
  proof (cases "ti_num_merged item > 0")
    case False
    then have "unat (ti_num_merged item) = 0" by (simp add: word_greater_zero_iff)
    moreover have e: "buf_bytes (tcp_accounted offset item b) = take (offset - VIRTIO_NET_HDR_LEN) (buf_bytes b)
        @ hdr_bytes VirtioNetHdr_default @ ?pkt"
      using False by (simp add: tcp_accounted_def Let_def del: hdr_bytes_default)
    ultimately show ?thesis using G(6,7) unfolding holds_packets_def Let_def e dec by simp
  next
    case True
    let ?hdr = "tcp_item_hdr item"
    define M where "M = merged_ip_header ?v6 ?iph ?pkt"
    define P where "P = write_u16 M (unat ?iph + 16) (partial_csum IPPROTO_TCP ?v6 ?iph ?pkt)"
    have nm: "0 < unat (ti_num_merged item)" using True by (simp add: word_less_nat_alt)
    have len: "h < length ?pkt" "unat ?iph + 20 \<le> h" "20 \<le> unat ?iph"
      using G(3) I(1,2) ip_len_cases [of ?v6] by (auto simp: h_def)
    have lM: "length M = length ?pkt" using len by (simp add: M_def)
    have lP: "length P = length ?pkt" using len lM by (simp add: P_def)
    have ip: "ip_header_ok ?v6 P" unfolding P_def
      using len I(1) lM by (intro ip_header_ok_write) (simp_all add: M_def ip_header_ok_merged)
    have d: "drop h P = drop (offset + h) (buf_bytes b)"
      unfolding P_def using len lM by (simp add: drop_write_u16) (simp add: M_def drop_merged_ip_header add.commute)
    have hl: "unat (hdr_len ?hdr) = h" "unat (csum_start ?hdr) = ip_len ?v6" "unat (gso_size ?hdr) = unat (ti_gso_size item)"
      "transport_csum_at ?hdr = unat ?iph + 16" "is_tcp_gso ?hdr" "csum_offset_ok ?hdr" "gso_size ?hdr \<noteq> 0"
      using I(1,3) ip_len_cases [of ?v6] G(4)
      by (auto simp: tcp_item_hdr_def h_def unat_ucast_wider unat_add_bytes transport_csum_at_def csum_offset_ok_def
          is_tcp_gso_def)
    have acc: "gso_accepts P ?hdr ?v6"
      using hl len lP I(1) by (simp add: gso_accepts_def ip_len_def split: if_splits)
    have PM: "P ! k = ?pkt ! k" if "k = 0 \<or> k = ip_len ?v6 + 12" for k
    proof -
      have "P ! k = M ! k" using that len lM I(1) ip_len_cases [of ?v6] by (auto simp: P_def nth_write_u16)
      also have "M ! k = ?pkt ! k"
        using that len I(1) ip_len_cases [of ?v6] by (auto simp: M_def hd_merged_ip_header nth_merged_ip_header)
      finally show ?thesis .
    qed
    have o0: "offset \<le> length (buf_bytes (bufs0 ! hd ps))" using group_head_room [OF I(4)] .
    have head: "version_ok ?v6 P" "tcp_doff P (ip_len ?v6) = unat (ti_tcph_len item)"
      using head_ok_transfer [OF I(8,7) ol o0, of P] PM [of 0] PM [of "ip_len ?v6 + 12"] len I(1)
      by (auto simp: TCP_FLAGS_OFFSET_def h_def)
    have "merged_packet bufs0 offset ?hdr ?v6 P ps"
      using hl acc ip d G I(1,4,6) nm head h_def
      unfolding merged_packet_def Let_def
      by (auto simp: ip_header_ok_def group_ok_def) (auto simp: tcp_item_hdr_def)
    moreover have "?hdr \<noteq> VirtioNetHdr_default" by (rule hdr_not_default) (simp add: tcp_item_hdr_def)
    moreover have e: "buf_bytes (tcp_accounted offset item b) = take (offset - VIRTIO_NET_HDR_LEN) (buf_bytes b)
        @ hdr_bytes ?hdr @ P"
      using True by (simp add: tcp_accounted_def Let_def P_def M_def)
    ultimately show ?thesis unfolding holds_packets_def Let_def e dec by auto
  qed
qed

lemma udp_accounted_holds:
  assumes item: "udp_item_ok bufs0 offset item b ps" and off: "VIRTIO_NET_HDR_LEN \<le> offset"
  shows "holds_packets bufs0 offset (unat (ui_bufs_index item)) (udp_accounted offset item b) ps"
proof -
  let ?v6 = "uk_is_v6 (ui_key item)" and ?iph = "ui_iph_len item" and ?pkt = "drop offset (buf_bytes b)"
  define h where "h = unat ?iph + UDP_H_LEN"
  note I = udp_item_okD [OF item, folded h_def]
  note G = group_okD [OF I(2)]
  have ol: "offset \<le> length (buf_bytes b)" using G(3) by simp
  note dec = decode_written [OF off ol]
  show ?thesis
  proof (cases "ui_num_merged item > 0")
    case False
    then have "unat (ui_num_merged item) = 0" by (simp add: word_greater_zero_iff)
    moreover have e: "buf_bytes (udp_accounted offset item b) = take (offset - VIRTIO_NET_HDR_LEN) (buf_bytes b)
        @ hdr_bytes VirtioNetHdr_default @ ?pkt"
      using False by (simp add: udp_accounted_def Let_def del: hdr_bytes_default)
    ultimately show ?thesis using G(6,7) unfolding holds_packets_def Let_def e dec by simp
  next
    case True
    let ?hdr = "udp_item_hdr item"
    define M where "M = merged_ip_header ?v6 ?iph ?pkt"
    define L where "L = write_u16 M (unat ?iph + 4) (of_nat (length ?pkt) - ucast ?iph)"
    define P where "P = write_u16 L (unat ?iph + 6) (partial_csum IPPROTO_UDP ?v6 ?iph ?pkt)"
    have nm: "0 < unat (ui_num_merged item)" using True by (simp add: word_less_nat_alt)
    have len: "h < length ?pkt" "unat ?iph + 8 = h" "20 \<le> unat ?iph"
      using G(3) I(1) ip_len_cases [of ?v6] by (auto simp: h_def UDP_H_LEN_def)
    have lM: "length M = length ?pkt" using len by (simp add: M_def)
    have lL: "length L = length ?pkt" using len lM by (simp add: L_def)
    have lP: "length P = length ?pkt" using len lL by (simp add: P_def)
    have "ip_header_ok ?v6 L" unfolding L_def
      using len I(1) lM by (intro ip_header_ok_write) (simp_all add: M_def ip_header_ok_merged)
    then have ip: "ip_header_ok ?v6 P" unfolding P_def
      using len lL by (intro ip_header_ok_write) simp_all
    have "drop h L = drop (offset + h) (buf_bytes b)"
      unfolding L_def using len lM by (simp add: drop_write_u16) (simp add: M_def drop_merged_ip_header add.commute)
    then have d: "drop h P = drop (offset + h) (buf_bytes b)"
      unfolding P_def using len lL by (simp add: drop_write_u16)
    have hl: "unat (hdr_len ?hdr) = h" "unat (csum_start ?hdr) = ip_len ?v6" "unat (gso_size ?hdr) = unat (ui_gso_size item)"
      "transport_csum_at ?hdr = unat ?iph + 6" "\<not> is_tcp_gso ?hdr" "csum_offset_ok ?hdr" "gso_size ?hdr \<noteq> 0"
      using I(1) G(4) csum_at_iph(3) [OF I(1)]
      by (auto simp: udp_item_hdr_def h_def unat_ucast_wider transport_csum_at_def csum_offset_ok_def
          is_tcp_gso_def offload_consts)
    have acc: "gso_accepts P ?hdr ?v6"
      using hl len lP I(1) by (simp add: gso_accepts_def ip_len_def split: if_splits)
    have PM: "P ! 0 = ?pkt ! 0"
      using len lM lL by (simp add: P_def L_def nth_write_u16) (simp add: M_def hd_merged_ip_header)
    have o0: "offset \<le> length (buf_bytes (bufs0 ! hd ps))" using group_head_room [OF I(2)] .
    have head: "version_ok ?v6 P"
      using head_ok_transfer(1) [OF I(4,3) ol o0, of P] PM len by auto
    have "merged_packet bufs0 offset ?hdr ?v6 P ps"
      using hl acc ip d G I(1,2) nm head h_def
      unfolding merged_packet_def Let_def
      by (auto simp: ip_header_ok_def group_ok_def) (auto simp: udp_item_hdr_def)
    moreover have "?hdr \<noteq> VirtioNetHdr_default" by (rule hdr_not_default) (simp add: udp_item_hdr_def)
    moreover have e: "buf_bytes (udp_accounted offset item b) = take (offset - VIRTIO_NET_HDR_LEN) (buf_bytes b)
        @ hdr_bytes ?hdr @ P"
      using True by (simp add: udp_accounted_def Let_def P_def L_def M_def)
    ultimately show ?thesis unfolding holds_packets_def Let_def e dec by auto
  qed
qed

lemma plain_holds:
  assumes "plain bufs0 offset j b ps" "VIRTIO_NET_HDR_LEN \<le> offset" "offset \<le> length (buf_bytes b)"
  shows "holds_packets bufs0 offset j b ps"
proof -
  let ?o = "offset - VIRTIO_NET_HDR_LEN"
  have "drop ?o (buf_bytes b) = subslice ?o offset (buf_bytes b) @ drop offset (buf_bytes b)"
    using assms(2,3) append_take_drop_id [of VIRTIO_NET_HDR_LEN "drop ?o (buf_bytes b)"]
    by (simp add: subslice_def del: append_take_drop_id)
  also have "subslice ?o offset (buf_bytes b) = hdr_bytes VirtioNetHdr_default"
    using assms(1) by (simp add: plain_def)
  finally have "VirtioNetHdr_decode (drop ?o (buf_bytes b)) = Ok VirtioNetHdr_default"
    by (simp only: decode_hdr_bytes)
  then show ?thesis using assms(1) by (simp add: holds_packets_def plain_def)
qed

section \<open>The whole batch\<close>

lemma handle_gro_ok:
  assumes inv: "state_inv (gs_bufs s) offset 0 s"
    and ok: "length (gs_bufs s) \<le> 65535" "gro_buffers_ok offset (gs_bufs s)"
  defines "bufs0 \<equiv> gs_bufs s"
  shows "\<exists>s' parts. handle_gro offset can s = Ok s' \<and> length (gs_bufs s') = length bufs0
    \<and> sorted (gs_to_write s') \<and> distinct (gs_to_write s') \<and> set (gs_to_write s') \<subseteq> {..<length bufs0}
    \<and> mset (concat (map parts (gs_to_write s'))) = mset [0..<length bufs0]
    \<and> (\<forall>j \<in> set (gs_to_write s'). holds_packets bufs0 offset j (gs_bufs s' ! j) (parts j))"
proof -
  let ?to = "tcp_owner bufs0 offset" and ?uo = "udp_owner bufs0 offset"
  let ?N = "length bufs0"
  obtain s1 where s1: "handle_gro_loop offset can [0..<?N] s = Ok s1" "state_inv bufs0 offset ?N s1"
    using handle_gro_loop_ok [OF inv order_refl ok(1), of can] ok(2) by (auto simp: bufs0_def)
  let ?T = "table_items (gs_tcp s1)" and ?U = "table_items (gs_udp s1)" and ?b = "gs_bufs s1"
  let ?ti = "\<lambda>it. unat (ti_bufs_index it)" and ?ui = "\<lambda>it. unat (ui_bufs_index it)"
  obtain parts where inv1: "gro_inv bufs0 offset ?N ?b (gs_to_write s1) (map ?to ?T @ map ?uo ?U) parts"
    using s1(2) by (auto simp: state_inv_def)
  note D = gro_invD [OF inv1]
  have jl: "j < ?N" if "j \<in> set (gs_to_write s1)" for j using D(6) that by auto
  have T: "?ti it \<in> set (gs_to_write s1) \<and> tcp_item_ok bufs0 offset it (?b ! ?ti it) (parts (?ti it))"
    if "it \<in> set ?T" for it
    using D(9) [of "?ti it" "tcp_item_ok bufs0 offset it"] that by (auto simp: tcp_owner_def)
  have U: "?ui it \<in> set (gs_to_write s1) \<and> udp_item_ok bufs0 offset it (?b ! ?ui it) (parts (?ui it))"
    if "it \<in> set ?U" for it
    using D(9) [of "?ui it" "udp_item_ok bufs0 offset it"] that by (auto simp: udp_owner_def)
  have dist: "distinct (map ?ti ?T)" "distinct (map ?ui ?U)" "\<And>t u. t \<in> set ?T \<Longrightarrow> u \<in> set ?U \<Longrightarrow> ?ti t \<noteq> ?ui u"
    using D(8) by (auto simp: tcp_owner_def udp_owner_def comp_def)
  have off: "VIRTIO_NET_HDR_LEN \<le> offset" if "?N > 0"
    using ok(2) that by (auto simp: gro_buffers_ok_def bufs0_def) (use nth_mem in force)
  have offT: "VIRTIO_NET_HDR_LEN \<le> offset" if "it \<in> set ?T" for it using off T [OF that] jl [of "?ti it"] by fastforce
  have offU: "VIRTIO_NET_HDR_LEN \<le> offset" if "it \<in> set ?U" for it using off U [OF that] jl [of "?ui it"] by fastforce
  have "\<exists>b. each_item (tcp_item_accounting offset) ?T ?b = Ok b \<and> length b = length ?b
    \<and> (\<forall>it \<in> set ?T. b ! ?ti it = tcp_accounted offset it (?b ! ?ti it)) \<and> (\<forall>j. j \<notin> ?ti ` set ?T \<longrightarrow> b ! j = ?b ! j)"
    by (rule each_item_ok [where pre = "\<lambda>it b. tcp_item_ok bufs0 offset it b (parts (?ti it))"])
      (use T jl D(1) dist offT in \<open>auto intro!: tcp_item_accounting_ok\<close>)
  then obtain b2 where b2: "each_item (tcp_item_accounting offset) ?T ?b = Ok b2" "length b2 = length ?b"
    "\<And>it. it \<in> set ?T \<Longrightarrow> b2 ! ?ti it = tcp_accounted offset it (?b ! ?ti it)"
    "\<And>j. j \<notin> ?ti ` set ?T \<Longrightarrow> b2 ! j = ?b ! j" by blast
  have b2u: "b2 ! ?ui it = ?b ! ?ui it" if "it \<in> set ?U" for it
    using b2(4) [of "?ui it"] dist(3) that by force
  have "\<exists>b. each_item (udp_item_accounting offset) ?U b2 = Ok b \<and> length b = length b2
    \<and> (\<forall>it \<in> set ?U. b ! ?ui it = udp_accounted offset it (b2 ! ?ui it)) \<and> (\<forall>j. j \<notin> ?ui ` set ?U \<longrightarrow> b ! j = b2 ! j)"
    by (rule each_item_ok [where pre = "\<lambda>it b. udp_item_ok bufs0 offset it b (parts (?ui it))"])
      (use U jl D(1) dist offU b2(2) b2u in \<open>auto intro!: udp_item_accounting_ok\<close>)
  then obtain b3 where b3: "each_item (udp_item_accounting offset) ?U b2 = Ok b3" "length b3 = length b2"
    "\<And>it. it \<in> set ?U \<Longrightarrow> b3 ! ?ui it = udp_accounted offset it (b2 ! ?ui it)"
    "\<And>j. j \<notin> ?ui ` set ?U \<Longrightarrow> b3 ! j = b2 ! j" by blast
  let ?s' = "s1\<lparr>gs_bufs := b3\<rparr>"
  have run: "handle_gro offset can s = Ok ?s'"
    using ok(1) s1(1) b2(1) b3(1)
    by (simp add: handle_gro_def apply_tcp_coalesce_accounting_def apply_udp_coalesce_accounting_def bufs0_def)
  have "holds_packets bufs0 offset j (b3 ! j) (parts j)" if j: "j \<in> set (gs_to_write s1)" for j
  proof -
    have o: "VIRTIO_NET_HDR_LEN \<le> offset" using off jl [OF j] by fastforce
    consider t where "t \<in> set ?T" "j = ?ti t" | u where "u \<in> set ?U" "j = ?ui u"
      | "j \<notin> ?ti ` set ?T" "j \<notin> ?ui ` set ?U" by blast
    then show ?thesis
    proof cases
      case 1
      then have "b3 ! j = tcp_accounted offset t (?b ! j)"
        using b3(4) [of j] b2(3) dist(3) by force
      then show ?thesis using tcp_accounted_holds [OF _ o] T [of t] 1 by simp
    next
      case 2
      then have "b3 ! j = udp_accounted offset u (?b ! j)" using b3(3) b2u by simp
      then show ?thesis using udp_accounted_holds [OF _ o] U [of u] 2 by simp
    next
      case 3
      then have same: "b3 ! j = ?b ! j" using b2(4) b3(4) by simp
      have "j \<notin> fst ` set (map ?to ?T @ map ?uo ?U)"
        using 3 by (auto simp: tcp_owner_def udp_owner_def)
      then have pl: "plain bufs0 offset j (?b ! j) (parts j)" using D(10) [OF j] by blast
      have "offset < length (buf_bytes (bufs0 ! j))" using ok(2) jl [OF j] by (simp add: gro_buffers_ok_def bufs0_def)
      then have "drop offset (buf_bytes (bufs0 ! j)) \<noteq> []" by simp
      then have "drop offset (buf_bytes (?b ! j)) \<noteq> []" using pl by (simp add: plain_def)
      then show ?thesis unfolding same by (intro plain_holds [OF pl o]) simp
    qed
  qed
  then show ?thesis using run b3(2) b2(2) D(1,4,5,7) jl
    by (intro exI [of _ ?s'] exI [of _ parts]) auto
qed

text \<open>The tables of a \<open>GROTable\<close> between batches: whatever they hold is reset first.\<close>

definition GROTable_ok :: "GROTable \<Rightarrow> bool" where
  "GROTable_ok g \<longleftrightarrow> gro_table_ok (gt_tcp_gro_table g) \<and> gro_table_ok (gt_udp_gro_table g)"

lemma GROTable_ok_new: "GROTable_ok GROTable_new"
  by (simp add: GROTable_ok_def GROTable_new_def TcpGROTable_new_def UdpGROTable_new_def gro_table_ok_new)

lemma apply_gro_init:
  assumes "GROTable_ok g"
  shows "state_inv bufs offset 0 \<lparr>gs_bufs = bufs, gs_tcp = gt_tcp_gro_table (GROTable_reset g),
      gs_udp = gt_udp_gro_table (GROTable_reset g), gs_to_write = gt_to_write (GROTable_reset g)\<rparr>"
  using assms
  by (auto simp: state_inv_def GROTable_ok_def GROTable_reset_def TcpGROTable_reset_def UdpGROTable_reset_def
      tcp_table_ok_def udp_table_ok_def gro.ok_reset gro.every_item_reset gro.no_empty_flow_reset gro_inv_init)

lemma apply_gro_Ok:
  assumes "GROTable_ok g" "length bufs \<le> 65535" "gro_buffers_ok offset bufs"
  obtains g' bufs' parts where "apply_gro g bufs offset can = Ok (g', bufs')" "length bufs' = length bufs"
    "sorted (gt_to_write g')" "distinct (gt_to_write g')" "set (gt_to_write g') \<subseteq> {..<length bufs}"
    "mset (concat (map parts (gt_to_write g'))) = mset [0..<length bufs]"
    "\<And>j. j \<in> set (gt_to_write g') \<Longrightarrow> holds_packets bufs offset j (bufs' ! j) (parts j)"
proof -
  let ?s = "\<lparr>gs_bufs = bufs, gs_tcp = gt_tcp_gro_table (GROTable_reset g),
      gs_udp = gt_udp_gro_table (GROTable_reset g), gs_to_write = gt_to_write (GROTable_reset g)\<rparr>"
  have "state_inv (gs_bufs ?s) offset 0 ?s" using apply_gro_init [OF assms(1)] by simp
  from handle_gro_ok [OF this, of can] assms(2,3) obtain s' parts where
    "handle_gro offset can ?s = Ok s'" "length (gs_bufs s') = length bufs"
    "sorted (gs_to_write s')" "distinct (gs_to_write s')" "set (gs_to_write s') \<subseteq> {..<length bufs}"
    "mset (concat (map parts (gs_to_write s'))) = mset [0..<length bufs]"
    "\<forall>j \<in> set (gs_to_write s'). holds_packets bufs offset j (gs_bufs s' ! j) (parts j)"
    by auto
  then show thesis
    by (intro that [of "\<lparr>gt_to_write = gs_to_write s', gt_tcp_gro_table = gs_tcp s', gt_udp_gro_table = gs_udp s'\<rparr>"
          "gs_bufs s'" parts]) (simp_all add: apply_gro_def Let_def)
qed

lemma apply_gro_refused:
  assumes "GROTable_ok g" "\<not> (length bufs \<le> 65535 \<and> gro_buffers_ok offset bufs)"
  shows "is_invalid_input (apply_gro g bufs offset can)"
proof (cases "length bufs \<le> 65535")
  case True
  then show ?thesis
    using handle_gro_loop_ok [OF apply_gro_init [OF assms(1), of bufs offset] order_refl True, of can] assms(2)
    by (simp add: apply_gro_def handle_gro_def Let_def invalid_input_def is_invalid_input_def)
qed (simp add: apply_gro_def handle_gro_def Let_def invalid_input_def is_invalid_input_def)

text \<open>Cutting a concatenation back into its parts.\<close>

lemma drop_concat_const:
  "k \<le> length ps \<Longrightarrow> (\<forall>i < k. length (f (ps ! i)) = g) \<Longrightarrow> drop (k * g) (concat (map f ps)) = concat (map f (drop k ps))"
proof (induction k)
  case (Suc k)
  then have "drop (Suc k * g) (concat (map f ps)) = drop g (concat (map f (drop k ps)))"
    by (metis Suc_leD add.commute drop_drop less_Suc_eq mult_Suc)
  also have "drop k ps = ps ! k # drop (Suc k) ps" using Suc.prems(1) by (simp add: Cons_nth_drop_Suc)
  finally show ?case using Suc.prems(2) by simp
qed simp

lemma nth_in_butlast: "i + 1 < length ps \<Longrightarrow> ps ! i \<in> set (butlast ps)"
  using nth_mem [of i "butlast ps"] by (simp add: nth_butlast)

lemma chunk_of_concat:
  assumes "k < length ps" "\<forall>i \<in> set (butlast ps). length (f i) = g" "length (f (last ps)) \<le> g"
    and "n = length (concat (map f ps))"
  shows "take (min n ((k + 1) * g) - k * g) (drop (k * g) (concat (map f ps))) = f (ps ! k)"
proof -
  have const: "\<forall>i < k. length (f (ps ! i)) = g"
    using assms(1,2) nth_in_butlast [of _ ps] by auto
  have d: "drop (k * g) (concat (map f ps)) = f (ps ! k) @ concat (map f (drop (Suc k) ps))"
    using drop_concat_const [OF _ const] assms(1) by (simp add: Cons_nth_drop_Suc [symmetric])
  have len: "n - k * g = length (f (ps ! k)) + length (concat (map f (drop (Suc k) ps)))"
    using arg_cong [OF d, of length] assms(4) by simp
  show ?thesis
  proof (cases "k + 1 < length ps")
    case True
    then have "length (f (ps ! k)) = g" using assms(2) nth_in_butlast by auto
    moreover from this obtain r where "n - k * g = g + r" using len by simp
    moreover have "min n ((k + 1) * g) - k * g = min (n - k * g) ((k + 1) * g - k * g)" by (simp only: min_diff)
    ultimately have "min n ((k + 1) * g) - k * g = length (f (ps ! k))" by simp
    then show ?thesis by (simp add: d)
  next
    case False
    then have k: "k = length ps - 1" using assms(1) by simp
    moreover have "ps \<noteq> []" using assms(1) by auto
    ultimately have last: "ps ! k = last ps" "drop (Suc k) ps = []"
      by (simp_all add: last_conv_nth)
    then show ?thesis using len assms(3) by (simp add: d min_def)
  qed
qed

section \<open>Merging and splitting\<close>

text \<open>The data of the segments of \<open>gso_split\<close>, by position.\<close>

lemma gso_split_data:
  assumes "gso_split inp h bufs sizes offset v6 = Ok (n, inp', bufs', sizes')" "csum_offset_ok h"
  shows "k < n \<longleftrightarrow> k * unat (gso_size h) < length inp - unat (hdr_len h)"
    and "k < n \<Longrightarrow> drop (unat (hdr_len h)) (nth_segment offset bufs' sizes' k) =
      take (min (length inp - unat (hdr_len h)) ((k + 1) * unat (gso_size h)) - k * unat (gso_size h))
        (drop (k * unat (gso_size h)) (drop (unat (hdr_len h)) inp))"
proof -
  note acc = gso_split_accepts [OF assms(1)]
  note hdr = csum_in_header [OF acc assms(2)]
  from assms(1) hdr obtain job where job: "job = gso_job_for inp h v6 offset" "job_ok job" "n = segment_count job"
    by (rule gso_split_OkE)
  let ?hl = "unat (hdr_len h)" and ?g = "unat (gso_size h)"
  have hl: "12 \<le> ?hl" "?hl \<le> length inp" using acc by (auto simp: gso_accepts_def split: if_splits)
  have start: "segment_start job k = ?hl + k * ?g" for k by (simp add: segment_start_def gso_step_def job(1))
  have ji: "job_input job = gso_cleared inp h v6" by (simp add: job(1))
  show 1: "k < n \<longleftrightarrow> k * ?g < length inp - ?hl" for k
    using less_segment_count [OF job(2), of k] job(1,3) start hl by auto
  show "drop ?hl (nth_segment offset bufs' sizes' k) =
      take (min (length inp - ?hl) ((k + 1) * ?g) - k * ?g) (drop (k * ?g) (drop ?hl inp))" if "k < n"
  proof -
    have "drop ?hl (nth_segment offset bufs' sizes' k)
        = subslice (segment_start job k) (segment_end job k) (job_input job)"
      using nth_segment_eq(1) [OF assms(1) hdr that] segment_parts(2) [OF job(2), of k] that job(1,3) by simp
    also have "\<dots> = take (segment_end job k - segment_start job k) (drop (k * ?g) (drop ?hl (gso_cleared inp h v6)))"
      by (simp add: subslice_def start ji add.commute)
    also have "drop ?hl (gso_cleared inp h v6) = drop ?hl inp" using hdr hl(1) by (rule drop_gso_cleared)
    also have "segment_end job k - segment_start job k = min (length inp - ?hl) ((k + 1) * ?g) - k * ?g"
      using hl by (simp add: segment_end_def start ji min_def) linarith
    finally show ?thesis .
  qed
qed

lemma merged_packetD:
  assumes "merged_packet bufs0 offset hdr v6 pkt ps"
  shows "2 \<le> length ps" "csum_offset_ok hdr"
    "drop (unat (hdr_len hdr)) pkt = concat (map (payload bufs0 offset (unat (hdr_len hdr))) ps)"
    "\<forall>i \<in> set (butlast ps). length (payload bufs0 offset (unat (hdr_len hdr)) i) = unat (gso_size hdr)"
    "0 < length (payload bufs0 offset (unat (hdr_len hdr)) (last ps))"
    "length (payload bufs0 offset (unat (hdr_len hdr)) (last ps)) \<le> unat (gso_size hdr)"
    "gso_accepts pkt hdr v6" "unat (csum_start hdr) = ip_len v6" "version_ok v6 pkt"
    "unat (hdr_len hdr) = ip_len v6 + (if is_tcp_gso hdr then tcp_doff pkt (ip_len v6) else UDP_H_LEN)"
    "gso_type hdr = VIRTIO_NET_HDR_GSO_UDP_L4
      \<or> gso_type hdr = (if v6 then VIRTIO_NET_HDR_GSO_TCPV6 else VIRTIO_NET_HDR_GSO_TCPV4)"
  using assms unfolding merged_packet_def Let_def by blast+

text \<open>The amount of data, and so the number of segments, is that of the packets merged.\<close>

lemma merged_total:
  assumes m: "merged_packet bufs0 offset hdr v6 pkt ps"
  shows "length pkt - unat (hdr_len hdr) = (length ps - 1) * unat (gso_size hdr)
      + length (payload bufs0 offset (unat (hdr_len hdr)) (last ps))"
    and "(length ps - 1) * unat (gso_size hdr) < length pkt - unat (hdr_len hdr)"
    and "length pkt - unat (hdr_len hdr) \<le> length ps * unat (gso_size hdr)"
proof -
  let ?h = "unat (hdr_len hdr)" and ?g = "unat (gso_size hdr)"
  let ?pl = "payload bufs0 offset ?h"
  note M = merged_packetD [OF m]
  have N: "length (concat (map ?pl ps)) = length pkt - ?h" using arg_cong [OF M(3), of length] by simp
  have ps: "ps = butlast ps @ [last ps]" using M(1) by (intro append_butlast_last_id [symmetric]) auto
  have "length (concat (map ?pl (butlast ps))) = (length ps - 1) * ?g"
    using length_concat_const [OF M(4)] by simp
  then show t: "length pkt - ?h = (length ps - 1) * ?g + length (?pl (last ps))"
    using N by (subst (asm) (2) ps) simp
  show "(length ps - 1) * ?g < length pkt - ?h" unfolding t using M(5) by simp
  have "length ps * ?g = (length ps - 1) * ?g + ?g" using M(1) by (cases "length ps") simp_all
  then show "length pkt - ?h \<le> length ps * ?g" unfolding t using M(6) by simp
qed

lemma merged_split:
  assumes m: "merged_packet bufs0 offset hdr v6 pkt ps"
    and split: "gso_split pkt hdr outs sizes off v = Ok (n, inp', outs', sizes')"
  shows "n = length ps" "\<And>k. k < n \<Longrightarrow>
    drop (unat (hdr_len hdr)) (nth_segment off outs' sizes' k) = payload bufs0 offset (unat (hdr_len hdr)) (ps ! k)"
proof -
  let ?h = "unat (hdr_len hdr)" and ?g = "unat (gso_size hdr)"
  let ?pl = "payload bufs0 offset ?h"
  note M = merged_packetD [OF m]
  have N: "length (concat (map ?pl ps)) = length pkt - ?h" using arg_cong [OF M(3), of length] by simp
  note S = gso_split_data [OF split M(2)]
  have "length ps - 1 < n" using S(1) [of "length ps - 1"] merged_total(2) [OF m] by simp
  moreover have "\<not> length ps < n" using S(1) [of "length ps"] merged_total(3) [OF m] by simp
  ultimately show n: "n = length ps" by simp
  show "drop ?h (nth_segment off outs' sizes' k) = ?pl (ps ! k)" if "k < n" for k
    using S(2) [OF that] chunk_of_concat [OF _ M(4,6) refl, of k] that n N M(3) by simp
qed

section \<open>Properties\<close>


definition gro_example_buf :: "nat \<Rightarrow> byte \<Rightarrow> gbuf" where
  "gro_example_buf i x = \<lparr>buf_bytes = replicate 10 9 @
     [0x45, 0, 0, 30, 0, of_nat i, 0x40, 0, 64, 17, 0, 0, 10, 0, 0, 1, 10, 0, 0, 2,
      0, 53, 0, 54, 0, 10, 235 - x, 108 - x, x, x], buf_capacity = 2048\<rparr>"


text \<open>
  C10. When GRO succeeds: exactly when there are at most 65535 buffers, each with room for the header
  before \<open>offset\<close> and a byte of packet after it.  Otherwise it returns an error; whatever the packets
  contain and whatever the tables held before, it never panics.
\<close>

theorem apply_gro_total:
  assumes "GROTable_ok g"
  shows "if length bufs \<le> 65535 \<and> gro_buffers_ok offset bufs then is_ok (apply_gro g bufs offset can)
    else is_invalid_input (apply_gro g bufs offset can)"
proof (cases "length bufs \<le> 65535 \<and> gro_buffers_ok offset bufs")
  case True
  then have "is_ok (apply_gro g bufs offset can)"
    by (auto simp: is_ok_iff intro: apply_gro_Ok [OF assms, of bufs offset can])
  then show ?thesis using True by simp
next
  case False
  then show ?thesis using apply_gro_refused [OF assms False] by auto
qed

theorem apply_gro_total_witness:
  "is_invalid_input (apply_gro GROTable_new [gro_example_buf 1 5] 9 True)"
  using apply_gro_total [OF GROTable_ok_new, of "[gro_example_buf 1 5]" 9 True]
  by (simp add: gro_buffers_ok_def split: if_splits)

text \<open>
  C11. Merging and splitting are inverse: when \<open>gso_split\<close> is applied to a packet that GRO merged, with
  the header GRO wrote, the segments are the merged packets, as many and with the same payloads in the
  same order.
\<close>

theorem gro_then_gso_split:
  assumes "GROTable_ok g" "length bufs \<le> 65535" "gro_buffers_ok offset bufs"
    and "apply_gro g bufs offset can = Ok (g', bufs')"
  shows "\<exists>parts. mset (concat (map parts (gt_to_write g'))) = mset [0..<length bufs]
    \<and> (\<forall>j hdr outs sizes off v6 n inp' outs' sizes'. j \<in> set (gt_to_write g')
         \<and> VirtioNetHdr_decode (drop (offset - VIRTIO_NET_HDR_LEN) (buf_bytes (bufs' ! j))) = Ok hdr
         \<and> hdr \<noteq> VirtioNetHdr_default
         \<and> gso_split (drop offset (buf_bytes (bufs' ! j))) hdr outs sizes off v6 = Ok (n, inp', outs', sizes')
       \<longrightarrow> n = length (parts j) \<and> (\<forall>k<n. drop (unat (hdr_len hdr)) (nth_segment off outs' sizes' k)
            = drop (offset + unat (hdr_len hdr)) (buf_bytes (bufs ! (parts j ! k)))))"
proof -
  obtain parts where parts: "mset (concat (map parts (gt_to_write g'))) = mset [0..<length bufs]"
    "\<And>j. j \<in> set (gt_to_write g') \<Longrightarrow> holds_packets bufs offset j (bufs' ! j) (parts j)"
    using apply_gro_Ok [OF assms(1-3), of can] assms(4) by (metis prod.inject res.inject(1))
  have "n = length (parts j) \<and> (\<forall>k<n. drop (unat (hdr_len hdr)) (nth_segment off outs' sizes' k)
      = drop (offset + unat (hdr_len hdr)) (buf_bytes (bufs ! (parts j ! k))))"
    if j: "j \<in> set (gt_to_write g')"
      and dec: "VirtioNetHdr_decode (drop (offset - VIRTIO_NET_HDR_LEN) (buf_bytes (bufs' ! j))) = Ok hdr"
      and hdr: "hdr \<noteq> VirtioNetHdr_default"
      and split: "gso_split (drop offset (buf_bytes (bufs' ! j))) hdr outs sizes off v6 = Ok (n, inp', outs', sizes')"
    for j hdr outs sizes off v6 n inp' outs' sizes'
  proof -
    obtain v where "merged_packet bufs offset hdr v (drop offset (buf_bytes (bufs' ! j))) (parts j)"
      using parts(2) [OF j] dec hdr unfolding holds_packets_def Let_def by auto
    then show ?thesis using merged_split [OF _ split] by (simp add: payload_def)
  qed
  then show ?thesis using parts(1) by blast
qed

theorem gro_then_gso_split_witness:
  "\<exists>g' bufs' parts. apply_gro GROTable_new [gro_example_buf 1 5, gro_example_buf 2 6] 10 True = Ok (g', bufs')
    \<and> mset (concat (map parts (gt_to_write g'))) = mset [0, 1]
    \<and> (\<forall>j hdr outs sizes off v6 n inp' outs' sizes'. j \<in> set (gt_to_write g')
         \<and> VirtioNetHdr_decode (drop (10 - VIRTIO_NET_HDR_LEN) (buf_bytes (bufs' ! j))) = Ok hdr
         \<and> hdr \<noteq> VirtioNetHdr_default
         \<and> gso_split (drop 10 (buf_bytes (bufs' ! j))) hdr outs sizes off v6 = Ok (n, inp', outs', sizes')
       \<longrightarrow> n = length (parts j) \<and> (\<forall>k<n. drop (unat (hdr_len hdr)) (nth_segment off outs' sizes' k)
            = drop (10 + unat (hdr_len hdr)) (buf_bytes ([gro_example_buf 1 5, gro_example_buf 2 6] ! (parts j ! k)))))"
proof -
  let ?bufs = "[gro_example_buf 1 5, gro_example_buf 2 6]"
  have ok: "length ?bufs \<le> 65535" "gro_buffers_ok 10 ?bufs"
    by (simp_all add: gro_buffers_ok_def gro_example_buf_def)
  obtain g' bufs' where run: "apply_gro GROTable_new ?bufs 10 True = Ok (g', bufs')"
    using apply_gro_Ok [OF GROTable_ok_new ok, of True] by metis
  have "mset [0..<length ?bufs] = mset [0, 1]" by (simp add: upt_rec)
  then show ?thesis
    using gro_then_gso_split [OF GROTable_ok_new ok run] run by (simp only:) blast
qed

text \<open>The two packets of the example are merged.\<close>

lemma gro_example_merged:
  "coalesce_udp_packets (drop 10 (buf_bytes (gro_example_buf 2 6)))
     \<lparr>ui_key = \<lparr>uk_src_addr = [], uk_dst_addr = [], uk_src_port = 53, uk_dst_port = 54, uk_is_v6 = False\<rparr>,
      ui_bufs_index = 0, ui_num_merged = 0, ui_gso_size = 2, ui_iph_len = 20, ui_c_sum_known_invalid = False\<rparr>
     [gro_example_buf 1 5] 10 False
   = Ok (Success,
     \<lparr>ui_key = \<lparr>uk_src_addr = [], uk_dst_addr = [], uk_src_port = 53, uk_dst_port = 54, uk_is_v6 = False\<rparr>,
      ui_bufs_index = 0, ui_num_merged = 1, ui_gso_size = 2, ui_iph_len = 20, ui_c_sum_known_invalid = False\<rparr>,
     [buf_extend_from_slice (gro_example_buf 1 5) [6, 6]])"
  by code_simp

end
