(* ===== verification/VirtioIo.thy ===== *)
theory VirtioIo
  imports GroBatch
begin

text \<open>
  The batched input and output of an offload device (\<open>src/platform/linux/device.rs\<close>):
  \<open>handle_virtio_read\<close> and \<open>recv_multiple0\<close> take what the kernel delivered apart, \<open>send_multiple0\<close>
  merges a batch and writes it.  The file descriptor is not part of the source: a read is a function
  \<open>read_f\<close> from the buffer to the count and the new contents, a write a function \<open>write_f\<close> on a
  state \<open>'w\<close> of the caller's choice.  \<open>send_multiple\<close> and \<open>recv_multiple\<close> are these with \<open>Tun::send\<close>
  and \<open>Tun::recv\<close>.
\<close>

section \<open>Receiving\<close>

text \<open>The fields of \<open>DeviceImpl\<close> these operations read.\<close>

record DeviceImpl =
  dev_vnet_hdr :: bool
  dev_udp_gso :: bool

text \<open>The header length is computed again, from the packet.\<close>

definition virtio_hdr_len :: "VirtioNetHdr \<Rightarrow> byte list \<Rightarrow> u16 res" where
  "virtio_hdr_len h inp =
     (let len = length inp; start = unat (csum_start h)
      in if gso_type h = VIRTIO_NET_HDR_GSO_UDP_L4 then Ok (csum_start h + 8)
         else if len \<le> start + 12 then err_other ''packet is too short''
         else
           let tcp_h_len = drop_bit 4 (ucast (inp ! (start + 12)) :: u16) * 4
           in if \<not> (20 \<le> tcp_h_len \<and> tcp_h_len \<le> 60) then err_other ''tcp header len is invalid''
              else Ok (csum_start h + tcp_h_len))"

text \<open>
  The result is the number of packets, the input (its checksum fields are overwritten), the buffers
  and their sizes.
\<close>

definition handle_virtio_read :: "VirtioNetHdr \<Rightarrow> byte list \<Rightarrow> byte list list \<Rightarrow> nat list \<Rightarrow> nat
    \<Rightarrow> (nat \<times> byte list \<times> byte list list \<times> nat list) res" where
  "handle_virtio_read h inp bufs sizes offset =
     (let len = length inp; gt = gso_type h
      in if length sizes < length bufs then err_other ''sizes must be at least as long as bufs''
      else if length bufs > 65535 then invalid_input ''too many packet buffers''
      else if \<exists>buf \<in> set bufs. offset > length buf then invalid_input ''invalid offset''
      else if gt = VIRTIO_NET_HDR_GSO_NONE then
        bind_res (if flags h AND VIRTIO_NET_HDR_F_NEEDS_CSUM \<noteq> 0
                  then gso_none_checksum inp (csum_start h) (csum_offset h) else Ok inp) (\<lambda>inp.
          ensure (bufs \<noteq> [])
            (if length (bufs ! 0) - offset < len then err_other ''read len overflows bufs element len''
             else Ok (1, inp, bufs[0 := blit (bufs ! 0) offset inp], sizes[0 := len])))
      else if gso_size h = 0 then invalid_input ''virtioNetHdr.gsoSize must be non-zero''
      else if gt \<noteq> VIRTIO_NET_HDR_GSO_TCPV4 \<and> gt \<noteq> VIRTIO_NET_HDR_GSO_TCPV6 \<and> gt \<noteq> VIRTIO_NET_HDR_GSO_UDP_L4
        then err_other ''unsupported virtio GSO type''
      else ensure (inp \<noteq> [])
        (let ip_version = drop_bit 4 (inp ! 0)
         in if ip_version = 4 \<and> gt \<noteq> VIRTIO_NET_HDR_GSO_TCPV4 \<and> gt \<noteq> VIRTIO_NET_HDR_GSO_UDP_L4
           then err_other ''ip header version: 4, GSO type''
         else if ip_version = 6 \<and> gt \<noteq> VIRTIO_NET_HDR_GSO_TCPV6 \<and> gt \<noteq> VIRTIO_NET_HDR_GSO_UDP_L4
           then err_other ''ip header version: 6, GSO type''
         else if ip_version \<noteq> 4 \<and> ip_version \<noteq> 6 then err_other ''invalid ip header version''
         else bind_res (virtio_hdr_len h inp) (\<lambda>hl.
           let h = h\<lparr>hdr_len := hl\<rparr>
           in if len < unat (hdr_len h) then err_other ''length of packet < virtioNetHdr.hdr_len''
              else if hdr_len h < csum_start h then err_other ''virtioNetHdr.hdrLen < virtioNetHdr.csumStart''
              else if transport_csum_at h + 1 \<ge> len then
                err_other ''end of checksum offset exceeds packet length''
              else gso_split inp h bufs sizes offset (ip_version = 6))))"

text \<open>\<open>recv_multiple0\<close>; the raw buffer is part of the result.\<close>

definition recv_multiple0 :: "DeviceImpl \<Rightarrow> byte list \<Rightarrow> byte list list \<Rightarrow> nat list \<Rightarrow> nat
    \<Rightarrow> (byte list \<Rightarrow> (nat \<times> byte list) res) \<Rightarrow> (nat \<times> byte list \<times> byte list list \<times> nat list) res" where
  "recv_multiple0 dev original bufs sizes offset read_f =
     (if bufs = [] \<or> length bufs \<noteq> length sizes then err_other ''bufs error''
      else if dev_vnet_hdr dev then
        bind_res (read_f original) (\<lambda>(len, original).
          if len \<le> VIRTIO_NET_HDR_LEN then err_other ''length of packet <= VIRTIO_NET_HDR_LEN''
          else ensure (VIRTIO_NET_HDR_LEN \<le> length original)
            (bind_res (VirtioNetHdr_decode (take VIRTIO_NET_HDR_LEN original)) (\<lambda>h.
              ensure (len \<le> length original)
                (bind_res (handle_virtio_read h (subslice VIRTIO_NET_HDR_LEN len original) bufs sizes offset)
                  (\<lambda>(n, inp, bufs, sizes). Ok (n, blit original VIRTIO_NET_HDR_LEN inp, bufs, sizes))))))
      else if offset > length (bufs ! 0) then invalid_input ''invalid offset''
      else bind_res (read_f (drop offset (bufs ! 0))) (\<lambda>(len, buf).
        Ok (1, original, bufs[0 := take offset (bufs ! 0) @ buf], sizes[0 := len])))"

section \<open>Sending\<close>

definition EBADFD :: nat where "EBADFD = 77"

definition raw_os_error :: "io_error \<Rightarrow> nat option" where
  "raw_os_error e = (case e of OsError c \<Rightarrow> Some c | Custom _ _ \<Rightarrow> None)"

text \<open>What is written: the table, the buffers and the offset after merging, or every buffer as it is.\<close>

definition send_prepare :: "DeviceImpl \<Rightarrow> GROTable \<Rightarrow> gbuf list \<Rightarrow> nat \<Rightarrow> (GROTable \<times> gbuf list \<times> nat) res" where
  "send_prepare dev g bufs offset =
     (let g = GROTable_reset g
      in if dev_vnet_hdr dev then
           bind_res (handle_gro offset (dev_udp_gso dev) \<lparr>gs_bufs = bufs, gs_tcp = gt_tcp_gro_table g,
               gs_udp = gt_udp_gro_table g, gs_to_write = gt_to_write g\<rparr>) (\<lambda>s.
             ensure (VIRTIO_NET_HDR_LEN \<le> offset)
               (Ok (\<lparr>gt_to_write = gs_to_write s, gt_tcp_gro_table = gs_tcp s, gt_udp_gro_table = gs_udp s\<rparr>,
                    gs_bufs s, offset - VIRTIO_NET_HDR_LEN)))
         else Ok (g\<lparr>gt_to_write := gt_to_write g @ [0..<length bufs]\<rparr>, bufs, offset))"

text \<open>The loop over \<open>to_write\<close>: errors are remembered, the last wins, \<open>EBADFD\<close> and a bad offset return at once.\<close>

fun write_loop :: "('w \<Rightarrow> byte list \<Rightarrow> nat res \<times> 'w) \<Rightarrow> gbuf list \<Rightarrow> nat \<Rightarrow> nat list \<Rightarrow> nat \<Rightarrow> io_error option
    \<Rightarrow> 'w \<Rightarrow> nat res \<times> 'w" where
  "write_loop write_f bufs offset [] acc err w = ((case err of None \<Rightarrow> Ok acc | Some e \<Rightarrow> Err e), w)"
| "write_loop write_f bufs offset (j # js) acc err w =
     (if j < length bufs then
        let bytes = buf_bytes (bufs ! j)
        in if offset > length bytes then (invalid_input ''invalid offset'', w)
           else case write_f w (drop offset bytes) of
             (Ok n, w) \<Rightarrow> write_loop write_f bufs offset js (acc + n) err w
           | (Err e, w) \<Rightarrow> if raw_os_error e = Some EBADFD then (Err e, w)
                          else write_loop write_f bufs offset js acc (Some e) w
           | (Panic, w) \<Rightarrow> (Panic, w)
      else (Panic, w))"

definition send_multiple0 :: "DeviceImpl \<Rightarrow> GROTable \<Rightarrow> gbuf list \<Rightarrow> nat
    \<Rightarrow> ('w \<Rightarrow> byte list \<Rightarrow> nat res \<times> 'w) \<Rightarrow> 'w \<Rightarrow> nat res \<times> 'w" where
  "send_multiple0 dev g bufs offset write_f w =
     (if bufs = [] then (Ok 0, w)
      else if length bufs > 65535 then (invalid_input ''too many packet buffers'', w)
      else case send_prepare dev g bufs offset of
             Ok (g, bufs, offset) \<Rightarrow> write_loop write_f bufs offset (gt_to_write g) 0 None w
           | Err e \<Rightarrow> (Err e, w)
           | Panic \<Rightarrow> (Panic, w))"

lemma send_prepare_gro:
  assumes "dev_vnet_hdr dev" "apply_gro g bufs offset (dev_udp_gso dev) = Ok (g', bufs')" "VIRTIO_NET_HDR_LEN \<le> offset"
  shows "send_prepare dev g bufs offset = Ok (g', bufs', offset - VIRTIO_NET_HDR_LEN)"
  using assms by (auto simp: send_prepare_def apply_gro_def Let_def bind_res_eq_Ok)

end
