(* ===== verification/VirtioSpec.thy ===== *)
theory VirtioSpec
  imports VirtioIo
begin

text \<open>
  What the batched input and output guarantee: the outcome of the write loop for every script of
  answers of the kernel, the reading of a merged packet, and the round trip of a batch through
  \<open>send_multiple0\<close> and \<open>recv_multiple0\<close>.
\<close>

section \<open>The write loop\<close>

text \<open>A writer that records what it is given, and one that answers from a list.\<close>

definition recorded :: "('w \<Rightarrow> byte list \<Rightarrow> nat res \<times> 'w) \<Rightarrow> 'w \<times> byte list list \<Rightarrow> byte list
    \<Rightarrow> nat res \<times> 'w \<times> byte list list" where
  "recorded f = (\<lambda>(w, log) b. let (r, w) = f w b in (r, w, log @ [b]))"

definition scripted :: "nat res list \<Rightarrow> byte list \<Rightarrow> nat res \<times> nat res list" where
  "scripted rs b = (hd rs, tl rs)"

definition no_fatal :: "nat res \<Rightarrow> bool" where
  "no_fatal r \<longleftrightarrow> r \<noteq> Panic \<and> r \<noteq> Err (OsError EBADFD)"

lemma scripted_Cons [simp]: "scripted (r # rs) b = (r, rs)"
  by (simp add: scripted_def)

lemma raw_os_error_EBADFD: "raw_os_error e = Some EBADFD \<longleftrightarrow> e = OsError EBADFD"
  by (cases e) (simp_all add: raw_os_error_def)

lemma recorded_eq: "recorded f (w, log) b = (fst (f w b), snd (f w b), log @ [b])"
  by (simp add: recorded_def split: prod.split)

text \<open>The number written, or the last error.\<close>

definition writes_outcome :: "nat \<Rightarrow> io_error option \<Rightarrow> nat res list \<Rightarrow> nat res" where
  "writes_outcome acc err rs =
     (case filter (\<lambda>r. \<not> is_ok r) rs of
        [] \<Rightarrow> (case err of None \<Rightarrow> Ok (acc + sum_list (map (\<lambda>r. case r of Ok n \<Rightarrow> n | _ \<Rightarrow> 0) rs)) | Some e \<Rightarrow> Err e)
      | fs \<Rightarrow> last fs)"

lemma writes_outcome_simps:
  "writes_outcome acc err (Ok n # rs) = writes_outcome (acc + n) err rs"
  "writes_outcome acc err (Err e # rs) = writes_outcome acc (Some e) rs"
  unfolding writes_outcome_def by (auto simp: add.assoc split: list.split option.split)

lemma write_loop_scripted:
  assumes "\<forall>j \<in> set js. j < length bufs \<and> offset \<le> length (buf_bytes (bufs ! j))"
    and "length js \<le> length rs" "\<forall>r \<in> set (take (length js) rs). no_fatal r"
  shows "write_loop (recorded scripted) bufs offset js acc err (rs, log)
    = (writes_outcome acc err (take (length js) rs), drop (length js) rs,
       log @ map (\<lambda>j. drop offset (buf_bytes (bufs ! j))) js)"
  using assms
proof (induction js arbitrary: acc err rs log)
  case Nil
  then show ?case by (simp add: writes_outcome_def split: option.split)
next
  case (Cons j js)
  then obtain r rs' where rs: "rs = r # rs'" by (cases rs) auto
  have IH: "write_loop (recorded scripted) bufs offset js acc err (rs', log')
    = (writes_outcome acc err (take (length js) rs'), drop (length js) rs',
       log' @ map (\<lambda>j. drop offset (buf_bytes (bufs ! j))) js)" for acc err log'
    using Cons.prems rs by (intro Cons.IH) auto
  have "no_fatal r" using Cons.prems(3) rs by simp
  then show ?case using Cons.prems(1)
    by (cases r) (auto simp: rs recorded_eq IH writes_outcome_simps raw_os_error_EBADFD no_fatal_def)
qed

lemma write_loop_stops:
  assumes "\<forall>j \<in> set js. j < length bufs \<and> offset \<le> length (buf_bytes (bufs ! j))"
    and "k < length js" "k < length rs" "rs ! k = Err (OsError EBADFD)" "\<forall>r \<in> set (take k rs). no_fatal r"
  shows "write_loop (recorded scripted) bufs offset js acc err (rs, log)
    = (Err (OsError EBADFD), drop (k + 1) rs, log @ map (\<lambda>j. drop offset (buf_bytes (bufs ! j))) (take (k + 1) js))"
  using assms
proof (induction js arbitrary: acc err rs log k)
  case (Cons j js)
  then obtain r rs' where rs: "rs = r # rs'" by (cases rs) auto
  show ?case
  proof (cases k)
    case 0
    then show ?thesis using Cons.prems
      by (simp add: rs recorded_eq raw_os_error_EBADFD)
  next
    case (Suc k')
    have IH: "write_loop (recorded scripted) bufs offset js acc err (rs', log')
      = (Err (OsError EBADFD), drop (k' + 1) rs',
         log' @ map (\<lambda>j. drop offset (buf_bytes (bufs ! j))) (take (k' + 1) js))" for acc err log'
      using Cons.prems rs Suc by (intro Cons.IH) auto
    have "no_fatal r" using Cons.prems(5) rs Suc by simp
    then show ?thesis using Cons.prems(1) Suc
      by (cases r) (auto simp: rs recorded_eq IH raw_os_error_EBADFD no_fatal_def)
  qed
qed simp

text \<open>What is written: for an offload device the merged batch from the header on, else every buffer.\<close>

lemma holds_packets_room:
  assumes "holds_packets bufs0 offset j b ps" "VIRTIO_NET_HDR_LEN \<le> offset"
  shows "offset - VIRTIO_NET_HDR_LEN \<le> length (buf_bytes b)"
  using assms unfolding holds_packets_def Let_def VirtioNetHdr_decode_def
  by (auto split: if_splits)

lemma send_multiple0_eq:
  assumes "dev_vnet_hdr dev" "apply_gro g bufs offset (dev_udp_gso dev) = Ok (g', bufs')"
    and "bufs \<noteq> []" "length bufs \<le> 65535" "VIRTIO_NET_HDR_LEN \<le> offset"
  shows "send_multiple0 dev g bufs offset f w
    = write_loop f bufs' (offset - VIRTIO_NET_HDR_LEN) (gt_to_write g') 0 None w"
  using assms by (simp add: send_multiple0_def send_prepare_gro)

section \<open>The checksum of a packet that is not segmented\<close>

lemma gso_none_checksum_cases:
  "gso_none_checksum pkt start offset =
    (let at = unat start + unat offset
     in if at + 2 \<le> length pkt
        then Ok (write_u16 (pkt[at := 0, at + 1 := 0]) at
          (NOT (checksum (drop (unat start) (pkt[at := 0, at + 1 := 0])) (ucast (read_u16 pkt at)))))
        else invalid_input ''checksum offsets exceed packet length'')"
  by (auto simp: gso_none_checksum_def Let_def)

lemma norm16_le_self: "norm16 n \<le> n"
  using mod_less_eq_dividend [of "n - 1" 65535] by (auto simp: norm16_def)

lemma checksum_folded_initial:
  assumes "unat psum + 2 ^ 30 * length b < 2 ^ 64"
  shows "checksum b (ucast (checksum [] psum)) = checksum b psum"
proof -
  have n: "norm16 (norm16 a + c) = norm16 (a + c)" for a c
    by (intro norm16_cong) (auto simp: norm16_mod norm16_eq_0 intro: mod_add_cong)
  have f: "unat (ucast (checksum [] psum) :: u64) = norm16 (unat psum)"
    using unat_checksum [of psum "[]"] assms by (simp add: unat_ucast_wider)
  have "norm16 (unat psum) + 2 ^ 30 * length b < 2 ^ 64"
    using assms norm16_le_self [of "unat psum"] by linarith
  then have "unat (checksum b (ucast (checksum [] psum))) = unat (checksum b psum)"
    using unat_checksum [of "ucast (checksum [] psum)" b] unat_checksum [OF assms] by (simp add: f n)
  then show ?thesis by (simp add: word_unat_eq_iff)
qed

section \<open>Reading back what was written\<close>

lemma tcp_h_len_eq:
  fixes b :: byte
  shows "unat (drop_bit 4 (ucast b :: u16) * 4) = unat (drop_bit 4 b * 4)" "unat (drop_bit 4 b * 4) \<le> 60"
proof -
  have d: "unat (drop_bit 4 (ucast b :: u16)) = unat b div 16" "unat (drop_bit 4 b) = unat b div 16"
    by (simp_all only: unat_drop_bit_eq) (simp_all add: drop_bit_eq_div unat_ucast_wider)
  have "unat b div 16 < 16" using unat_byte_bound [of b] by simp
  then show "unat (drop_bit 4 (ucast b :: u16) * 4) = unat (drop_bit 4 b * 4)" "unat (drop_bit 4 b * 4) \<le> 60"
    by (simp_all add: unat_word_ariths d)
qed

lemma merged_virtio_hdr_len:
  assumes m: "merged_packet bufs0 offset hdr v6 pkt ps"
  shows "virtio_hdr_len hdr pkt = Ok (hdr_len hdr)"
proof (cases "is_tcp_gso hdr")
  case False
  note M = merged_packetD [OF m]
  have "gso_type hdr = VIRTIO_NET_HDR_GSO_UDP_L4" using M(11) False by (auto simp: is_tcp_gso_def split: if_splits)
  moreover have "unat (csum_start hdr + 8) = unat (hdr_len hdr)"
    using M(8,10) False ip_len_cases [of v6] by (auto simp: unat_word_ariths UDP_H_LEN_def)
  ultimately show ?thesis by (simp add: virtio_hdr_len_def word_unat_eq_iff)
next
  case True
  note M = merged_packetD [OF m]
  define b where "b = pkt ! (ip_len v6 + 12)"
  note t = tcp_h_len_eq [of b]
  have d: "tcp_doff pkt (ip_len v6) = unat (drop_bit 4 b * 4)" by (simp add: tcp_doff_def b_def)
  have acc: "20 \<le> unat (drop_bit 4 b * 4)" "ip_len v6 + 20 \<le> length pkt"
    using M(7,8,10) True d by (auto simp: gso_accepts_def)
  have ty: "gso_type hdr \<noteq> VIRTIO_NET_HDR_GSO_UDP_L4" using True by (auto simp: is_tcp_gso_def offload_consts)
  have "unat (csum_start hdr + drop_bit 4 (ucast b :: u16) * 4) = unat (hdr_len hdr)"
    using M(8,10) True d t ip_len_cases [of v6] by (subst unat_word_ariths) auto
  then have "csum_start hdr + drop_bit 4 (ucast b :: u16) * 4 = hdr_len hdr" by (simp add: word_unat_eq_iff)
  moreover have "20 \<le> drop_bit 4 (ucast b :: u16) * 4" "drop_bit 4 (ucast b :: u16) * 4 \<le> 60"
    using acc(1) t by (simp_all add: word_le_nat_alt)
  ultimately show ?thesis using ty acc(2) M(8)
    by (simp add: virtio_hdr_len_def Let_def b_def)
qed

lemma merged_fits:
  assumes m: "merged_packet bufs0 offset hdr v6 pkt ps"
    and outs: "length ps \<le> length outs"
      "\<forall>o' \<in> set outs. off + unat (hdr_len hdr) + unat (gso_size hdr) \<le> length o'"
  shows "segments_fit (gso_job_for pkt hdr v6 off) 0 outs"
proof -
  let ?job = "gso_job_for pkt hdr v6 off"
  note M = merged_packetD [OF m]
  have ok: "job_ok ?job" using M(2,7) csum_in_header by (intro gso_job_ok) auto
  have "\<not> segment_start ?job (length ps) < length (job_input ?job)"
    using merged_total(3) [OF m] by (simp add: segment_start_def gso_step_def)
  then have n: "segment_count ?job \<le> length ps" using less_segment_count [OF ok, of "length ps"] by simp
  have "off + segment_len ?job k \<le> length (outs ! k)" if "k < segment_count ?job" for k
  proof -
    have "outs ! k \<in> set outs" using that n outs(1) by (intro nth_mem) linarith
    then show ?thesis using bspec [OF outs(2)] segment_bounds(4) [OF ok that] by (fastforce simp: gso_step_def)
  qed
  then show ?thesis using n outs(1) by (simp add: segments_fit_def)
qed

text \<open>\<open>handle_virtio_read\<close> on a merged packet is the split with the header GRO wrote.\<close>

lemma handle_virtio_read_merged:
  assumes m: "merged_packet bufs0 offset hdr v6 pkt ps"
    and outs: "length outs \<le> length sizes" "length outs \<le> 65535" "\<forall>o' \<in> set outs. off \<le> length o'"
  shows "handle_virtio_read hdr pkt outs sizes off = gso_split pkt hdr outs sizes off v6"
proof -
  note M = merged_packetD [OF m]
  have v: "drop_bit 4 (pkt ! 0) = (if v6 then 6 else 4)" using M(9) by (simp add: version_ok_def)
  have ty: "gso_type hdr \<noteq> VIRTIO_NET_HDR_GSO_NONE" using M(11) by (auto simp: offload_consts split: if_splits)
  have "gso_size hdr \<noteq> 0" "pkt \<noteq> []" "\<not> length pkt < unat (hdr_len hdr)" "\<not> hdr_len hdr < csum_start hdr"
    "\<not> length pkt \<le> transport_csum_at hdr + 1"
    using M(7) by (auto simp: gso_accepts_def word_less_nat_alt split: if_splits)
  moreover have "hdr\<lparr>hdr_len := hdr_len hdr\<rparr> = hdr" by simp
  moreover have "\<not> (\<exists>buf \<in> set outs. off > length buf)" using outs(3) by (auto simp: not_less)
  ultimately show ?thesis
    using outs(1,2) v ty M(11) unfolding handle_virtio_read_def Let_def
    by (cases v6) (auto simp: merged_virtio_hdr_len [OF m] offload_consts)
qed

lemma handle_virtio_read_plain:
  assumes "outs \<noteq> []" "length outs \<le> length sizes" "length outs \<le> 65535" "\<forall>o' \<in> set outs. off + length pkt \<le> length o'"
  shows "handle_virtio_read VirtioNetHdr_default pkt outs sizes off
    = Ok (1, pkt, outs[0 := blit (outs ! 0) off pkt], sizes[0 := length pkt])"
proof -
  have "off + length pkt \<le> length (outs ! 0)" "\<not> (\<exists>buf \<in> set outs. off > length buf)"
    using assms by (auto simp: not_less)
  then show ?thesis using assms(1-3)
    by (simp add: handle_virtio_read_def Let_def VirtioNetHdr_default_def VIRTIO_NET_HDR_GSO_NONE_def)
qed

text \<open>A read that delivers one packet, as the kernel does.\<close>

definition delivers :: "byte list \<Rightarrow> byte list \<Rightarrow> (nat \<times> byte list) res" where
  "delivers p buf = Ok (length p, p @ drop (length p) buf)"

lemma recv_multiple0_delivers:
  assumes "dev_vnet_hdr dev" "outs \<noteq> []" "length outs = length sizes"
    and "VirtioNetHdr_decode p = Ok hdr" "VIRTIO_NET_HDR_LEN < length p" "length p \<le> length original"
    and "handle_virtio_read hdr (drop VIRTIO_NET_HDR_LEN p) outs sizes off = Ok (n, inp', outs', sizes')"
  shows "\<exists>original'. recv_multiple0 dev original outs sizes off (delivers p) = Ok (n, original', outs', sizes')"
proof -
  have "take 10 p = hdr_bytes hdr" using assms(4) by (rule decode_determines_prefix)
  then have d: "VirtioNetHdr_decode (take 10 p) = Ok hdr" using decode_hdr_bytes [of hdr "[]"] by simp
  have s: "subslice 10 (length p) (p @ drop (length p) original) = drop 10 p"
    using assms(5) by (simp add: subslice_def)
  show ?thesis using assms by (simp add: recv_multiple0_def delivers_def d s)
qed

text \<open>The same packet up to its headers.\<close>

definition same_packet :: "byte list \<Rightarrow> byte list \<Rightarrow> bool" where
  "same_packet p q \<longleftrightarrow> length p = length q \<and> (\<exists>h \<le> 100. drop h p = drop h q)"

lemma same_packet_refl [simp]: "same_packet p p"
  by (auto simp: same_packet_def)

lemma same_packet_data:
  assumes "drop h p = drop h q" "drop h q \<noteq> []" "h \<le> 100"
  shows "same_packet p q"
proof -
  have "length p - h = length q - h" "h < length q" using assms(2) arg_cong [OF assms(1), of length] by simp_all
  then have "length p = length q" by linarith
  then show ?thesis using assms(1,3) by (auto simp: same_packet_def)
qed

text \<open>
  The condition on the receiver's buffers: at least as many as packets were sent, each with room for
  the longest of them.
\<close>

definition recv_buffers_ok :: "gbuf list \<Rightarrow> nat \<Rightarrow> byte list list \<Rightarrow> nat list \<Rightarrow> nat \<Rightarrow> bool" where
  "recv_buffers_ok bufs offset outs sizes off \<longleftrightarrow> outs \<noteq> [] \<and> length outs = length sizes \<and> length outs \<le> 65535
     \<and> length bufs \<le> length outs
     \<and> (\<forall>o' \<in> set outs. \<forall>b \<in> set bufs. off + (length (buf_bytes b) - offset) \<le> length o')"

lemma merged_header_small:
  assumes "merged_packet bufs0 offset hdr v6 pkt ps"
  shows "unat (hdr_len hdr) \<le> 100"
  using merged_packetD(10) [OF assms] ip_len_cases [of v6] tcp_h_len_eq(2) [of "pkt ! (ip_len v6 + 12)"]
  by (auto simp: tcp_doff_def UDP_H_LEN_def split: if_splits)

lemma recv_held_packets:
  assumes holds: "holds_packets bufs offset j b ps" and off: "VIRTIO_NET_HDR_LEN \<le> offset"
    and ps: "set ps \<subseteq> {..<length bufs}" "length ps \<le> length bufs" and j: "j < length bufs"
    and pos: "gro_buffers_ok offset bufs"
    and dev: "dev_vnet_hdr dev" and R: "recv_buffers_ok bufs offset outs sizes off"
    and orig: "length (buf_bytes b) \<le> length original + (offset - VIRTIO_NET_HDR_LEN)"
  shows "\<exists>original' outs' sizes'. recv_multiple0 dev original outs sizes off
      (delivers (drop (offset - VIRTIO_NET_HDR_LEN) (buf_bytes b))) = Ok (length ps, original', outs', sizes')
    \<and> (\<forall>k < length ps. same_packet (nth_segment off outs' sizes' k) (drop offset (buf_bytes (bufs ! (ps ! k)))))"
proof -
  let ?p = "drop (offset - VIRTIO_NET_HDR_LEN) (buf_bytes b)" and ?pkt = "drop offset (buf_bytes b)"
  obtain hdr where hdr: "VirtioNetHdr_decode ?p = Ok hdr"
    "if hdr = VirtioNetHdr_default then ps = [j] \<and> ?pkt = drop offset (buf_bytes (bufs ! j))
     else \<exists>v6. merged_packet bufs offset hdr v6 ?pkt ps"
    using holds unfolding holds_packets_def Let_def by blast
  have d: "drop VIRTIO_NET_HDR_LEN ?p = ?pkt" using off by simp
  have room: "length o' \<ge> off + (length (buf_bytes (bufs ! i)) - offset)" if "o' \<in> set outs" "i < length bufs" for o' i
    using R that by (auto simp: recv_buffers_ok_def)
  have roomy: "\<forall>o' \<in> set outs. off \<le> length o'" using room j by (metis le_add1 le_trans)
  have outs: "outs \<noteq> []" "length outs = length sizes" "length outs \<le> length sizes" "length outs \<le> 65535" "length bufs \<le> length outs"
    using R by (simp_all add: recv_buffers_ok_def)
  show ?thesis
  proof (cases "hdr = VirtioNetHdr_default")
    case True
    then have P: "ps = [j]" "?pkt = drop offset (buf_bytes (bufs ! j))" using hdr(2) by simp_all
    have "0 < length ?pkt" using pos j P(2) by (simp add: gro_buffers_ok_def)
    then have pl: "VIRTIO_NET_HDR_LEN < length ?p" "length ?p \<le> length original" using off orig by simp_all
    have fit: "\<forall>o' \<in> set outs. off + length ?pkt \<le> length o'" using room [OF _ j] P(2) by simp
    obtain original' where "recv_multiple0 dev original outs sizes off (delivers ?p)
        = Ok (1, original', outs[0 := blit (outs ! 0) off ?pkt], sizes[0 := length ?pkt])"
      using recv_multiple0_delivers [OF dev outs(1,2) hdr(1) pl] handle_virtio_read_plain [OF outs(1,3,4) fit]
      unfolding d True by blast
    moreover have "nth_segment off (outs[0 := blit (outs ! 0) off ?pkt]) (sizes[0 := length ?pkt]) 0 = ?pkt"
    proof -
      have "outs ! 0 \<in> set outs" using outs(1) by simp
      then have "off + length ?pkt \<le> length (outs ! 0)" by (rule bspec [OF fit])
      moreover have "sizes \<noteq> []" using outs(1,2) by auto
      ultimately show ?thesis using outs(1) by (simp add: nth_segment_def)
    qed
    ultimately show ?thesis using P by (intro exI conjI) auto
  next
    case False
    then obtain v6 where m: "merged_packet bufs offset hdr v6 ?pkt ps" using hdr(2) by auto
    note M = merged_packetD [OF m]
    let ?h = "unat (hdr_len hdr)"
    have "0 < length ?pkt" using M(7) by (auto simp: gso_accepts_def split: if_splits)
    then have pl: "VIRTIO_NET_HDR_LEN < length ?p" "length ?p \<le> length original" using off orig by simp_all
    have "set ps = set (butlast ps @ [last ps])" using M(1) by (subst append_butlast_last_id) auto
    then have pay: "0 < length (payload bufs offset ?h i)" if "i \<in> set ps" for i
      using that M(4,5,6) by auto
    have hd: "hd ps \<in> set (butlast ps)" "hd ps \<in> set ps"
      using M(1) by (cases ps; cases "tl ps"; simp)+
    have "length (payload bufs offset ?h (hd ps)) = unat (gso_size hdr)" "hd ps < length bufs"
      using M(4) hd ps(1) by auto
    then have "\<forall>o' \<in> set outs. off + ?h + unat (gso_size hdr) \<le> length o'"
      using pay [OF hd(2)] room [of _ "hd ps"] by (fastforce simp: payload_def)
    then have fit: "segments_fit (gso_job_for ?pkt hdr v6 off) 0 outs"
      using merged_fits [OF m] ps(2) outs(5) by simp
    note split = gso_split_Ok_eq [OF outs(3,4) M(7) csum_in_header [OF M(7,2)] fit]
    note S = merged_split [OF m split]
    obtain original' where rec: "recv_multiple0 dev original outs sizes off (delivers ?p)
        = Ok (length ps, original', placed_bufs (gso_job_for ?pkt hdr v6 off) 0 outs,
              placed_sizes (gso_job_for ?pkt hdr v6 off) 0 sizes)"
      using recv_multiple0_delivers [OF dev outs(1,2) hdr(1) pl]
        handle_virtio_read_merged [OF m outs(3,4) roomy] split unfolding d S(1) by metis
    have "same_packet (nth_segment off (placed_bufs (gso_job_for ?pkt hdr v6 off) 0 outs)
          (placed_sizes (gso_job_for ?pkt hdr v6 off) 0 sizes) k) (drop offset (buf_bytes (bufs ! (ps ! k))))"
      if "k < length ps" for k
      using S(2) [unfolded S(1), OF that] pay [OF nth_mem [OF that]] merged_header_small [OF m]
      by (intro same_packet_data [where h = ?h]) (simp_all add: payload_def add.commute)
    then show ?thesis using rec by blast
  qed
qed

section \<open>Properties\<close>

text \<open>
  C12. \<open>gso_none_checksum\<close> completes a partial checksum.  It succeeds exactly when the field lies in the
  packet.  When the field held the folded sum of a pseudo-header, the receiver's check over that
  pseudo-header and the packet from \<open>csum_start\<close> then gives zero; only the field has changed.
\<close>

theorem gso_none_checksum_completes:
  assumes "even (unat offset)" "unat psum + 2 ^ 30 * length pkt < 2 ^ 64"
    and "read_u16 pkt (unat start + unat offset) = checksum [] psum"
  shows "if unat start + unat offset + 2 \<le> length pkt
    then \<exists>out. gso_none_checksum pkt start offset = Ok out
      \<and> NOT (checksum (drop (unat start) out) psum) = 0 \<and> length out = length pkt
      \<and> (\<forall>k < length pkt. k \<notin> {unat start + unat offset, unat start + unat offset + 1} \<longrightarrow> out ! k = pkt ! k)
    else is_invalid_input (gso_none_checksum pkt start offset)"
proof (cases "unat start + unat offset + 2 \<le> length pkt")
  case True
  define at where "at = unat start + unat offset"
  define z where "z = pkt[at := 0, at + 1 := 0]"
  define out where "out = write_u16 z at (NOT (checksum (drop (unat start) z) (ucast (read_u16 pkt at))))"
  have len: "at + 2 \<le> length pkt" "length z = length pkt" "unat start \<le> at" "at - unat start = unat offset"
    using True by (simp_all add: at_def z_def)
  have c: "checksum (drop (unat start) z) (ucast (read_u16 pkt at)) = checksum (drop (unat start) z) psum"
    unfolding assms(3) [folded at_def] using assms(2) len(2) by (intro checksum_folded_initial) simp
  have d: "drop (unat start) out
      = write_u16 (drop (unat start) z) (unat offset) (NOT (checksum (drop (unat start) z) psum))"
    using len by (simp add: out_def c write_u16_def drop_blit_within)
  have "subslice (unat offset) (unat offset + 2) (drop (unat start) z) = [0, 0]"
    using len by (simp add: subslice_two z_def at_def)
  then have "NOT (checksum (drop (unat start) out) psum) = 0"
    unfolding d using assms(1,2) len by (intro checksum_complement_valid) simp_all
  moreover have "gso_none_checksum pkt start offset = Ok out"
    using True by (simp add: gso_none_checksum_cases Let_def out_def z_def at_def)
  moreover have "length out = length pkt" using len by (simp add: out_def)
  moreover have "out ! k = pkt ! k" if "k < length pkt" "k \<notin> {at, at + 1}" for k
    using that len by (auto simp: out_def nth_write_u16 z_def)
  ultimately show ?thesis using True by (auto simp: at_def)
qed (simp add: gso_none_checksum_cases Let_def)
theorem gso_none_checksum_completes_witness:
  "\<exists>out. gso_none_checksum [1, 2, 0, 9, 5] 0 2 = Ok out \<and> NOT (checksum (drop 0 out) 9) = 0"
proof -
  have "read_u16 [1, 2, 0, 9, 5] (unat (0 :: u16) + unat (2 :: u16)) = checksum [] 9" by code_simp
  then show ?thesis
    using gso_none_checksum_completes [of 2 9 "[1, 2, 0, 9, 5]" 0] by auto
qed

text \<open>A kernel that accepts every packet.\<close>

lemma write_loop_accepts:
  assumes "\<forall>j \<in> set js. j < length bufs \<and> offset \<le> length (buf_bytes (bufs ! j))"
  shows "snd (write_loop (recorded (\<lambda>w b. (Ok (length b), w))) bufs offset js acc err (w, log))
    = (w, log @ map (\<lambda>j. drop offset (buf_bytes (bufs ! j))) js)"
  using assms by (induction js arbitrary: acc log) (auto simp: recorded_eq Let_def)

lemma prepare_written:
  assumes "GROTable_ok g" "length bufs \<le> 65535" "gro_buffers_ok offset bufs" "bufs \<noteq> []"
  obtains g' bufs' parts where "apply_gro g bufs offset can = Ok (g', bufs')" "VIRTIO_NET_HDR_LEN \<le> offset"
    "length (gt_to_write g') \<le> length bufs" "set (gt_to_write g') \<subseteq> {..<length bufs}" "length bufs' = length bufs"
    "mset (concat (map parts (gt_to_write g'))) = mset [0..<length bufs]"
    "\<And>j. j \<in> set (gt_to_write g') \<Longrightarrow> holds_packets bufs offset j (bufs' ! j) (parts j)"
    "\<forall>j \<in> set (gt_to_write g'). j < length bufs' \<and> offset - VIRTIO_NET_HDR_LEN \<le> length (buf_bytes (bufs' ! j))"
proof -
  obtain g' bufs' parts where G: "apply_gro g bufs offset can = Ok (g', bufs')" "length bufs' = length bufs"
    "sorted (gt_to_write g')" "distinct (gt_to_write g')" "set (gt_to_write g') \<subseteq> {..<length bufs}"
    "mset (concat (map parts (gt_to_write g'))) = mset [0..<length bufs]"
    "\<And>j. j \<in> set (gt_to_write g') \<Longrightarrow> holds_packets bufs offset j (bufs' ! j) (parts j)"
    using apply_gro_Ok [OF assms(1-3)] by metis
  have "hd bufs \<in> set bufs" using assms(4) by simp
  then have off: "VIRTIO_NET_HDR_LEN \<le> offset" using assms(3) unfolding gro_buffers_ok_def by blast
  have "length (gt_to_write g') \<le> length bufs"
    using card_mono [OF _ G(5)] distinct_card [OF G(4)] by simp
  then show thesis
    using G off holds_packets_room [OF G(7) off] by (intro that [of g' bufs' parts]) auto
qed

text \<open>
  C13. What \<open>send_multiple\<close> writes and returns, for every list of answers of the kernel without a
  panic or \<open>EBADFD\<close>: each merged packet is written once, in order, from its virtio header on; the
  result is the total of the counts, or the last error when a write failed.
\<close>

theorem send_multiple_writes:
  assumes "GROTable_ok g" "bufs \<noteq> []" "length bufs \<le> 65535" "gro_buffers_ok offset bufs"
    and "dev_vnet_hdr dev" "length bufs \<le> length rs" "\<forall>r \<in> set rs. no_fatal r"
  shows "\<exists>g' bufs'. apply_gro g bufs offset (dev_udp_gso dev) = Ok (g', bufs')
    \<and> send_multiple0 dev g bufs offset (recorded scripted) (rs, []) =
      (writes_outcome 0 None (take (length (gt_to_write g')) rs), drop (length (gt_to_write g')) rs,
       map (\<lambda>j. drop (offset - VIRTIO_NET_HDR_LEN) (buf_bytes (bufs' ! j))) (gt_to_write g'))"
proof -
  obtain g' bufs' parts where G: "apply_gro g bufs offset (dev_udp_gso dev) = Ok (g', bufs')" "VIRTIO_NET_HDR_LEN \<le> offset"
    "length (gt_to_write g') \<le> length bufs"
    "\<forall>j \<in> set (gt_to_write g'). j < length bufs' \<and> offset - VIRTIO_NET_HDR_LEN \<le> length (buf_bytes (bufs' ! j))"
    using prepare_written [OF assms(1,3,4,2)] by metis
  have "\<forall>r \<in> set (take (length (gt_to_write g')) rs). no_fatal r" using assms(7) by (meson in_set_takeD)
  then show ?thesis
    using write_loop_scripted [OF G(4), of rs 0 None "[]"] G assms(6)
      send_multiple0_eq [OF assms(5) G(1) assms(2,3) G(2), of "recorded scripted" "(rs, [])"] by simp
qed

theorem send_multiple_writes_witness:
  "\<exists>g' bufs'. apply_gro GROTable_new [gro_example_buf 1 5, gro_example_buf 2 6] 10 True = Ok (g', bufs')
    \<and> send_multiple0 \<lparr>dev_vnet_hdr = True, dev_udp_gso = True\<rparr> GROTable_new [gro_example_buf 1 5, gro_example_buf 2 6] 10
        (recorded scripted) ([Ok 32, Err (OsError 5)], []) =
      (writes_outcome 0 None (take (length (gt_to_write g')) [Ok 32, Err (OsError 5)]),
       drop (length (gt_to_write g')) [Ok 32, Err (OsError 5)],
       map (\<lambda>j. drop (10 - VIRTIO_NET_HDR_LEN) (buf_bytes (bufs' ! j))) (gt_to_write g'))"
  using send_multiple_writes [OF GROTable_ok_new, where dev = "\<lparr>dev_vnet_hdr = True, dev_udp_gso = True\<rparr>"
      and bufs = "[gro_example_buf 1 5, gro_example_buf 2 6]" and offset = 10 and rs = "[Ok 32, Err (OsError 5)]"]
  by (simp add: gro_buffers_ok_def gro_example_buf_def no_fatal_def EBADFD_def)

text \<open>
  A descriptor in bad state stops the batch: when the answer to write \<open>k\<close> is \<open>EBADFD\<close> and no
  earlier one was fatal, that error is returned, and exactly \<open>k + 1\<close> packets were handed to the
  kernel.
\<close>

theorem send_multiple_stops:
  assumes "GROTable_ok g" "bufs \<noteq> []" "length bufs \<le> 65535" "gro_buffers_ok offset bufs" "dev_vnet_hdr dev"
    and "apply_gro g bufs offset (dev_udp_gso dev) = Ok (g', bufs')"
    and "k < length (gt_to_write g')" "k < length rs" "rs ! k = Err (OsError EBADFD)" "\<forall>r \<in> set (take k rs). no_fatal r"
  shows "send_multiple0 dev g bufs offset (recorded scripted) (rs, []) = (Err (OsError EBADFD), drop (k + 1) rs,
    map (\<lambda>j. drop (offset - VIRTIO_NET_HDR_LEN) (buf_bytes (bufs' ! j))) (take (k + 1) (gt_to_write g')))"
proof -
  obtain parts where G: "VIRTIO_NET_HDR_LEN \<le> offset"
    "\<forall>j \<in> set (gt_to_write g'). j < length bufs' \<and> offset - VIRTIO_NET_HDR_LEN \<le> length (buf_bytes (bufs' ! j))"
    using prepare_written [OF assms(1,3,4,2), of "dev_udp_gso dev"] assms(6) by (metis prod.inject res.inject(1))
  show ?thesis
    using write_loop_stops [OF G(2) assms(7-10), of 0 None "[]"]
      send_multiple0_eq [OF assms(5,6,2,3) G(1), of "recorded scripted" "(rs, [])"] by simp
qed

lemma single_packet_written:
  assumes "gro_buffers_ok 10 [b]"
  shows "\<exists>g' bufs'. apply_gro GROTable_new [b] 10 can = Ok (g', bufs') \<and> gt_to_write g' = [0]"
proof -
  obtain g' bufs' parts where G: "apply_gro GROTable_new [b] 10 can = Ok (g', bufs')" "distinct (gt_to_write g')"
    "set (gt_to_write g') \<subseteq> {..<length [b]}" "mset (concat (map parts (gt_to_write g'))) = mset [0..<length [b]]"
    using apply_gro_Ok [OF GROTable_ok_new, of "[b]" 10 can] assms by (metis length_Cons list.size(3) One_nat_def one_le_numeral)
  have "gt_to_write g' \<noteq> []" using G(4) by auto
  moreover have "set (gt_to_write g') \<subseteq> {0}" using G(3) by auto
  ultimately have "set (gt_to_write g') = {0}" by (auto simp: subset_singleton_iff)
  then have "gt_to_write g' = [0]" using G(2)
    by (metis card.empty card_insert_disjoint distinct_card empty_iff finite.emptyI length_Suc_conv length_0_conv list.set_intros(1) singletonD)
  then show ?thesis using G(1) by blast
qed

theorem send_multiple_stops_witness:
  "\<exists>g' bufs'. apply_gro GROTable_new [gro_example_buf 1 5] 10 True = Ok (g', bufs')
    \<and> send_multiple0 \<lparr>dev_vnet_hdr = True, dev_udp_gso = True\<rparr> GROTable_new [gro_example_buf 1 5] 10
        (recorded scripted) ([Err (OsError EBADFD)], []) = (Err (OsError EBADFD), [], [buf_bytes (bufs' ! 0)])"
proof -
  have ok: "gro_buffers_ok 10 [gro_example_buf 1 5]" by (simp add: gro_buffers_ok_def gro_example_buf_def)
  obtain g' bufs' where G: "apply_gro GROTable_new [gro_example_buf 1 5] 10 True = Ok (g', bufs')" "gt_to_write g' = [0]"
    using single_packet_written [OF ok] by blast
  show ?thesis
    using send_multiple_stops [OF GROTable_ok_new _ _ ok, where dev = "\<lparr>dev_vnet_hdr = True, dev_udp_gso = True\<rparr>"
        and k = 0 and rs = "[Err (OsError EBADFD)]"] G by simp
qed

text \<open>
  C14. Reading never panics: with a buffer to fill, at least one byte of packet and a checksum field
  inside the smallest transport header of its kind, \<open>handle_virtio_read\<close> returns a result or an error,
  whatever the header and the packet contain.
\<close>

theorem handle_virtio_read_no_panic:
  assumes "bufs \<noteq> []" "inp \<noteq> []"
    and "unat (csum_offset h) + 2 \<le> (if gso_type h = VIRTIO_NET_HDR_GSO_UDP_L4 then 8 else 20)"
  shows "handle_virtio_read h inp bufs sizes offset \<noteq> Panic"
proof -
  have split: "gso_split inp (h\<lparr>hdr_len := hl\<rparr>) bufs sizes offset v6 \<noteq> Panic"
    if "gso_type h = VIRTIO_NET_HDR_GSO_UDP_L4 \<or> is_tcp_gso h" for hl v6
  proof (cases "gso_accepts inp (h\<lparr>hdr_len := hl\<rparr>) v6")
    case True
    let ?h = "h\<lparr>hdr_len := hl\<rparr>"
    have "transport_csum_at ?h + 2 \<le> unat (hdr_len ?h)"
      using True assms(3) that
      by (auto simp: gso_accepts_def transport_csum_at_def is_tcp_gso_def offload_consts split: if_splits)
    then show ?thesis using gso_split_outcome [of ?h bufs sizes inp v6 offset] by (auto split: if_splits)
  next
    case False
    then show ?thesis using gso_split_refuses [of bufs sizes inp "h\<lparr>hdr_len := hl\<rparr>" v6 offset] by auto
  qed
  have none: "gso_none_checksum inp a b \<noteq> Panic" for a b
    by (simp add: gso_none_checksum_cases Let_def)
  have hl: "virtio_hdr_len h inp \<noteq> Panic" by (simp add: virtio_hdr_len_def Let_def)
  show ?thesis using assms(1,2) split none hl
    unfolding handle_virtio_read_def Let_def is_tcp_gso_def
    by (simp add: bind_res_eq_Panic ensure_def)
qed

theorem handle_virtio_read_no_panic_witness:
  "handle_virtio_read \<lparr>flags = 1, gso_type = 1, hdr_len = 0, gso_size = 3, csum_start = 65530, csum_offset = 16\<rparr>
     (replicate 60 0x45) [replicate 50 7] [0] 0 \<noteq> Panic"
  by (rule handle_virtio_read_no_panic) (simp_all add: offload_consts)



end
