(* ===== verification/Effects.thy ===== *)
theory Effects
  imports Base
begin

text \<open>
  Code that calls the operating system.  Such a function is a state transformer with a result:
  \<open>('s, 'a) io\<close>, where \<open>'s\<close> is the state of whatever it calls and errors and panics end it early, the
  calls made until then having happened.  The operating system itself is an argument of each
  definition.
\<close>

type_synonym ('s, 'a) io = "'s \<Rightarrow> 'a res \<times> 's"

definition io_return :: "'a \<Rightarrow> ('s, 'a) io" where
  "io_return a = (\<lambda>s. (Ok a, s))"

definition io_res :: "'a res \<Rightarrow> ('s, 'a) io" where
  "io_res r = (\<lambda>s. (r, s))"

definition io_fail :: "io_error \<Rightarrow> ('s, 'a) io" where
  "io_fail e = (\<lambda>s. (Err e, s))"

text \<open>The \<open>?\<close> operator.\<close>

definition io_bind :: "('s, 'a) io \<Rightarrow> ('a \<Rightarrow> ('s, 'b) io) \<Rightarrow> ('s, 'b) io" where
  "io_bind m f = (\<lambda>s. case m s of
     (Ok a, s) \<Rightarrow> f a s
   | (Err e, s) \<Rightarrow> (Err e, s)
   | (Panic, s) \<Rightarrow> (Panic, s))"

definition io_then :: "('s, 'a) io \<Rightarrow> ('s, 'b) io \<Rightarrow> ('s, 'b) io" where
  "io_then m n = io_bind m (\<lambda>_. n)"

text \<open>\<open>match\<close> on the result, and \<open>let _ = \<close>: the result is looked at or thrown away.\<close>

definition io_match :: "('s, 'a) io \<Rightarrow> ('a \<Rightarrow> ('s, 'b) io) \<Rightarrow> (io_error \<Rightarrow> ('s, 'b) io) \<Rightarrow> ('s, 'b) io" where
  "io_match m f g = (\<lambda>s. case m s of
     (Ok a, s) \<Rightarrow> f a s
   | (Err e, s) \<Rightarrow> g e s
   | (Panic, s) \<Rightarrow> (Panic, s))"

definition io_when :: "bool \<Rightarrow> ('s, unit) io \<Rightarrow> ('s, unit) io" where
  "io_when c m = (if c then m else io_return ())"

definition io_map :: "('a \<Rightarrow> 'b) \<Rightarrow> ('s, 'a) io \<Rightarrow> ('s, 'b) io" where
  "io_map f m = io_bind m (\<lambda>a. io_return (f a))"

text \<open>
  Owned values: \<open>io_scope m d\<close> drops the value when the scope of \<open>m\<close> ends, on every path; \<open>io_unless m d\<close>
  drops it when \<open>m\<close> ends early and gives it on otherwise.
\<close>

definition io_scope :: "('s, 'a) io \<Rightarrow> ('s \<Rightarrow> 's) \<Rightarrow> ('s, 'a) io" where
  "io_scope m d = (\<lambda>s. case m s of (r, s) \<Rightarrow> (r, d s))"

definition io_unless :: "('s, 'a) io \<Rightarrow> ('s \<Rightarrow> 's) \<Rightarrow> ('s, 'a) io" where
  "io_unless m d = (\<lambda>s. case m s of (Ok a, s) \<Rightarrow> (Ok a, s) | (Err e, s) \<Rightarrow> (Err e, d s) | (Panic, s) \<Rightarrow> (Panic, d s))"

text \<open>\<open>expect\<close> and \<open>unwrap\<close> on a result.\<close>

definition io_unwrap :: "('s, 'a) io \<Rightarrow> ('s, 'a) io" where
  "io_unwrap m = (\<lambda>s. case m s of (Ok a, s) \<Rightarrow> (Ok a, s) | (_, s) \<Rightarrow> (Panic, s))"

text \<open>A \<open>for\<close> loop whose body may return an error.\<close>

fun io_each :: "('a \<Rightarrow> ('s, unit) io) \<Rightarrow> 'a list \<Rightarrow> ('s, unit) io" where
  "io_each f [] = io_return ()"
| "io_each f (x # xs) = io_then (f x) (io_each f xs)"

named_theorems io_simps \<comment> \<open>evaluation of effectful code\<close>

lemmas io_defs = io_return_def io_res_def io_fail_def io_bind_def io_then_def io_match_def io_when_def io_map_def

lemma io_return_app [io_simps]: "io_return a s = (Ok a, s)"
  by (simp add: io_return_def)

lemma io_res_app [io_simps]: "io_res r s = (r, s)"
  by (simp add: io_res_def)

lemma io_fail_app [io_simps]: "io_fail e s = (Err e, s)"
  by (simp add: io_fail_def)

lemma io_bind_simps [io_simps]:
  "m s = (Ok a, s') \<Longrightarrow> io_bind m f s = f a s'"
  "m s = (Err e, s') \<Longrightarrow> io_bind m f s = (Err e, s')"
  "m s = (Panic, s') \<Longrightarrow> io_bind m f s = (Panic, s')"
  by (simp_all add: io_bind_def)

lemma io_match_simps [io_simps]:
  "m s = (Ok a, s') \<Longrightarrow> io_match m f g s = f a s'"
  "m s = (Err e, s') \<Longrightarrow> io_match m f g s = g e s'"
  "m s = (Panic, s') \<Longrightarrow> io_match m f g s = (Panic, s')"
  by (simp_all add: io_match_def)

lemma io_bind_return [simp]: "io_bind (io_return a) f = f a" "io_bind m io_return = m"
  by (auto simp: io_defs fun_eq_iff split: prod.splits res.splits)

lemma io_bind_assoc: "io_bind (io_bind m f) g = io_bind m (\<lambda>a. io_bind (f a) g)"
  by (auto simp: io_defs fun_eq_iff split: prod.splits res.splits)

lemma io_each_append: "io_each f (xs @ ys) = io_then (io_each f xs) (io_each f ys)"
  by (induction xs) (simp_all add: io_then_def io_bind_assoc)

text \<open>A call that leaves a part \<open>f\<close> of the state as it was.\<close>

definition io_preserves :: "('s \<Rightarrow> 'v) \<Rightarrow> ('s, 'a) io \<Rightarrow> bool" where
  "io_preserves f m \<longleftrightarrow> (\<forall>s. f (snd (m s)) = f s)"

named_theorems io_pres \<comment> \<open>what preserves a part of the state\<close>

lemma io_preservesD: "io_preserves f m \<Longrightarrow> m s = (r, s') \<Longrightarrow> f s' = f s"
  by (metis io_preserves_def snd_conv)

lemma io_preserves_pure [io_pres, simp]:
  "io_preserves f (io_return a)" "io_preserves f (io_res r)" "io_preserves f (io_fail e)"
  by (simp_all add: io_preserves_def io_defs)

lemma io_preserves_bind [io_pres]:
  "io_preserves f m \<Longrightarrow> (\<And>a. io_preserves f (g a)) \<Longrightarrow> io_preserves f (io_bind m g)"
  by (auto simp: io_preserves_def io_bind_def split: prod.splits res.splits) (metis snd_conv)+

lemma io_preserves_then [io_pres]: "io_preserves f m \<Longrightarrow> io_preserves f n \<Longrightarrow> io_preserves f (io_then m n)"
  by (simp add: io_then_def io_preserves_bind)

lemma io_preserves_match [io_pres]:
  "io_preserves f m \<Longrightarrow> (\<And>a. io_preserves f (g a)) \<Longrightarrow> (\<And>e. io_preserves f (h e)) \<Longrightarrow> io_preserves f (io_match m g h)"
  by (auto simp: io_preserves_def io_match_def split: prod.splits res.splits) (metis snd_conv)+

lemma io_preserves_map [io_pres]: "io_preserves f m \<Longrightarrow> io_preserves f (io_map g m)"
  by (simp add: io_map_def io_preserves_bind)

lemma io_preserves_if [io_pres]:
  "(c \<Longrightarrow> io_preserves f m) \<Longrightarrow> (\<not> c \<Longrightarrow> io_preserves f n) \<Longrightarrow> io_preserves f (if c then m else n)"
  by simp

lemma io_preserves_when [io_pres]: "io_preserves f m \<Longrightarrow> io_preserves f (io_when c m)"
  by (simp add: io_when_def)

lemma io_preserves_each [io_pres]: "(\<And>x. io_preserves f (g x)) \<Longrightarrow> io_preserves f (io_each g xs)"
  by (induction xs) (auto intro: io_pres)

lemma io_preserves_option [io_pres]:
  "io_preserves f m \<Longrightarrow> (\<And>a. io_preserves f (g a)) \<Longrightarrow> io_preserves f (case x of None \<Rightarrow> m | Some a \<Rightarrow> g a)"
  by (cases x) simp_all

text \<open>The same of a call with a C result.\<close>

definition keeps :: "('s \<Rightarrow> 'v) \<Rightarrow> ('s \<Rightarrow> 'a \<times> 's) \<Rightarrow> bool" where
  "keeps f call \<longleftrightarrow> (\<forall>s. f (snd (call s)) = f s)"

lemma keepsD: "keeps h f \<Longrightarrow> f s = (r, s') \<Longrightarrow> h s' = h s"
  by (metis keeps_def snd_conv)

end
