(* ===== verification/UnixFd.thy ===== *)
theory UnixFd
  imports Effects
begin

text \<open>
  File descriptors and the \<open>Tun\<close> device on them (\<open>src/platform/unix/fd.rs\<close>, \<open>src/platform/unix/tun.rs\<close>).
  The system calls are the fields of the record \<open>fd_sys\<close>.  On Linux \<open>Tun\<close> passes packets as they are; on
  macOS and the BSDs every packet carries four bytes of packet information, which \<open>Tun\<close> adds and strips
  unless told not to.
\<close>

section \<open>File descriptors\<close>

text \<open>
  A call returns its C result.  A read also returns the bytes it put at the start of the buffer (for
  \<open>readv\<close>: of the buffers one after the other), a negative result leaves \<open>errno\<close>.
\<close>

record 's fd_sys =
  sys_read :: "int \<Rightarrow> nat \<Rightarrow> 's \<Rightarrow> (int \<times> byte list) \<times> 's"
  sys_readv :: "int \<Rightarrow> nat list \<Rightarrow> 's \<Rightarrow> (int \<times> byte list) \<times> 's"
  sys_write :: "int \<Rightarrow> byte list \<Rightarrow> 's \<Rightarrow> int \<times> 's"
  sys_writev :: "int \<Rightarrow> byte list list \<Rightarrow> 's \<Rightarrow> int \<times> 's"
  sys_fionbio :: "int \<Rightarrow> bool \<Rightarrow> 's \<Rightarrow> int \<times> 's"
  sys_close :: "int \<Rightarrow> 's \<Rightarrow> 's"
  sys_errno :: "'s \<Rightarrow> nat"
  sys_iov_max :: nat

record Fd =
  fd_inner :: int
  fd_borrow :: bool

definition last_os_error :: "'s fd_sys \<Rightarrow> ('s, 'a) io" where
  "last_os_error K = (\<lambda>s. (Err (OsError (sys_errno K s)), s))"

definition Fd_new_unchecked_with_borrow :: "int \<Rightarrow> bool \<Rightarrow> Fd" where
  "Fd_new_unchecked_with_borrow v borrow = \<lparr>fd_inner = v, fd_borrow = borrow\<rparr>"

definition Fd_new_unchecked :: "int \<Rightarrow> Fd" where
  "Fd_new_unchecked v = Fd_new_unchecked_with_borrow v False"

definition Fd_new :: "'s fd_sys \<Rightarrow> int \<Rightarrow> ('s, Fd) io" where
  "Fd_new K v = (if v < 0 then last_os_error K else io_return (Fd_new_unchecked v))"

definition Fd_set_nonblocking :: "'s fd_sys \<Rightarrow> Fd \<Rightarrow> bool \<Rightarrow> ('s, unit) io" where
  "Fd_set_nonblocking K fd nonblocking = (\<lambda>s.
     let (r, s) = sys_fionbio K (fd_inner fd) nonblocking s
     in if r = 0 then (Ok (), s) else last_os_error K s)"

text \<open>The buffer after a read: the bytes read over its start.\<close>

definition filled :: "byte list \<Rightarrow> byte list \<Rightarrow> byte list" where
  "filled buf got = take (length buf) got @ drop (length got) buf"

definition Fd_read :: "'s fd_sys \<Rightarrow> Fd \<Rightarrow> byte list \<Rightarrow> ('s, nat \<times> byte list) io" where
  "Fd_read K fd buf = (\<lambda>s.
     let ((amount, got), s) = sys_read K (fd_inner fd) (length buf) s
     in if amount < 0 then last_os_error K s else (Ok (nat amount, filled buf got), s))"

text \<open>Filling several buffers one after the other.\<close>

fun scatter :: "byte list list \<Rightarrow> byte list \<Rightarrow> byte list list" where
  "scatter [] got = []"
| "scatter (b # bs) got = filled b (take (length b) got) # scatter bs (drop (length b) got)"

definition Fd_readv :: "'s fd_sys \<Rightarrow> Fd \<Rightarrow> byte list list \<Rightarrow> ('s, nat \<times> byte list list) io" where
  "Fd_readv K fd bufs =
     (if length bufs > sys_iov_max K then io_fail (Custom InvalidInput '''')
      else (\<lambda>s.
        let ((amount, got), s) = sys_readv K (fd_inner fd) (map length bufs) s
        in if amount < 0 then last_os_error K s else (Ok (nat amount, scatter bufs got), s)))"

definition Fd_write :: "'s fd_sys \<Rightarrow> Fd \<Rightarrow> byte list \<Rightarrow> ('s, nat) io" where
  "Fd_write K fd buf = (\<lambda>s.
     let (amount, s) = sys_write K (fd_inner fd) buf s
     in if amount < 0 then last_os_error K s else (Ok (nat amount), s))"

definition Fd_writev :: "'s fd_sys \<Rightarrow> Fd \<Rightarrow> byte list list \<Rightarrow> ('s, nat) io" where
  "Fd_writev K fd bufs =
     (if length bufs > sys_iov_max K then io_fail (Custom InvalidInput '''')
      else (\<lambda>s.
        let (amount, s) = sys_writev K (fd_inner fd) bufs s
        in if amount < 0 then last_os_error K s else (Ok (nat amount), s)))"

text \<open>\<open>into_raw_fd\<close> gives the descriptor away; \<open>drop\<close> closes it when it is still owned.\<close>

definition Fd_into_raw_fd :: "Fd \<Rightarrow> int \<times> Fd" where
  "Fd_into_raw_fd fd = (fd_inner fd, fd\<lparr>fd_inner := -1\<rparr>)"

definition Fd_drop :: "'s fd_sys \<Rightarrow> Fd \<Rightarrow> 's \<Rightarrow> Fd \<times> 's" where
  "Fd_drop K fd s = (if \<not> fd_borrow fd \<and> fd_inner fd \<ge> 0
     then (fd\<lparr>fd_inner := -1\<rparr>, sys_close K (fd_inner fd) s) else (fd, s))"

section \<open>Packets without packet information\<close>

definition tun_send :: "'s fd_sys \<Rightarrow> Fd \<Rightarrow> byte list \<Rightarrow> ('s, nat) io" where
  "tun_send K fd buf = Fd_write K fd buf"

definition tun_send_vectored :: "'s fd_sys \<Rightarrow> Fd \<Rightarrow> byte list list \<Rightarrow> ('s, nat) io" where
  "tun_send_vectored K fd bufs = Fd_writev K fd bufs"

definition tun_recv :: "'s fd_sys \<Rightarrow> Fd \<Rightarrow> byte list \<Rightarrow> ('s, nat \<times> byte list) io" where
  "tun_recv K fd buf = Fd_read K fd buf"

definition tun_recv_vectored :: "'s fd_sys \<Rightarrow> Fd \<Rightarrow> byte list list \<Rightarrow> ('s, nat \<times> byte list list) io" where
  "tun_recv_vectored K fd bufs = Fd_readv K fd bufs"

section \<open>Packets with packet information\<close>

definition PIL :: nat where "PIL = 4"

definition is_ipv6 :: "byte list \<Rightarrow> bool res" where
  "is_ipv6 buf =
     (if buf = [] then Err (Custom InvalidData ''Zero-length data'')
      else let v = drop_bit 4 (buf ! 0)
        in if v = 4 then Ok False else if v = 6 then Ok True
           else Err (Custom InvalidData ''IP version''))"

text \<open>\<open>AF_INET\<close> is 2 on all these systems; \<open>AF_INET6\<close> differs and is an argument.\<close>

definition AF_INET :: u32 where "AF_INET = 2"

definition generate_packet_information :: "u32 \<Rightarrow> bool \<Rightarrow> byte list" where
  "generate_packet_information af_inet6 ipv6 = to_be32 (if ipv6 then af_inet6 else AF_INET)"

record Tun =
  tun_fd :: Fd
  tun_ignore_packet_information :: bool

definition Tun_new :: "Fd \<Rightarrow> Tun" where
  "Tun_new fd = \<lparr>tun_fd = fd, tun_ignore_packet_information = True\<rparr>"

definition set_ignore_packet_info :: "bool \<Rightarrow> Tun \<Rightarrow> Tun" where
  "set_ignore_packet_info ign t = t\<lparr>tun_ignore_packet_information := ign\<rparr>"

definition bsd_send :: "'s fd_sys \<Rightarrow> u32 \<Rightarrow> Tun \<Rightarrow> byte list \<Rightarrow> ('s, nat) io" where
  "bsd_send K af_inet6 t buf =
     (if tun_ignore_packet_information t then
        io_bind (io_res (is_ipv6 buf)) (\<lambda>ipv6.
        io_bind (Fd_writev K (tun_fd t) [generate_packet_information af_inet6 ipv6, buf]) (\<lambda>len.
        io_return (len - PIL)))
      else Fd_write K (tun_fd t) buf)"

text \<open>\<open>bufs.iter().find(|b| !b.is_empty()).map_or(&[], ...)\<close>\<close>

definition first_nonempty :: "byte list list \<Rightarrow> byte list" where
  "first_nonempty bufs = (case filter (\<lambda>b. b \<noteq> []) bufs of [] \<Rightarrow> [] | b # _ \<Rightarrow> b)"

definition bsd_send_vectored :: "'s fd_sys \<Rightarrow> u32 \<Rightarrow> Tun \<Rightarrow> byte list list \<Rightarrow> ('s, nat) io" where
  "bsd_send_vectored K af_inet6 t bufs =
     (if tun_ignore_packet_information t then
        if sys_iov_max K - 1 < length bufs then io_fail (Custom InvalidInput '''')
        else
          io_bind (io_res (is_ipv6 (first_nonempty bufs))) (\<lambda>ipv6.
          io_bind (Fd_writev K (tun_fd t) (generate_packet_information af_inet6 ipv6 # bufs)) (\<lambda>len.
          io_return (len - PIL)))
      else Fd_writev K (tun_fd t) bufs)"

definition bsd_recv :: "'s fd_sys \<Rightarrow> Tun \<Rightarrow> byte list \<Rightarrow> ('s, nat \<times> byte list) io" where
  "bsd_recv K t buf =
     (if tun_ignore_packet_information t then
        io_bind (Fd_readv K (tun_fd t) [replicate PIL 0, buf]) (\<lambda>(len, bufs).
        io_return (len - PIL, bufs ! 1))
      else Fd_read K (tun_fd t) buf)"

definition bsd_recv_vectored :: "'s fd_sys \<Rightarrow> Tun \<Rightarrow> byte list list \<Rightarrow> ('s, nat \<times> byte list list) io" where
  "bsd_recv_vectored K t bufs =
     (if tun_ignore_packet_information t then
        if sys_iov_max K - 1 < length bufs then io_fail (Custom InvalidInput '''')
        else
          io_bind (Fd_readv K (tun_fd t) (replicate PIL 0 # bufs)) (\<lambda>(len, bufs).
          io_return (len - PIL, tl bufs))
      else Fd_readv K (tun_fd t) bufs)"

section \<open>What is assumed of the system calls\<close>

text \<open>POSIX: the vectored calls are the plain ones on the concatenation.\<close>

definition vectored_io :: "'s fd_sys \<Rightarrow> bool" where
  "vectored_io K \<longleftrightarrow> (\<forall>fd bufs s. sys_writev K fd bufs s = sys_write K fd (concat bufs) s)
     \<and> (\<forall>fd lens s. sys_readv K fd lens s = sys_read K fd (sum_list lens) s)"

text \<open>A descriptor that gives back what was written, packet by packet, cut to the reader's buffer.\<close>

definition echo_sys :: "(byte list list) fd_sys" where
  "echo_sys = \<lparr>sys_read = (\<lambda>_ n s. case s of [] \<Rightarrow> ((-1, []), []) | p # s \<Rightarrow> ((int (min n (length p)), take n p), s)),
     sys_readv = (\<lambda>_ ns s. case s of [] \<Rightarrow> ((-1, []), [])
       | p # s \<Rightarrow> ((int (min (sum_list ns) (length p)), take (sum_list ns) p), s)),
     sys_write = (\<lambda>_ b s. (int (length b), s @ [b])), sys_writev = (\<lambda>_ bs s. (int (length (concat bs)), s @ [concat bs])),
     sys_fionbio = (\<lambda>_ _ s. (0, s)), sys_close = (\<lambda>_ s. s), sys_errno = (\<lambda>_. 11), sys_iov_max = 1024\<rparr>"

lemma echo_vectored [simp]: "vectored_io echo_sys"
  by (simp add: vectored_io_def echo_sys_def)

lemma echo_iov_max [simp]: "sys_iov_max echo_sys = 1024"
  by (simp add: echo_sys_def)

lemma filled_take [simp]: "filled buf (take (length buf) got) = filled buf got"
  by (simp add: filled_def min_def)

lemma length_filled [simp]: "length (filled buf got) = length buf"
  by (simp add: filled_def)

lemma concat_scatter: "concat (scatter bs got) = filled (concat bs) got"
  by (induction bs arbitrary: got) (auto simp: filled_def take_add min_def)

lemma length_scatter [simp]: "length (scatter bs got) = length bs" "map length (scatter bs got) = map length bs"
  by (induction bs arbitrary: got) auto

lemma first_nonempty_simps [simp]:
  "first_nonempty [] = []"
  "first_nonempty (b # bs) = (if b = [] then first_nonempty bs else b)"
  by (simp_all add: first_nonempty_def)

lemma is_ipv6_first: "is_ipv6 (first_nonempty bufs) = is_ipv6 (concat bufs)"
proof (induction bufs)
  case (Cons b bs)
  have "is_ipv6 (b @ concat bs) = is_ipv6 b" if "b \<noteq> []" using that by (simp add: is_ipv6_def nth_append)
  then show ?case using Cons by simp
qed simp

section \<open>Properties\<close>

text \<open>
  Sending a packet from several buffers is sending their concatenation, in both packet information
  modes, errors included, as long as the buffers and the header fit into one call.
\<close>

theorem bsd_send_vectored_eq:
  assumes "vectored_io K" "2 \<le> sys_iov_max K" "length bufs < sys_iov_max K"
  shows "bsd_send_vectored K af t bufs = bsd_send K af t (concat bufs)"
  using assms
  by (auto simp: bsd_send_vectored_def bsd_send_def Fd_writev_def Fd_write_def vectored_io_def is_ipv6_first)

theorem bsd_send_vectored_eq_witness:
  "bsd_send_vectored echo_sys 30 (Tun_new (Fd_new_unchecked 3)) [[], [0x45, 1], [2]]
    = bsd_send echo_sys 30 (Tun_new (Fd_new_unchecked 3)) (concat [[], [0x45, 1], [2]])"
  by (rule bsd_send_vectored_eq) simp_all

text \<open>
  Receiving into several buffers fills them like one buffer of their total length, with the same
  count and the same errors.
\<close>

theorem bsd_recv_vectored_eq:
  assumes "vectored_io K" "2 \<le> sys_iov_max K" "length bufs < sys_iov_max K"
  shows "io_map (\<lambda>(n, bs). (n, concat bs)) (bsd_recv_vectored K t bufs) = bsd_recv K t (concat bufs)"
  using assms
  by (auto simp: bsd_recv_vectored_def bsd_recv_def Fd_readv_def Fd_read_def vectored_io_def io_defs Let_def fun_eq_iff
      concat_scatter length_concat [symmetric] last_os_error_def not_less split: prod.splits)

theorem bsd_recv_vectored_eq_witness:
  "io_map (\<lambda>(n, bs). (n, concat bs)) (bsd_recv_vectored echo_sys (Tun_new (Fd_new_unchecked 3)) [[0], [], [0, 0]])
    = bsd_recv echo_sys (Tun_new (Fd_new_unchecked 3)) (concat [[0], [], [0, 0]])"
  by (rule bsd_recv_vectored_eq) simp_all

text \<open>
  C16. The packet information is invisible to the caller.  A packet with a valid IP version, sent on one
  end and received at the other with enough room, is the same packet with its length; what travels
  is the address family in four bytes, big-endian, before it.
\<close>

theorem bsd_send_recv:
  assumes "tun_ignore_packet_information t" "tun_ignore_packet_information t'"
    and "is_ipv6 p = Ok v" "length p \<le> length buf"
  shows "bsd_send echo_sys af t p [] = (Ok (length p), [to_be32 (if v then af else AF_INET) @ p])
    \<and> bsd_recv echo_sys t' buf [to_be32 (if v then af else AF_INET) @ p] = (Ok (length p, p @ drop (length p) buf), [])"
  using assms
  by (simp add: bsd_send_def bsd_recv_def Fd_writev_def Fd_readv_def echo_sys_def io_defs Let_def PIL_def filled_def
      generate_packet_information_def to_be32_def)

theorem bsd_send_recv_witness:
  "bsd_send echo_sys 30 (Tun_new (Fd_new_unchecked 3)) [0x60, 1] [] = (Ok 2, [to_be32 30 @ [0x60, 1]])"
  using bsd_send_recv [of "Tun_new (Fd_new_unchecked 3)" "Tun_new (Fd_new_unchecked 3)" "[0x60, 1]" True "[0, 0, 0]" 30]
  by (simp add: Tun_new_def is_ipv6_def)

text \<open>
  A descriptor is closed at most once and only by its owner: dropping it a second time does
  nothing, dropping it after \<open>into_raw_fd\<close> or when it was borrowed does nothing, and \<open>into_raw_fd\<close>
  returns the descriptor.
\<close>

theorem fd_closed_once:
  "(let (fd', s') = Fd_drop K fd s in Fd_drop K fd' s' = (fd', s'))
    \<and> Fd_drop K (snd (Fd_into_raw_fd fd)) s = (snd (Fd_into_raw_fd fd), s)
    \<and> fst (Fd_into_raw_fd fd) = fd_inner fd
    \<and> Fd_drop K (Fd_new_unchecked_with_borrow v True) s = (Fd_new_unchecked_with_borrow v True, s)
    \<and> snd (Fd_drop K (Fd_new_unchecked v) s) = (if 0 \<le> v then sys_close K v s else s)"
  by (simp add: Fd_drop_def Fd_into_raw_fd_def Fd_new_unchecked_with_borrow_def Fd_new_unchecked_def)

end
