(* ===== verification/AsyncUnix.thy ===== *)
theory AsyncUnix
  imports UnixFd VirtioIo
begin

text \<open>
  The async device on Unix (\<open>src/async_device/unix/\<close>).  Tokio's \<open>AsyncFd\<close> is an argument, the record
  \<open>async_fd\<close>: readiness is polled, a ready guard tries an operation and reports with \<open>None\<close> that it
  would have blocked, \<open>async_io\<close> awaits and tries, \<open>try_io\<close> tries at once, \<open>ready\<close> awaits.  What the poll loop relies on is
  the hypothesis \<open>guard_documented\<close>.  A waker is a context the reactor keeps; it is part of \<open>'s\<close>.
\<close>

section \<open>Polling\<close>

datatype 'a poll = Pending | Ready 'a

datatype interest = READABLE | WRITABLE

record ('s, 'a) async_fd =
  afd_poll_ready :: "interest \<Rightarrow> 's \<Rightarrow> unit res poll \<times> 's"
  afd_guard_try_io :: "('s, 'a) io \<Rightarrow> 's \<Rightarrow> 'a res option \<times> 's"
  afd_async_io :: "interest \<Rightarrow> ('s, 'a) io \<Rightarrow> ('s, 'a) io"
  afd_try_io :: "interest \<Rightarrow> ('s, 'a) io \<Rightarrow> ('s, 'a) io"
  afd_ready :: "interest \<Rightarrow> ('s, unit) io"

definition poll_readable :: "('s, 'a) async_fd \<Rightarrow> 's \<Rightarrow> unit res poll \<times> 's" where
  "poll_readable A = afd_poll_ready A READABLE"

definition poll_writable :: "('s, 'a) async_fd \<Rightarrow> 's \<Rightarrow> unit res poll \<times> 's" where
  "poll_writable A = afd_poll_ready A WRITABLE"

text \<open>
  The loop of \<open>poll_recv\<close> and \<open>poll_send\<close>.  It goes round again each time a readiness proved false, so a
  reactor that reports readiness forever keeps it there: then the value is \<open>None\<close>.
\<close>

partial_function (option) poll_io :: "('s, 'a) async_fd \<Rightarrow> interest \<Rightarrow> ('s, 'a) io \<Rightarrow> 's \<Rightarrow> ('a res poll \<times> 's) option" where
  "poll_io A i f s = (case afd_poll_ready A i s of
     (Ready (Ok _), s) \<Rightarrow> (case afd_guard_try_io A f s of
         (Some r, s) \<Rightarrow> Some (Ready r, s)
       | (None, s) \<Rightarrow> poll_io A i f s)
   | (Ready (Err e), s) \<Rightarrow> Some (Ready (Err e), s)
   | (Ready Panic, s) \<Rightarrow> Some (Ready Panic, s)
   | (Pending, s) \<Rightarrow> Some (Pending, s))"

definition poll_recv :: "('s, nat \<times> byte list) async_fd \<Rightarrow> 's fd_sys \<Rightarrow> Fd \<Rightarrow> byte list
    \<Rightarrow> 's \<Rightarrow> ((nat \<times> byte list) res poll \<times> 's) option" where
  "poll_recv A K fd buf = poll_io A READABLE (tun_recv K fd buf)"

definition poll_send :: "('s, nat) async_fd \<Rightarrow> 's fd_sys \<Rightarrow> Fd \<Rightarrow> byte list
    \<Rightarrow> 's \<Rightarrow> (nat res poll \<times> 's) option" where
  "poll_send A K fd buf = poll_io A WRITABLE (tun_send K fd buf)"

section \<open>Construction\<close>

text \<open>
  \<open>new_dev\<close>: the device is made non-blocking, then registered with the reactor; when either fails the
  device is dropped, and its descriptor closed.
\<close>

definition new_dev :: "'s fd_sys \<Rightarrow> (Fd \<Rightarrow> ('s, unit) io) \<Rightarrow> Fd \<Rightarrow> ('s, Fd) io" where
  "new_dev K register fd =
     io_unless (io_then (Fd_set_nonblocking K fd True) (io_then (register fd) (io_return fd)))
       (\<lambda>s. snd (Fd_drop K fd s))"

definition from_fd :: "'s fd_sys \<Rightarrow> (Fd \<Rightarrow> ('s, unit) io) \<Rightarrow> (Fd \<Rightarrow> ('s, Fd) io) \<Rightarrow> int \<Rightarrow> ('s, Fd) io" where
  "from_fd K register from_tun v = io_bind (from_tun (Fd_new_unchecked v)) (new_dev K register)"

definition from_raw_fd :: "'s fd_sys \<Rightarrow> (Fd \<Rightarrow> ('s, unit) io) \<Rightarrow> (Fd \<Rightarrow> ('s, Fd) io) \<Rightarrow> int \<Rightarrow> ('s, Fd) io" where
  "from_raw_fd K register from_tun v = io_unwrap (from_fd K register from_tun v)"

definition into_fd :: "Fd \<Rightarrow> int res" where
  "into_fd fd = Ok (fst (Fd_into_raw_fd fd))"

section \<open>Operations on one packet\<close>

text \<open>The guard that \<open>readable\<close> and \<open>writable\<close> await is thrown away.\<close>

definition async_readable :: "('s, 'a) async_fd \<Rightarrow> ('s, unit) io" where
  "async_readable A = afd_ready A READABLE"

definition async_writable :: "('s, 'a) async_fd \<Rightarrow> ('s, unit) io" where
  "async_writable A = afd_ready A WRITABLE"

definition read_with :: "('s, 'a) async_fd \<Rightarrow> ('s, 'a) io \<Rightarrow> ('s, 'a) io" where
  "read_with A op = afd_async_io A READABLE op"

definition write_with :: "('s, 'a) async_fd \<Rightarrow> ('s, 'a) io \<Rightarrow> ('s, 'a) io" where
  "write_with A op = afd_async_io A WRITABLE op"

definition try_read_io :: "('s, 'a) async_fd \<Rightarrow> ('s, 'a) io \<Rightarrow> ('s, 'a) io" where
  "try_read_io A f = afd_try_io A READABLE f"

definition try_write_io :: "('s, 'a) async_fd \<Rightarrow> ('s, 'a) io \<Rightarrow> ('s, 'a) io" where
  "try_write_io A f = afd_try_io A WRITABLE f"

definition async_recv :: "('s, nat \<times> byte list) async_fd \<Rightarrow> 's fd_sys \<Rightarrow> Fd \<Rightarrow> byte list \<Rightarrow> ('s, nat \<times> byte list) io" where
  "async_recv A K fd buf = read_with A (tun_recv K fd buf)"

definition try_recv :: "('s, nat \<times> byte list) async_fd \<Rightarrow> 's fd_sys \<Rightarrow> Fd \<Rightarrow> byte list \<Rightarrow> ('s, nat \<times> byte list) io" where
  "try_recv A K fd buf = try_read_io A (tun_recv K fd buf)"

definition async_send :: "('s, nat) async_fd \<Rightarrow> 's fd_sys \<Rightarrow> Fd \<Rightarrow> byte list \<Rightarrow> ('s, nat) io" where
  "async_send A K fd buf = write_with A (tun_send K fd buf)"

definition try_send :: "('s, nat) async_fd \<Rightarrow> 's fd_sys \<Rightarrow> Fd \<Rightarrow> byte list \<Rightarrow> ('s, nat) io" where
  "try_send A K fd buf = try_write_io A (tun_send K fd buf)"

definition async_recv_vectored :: "('s, nat \<times> byte list list) async_fd \<Rightarrow> 's fd_sys \<Rightarrow> Fd \<Rightarrow> byte list list
    \<Rightarrow> ('s, nat \<times> byte list list) io" where
  "async_recv_vectored A K fd bufs = read_with A (tun_recv_vectored K fd bufs)"

definition try_recv_vectored :: "('s, nat \<times> byte list list) async_fd \<Rightarrow> 's fd_sys \<Rightarrow> Fd \<Rightarrow> byte list list
    \<Rightarrow> ('s, nat \<times> byte list list) io" where
  "try_recv_vectored A K fd bufs = try_read_io A (tun_recv_vectored K fd bufs)"

definition async_send_vectored :: "('s, nat) async_fd \<Rightarrow> 's fd_sys \<Rightarrow> Fd \<Rightarrow> byte list list \<Rightarrow> ('s, nat) io" where
  "async_send_vectored A K fd bufs = write_with A (tun_send_vectored K fd bufs)"

definition try_send_vectored :: "('s, nat) async_fd \<Rightarrow> 's fd_sys \<Rightarrow> Fd \<Rightarrow> byte list list \<Rightarrow> ('s, nat) io" where
  "try_send_vectored A K fd bufs = try_write_io A (tun_send_vectored K fd bufs)"

section \<open>Batches\<close>

text \<open>
  \<open>recv_multiple\<close> and \<open>send_multiple\<close> when every await completes: \<open>recv\<close> and \<open>send\<close> are then functions as
  in the blocking case.
\<close>

definition async_recv_multiple :: "DeviceImpl \<Rightarrow> byte list \<Rightarrow> byte list list \<Rightarrow> nat list \<Rightarrow> nat
    \<Rightarrow> (byte list \<Rightarrow> (nat \<times> byte list) res) \<Rightarrow> (nat \<times> byte list \<times> byte list list \<times> nat list) res" where
  "async_recv_multiple dev original bufs sizes offset recv =
     (if bufs = [] \<or> length bufs \<noteq> length sizes then err_other ''bufs error''
      else if length bufs > 65535 then invalid_input ''too many packet buffers''
      else if dev_vnet_hdr dev then
        bind_res (recv original) (\<lambda>(len, original).
          if len \<le> VIRTIO_NET_HDR_LEN then err_other ''length of packet <= VIRTIO_NET_HDR_LEN''
          else ensure (VIRTIO_NET_HDR_LEN \<le> length original)
            (bind_res (VirtioNetHdr_decode (take VIRTIO_NET_HDR_LEN original)) (\<lambda>h.
              ensure (len \<le> length original)
                (bind_res (handle_virtio_read h (subslice VIRTIO_NET_HDR_LEN len original) bufs sizes offset)
                  (\<lambda>(n, inp, bufs, sizes). Ok (n, blit original VIRTIO_NET_HDR_LEN inp, bufs, sizes))))))
      else if offset > length (bufs ! 0) then invalid_input ''invalid offset''
      else bind_res (recv (drop offset (bufs ! 0))) (\<lambda>(len, buf).
        Ok (1, original, bufs[0 := take offset (bufs ! 0) @ buf], sizes[0 := len])))"

definition async_send_multiple :: "DeviceImpl \<Rightarrow> GROTable \<Rightarrow> gbuf list \<Rightarrow> nat
    \<Rightarrow> ('w \<Rightarrow> byte list \<Rightarrow> nat res \<times> 'w) \<Rightarrow> 'w \<Rightarrow> nat res \<times> 'w" where
  "async_send_multiple dev g bufs offset send w =
     (if bufs = [] then (Ok 0, w)
      else if length bufs > 65535 then (invalid_input ''too many packet buffers'', w)
      else case send_prepare dev g bufs offset of
             Ok (g, bufs, offset) \<Rightarrow> write_loop send bufs offset (gt_to_write g) 0 None w
           | Err e \<Rightarrow> (Err e, w)
           | Panic \<Rightarrow> (Panic, w))"

section \<open>What is assumed of the reactor\<close>

definition would_block :: "io_error \<Rightarrow> bool" where
  "would_block e \<longleftrightarrow> (case e of Custom WouldBlock _ \<Rightarrow> True | OsError c \<Rightarrow> c = 11 | _ \<Rightarrow> False)"

text \<open>
  A guard tries the operation once; when it would block the readiness is cleared and \<open>None\<close> returned,
  any other outcome is passed on.
\<close>

definition guard_documented :: "('s, 'a) async_fd \<Rightarrow> ('s \<Rightarrow> 's) \<Rightarrow> bool" where
  "guard_documented A clear \<longleftrightarrow> (\<forall>f s. afd_guard_try_io A f s =
     (case f s of
        (Err e, s) \<Rightarrow> if would_block e then (None, clear s) else (Some (Err e), s)
      | (r, s) \<Rightarrow> (Some r, s)))"

text \<open>A reactor that holds the readiness events to come, and the operations' answers with them.\<close>

definition scripted_afd :: "(bool list \<times> 'a res list, 'a) async_fd" where
  "scripted_afd = \<lparr>afd_poll_ready = (\<lambda>_ (es, rs). case es of True # _ \<Rightarrow> (Ready (Ok ()), es, rs) | _ \<Rightarrow> (Pending, es, rs)),
     afd_guard_try_io = (\<lambda>f s. case f s of
        (Err e, es, rs) \<Rightarrow> if would_block e then (None, tl es, rs) else (Some (Err e), es, rs)
      | (r, es, rs) \<Rightarrow> (Some r, es, rs)),
     afd_async_io = (\<lambda>_ f. f), afd_try_io = (\<lambda>_ f. f), afd_ready = (\<lambda>_. io_return ())\<rparr>"

lemma scripted_documented: "guard_documented scripted_afd (\<lambda>(es, rs). (tl es, rs))"
  by (auto simp: guard_documented_def scripted_afd_def split: prod.splits res.splits)

section \<open>Properties\<close>

definition never_would_block :: "'a res poll \<Rightarrow> bool" where
  "never_would_block p \<longleftrightarrow> (case p of Ready (Err e) \<Rightarrow> \<not> would_block e | _ \<Rightarrow> True)"

lemma poll_io_outcome:
  assumes "poll_io A i f s = Some r"
  shows "guard_documented A clear \<Longrightarrow> (\<forall>s e. fst (afd_poll_ready A i s) = Ready (Err e) \<longrightarrow> \<not> would_block e)
    \<Longrightarrow> never_would_block (fst r)"
proof (induction rule: poll_io.raw_induct [OF _ assms])
  case (1 self A i f s r)
  obtain p s1 where p: "afd_poll_ready A i s = (p, s1)" by force
  show ?case
  proof (cases "p = Ready (Ok ())")
    case True
    obtain g s2 where g: "afd_guard_try_io A f s1 = (g, s2)" by force
    have "g = Some (Err e) \<Longrightarrow> \<not> would_block e" for e
      using g "1.prems"(1) by (auto simp: guard_documented_def split: prod.splits res.splits if_splits)
    then show ?thesis using 1 p g True
      by (cases g) (auto simp: never_would_block_def split: res.splits)
  next
    case False
    have "p = Ready (Err e) \<Longrightarrow> \<not> would_block e" for e
      using "1.prems"(2) p by (metis fst_conv)
    then show ?thesis using 1(2) p False
      by (auto simp: never_would_block_def split: poll.splits res.splits)
  qed
qed

text \<open>
  C17. The poll operations never return \<open>WouldBlock\<close>: when the guard behaves as documented and the reactor
  itself does not fail with it, a completed poll is pending, or ready with another outcome.
\<close>

theorem poll_never_would_block:
  assumes "guard_documented A clear" "\<And>s e. fst (afd_poll_ready A i s) = Ready (Err e) \<Longrightarrow> \<not> would_block e"
    and "poll_io A i f s = Some (p, s')"
  shows "p \<noteq> Ready (Err (Custom WouldBlock m)) \<and> p \<noteq> Ready (Err (OsError 11))"
  using poll_io_outcome [OF assms(3,1)] assms(2) by (auto simp: never_would_block_def would_block_def)

text \<open>An operation that answers from a list, and a run that meets one false readiness.\<close>

definition next_answer :: "(bool list \<times> 'a res list, 'a) io" where
  "next_answer = (\<lambda>(es, rs). (hd rs, es, tl rs))"

lemma poll_io_example:
  "poll_io scripted_afd READABLE next_answer ([True, True], [Err (OsError 11), Ok (7 :: nat)])
    = Some (Ready (Ok 7), [True], [])"
  by (subst poll_io.simps, subst poll_io.simps) (simp add: scripted_afd_def next_answer_def would_block_def)

theorem poll_never_would_block_witness:
  "Ready (Ok (7 :: nat)) \<noteq> Ready (Err (Custom WouldBlock [])) \<and> Ready (Ok (7 :: nat)) \<noteq> Ready (Err (OsError 11))"
  by (rule poll_never_would_block [OF scripted_documented _ poll_io_example])
    (auto simp: scripted_afd_def split: list.splits bool.splits)

text \<open>
  A poll returns.  When false readiness uses up a measure of the reactor's state, as it does when each
  readiness is an event the kernel delivered once, the loop ends with a result; nothing is assumed of
  the operation.
\<close>

theorem poll_returns:
  assumes "\<And>s s1 s2. afd_poll_ready A i s = (Ready (Ok ()), s1) \<Longrightarrow> afd_guard_try_io A f s1 = (None, s2) \<Longrightarrow> m s2 < (m s :: nat)"
  shows "\<exists>r. poll_io A i f s = Some r"
proof (induction "m s" arbitrary: s rule: less_induct)
  case less
  obtain p s1 where p: "afd_poll_ready A i s = (p, s1)" by force
  obtain g s2 where g: "afd_guard_try_io A f s1 = (g, s2)" by force
  show ?case
  proof (cases "p = Ready (Ok ()) \<and> g = None")
    case True
    then have "\<exists>r. poll_io A i f s2 = Some r" using assms p g less by blast
    then show ?thesis using True p g by (subst poll_io.simps) simp
  next
    case False
    then show ?thesis using p g
      by (subst poll_io.simps) (auto split: poll.splits res.splits option.splits)
  qed
qed

theorem poll_returns_witness:
  "\<exists>r. poll_io scripted_afd WRITABLE (next_answer :: (bool list \<times> nat res list, nat) io) ([True, True, False], [Err (OsError 11), Err (OsError 11)]) = Some r"
  by (rule poll_returns [where m = "\<lambda>(es, rs). length es"])
    (auto simp: scripted_afd_def next_answer_def split: list.splits bool.splits res.splits if_splits prod.splits)

text \<open>
  The async batch operations are the blocking ones, with one difference: with more than 65535 buffers
  the async \<open>recv_multiple\<close> refuses before it reads, so that no packet is taken from the device.
\<close>

theorem async_batches_eq:
  "async_send_multiple dev g bufs offset send w = send_multiple0 dev g bufs offset send w
    \<and> async_recv_multiple dev original outs sizes offset recv =
      (if outs \<noteq> [] \<and> length outs = length sizes \<and> length outs > 65535 then invalid_input ''too many packet buffers''
       else recv_multiple0 dev original outs sizes offset recv)"
  by (auto simp: async_send_multiple_def send_multiple0_def async_recv_multiple_def recv_multiple0_def)

end
