(* ===== verification/Address.thy ===== *)
theory Address
  imports Base
begin

text \<open>
  Addresses, prefixes and their encodings: the conversion traits of \<open>src/builder.rs\<close> and the socket
  address union of \<open>src/platform/unix/sockaddr.rs\<close>.  An \<open>Ipv4Addr\<close> is its 32-bit value, an \<open>Ipv6Addr\<close> its
  128-bit value.  The parsers \<open>Ipv4Addr::from_str\<close> and \<open>Ipv6Addr::from_str\<close> are arguments.
\<close>

type_synonym Ipv4Addr = "32 word"
type_synonym Ipv6Addr = "128 word"

datatype IpAddr = V4 Ipv4Addr | V6 Ipv6Addr

definition is_ipv4 :: "IpAddr \<Rightarrow> bool" where
  "is_ipv4 ip = (case ip of V4 _ \<Rightarrow> True | V6 _ \<Rightarrow> False)"

definition invalid_data :: "string \<Rightarrow> 'a res" where
  "invalid_data msg = Err (Custom InvalidData msg)"

lemma invalid_data_simps [simp, res_simps]:
  "invalid_data m \<noteq> Ok a" "invalid_data m \<noteq> Panic" "\<not> is_ok (invalid_data m)"
  by (simp_all add: invalid_data_def)

section \<open>Addresses\<close>

text \<open>The types that implement \<open>ToIpv4Address\<close> and \<open>ToIpv6Address\<close>; \<open>String\<close> delegates to \<open>&str\<close>.\<close>

datatype addr4_arg = Ipv4Arg Ipv4Addr | IpArg4 IpAddr | StrArg4 string

datatype addr6_arg = Ipv6Arg Ipv6Addr | IpArg6 IpAddr | StrArg6 string

fun ipv4 :: "(string \<Rightarrow> Ipv4Addr option) \<Rightarrow> addr4_arg \<Rightarrow> Ipv4Addr res" where
  "ipv4 parse (Ipv4Arg ip) = Ok ip"
| "ipv4 parse (IpArg4 (V4 ip)) = Ok ip"
| "ipv4 parse (IpArg4 (V6 _)) = invalid_data ''invalid address''"
| "ipv4 parse (StrArg4 s) = (case parse s of Some ip \<Rightarrow> Ok ip | None \<Rightarrow> invalid_data ''invalid IPv4 str'')"

fun ipv6 :: "(string \<Rightarrow> Ipv6Addr option) \<Rightarrow> addr6_arg \<Rightarrow> Ipv6Addr res" where
  "ipv6 parse (Ipv6Arg ip) = Ok ip"
| "ipv6 parse (IpArg6 (V4 _)) = invalid_data ''invalid address''"
| "ipv6 parse (IpArg6 (V6 ip)) = Ok ip"
| "ipv6 parse (StrArg6 s) = (case parse s of Some ip \<Rightarrow> Ok ip | None \<Rightarrow> invalid_data ''invalid IPv6 str'')"

section \<open>Prefixes and netmasks\<close>

text \<open>\<open>leading_ones\<close> and \<open>count_ones\<close>.\<close>

definition leading_ones :: "'a::len word \<Rightarrow> nat" where
  "leading_ones w = length (takeWhile (\<lambda>i. bit w i) (rev [0..<LENGTH('a)]))"

definition count_ones :: "'a::len word \<Rightarrow> nat" where
  "count_ones w = length (filter (\<lambda>i. bit w i) (rev [0..<LENGTH('a)]))"

text \<open>\<open>MAX.checked_shl(n)\<close>: \<open>None\<close> when the whole word would be shifted out.\<close>

definition checked_shl :: "'a::len word \<Rightarrow> nat \<Rightarrow> 'a word option" where
  "checked_shl w n = (if n < LENGTH('a) then Some (push_bit n w) else None)"

datatype ('a) mask_arg = PrefixArg byte | AddrArg 'a | StrMaskArg string

fun mask_of_addr :: "'a::len word \<Rightarrow> byte res" where
  "mask_of_addr ip = (if leading_ones ip \<noteq> count_ones ip then invalid_data ''invalid netmask''
     else Ok (of_nat (leading_ones ip)))"

fun prefix4 :: "(string \<Rightarrow> Ipv4Addr option) \<Rightarrow> Ipv4Addr mask_arg \<Rightarrow> byte res" where
  "prefix4 parse (PrefixArg p) = (if p > 32 then invalid_data ''invalid IP prefix length'' else Ok p)"
| "prefix4 parse (AddrArg ip) = mask_of_addr ip"
| "prefix4 parse (StrMaskArg s) =
     (case parse s of Some ip \<Rightarrow> mask_of_addr ip | None \<Rightarrow> invalid_data ''invalid netmask str'')"

definition netmask4 :: "(string \<Rightarrow> Ipv4Addr option) \<Rightarrow> Ipv4Addr mask_arg \<Rightarrow> Ipv4Addr res" where
  "netmask4 parse m = bind_res (prefix4 parse m) (\<lambda>p.
     ensure (unat p \<le> 32)
       (Ok (case checked_shl (-1 :: Ipv4Addr) (32 - unat p) of Some w \<Rightarrow> w | None \<Rightarrow> 0)))"

fun prefix6 :: "(string \<Rightarrow> Ipv6Addr option) \<Rightarrow> Ipv6Addr mask_arg \<Rightarrow> byte res" where
  "prefix6 parse (PrefixArg p) = (if p > 128 then invalid_data ''invalid IP prefix length'' else Ok p)"
| "prefix6 parse (AddrArg ip) = mask_of_addr ip"
| "prefix6 parse (StrMaskArg s) =
     (case parse s of Some ip \<Rightarrow> mask_of_addr ip | None \<Rightarrow> invalid_data ''invalid netmask str'')"

definition netmask6 :: "(string \<Rightarrow> Ipv6Addr option) \<Rightarrow> Ipv6Addr mask_arg \<Rightarrow> Ipv6Addr res" where
  "netmask6 parse m = bind_res (prefix6 parse m) (\<lambda>p.
     ensure (unat p \<le> 128)
       (Ok (case checked_shl (-1 :: Ipv6Addr) (128 - unat p) of Some w \<Rightarrow> w | None \<Rightarrow> 0)))"

section \<open>Socket addresses\<close>

datatype SocketAddr = SockV4 Ipv4Addr u16 | SockV6 Ipv6Addr u16 u32 u32

text \<open>\<open>octets\<close> and \<open>Ipv6Addr::from\<close>.\<close>

definition octets6 :: "Ipv6Addr \<Rightarrow> byte list" where
  "octets6 ip = map (\<lambda>i. ucast (drop_bit (8 * i) ip)) (rev [0..<16])"

definition ipv6_from :: "byte list \<Rightarrow> Ipv6Addr" where
  "ipv6_from bs = foldl (\<lambda>w b. push_bit 8 w OR ucast b) 0 bs"

text \<open>
  The layout of the system: on macOS and the BSDs the first byte is the length and the family takes
  one byte, on Linux the family takes two.  The union has the 128 bytes of \<open>sockaddr_storage\<close>.
\<close>

record sa_layout =
  sa_has_len :: bool
  sa_inet6 :: byte

definition SA_INET :: byte where "SA_INET = 2"

definition sa_header :: "sa_layout \<Rightarrow> byte \<Rightarrow> byte \<Rightarrow> byte list" where
  "sa_header L len family = (if sa_has_len L then [len, family] else [family, 0])"

definition sa_family :: "sa_layout \<Rightarrow> byte list \<Rightarrow> u16" where
  "sa_family L sa = (if sa_has_len L then ucast (sa ! 1) else be16 (sa ! 1) (sa ! 0))"

fun rs_addr_to_sockaddr :: "sa_layout \<Rightarrow> SocketAddr \<Rightarrow> byte list" where
  "rs_addr_to_sockaddr L (SockV4 ip port) =
     sa_header L 16 SA_INET @ to_be16 port @ to_be32 ip @ replicate 120 0"
| "rs_addr_to_sockaddr L (SockV6 ip port flow scope) =
     sa_header L 28 (sa_inet6 L) @ to_be16 port @ replicate 4 0 @ octets6 ip @ replicate 104 0"

definition sockaddr_to_rs_addr :: "sa_layout \<Rightarrow> byte list \<Rightarrow> SocketAddr option" where
  "sockaddr_to_rs_addr L sa =
     (if sa_family L sa = ucast SA_INET then Some (SockV4 (read_u32 sa 4) (read_u16 sa 2))
      else if sa_family L sa = ucast (sa_inet6 L) then Some (SockV6 (ipv6_from (subslice 8 24 sa)) (read_u16 sa 2) 0 0)
      else None)"

text \<open>\<open>SocketAddr::try_from\<close>\<close>

definition socket_addr_try_from :: "sa_layout \<Rightarrow> byte list \<Rightarrow> SocketAddr res" where
  "socket_addr_try_from L sa = (case sockaddr_to_rs_addr L sa of Some a \<Rightarrow> Ok a | None \<Rightarrow> invalid_input '''')"

definition socket_addr_new :: "IpAddr \<Rightarrow> u16 \<Rightarrow> SocketAddr" where
  "socket_addr_new ip port = (case ip of V4 a \<Rightarrow> SockV4 a port | V6 a \<Rightarrow> SockV6 a port 0 0)"

fun socket_addr_ip :: "SocketAddr \<Rightarrow> IpAddr" where
  "socket_addr_ip (SockV4 a _) = V4 a"
| "socket_addr_ip (SockV6 a _ _ _) = V6 a"

text \<open>\<open>ipaddr_to_sockaddr\<close> copies the first \<open>n\<close> bytes, at most those of the union, over the target.\<close>

definition ipaddr_to_sockaddr :: "sa_layout \<Rightarrow> IpAddr \<Rightarrow> u16 \<Rightarrow> byte list \<Rightarrow> nat \<Rightarrow> byte list" where
  "ipaddr_to_sockaddr L ip port addr n =
     blit addr 0 (take (min n 128) (rs_addr_to_sockaddr L (socket_addr_new ip port)))"

section \<open>Lemmas\<close>

lemma takeWhile_eq_filter_iff:
  "length (takeWhile P xs) = length (filter P xs) \<longleftrightarrow> (\<forall>x \<in> set (dropWhile P xs). \<not> P x)"
proof -
  have "filter P xs = takeWhile P xs @ filter P (dropWhile P xs)"
    by (metis filter_append filter_True set_takeWhileD takeWhile_dropWhile_id)
  then show ?thesis by (metis append.right_neutral append_eq_conv_conj filter_empty_conv length_append
        length_greater_0_conv less_add_same_cancel1 nat_neq_iff takeWhile_eq_take)
qed

lemma takeWhile_cong_nth:
  assumes "k \<le> length xs" "\<And>j. j < length xs \<Longrightarrow> P (xs ! j) \<longleftrightarrow> j < k"
  shows "length (takeWhile P xs) = k \<and> (\<forall>x \<in> set (dropWhile P xs). \<not> P x)"
proof -
  have "takeWhile P xs = take k xs"
    using assms by (intro takeWhile_eq_take_P_nth) auto
  moreover then have "dropWhile P xs = drop k xs"
    by (metis append_eq_append_conv append_take_drop_id takeWhile_dropWhile_id)
  ultimately show ?thesis using assms by (auto simp: in_set_conv_nth min_def)
qed

text \<open>A netmask: the highest \<open>k\<close> bits are set and no other.\<close>

definition netmask_word :: "nat \<Rightarrow> 'a::len word" where
  "netmask_word k = (case checked_shl (-1) (LENGTH('a) - k) of Some w \<Rightarrow> w | None \<Rightarrow> 0)"

lemma bit_netmask_word:
  "bit (netmask_word k :: 'a::len word) i \<longleftrightarrow> i < LENGTH('a) \<and> LENGTH('a) \<le> i + k"
  by (auto simp: netmask_word_def checked_shl_def bit_simps)

lemma netmask_word_ones:
  assumes "k \<le> LENGTH('a)"
  shows "leading_ones (netmask_word k :: 'a::len word) = k" "count_ones (netmask_word k :: 'a word) = k"
proof -
  have "length (takeWhile (bit (netmask_word k :: 'a word)) (rev [0..<LENGTH('a)])) = k
      \<and> (\<forall>x \<in> set (dropWhile (bit (netmask_word k :: 'a word)) (rev [0..<LENGTH('a)])). \<not> bit (netmask_word k :: 'a word) x)"
    using assms by (intro takeWhile_cong_nth) (auto simp: rev_nth bit_netmask_word)
  then show "leading_ones (netmask_word k :: 'a::len word) = k" "count_ones (netmask_word k :: 'a word) = k"
    by (auto simp: leading_ones_def count_ones_def takeWhile_eq_filter_iff [THEN iffD2] simp flip: takeWhile_eq_filter_iff)
qed

lemma ones_netmask_word:
  assumes "leading_ones (w :: 'a::len word) = count_ones w"
  shows "w = netmask_word (leading_ones w) \<and> leading_ones w \<le> LENGTH('a)"
proof -
  let ?xs = "rev [0..<LENGTH('a)]" and ?k = "leading_ones w"
  have k: "?k \<le> LENGTH('a)"
    unfolding leading_ones_def by (rule order_trans [OF length_takeWhile_le]) simp
  have none: "\<forall>x \<in> set (dropWhile (bit w) ?xs). \<not> bit w x"
    using assms by (simp add: leading_ones_def count_ones_def takeWhile_eq_filter_iff)
  have d: "dropWhile (bit w) ?xs = drop ?k ?xs" "takeWhile (bit w) ?xs = take ?k ?xs"
    unfolding leading_ones_def by (rule dropWhile_eq_drop, rule takeWhile_eq_take)
  have P: "bit w (?xs ! j) \<longleftrightarrow> j < ?k" if "j < LENGTH('a)" for j
  proof (cases "j < ?k")
    case True
    then have "take ?k ?xs ! j \<in> set (take ?k ?xs)"
      using that k by (intro nth_mem) simp
    then have "?xs ! j \<in> set (takeWhile (bit w) ?xs)" using True unfolding d by simp
    then show ?thesis using True by (metis set_takeWhileD)
  next
    case False
    then have "drop ?k ?xs ! (j - ?k) \<in> set (drop ?k ?xs)"
      using that k by (intro nth_mem) simp
    then have "?xs ! j \<in> set (dropWhile (bit w) ?xs)" using False that unfolding d by simp
    then show ?thesis using False none by blast
  qed
  have "bit w i \<longleftrightarrow> LENGTH('a) - 1 - i < ?k" if "i < LENGTH('a)" for i
    using P [of "LENGTH('a) - 1 - i"] that by (simp add: rev_nth)
  then have "w = netmask_word ?k"
    by (intro bit_word_eqI) (auto simp: bit_netmask_word)
  then show ?thesis using k by simp
qed

lemma mask_of_netmask_word:
  "k \<le> LENGTH('a) \<Longrightarrow> mask_of_addr (netmask_word k :: 'a::len word) = Ok (of_nat k)"
  by (simp add: netmask_word_ones)

lemma mask_of_addr_cases:
  fixes w :: "'a::len word"
  obtains k where "k \<le> LENGTH('a)" "w = netmask_word k" "mask_of_addr w = Ok (of_nat k)"
  | "mask_of_addr w = invalid_data ''invalid netmask''" "\<forall>k \<le> LENGTH('a). w \<noteq> netmask_word k"
proof (cases "leading_ones w = count_ones w")
  case True
  then show thesis using ones_netmask_word [OF True] that(1) [of "leading_ones w"] by simp
next
  case False
  then have "\<forall>k \<le> LENGTH('a). w \<noteq> netmask_word k" using netmask_word_ones by metis
  then show thesis using False that(2) by simp
qed

lemma bit_ipv6_from:
  assumes "length bs \<le> 16"
  shows "bit (ipv6_from bs) i \<longleftrightarrow> i < 8 * length bs \<and> bit (bs ! (length bs - 1 - i div 8)) (i mod 8)"
  using assms
proof (induction bs arbitrary: i rule: rev_induct)
  case Nil
  then show ?case by (simp add: ipv6_from_def)
next
  case (snoc b bs)
  have step: "ipv6_from (bs @ [b]) = push_bit 8 (ipv6_from bs) OR ucast b" by (simp add: ipv6_from_def)
  show ?case
  proof (cases "i < 8")
    case True
    then show ?thesis by (simp add: step bit_simps)
  next
    case False
    then have "\<not> bit (ucast b :: Ipv6Addr) i" by (simp add: bit_simps)
    then have L: "bit (ipv6_from (bs @ [b])) i \<longleftrightarrow> i < 128 \<and> bit (ipv6_from bs) (i - 8)"
      using False by (simp add: step bit_simps)
    have IH: "bit (ipv6_from bs) (i - 8) \<longleftrightarrow> i - 8 < 8 * length bs \<and> bit (bs ! (length bs - i div 8)) (i mod 8)"
      using snoc.IH [of "i - 8"] snoc.prems False by (simp add: le_div_geq le_mod_geq)
    show ?thesis
    proof (cases "i < 8 * Suc (length bs)")
      case True
      then have "0 < i div 8" "i div 8 \<le> length bs" using False by (simp_all add: less_mult_imp_div_less less_Suc_eq_le [symmetric])
      then have "length bs - i div 8 < length bs" by linarith
      then have "(bs @ [b]) ! (length bs - i div 8) = bs ! (length bs - i div 8)" by (simp add: nth_append)
      moreover have "i - 8 < 8 * length bs" using True False by arith
      ultimately show ?thesis using True False snoc.prems L IH by simp
    next
      case False
      then show ?thesis using L IH by simp
    qed
  qed
qed

lemma length_octets6 [simp]: "length (octets6 ip) = 16"
  by (simp add: octets6_def)

lemma nth_octets6: "j < 16 \<Longrightarrow> octets6 ip ! j = ucast (drop_bit (8 * (15 - j)) ip)"
proof -
  assume j: "j < 16"
  then have "rev [0..<16] ! j = 15 - j" by (subst rev_nth) auto
  then show ?thesis using j unfolding octets6_def by (subst nth_map) auto
qed

lemma ipv6_from_octets6 [simp]: "ipv6_from (octets6 ip) = ip"
proof (rule bit_word_eqI)
  fix i assume i: "i < LENGTH(128)"
  then have "i div 8 < 16" by simp
  then have "8 * (15 - (15 - i div 8)) + i mod 8 = i" by simp
  then show "bit (ipv6_from (octets6 ip)) i = bit ip i"
    using i by (simp add: bit_ipv6_from nth_octets6 bit_simps)
qed

lemma ipv6_from_inj: "length bs = 16 \<Longrightarrow> octets6 (ipv6_from bs) = bs"
  by (rule nth_equalityI)
    (auto simp: nth_octets6 bit_ipv6_from bit_simps intro!: bit_word_eqI)


text \<open>
  The interface of the netmask traits, at the width \<open>'a\<close>: \<open>prefix\<close> of a number and of an address, and \<open>netmask\<close>
  made from it.  IPv4 and IPv6 are its two instances.
\<close>

locale netmask_trait =
  fixes prefix :: "'a::len word mask_arg \<Rightarrow> byte res"
    and netmask :: "'a word mask_arg \<Rightarrow> 'a word res"
  assumes prefix_number: "prefix (PrefixArg p) = (if LENGTH('a) < unat p then invalid_data ''invalid IP prefix length'' else Ok p)"
    and prefix_addr: "prefix (AddrArg w) = mask_of_addr w"
    and netmask_from_prefix: "netmask m = bind_res (prefix m) (\<lambda>p.
      ensure (unat p \<le> LENGTH('a)) (Ok (netmask_word (unat p))))"
    and width: "LENGTH('a) < 256"
begin

lemma netmask_of_prefix:
  "unat p \<le> LENGTH('a) \<Longrightarrow> netmask (PrefixArg p) = Ok (netmask_word (unat p)) \<and> prefix (AddrArg (netmask_word (unat p))) = Ok p"
  "\<not> unat p \<le> LENGTH('a) \<Longrightarrow> netmask (PrefixArg p) = invalid_data ''invalid IP prefix length''"
  using mask_of_netmask_word [of "unat p", where 'a = 'a]
  by (auto simp: netmask_from_prefix prefix_number prefix_addr invalid_data_def simp del: mask_of_addr.simps)

lemma netmask_of_addr:
  "netmask (AddrArg w) = (if w \<in> netmask_word ` {..LENGTH('a)} then Ok w else invalid_data ''invalid netmask'')"
proof (cases w rule: mask_of_addr_cases)
  case (1 k)
  then have "unat (of_nat k :: byte) = k" using width by (simp add: unat_of_nat take_bit_nat_eq_self_iff)
  then show ?thesis using 1 by (auto simp: netmask_from_prefix prefix_addr simp del: mask_of_addr.simps)
next
  case 2
  then show ?thesis by (auto simp: netmask_from_prefix prefix_addr invalid_data_def simp del: mask_of_addr.simps)
qed

end

interpretation v4: netmask_trait "prefix4 parse" "netmask4 parse" for parse
  by unfold_locales (auto simp: netmask4_def netmask_word_def word_less_nat_alt)

interpretation v6: netmask_trait "prefix6 parse" "netmask6 parse" for parse
  by unfold_locales (auto simp: netmask6_def netmask_word_def word_less_nat_alt)

lemma sa_family_header [simp]: "sa_family L (sa_header L len f @ rest) = ucast f"
  by (simp add: sa_family_def sa_header_def be16_def)

lemma length_sa_header [simp]: "length (sa_header L len f) = 2"
  by (simp add: sa_header_def)

lemma nth_past_header: "2 \<le> i \<Longrightarrow> (sa_header L len f @ rest) ! i = rest ! (i - 2)"
  by (simp add: nth_append)

lemma sockaddr_of_v4: "sockaddr_to_rs_addr L (rs_addr_to_sockaddr L (SockV4 ip port)) = Some (SockV4 ip port)"
  by (simp add: sockaddr_to_rs_addr_def read_u16_def read_u32_def nth_past_header to_be16_def to_be32_def)

lemma sockaddr_of_v6:
  assumes "sa_inet6 L \<noteq> SA_INET"
  shows "sockaddr_to_rs_addr L (rs_addr_to_sockaddr L (SockV6 ip port flow scope)) = Some (SockV6 ip port 0 0)"
proof -
  have "sa_family L (rs_addr_to_sockaddr L (SockV6 ip port flow scope)) = ucast (sa_inet6 L)"
    by (simp del: append_assoc)
  moreover have "(ucast (sa_inet6 L) :: u16) \<noteq> ucast SA_INET"
    using assms by (metis unat_ucast_wider(1) word_unat_eq_iff)
  moreover have "subslice 8 24 (rs_addr_to_sockaddr L (SockV6 ip port flow scope)) = octets6 ip"
    by (simp add: subslice_def to_be16_def numeral_eq_Suc)
  moreover have "read_u16 (rs_addr_to_sockaddr L (SockV6 ip port flow scope)) 2 = port"
    by (simp add: read_u16_def nth_past_header to_be16_def)
  ultimately show ?thesis by (simp add: sockaddr_to_rs_addr_def del: rs_addr_to_sockaddr.simps)
qed

lemma length_rs_addr_to_sockaddr: "length (rs_addr_to_sockaddr L a) = 128"
  by (cases a) (simp_all add: to_be16_def to_be32_def)

lemma length_ipaddr_to_sockaddr:
  "n \<le> length addr \<Longrightarrow> length (ipaddr_to_sockaddr L ip port addr n) = length addr"
  by (simp add: ipaddr_to_sockaddr_def length_rs_addr_to_sockaddr del: rs_addr_to_sockaddr.simps)

section \<open>Properties\<close>

text \<open>
  C18. Prefix lengths and netmasks are two spellings of the same thing, for IPv4 and IPv6.  The netmask of
  a legal prefix length has exactly that many leading ones, and reading it back as a netmask gives the
  prefix; a longer prefix is refused.  An address is taken as a netmask exactly when it is one, and is
  refused otherwise, never cut or rounded.
\<close>

theorem netmask_prefix:
  "(if p \<le> 32 then netmask4 parse4 (PrefixArg p) = Ok (netmask_word (unat p))
      \<and> prefix4 parse4 (AddrArg (netmask_word (unat p))) = Ok p
    else netmask4 parse4 (PrefixArg p) = invalid_data ''invalid IP prefix length'')
   \<and> (if p \<le> 128 then netmask6 parse6 (PrefixArg p) = Ok (netmask_word (unat p))
      \<and> prefix6 parse6 (AddrArg (netmask_word (unat p))) = Ok p
    else netmask6 parse6 (PrefixArg p) = invalid_data ''invalid IP prefix length'')
   \<and> netmask4 parse4 (AddrArg v) = (if v \<in> netmask_word ` {..32} then Ok v else invalid_data ''invalid netmask'')
   \<and> netmask6 parse6 (AddrArg w) = (if w \<in> netmask_word ` {..128} then Ok w else invalid_data ''invalid netmask'')"
  using v4.netmask_of_prefix [of p] v6.netmask_of_prefix [of p] v4.netmask_of_addr [of _ v] v6.netmask_of_addr [of _ w]
  by (auto simp: word_le_nat_alt)

text \<open>
  A socket address survives its C encoding, in both system layouts: address and port come back; the
  flow label and the scope of an IPv6 address are lost.  The encoding fills the union exactly.
\<close>

theorem sockaddr_roundtrip:
  assumes "sa_inet6 L \<noteq> SA_INET"
  shows "length (rs_addr_to_sockaddr L a) = 128
    \<and> socket_addr_try_from L (rs_addr_to_sockaddr L a) =
      Ok (case a of SockV4 ip port \<Rightarrow> SockV4 ip port | SockV6 ip port _ _ \<Rightarrow> SockV6 ip port 0 0)"
  using assms
  by (cases a) (simp_all add: socket_addr_try_from_def sockaddr_of_v4 sockaddr_of_v6 length_rs_addr_to_sockaddr
      del: rs_addr_to_sockaddr.simps)
theorem sockaddr_roundtrip_witness:
  "socket_addr_try_from \<lparr>sa_has_len = True, sa_inet6 = 30\<rparr>
     (rs_addr_to_sockaddr \<lparr>sa_has_len = True, sa_inet6 = 30\<rparr> (SockV6 1 0x0208 7 9)) = Ok (SockV6 1 0x0208 0 0)"
  using sockaddr_roundtrip [of "\<lparr>sa_has_len = True, sa_inet6 = 30\<rparr>" "SockV6 1 0x0208 7 9"]
  by (simp add: SA_INET_def)

text \<open>
  \<open>ipaddr_to_sockaddr\<close> writes inside the \<open>size\<close> bytes it was given and nowhere else, and the C address
  it leaves there is read back as the address and port, whatever was there before: 8 bytes are
  enough for IPv4 and 24 for IPv6.
\<close>

theorem ipaddr_to_sockaddr_spec:
  assumes "sa_inet6 L \<noteq> SA_INET" "n \<le> length addr" "case ip of V4 _ \<Rightarrow> 8 \<le> n | V6 _ \<Rightarrow> 24 \<le> n"
  shows "length (ipaddr_to_sockaddr L ip port addr n) = length addr
    \<and> drop n (ipaddr_to_sockaddr L ip port addr n) = drop n addr
    \<and> sockaddr_to_rs_addr L (ipaddr_to_sockaddr L ip port addr n) = Some (socket_addr_new ip port)"
proof -
  let ?u = "rs_addr_to_sockaddr L (socket_addr_new ip port)"
  let ?r = "ipaddr_to_sockaddr L ip port addr n"
  have u: "length ?u = 128" "sockaddr_to_rs_addr L ?u = Some (socket_addr_new ip port)"
  proof -
    show "length ?u = 128" by (rule length_rs_addr_to_sockaddr)
    show "sockaddr_to_rs_addr L ?u = Some (socket_addr_new ip port)"
      using assms(1) sockaddr_of_v4 sockaddr_of_v6 by (cases ip) (metis IpAddr.case socket_addr_new_def)+
  qed
  have r: "?r = blit addr 0 (take (min n 128) ?u)" by (simp add: ipaddr_to_sockaddr_def)
  have len: "length ?r = length addr" using assms(2) u(1) by (simp add: r)
  have rest: "drop n ?r = drop n addr" using assms(2) u(1) by (simp add: r drop_blit)
  have nth: "?r ! i = ?u ! i" if "i < min n 128" for i
    using that assms(2) u(1) by (simp add: r nth_blit)
  have fam: "sa_family L ?r = sa_family L ?u"
    using nth [of 0] nth [of 1] assms(3) by (auto simp: sa_family_def split: IpAddr.splits)
  have w2: "read_u16 ?r 2 = read_u16 ?u 2"
    using nth [of 2] nth [of 3] assms(3) by (auto simp: read_u16_def split: IpAddr.splits)
  have w4: "read_u32 ?r 4 = read_u32 ?u 4"
    using nth [of 4] nth [of 5] nth [of 6] nth [of 7] assms(3) by (auto simp: read_u32_def split: IpAddr.splits)
  have "sockaddr_to_rs_addr L ?r = sockaddr_to_rs_addr L ?u"
  proof (cases ip)
    case (V4 a)
    then have "sa_family L ?u = ucast SA_INET" by (simp add: socket_addr_new_def)
    then show ?thesis by (simp add: sockaddr_to_rs_addr_def fam w2 w4)
  next
    case (V6 a)
    then have "subslice 8 24 ?r = subslice 8 24 ?u"
      using assms(2,3) u(1) len nth by (intro nth_equalityI) (simp_all add: nth_subslice)
    then show ?thesis by (simp add: sockaddr_to_rs_addr_def fam w2 w4)
  qed
  then show ?thesis using u(2) len rest by simp
qed

theorem ipaddr_to_sockaddr_spec_witness:
  "sockaddr_to_rs_addr \<lparr>sa_has_len = False, sa_inet6 = 10\<rparr>
     (ipaddr_to_sockaddr \<lparr>sa_has_len = False, sa_inet6 = 10\<rparr> (V4 0x0A000021) 0x0208 (replicate 16 0xFF) 16)
   = Some (SockV4 0x0A000021 0x0208)"
  using ipaddr_to_sockaddr_spec [where L = "\<lparr>sa_has_len = False, sa_inet6 = 10\<rparr>" and n = 16 and addr = "replicate 16 0xFF" and ip = "V4 0x0A000021" and port = "0x0208"]
  by (simp add: SA_INET_def socket_addr_new_def)

end
