(* ===== verification/WinFfi.thy ===== *)
theory WinFfi
  imports Effects Address
begin

text \<open>
  The Win32 layer of the Windows device (\<open>src/platform/windows/ffi.rs\<close>): strings as UTF-16, events,
  identifiers of an interface, its MTU, metric, addresses and routes.  The functions of Windows are the
  fields of the record \<open>win_sys\<close>.
\<close>

section \<open>The system\<close>

text \<open>
  A handle or pointer is a number, \<open>0\<close> is NULL.  Each call returns its C result, with what it wrote through
  its out pointers.  A structure keeps the members the code names and the remaining bytes; a \<open>SOCKADDR_INET\<close>
  is its 28 bytes.
\<close>

type_synonym handle = int
type_synonym LUID = u64

record win_guid =
  guid_data1 :: u32
  guid_data2 :: u16
  guid_data3 :: u16
  guid_data4 :: "byte list"

record ipinterface_row =
  ir_Family :: u16
  ir_InterfaceIndex :: u32
  ir_NlMtu :: u32
  ir_Metric :: u32
  ir_UseAutomaticMetric :: bool
  ir_SitePrefixLength :: u32
  ir_rest :: "byte list"

record unicast_row =
  ur_Address :: "byte list"
  ur_InterfaceIndex :: u32
  ur_OnLinkPrefixLength :: byte
  ur_rest :: "byte list"

record forward_row =
  fr_InterfaceIndex :: u32
  fr_Prefix :: "byte list"
  fr_PrefixLength :: byte
  fr_NextHop :: "byte list"
  fr_SitePrefixLength :: byte
  fr_Metric :: u32
  fr_Protocol :: u32
  fr_Origin :: u32
  fr_rest :: "byte list"

text \<open>
  A table comes as its pointer and its rows.  The \<open>Initialize\<close> functions fill in a row; \<open>wi_defaults\<close> are
  the rows of \<open>Default::default()\<close>.
\<close>

record 's win_sys =
  wi_GetLastError :: "'s \<Rightarrow> nat"
  wi_CreateEvent :: "bool \<Rightarrow> bool \<Rightarrow> 's \<Rightarrow> handle \<times> 's"
  wi_SetEvent :: "handle \<Rightarrow> 's \<Rightarrow> nat \<times> 's"
  wi_ResetEvent :: "handle \<Rightarrow> 's \<Rightarrow> nat \<times> 's"
  wi_CloseHandle :: "handle \<Rightarrow> 's \<Rightarrow> 's"
  wi_WaitForSingleObject :: "handle \<Rightarrow> nat \<Rightarrow> 's \<Rightarrow> nat \<times> 's"
  wi_WaitForMultipleObjects :: "handle list \<Rightarrow> nat \<Rightarrow> 's \<Rightarrow> nat \<times> 's"
  wi_StringFromGUID2 :: "win_guid \<Rightarrow> nat \<Rightarrow> 's \<Rightarrow> (nat \<times> u16 list) \<times> 's"
  wi_AliasToLuid :: "u16 list \<Rightarrow> 's \<Rightarrow> (nat \<times> LUID) \<times> 's"
  wi_LuidToIndex :: "LUID \<Rightarrow> 's \<Rightarrow> (nat \<times> u32) \<times> 's"
  wi_LuidToGuid :: "LUID \<Rightarrow> 's \<Rightarrow> (nat \<times> win_guid) \<times> 's"
  wi_LuidToAlias :: "LUID \<Rightarrow> nat \<Rightarrow> 's \<Rightarrow> (nat \<times> u16 list) \<times> 's"
  wi_GetIpInterfaceTable :: "u16 \<Rightarrow> 's \<Rightarrow> (nat \<times> handle \<times> ipinterface_row list) \<times> 's"
  wi_GetUnicastIpAddressTable :: "u16 \<Rightarrow> 's \<Rightarrow> (nat \<times> handle \<times> unicast_row list) \<times> 's"
  wi_GetIpForwardTable2 :: "u16 \<Rightarrow> 's \<Rightarrow> (nat \<times> handle \<times> forward_row list) \<times> 's"
  wi_FreeMibTable :: "handle \<Rightarrow> 's \<Rightarrow> 's"
  wi_GetIpInterfaceEntry :: "ipinterface_row \<Rightarrow> 's \<Rightarrow> (nat \<times> ipinterface_row) \<times> 's"
  wi_SetIpInterfaceEntry :: "ipinterface_row \<Rightarrow> 's \<Rightarrow> nat \<times> 's"
  wi_InitializeUnicastIpAddressEntry :: "unicast_row \<Rightarrow> unicast_row"
  wi_CreateUnicastIpAddressEntry :: "unicast_row \<Rightarrow> 's \<Rightarrow> nat \<times> 's"
  wi_DeleteUnicastIpAddressEntry :: "unicast_row \<Rightarrow> 's \<Rightarrow> nat \<times> 's"
  wi_InitializeIpForwardEntry :: "forward_row \<Rightarrow> forward_row"
  wi_CreateIpForwardEntry2 :: "forward_row \<Rightarrow> 's \<Rightarrow> nat \<times> 's"
  wi_DeleteIpForwardEntry2 :: "forward_row \<Rightarrow> 's \<Rightarrow> nat \<times> 's"
  wi_defaults :: "ipinterface_row \<times> unicast_row \<times> forward_row"

definition win_last_os_error :: "('s, 'x) win_sys_scheme \<Rightarrow> ('s, 'a) io" where
  "win_last_os_error W = (\<lambda>s. (Err (OsError (wi_GetLastError W s)), s))"

definition ERROR_OBJECT_ALREADY_EXISTS :: nat where "ERROR_OBJECT_ALREADY_EXISTS = 5010"
definition WIN_AF_INET :: u16 where "WIN_AF_INET = 2"
definition WIN_AF_INET6 :: u16 where "WIN_AF_INET6 = 23"

section \<open>Strings\<close>

text \<open>
  A \<open>str\<close> is the list of its characters, each a code point; \<open>is_scalar\<close> says which numbers are characters.
  The standard library's \<open>encode_utf16\<close> and \<open>from_utf16_lossy\<close>, which replaces an unpaired surrogate with
  U+FFFD.
\<close>

type_synonym rstr = "nat list"

definition is_scalar :: "nat \<Rightarrow> bool" where
  "is_scalar c \<longleftrightarrow> c < 0xD800 \<or> 0xE000 \<le> c \<and> c < 0x110000"

definition str_of :: "string \<Rightarrow> rstr" where "str_of = map of_char"

definition utf16_units :: "nat \<Rightarrow> u16 list" where
  "utf16_units c = (if c < 0x10000 then [of_nat c]
     else [of_nat (0xD800 + (c - 0x10000) div 0x400), of_nat (0xDC00 + (c - 0x10000) mod 0x400)])"

fun from_utf16_lossy :: "u16 list \<Rightarrow> rstr" where
  "from_utf16_lossy [] = []"
| "from_utf16_lossy (u # us) =
     (if unat u < 0xD800 \<or> 0xE000 \<le> unat u then unat u # from_utf16_lossy us
      else if 0xDC00 \<le> unat u then 0xFFFD # from_utf16_lossy us
      else (case us of
          [] \<Rightarrow> [0xFFFD]
        | v # vs \<Rightarrow> if 0xDC00 \<le> unat v \<and> unat v < 0xE000
            then (0x10000 + (unat u - 0xD800) * 0x400 + (unat v - 0xDC00)) # from_utf16_lossy vs
            else 0xFFFD # from_utf16_lossy us))"

definition encode_utf16 :: "rstr \<Rightarrow> u16 list" where
  "encode_utf16 str = concat (map utf16_units str) @ [0]"

definition decode_utf16 :: "u16 list \<Rightarrow> rstr" where
  "decode_utf16 us = from_utf16_lossy (takeWhile (\<lambda>b. b \<noteq> 0) us)"

section \<open>Events\<close>

definition reset_event :: "('s, 'x) win_sys_scheme \<Rightarrow> handle \<Rightarrow> ('s, unit) io" where
  "reset_event W h = (\<lambda>s. let (r, s) = wi_ResetEvent W h s in if r = 0 then win_last_os_error W s else (Ok (), s))"

definition wait_for_single_object :: "('s, 'x) win_sys_scheme \<Rightarrow> handle \<Rightarrow> nat \<Rightarrow> ('s, unit) io" where
  "wait_for_single_object W h timeout = (\<lambda>s.
     let (r, s) = wi_WaitForSingleObject W h timeout s in if r = 0 then (Ok (), s) else win_last_os_error W s)"

definition set_event :: "('s, 'x) win_sys_scheme \<Rightarrow> handle \<Rightarrow> ('s, unit) io" where
  "set_event W h = (\<lambda>s. let (r, s) = wi_SetEvent W h s in if r = 0 then win_last_os_error W s else (Ok (), s))"

text \<open>A manual-reset event, not signalled.\<close>

definition create_event :: "('s, 'x) win_sys_scheme \<Rightarrow> ('s, handle) io" where
  "create_event W = (\<lambda>s. let (h, s) = wi_CreateEvent W True False s in if h = 0 then win_last_os_error W s else (Ok h, s))"

section \<open>Identifiers\<close>

text \<open>A buffer of zeroes with what a call wrote at its start.\<close>

definition wide_buffer :: "nat \<Rightarrow> u16 list \<Rightarrow> u16 list" where
  "wide_buffer n us = take n us @ replicate (n - length us) 0"

definition string_from_guid :: "('s, 'x) win_sys_scheme \<Rightarrow> win_guid \<Rightarrow> ('s, rstr) io" where
  "string_from_guid W guid = (\<lambda>s.
     let ((r, us), s) = wi_StringFromGUID2 W guid 39 s
     in if r = 0 then win_last_os_error W s else (Ok (decode_utf16 (wide_buffer 39 us)), s))"

definition alias_to_luid :: "('s, 'x) win_sys_scheme \<Rightarrow> rstr \<Rightarrow> ('s, LUID) io" where
  "alias_to_luid W alias = (\<lambda>s.
     let ((r, luid), s) = wi_AliasToLuid W (encode_utf16 alias) s in if r = 0 then (Ok luid, s) else win_last_os_error W s)"

definition luid_to_index :: "('s, 'x) win_sys_scheme \<Rightarrow> LUID \<Rightarrow> ('s, u32) io" where
  "luid_to_index W luid = (\<lambda>s.
     let ((r, index), s) = wi_LuidToIndex W luid s in if r = 0 then (Ok index, s) else win_last_os_error W s)"

definition luid_to_guid :: "('s, 'x) win_sys_scheme \<Rightarrow> LUID \<Rightarrow> ('s, win_guid) io" where
  "luid_to_guid W luid = (\<lambda>s.
     let ((r, guid), s) = wi_LuidToGuid W luid s in if r = 0 then (Ok guid, s) else win_last_os_error W s)"

definition luid_to_alias :: "('s, 'x) win_sys_scheme \<Rightarrow> LUID \<Rightarrow> ('s, rstr) io" where
  "luid_to_alias W luid = (\<lambda>s.
     let ((r, us), s) = wi_LuidToAlias W luid 257 s
     in if r = 0 then (Ok (decode_utf16 (wide_buffer 257 us)), s) else win_last_os_error W s)"

section \<open>MTU and metric\<close>

definition family_of :: "bool \<Rightarrow> u16" where
  "family_of is_v4 = (if is_v4 then WIN_AF_INET else WIN_AF_INET6)"

definition win_result :: "nat \<Rightarrow> unit res" where
  "win_result code = (if code = 0 then Ok () else Err (OsError code))"

definition win_call :: "('s \<Rightarrow> nat \<times> 's) \<Rightarrow> ('s, unit) io" where
  "win_call f = (\<lambda>s. let (code, s) = f s in (win_result code, s))"

definition get_mtu_by_index :: "('s, 'x) win_sys_scheme \<Rightarrow> u32 \<Rightarrow> bool \<Rightarrow> ('s, u32) io" where
  "get_mtu_by_index W index is_v4 = (\<lambda>s.
     let ((code, table, rows), s) = wi_GetIpInterfaceTable W (family_of is_v4) s
     in if code \<noteq> 0 then win_last_os_error W s
        else let s = wi_FreeMibTable W table s
          in case List.find (\<lambda>x. ir_InterfaceIndex x = index) rows of
               Some x \<Rightarrow> (Ok (ir_NlMtu x), s)
             | None \<Rightarrow> (Err (Custom NotFound ''''), s))"

text \<open>\<open>GetIpInterfaceEntry\<close>, an update of the row it gives, \<open>SetIpInterfaceEntry\<close>.\<close>

definition update_interface :: "('s, 'x) win_sys_scheme \<Rightarrow> u32 \<Rightarrow> u16 \<Rightarrow> (ipinterface_row \<Rightarrow> ipinterface_row) \<Rightarrow> ('s, unit) io" where
  "update_interface W index family f = (\<lambda>s.
     let row = (fst (wi_defaults W))\<lparr>ir_Family := family, ir_InterfaceIndex := index\<rparr>;
         ((code, row), s) = wi_GetIpInterfaceEntry W row s
     in if code \<noteq> 0 then (win_result code, s) else win_call (wi_SetIpInterfaceEntry W (f row)) s)"

definition set_interface_metric :: "('s, 'x) win_sys_scheme \<Rightarrow> u32 \<Rightarrow> u32 \<Rightarrow> ('s, unit) io" where
  "set_interface_metric W index metric = io_each
     (\<lambda>family. update_interface W index family
        (\<lambda>row. row\<lparr>ir_Metric := metric, ir_UseAutomaticMetric := False, ir_SitePrefixLength := 0\<rparr>))
     [WIN_AF_INET, WIN_AF_INET6]"

definition set_interface_mtu :: "('s, 'x) win_sys_scheme \<Rightarrow> u32 \<Rightarrow> u32 \<Rightarrow> bool \<Rightarrow> ('s, unit) io" where
  "set_interface_mtu W index mtu is_v4 = update_interface W index (family_of is_v4)
     (\<lambda>row. row\<lparr>ir_NlMtu := mtu, ir_SitePrefixLength := 0\<rparr>)"

section \<open>Addresses and routes\<close>

text \<open>The family at offset 0; an IPv4 address at 4, an IPv6 address at 8.\<close>

fun sockaddr_inet_from_ip :: "IpAddr \<Rightarrow> byte list" where
  "sockaddr_inet_from_ip (V4 v4) = to_le16 WIN_AF_INET @ replicate 2 0 @ to_be32 v4 @ replicate 20 0"
| "sockaddr_inet_from_ip (V6 v6) = to_le16 WIN_AF_INET6 @ replicate 6 0 @ octets6 v6 @ replicate 4 0"

definition unspecified_for :: "IpAddr \<Rightarrow> IpAddr" where
  "unspecified_for gateway = (if is_ipv4 gateway then V4 0 else V6 0)"

definition MIB_IPPROTO_NETMGMT :: u32 where "MIB_IPPROTO_NETMGMT = 3"
definition NlroManual :: u32 where "NlroManual = 0"

definition unicast_entry :: "('s, 'x) win_sys_scheme \<Rightarrow> u32 \<Rightarrow> IpAddr \<Rightarrow> unicast_row" where
  "unicast_entry W index address = (wi_InitializeUnicastIpAddressEntry W (fst (snd (wi_defaults W))))
     \<lparr>ur_InterfaceIndex := index, ur_Address := sockaddr_inet_from_ip address\<rparr>"

definition default_route :: "('s, 'x) win_sys_scheme \<Rightarrow> u32 \<Rightarrow> IpAddr \<Rightarrow> forward_row" where
  "default_route W index gateway = (wi_InitializeIpForwardEntry W (snd (snd (wi_defaults W))))
     \<lparr>fr_InterfaceIndex := index, fr_Prefix := sockaddr_inet_from_ip (unspecified_for gateway), fr_PrefixLength := 0,
      fr_SitePrefixLength := 0, fr_NextHop := sockaddr_inet_from_ip gateway, fr_Metric := 0,
      fr_Protocol := MIB_IPPROTO_NETMGMT, fr_Origin := NlroManual\<rparr>"

text \<open>An entry that exists already is not an error.\<close>

definition create_entry :: "('s \<Rightarrow> nat \<times> 's) \<Rightarrow> ('s, unit) io" where
  "create_entry f = (\<lambda>s. let (code, s) = f s in (if code = ERROR_OBJECT_ALREADY_EXISTS then Ok () else win_result code, s))"

definition win_add_address :: "('s, 'x) win_sys_scheme \<Rightarrow> u32 \<Rightarrow> IpAddr \<Rightarrow> byte \<Rightarrow> IpAddr option \<Rightarrow> ('s, unit) io" where
  "win_add_address W index address len gateway =
     io_then (create_entry (wi_CreateUnicastIpAddressEntry W ((unicast_entry W index address)\<lparr>ur_OnLinkPrefixLength := len\<rparr>)))
       (case gateway of None \<Rightarrow> io_return ()
        | Some gateway \<Rightarrow> create_entry (wi_CreateIpForwardEntry2 W (default_route W index gateway)))"

definition win_remove_address :: "('s, 'x) win_sys_scheme \<Rightarrow> u32 \<Rightarrow> IpAddr \<Rightarrow> ('s, unit) io" where
  "win_remove_address W index address = win_call (wi_DeleteUnicastIpAddressEntry W (unicast_entry W index address))"

definition clear_default_routes :: "('s, 'x) win_sys_scheme \<Rightarrow> u32 \<Rightarrow> bool \<Rightarrow> ('s, unit) io" where
  "clear_default_routes W index is_v4 = (\<lambda>s.
     let ((code, table, rows), s) = wi_GetIpForwardTable2 W (family_of is_v4) s
     in if code \<noteq> 0 then (win_result code, s)
        else io_each (\<lambda>row. win_call (wi_DeleteIpForwardEntry2 W row))
          (filter (\<lambda>row. fr_InterfaceIndex row = index \<and> fr_PrefixLength row = 0) rows) (wi_FreeMibTable W table s))"

definition clear_addresses :: "('s, 'x) win_sys_scheme \<Rightarrow> u32 \<Rightarrow> bool \<Rightarrow> ('s, unit) io" where
  "clear_addresses W index is_v4 = (\<lambda>s.
     let ((code, table, rows), s) = wi_GetUnicastIpAddressTable W (family_of is_v4) s
     in if code \<noteq> 0 then (win_result code, s)
        else io_then (io_each (\<lambda>row. win_call (wi_DeleteUnicastIpAddressEntry W row))
            (filter (\<lambda>row. ur_InterfaceIndex row = index) rows))
          (clear_default_routes W index is_v4) (wi_FreeMibTable W table s))"

definition win_set_address :: "('s, 'x) win_sys_scheme \<Rightarrow> u32 \<Rightarrow> IpAddr \<Rightarrow> byte \<Rightarrow> IpAddr option \<Rightarrow> ('s, unit) io" where
  "win_set_address W index address len gateway =
     io_then (clear_addresses W index (is_ipv4 address)) (win_add_address W index address len gateway)"

end
