(* ===== verification/WinTun.thy ===== *)
theory WinTun
  imports WinFfi
begin

text \<open>
  The TUN device of Windows on the wintun driver (\<open>src/platform/windows/tun/mod.rs\<close>): an adapter, enabled by
  starting a session and disabled by ending it, and the packets of a session, which wintun hands out in its own
  memory.  The library's functions and the clock extend the record of \<open>WinFfi\<close>.
\<close>

section \<open>The library\<close>

text \<open>
  \<open>wt_copy\<close> writes bytes to foreign memory and \<open>wt_read\<close> reads as many as asked for; times are in nanoseconds.
\<close>

record 's wintun = "'s win_sys" +
  wt_load :: "rstr \<Rightarrow> 's \<Rightarrow> bool \<times> 's"
  wt_SetLogger :: "'s \<Rightarrow> 's"
  wt_OpenAdapter :: "u16 list \<Rightarrow> 's \<Rightarrow> handle \<times> 's"
  wt_CreateAdapter :: "u16 list \<Rightarrow> u16 list \<Rightarrow> win_guid option \<Rightarrow> 's \<Rightarrow> handle \<times> 's"
  wt_CloseAdapter :: "handle \<Rightarrow> 's \<Rightarrow> 's"
  wt_DeleteDriver :: "'s \<Rightarrow> 's"
  wt_GetAdapterLUID :: "handle \<Rightarrow> 's \<Rightarrow> LUID \<times> 's"
  wt_GetRunningDriverVersion :: "'s \<Rightarrow> u32 \<times> 's"
  wt_StartSession :: "handle \<Rightarrow> u32 \<Rightarrow> 's \<Rightarrow> handle \<times> 's"
  wt_EndSession :: "handle \<Rightarrow> 's \<Rightarrow> 's"
  wt_GetReadWaitEvent :: "handle \<Rightarrow> 's \<Rightarrow> handle \<times> 's"
  wt_ReceivePacket :: "handle \<Rightarrow> 's \<Rightarrow> (handle \<times> u32) \<times> 's"
  wt_ReleaseReceivePacket :: "handle \<Rightarrow> handle \<Rightarrow> 's \<Rightarrow> 's"
  wt_AllocateSendPacket :: "handle \<Rightarrow> u32 \<Rightarrow> 's \<Rightarrow> handle \<times> 's"
  wt_SendPacket :: "handle \<Rightarrow> handle \<Rightarrow> 's \<Rightarrow> 's"
  wt_copy :: "handle \<Rightarrow> byte list \<Rightarrow> 's \<Rightarrow> 's"
  wt_read :: "handle \<Rightarrow> nat \<Rightarrow> 's \<Rightarrow> byte list"
  wt_now :: "'s \<Rightarrow> nat \<times> 's"
  wt_sleep :: "nat \<Rightarrow> 's \<Rightarrow> 's"
  wt_guid_from_u128 :: "128 word \<Rightarrow> win_guid"

definition MAX_RING_CAPACITY :: u32 where "MAX_RING_CAPACITY = 0x4000000"
definition MIN_RING_CAPACITY :: u32 where "MIN_RING_CAPACITY = 0x20000"
definition MAX_POOL :: nat where "MAX_POOL = 256"

definition ERROR_INVALID_DATA :: nat where "ERROR_INVALID_DATA = 13"
definition ERROR_HANDLE_EOF :: nat where "ERROR_HANDLE_EOF = 38"
definition ERROR_BUFFER_OVERFLOW :: nat where "ERROR_BUFFER_OVERFLOW = 111"
definition ERROR_NO_MORE_ITEMS :: nat where "ERROR_NO_MORE_ITEMS = 259"
definition WAIT_TIMEOUT :: nat where "WAIT_TIMEOUT = 258"
definition WAIT_FAILED :: nat where "WAIT_FAILED = 0xFFFFFFFF"
definition INFINITE :: nat where "INFINITE = 0xFFFFFFFF"

lemmas win_codes = ERROR_INVALID_DATA_def ERROR_HANDLE_EOF_def ERROR_BUFFER_OVERFLOW_def ERROR_NO_MORE_ITEMS_def
  WAIT_TIMEOUT_def WAIT_FAILED_def INFINITE_def

text \<open>The kind of an error; of the system's numbers only 10035 is \<open>WouldBlock\<close>.\<close>

definition win_would_block :: "io_error \<Rightarrow> bool" where
  "win_would_block e \<longleftrightarrow> (case e of Custom k _ \<Rightarrow> k = WouldBlock | OsError c \<Rightarrow> c = 10035)"

section \<open>Sessions\<close>

record WinTunSession =
  ws_handle :: handle
  ws_read_event :: handle

definition disabled_error :: io_error where
  "disabled_error = Custom OtherKind ''The interface has been disabled''"

definition session_drop :: "('s, 'x) wintun_scheme \<Rightarrow> WinTunSession \<Rightarrow> 's \<Rightarrow> 's" where
  "session_drop W ses = wt_EndSession W (ws_handle ses)"

definition session_try_send :: "('s, 'x) wintun_scheme \<Rightarrow> WinTunSession \<Rightarrow> byte list \<Rightarrow> ('s, nat) io" where
  "session_try_send W ses buf =
     (if length buf > 0xFFFFFFFF then io_res (invalid_input ''Buffer too large'')
      else (\<lambda>s. let (bytes, s) = wt_AllocateSendPacket W (ws_handle ses) (of_nat (length buf)) s
        in if bytes = 0 then
             let e = wi_GetLastError W s
             in (Err (if e = ERROR_HANDLE_EOF then Custom WriteZero '''' else if e = ERROR_BUFFER_OVERFLOW then Custom WouldBlock ''''
                  else if e = ERROR_INVALID_DATA then Custom InvalidData '''' else OsError e), s)
           else (Ok (length buf), wt_SendPacket W (ws_handle ses) bytes (wt_copy W bytes buf s))))"

text \<open>The packet's bytes at the start of the buffer, and their number.\<close>

definition session_try_recv :: "('s, 'x) wintun_scheme \<Rightarrow> WinTunSession \<Rightarrow> byte list \<Rightarrow> ('s, nat \<times> byte list) io" where
  "session_try_recv W ses buf = (\<lambda>s.
     let ((p, n), s) = wt_ReceivePacket W (ws_handle ses) s; n = unat n
     in if p = 0 then
          let e = wi_GetLastError W s
          in (Err (if e = ERROR_HANDLE_EOF then Custom UnexpectedEof '''' else if e = ERROR_NO_MORE_ITEMS then Custom WouldBlock ''''
               else OsError e), s)
        else if n > length buf then
          (invalid_input ''destination buffer too small'', wt_ReleaseReceivePacket W (ws_handle ses) p s)
        else (Ok (n, wt_read W p n s @ drop n buf), wt_ReleaseReceivePacket W (ws_handle ses) p s))"

definition wait_readable :: "('s, 'x) wintun_scheme \<Rightarrow> WinTunSession \<Rightarrow> handle \<Rightarrow> ('s, unit) io" where
  "wait_readable W ses inner_event = (\<lambda>s.
     let (r, s) = wi_WaitForMultipleObjects W [ws_read_event ses, inner_event] INFINITE s
     in if r = WAIT_FAILED then win_last_os_error W s
        else if r = 0 then (Ok (), s) else if r = 1 then (Err disabled_error, s) else win_last_os_error W s)"

definition wait_readable_interruptible :: "('s, 'x) wintun_scheme \<Rightarrow> WinTunSession \<Rightarrow> handle \<Rightarrow> handle \<Rightarrow> nat option \<Rightarrow> ('s, unit) io" where
  "wait_readable_interruptible W ses inner_event interrupt_event timeout = (\<lambda>s.
     let (r, s) = wi_WaitForMultipleObjects W [ws_read_event ses, inner_event, interrupt_event]
           (case timeout of None \<Rightarrow> INFINITE | Some t \<Rightarrow> min (t div 1000000) INFINITE) s
     in if r = WAIT_FAILED then win_last_os_error W s
        else if r = WAIT_TIMEOUT then (Err (Custom TimedOut ''''), s)
        else if r = 0 then (Ok (), s) else if r = 1 then (Err disabled_error, s)
        else if r = 2 then (Err (Custom Interrupted ''trigger interrupt''), s) else win_last_os_error W s)"

text \<open>
  \<open>send\<close> waits for room in the ring.  The flag of the adapter is shared with other threads, so that each
  look at it is a look at the state: \<open>load\<close>.
\<close>

definition send_timeout :: nat where "send_timeout = 5 * 10 ^ 9"
definition millisecond :: nat where "millisecond = 10 ^ 6"

definition next_backoff :: "nat \<Rightarrow> nat" where
  "next_backoff backoff = (if backoff = 0 then millisecond else min (backoff * 2) (10 * millisecond))"

definition interrupted :: "('s, 'x) wintun_scheme \<Rightarrow> handle option \<Rightarrow> 's \<Rightarrow> bool \<times> 's" where
  "interrupted W event s = (case event of None \<Rightarrow> (False, s)
     | Some h \<Rightarrow> let (r, s) = wait_for_single_object W h 0 s in (is_ok r, s))"

partial_function (option) send_loop :: "('s, 'x) wintun_scheme \<Rightarrow> ('s \<Rightarrow> bool) \<Rightarrow> WinTunSession \<Rightarrow> byte list \<Rightarrow> handle option
    \<Rightarrow> nat \<Rightarrow> nat \<Rightarrow> 's \<Rightarrow> (nat res \<times> 's) option" where
  "send_loop W load ses buf event start backoff s =
     (case session_try_send W ses buf s of
        (Err e, s) \<Rightarrow>
          if \<not> win_would_block e then Some (Err e, s)
          else if \<not> load s then Some (Err disabled_error, s)
          else (case wt_now W s of (now, s) \<Rightarrow>
            if now - start > send_timeout then Some (Err (Custom TimedOut ''''), s)
            else (case interrupted W event s of (hit, s) \<Rightarrow>
              if hit then Some (Err (Custom Interrupted ''trigger interrupt''), s)
              else send_loop W load ses buf event start (next_backoff backoff)
                     (if backoff = 0 then s else wt_sleep W backoff s)))
      | (r, s) \<Rightarrow> Some (r, s))"

definition session_send :: "('s, 'x) wintun_scheme \<Rightarrow> ('s \<Rightarrow> bool) \<Rightarrow> WinTunSession \<Rightarrow> byte list \<Rightarrow> handle option
    \<Rightarrow> 's \<Rightarrow> (nat res \<times> 's) option" where
  "session_send W load ses buf event s = (case wt_now W s of (start, s) \<Rightarrow> send_loop W load ses buf event start 0 s)"

text \<open>\<open>recv\<close> tries 16 times and then blocks.\<close>

fun recv_tries :: "('s, 'x) wintun_scheme \<Rightarrow> WinTunSession \<Rightarrow> byte list \<Rightarrow> nat \<Rightarrow> 's \<Rightarrow> (nat \<times> byte list) res option \<times> 's" where
  "recv_tries W ses buf 0 s = (None, s)"
| "recv_tries W ses buf (Suc n) s = (case session_try_recv W ses buf s of
      (Err e, s) \<Rightarrow> if win_would_block e then recv_tries W ses buf n s else (Some (Err e), s)
    | (r, s) \<Rightarrow> (Some r, s))"

partial_function (option) session_recv :: "('s, 'x) wintun_scheme \<Rightarrow> WinTunSession \<Rightarrow> handle \<Rightarrow> byte list
    \<Rightarrow> 's \<Rightarrow> ((nat \<times> byte list) res \<times> 's) option" where
  "session_recv W ses inner_event buf s =
     (case recv_tries W ses buf 16 s of
        (Some r, s) \<Rightarrow> Some (r, s)
      | (None, s) \<Rightarrow> (case wait_readable W ses inner_event s of
            (Ok _, s) \<Rightarrow> session_recv W ses inner_event buf s
          | (Err e, s) \<Rightarrow> Some (Err e, s)
          | (Panic, s) \<Rightarrow> Some (Panic, s)))"

section \<open>Adapters\<close>

text \<open>The adapter's fields change, so an operation on it takes and returns it beside the state of the system.\<close>

record WinTunAdapter =
  wa_handle :: handle
  wa_event :: handle
  wa_ring_capacity :: u32
  wa_state :: bool
  wa_session :: "WinTunSession option"
  wa_delete_driver :: bool

type_synonym ('s, 'a) adapter_io = "WinTunAdapter \<Rightarrow> 's \<Rightarrow> 'a res \<times> WinTunAdapter \<times> 's"

definition take_session :: "('s, 'x) wintun_scheme \<Rightarrow> WinTunAdapter \<Rightarrow> 's \<Rightarrow> WinTunAdapter \<times> 's" where
  "take_session W d s = (d\<lparr>wa_session := None\<rparr>, case wa_session d of None \<Rightarrow> s | Some ses \<Rightarrow> session_drop W ses s)"

definition adapter_disable :: "('s, 'x) wintun_scheme \<Rightarrow> ('s, unit) adapter_io" where
  "adapter_disable W d s =
     (if \<not> wa_state d then (Ok (), d, s)
      else let d = d\<lparr>wa_state := False\<rparr>
        in case set_event W (wa_event d) s of
             (Ok _, s) \<Rightarrow> (let (d, s) = take_session W d s; (r, s) = reset_event W (wa_event d) s in (r, d, s))
           | (Err e, s) \<Rightarrow> (Err e, d\<lparr>wa_state := True\<rparr>, s)
           | (Panic, s) \<Rightarrow> (Panic, d, s))"

text \<open>A session that replaces another drops it.\<close>

definition adapter_enable :: "('s, 'x) wintun_scheme \<Rightarrow> ('s, unit) adapter_io" where
  "adapter_enable W d s =
     (if wa_state d then (Ok (), d, s)
      else let (h, s) = wt_StartSession W (wa_handle d) (wa_ring_capacity d) s
        in if h = 0 then (Err (OsError (wi_GetLastError W s)), d, s)
           else let (ev, s) = wt_GetReadWaitEvent W h s
             in if ev = 0 then let s = wt_EndSession W h s in (Err (OsError (wi_GetLastError W s)), d, s)
                else let (d, s) = take_session W d s
                  in (Ok (), d\<lparr>wa_session := Some \<lparr>ws_handle = h, ws_read_event = ev\<rparr>, wa_state := True\<rparr>, s))"

definition adapter_drop :: "('s, 'x) wintun_scheme \<Rightarrow> WinTunAdapter \<Rightarrow> 's \<Rightarrow> 's" where
  "adapter_drop W d s =
     (let (d, s) = take_session W d s; s = wt_CloseAdapter W (wa_handle d) s;
          s = (if wa_delete_driver d then wt_DeleteDriver W s else s)
      in wi_CloseHandle W (wa_event d) s)"

definition with_session :: "WinTunAdapter \<Rightarrow> (WinTunSession \<Rightarrow> 's \<Rightarrow> ('a res \<times> 's) option) \<Rightarrow> 's \<Rightarrow> ('a res \<times> 's) option" where
  "with_session d f s = (case wa_session d of Some ses \<Rightarrow> f ses s | None \<Rightarrow> Some (Err disabled_error, s))"

definition adapter_send :: "('s, 'x) wintun_scheme \<Rightarrow> ('s \<Rightarrow> bool) \<Rightarrow> WinTunAdapter \<Rightarrow> byte list \<Rightarrow> handle option
    \<Rightarrow> 's \<Rightarrow> (nat res \<times> 's) option" where
  "adapter_send W load d buf event = with_session d (\<lambda>ses. session_send W load ses buf event)"

definition adapter_recv :: "('s, 'x) wintun_scheme \<Rightarrow> WinTunAdapter \<Rightarrow> byte list \<Rightarrow> 's \<Rightarrow> ((nat \<times> byte list) res \<times> 's) option" where
  "adapter_recv W d buf = with_session d (\<lambda>ses. session_recv W ses (wa_event d) buf)"

definition adapter_try_send :: "('s, 'x) wintun_scheme \<Rightarrow> WinTunAdapter \<Rightarrow> byte list \<Rightarrow> ('s, nat) io" where
  "adapter_try_send W d buf = (case wa_session d of Some ses \<Rightarrow> session_try_send W ses buf | None \<Rightarrow> io_fail disabled_error)"

definition adapter_try_recv :: "('s, 'x) wintun_scheme \<Rightarrow> WinTunAdapter \<Rightarrow> byte list \<Rightarrow> ('s, nat \<times> byte list) io" where
  "adapter_try_recv W d buf = (case wa_session d of Some ses \<Rightarrow> session_try_recv W ses buf | None \<Rightarrow> io_fail disabled_error)"

definition adapter_wait_readable_interruptible :: "('s, 'x) wintun_scheme \<Rightarrow> WinTunAdapter \<Rightarrow> handle \<Rightarrow> nat option \<Rightarrow> ('s, unit) io" where
  "adapter_wait_readable_interruptible W d interrupt_event timeout = (case wa_session d of
     Some ses \<Rightarrow> wait_readable_interruptible W ses (wa_event d) interrupt_event timeout | None \<Rightarrow> io_fail disabled_error)"

text \<open>The version as \<open>major.minor\<close>.\<close>

fun decimal :: "nat \<Rightarrow> rstr" where
  "decimal n = (if n < 10 then [48 + n] else decimal (n div 10) @ [48 + n mod 10])"

declare decimal.simps [simp del]

definition adapter_version :: "('s, 'x) wintun_scheme \<Rightarrow> ('s, rstr) io" where
  "adapter_version W = (\<lambda>s. let (v, s) = wt_GetRunningDriverVersion W s
     in (Ok (decimal (unat (drop_bit 16 v)) @ [46] @ decimal (unat (v AND 0xFFFF))), s))"

section \<open>Devices\<close>

record TunDevice =
  td_index :: u32
  td_luid :: LUID
  td_adapter :: WinTunAdapter

definition adapter_new :: "handle \<Rightarrow> handle \<Rightarrow> u32 \<Rightarrow> bool \<Rightarrow> WinTunAdapter" where
  "adapter_new adapter event ring_capacity delete_driver =
     \<lparr>wa_handle = adapter, wa_event = event, wa_ring_capacity = ring_capacity, wa_state = False, wa_session = None,
      wa_delete_driver = delete_driver\<rparr>"

text \<open>The library is loaded, the logger set, and the call that opens or creates the adapter made.\<close>

definition load_adapter :: "('s, 'x) wintun_scheme \<Rightarrow> rstr \<Rightarrow> bool \<Rightarrow> ('s \<Rightarrow> handle \<times> 's) \<Rightarrow> ('s, handle) io" where
  "load_adapter W wintun_path wintun_log call = (\<lambda>s.
     let (loaded, s) = wt_load W wintun_path s
     in if \<not> loaded then (err_other '''', s)
        else let s = (if wintun_log then wt_SetLogger W s else s); (adapter, s) = call s
          in if adapter = 0 then win_last_os_error W s else (Ok adapter, s))"

text \<open>From here on the adapter owns the event and is dropped with it.\<close>

definition finish_device :: "('s, 'x) wintun_scheme \<Rightarrow> WinTunAdapter \<Rightarrow> ('s, TunDevice) io" where
  "finish_device W d = (\<lambda>s. let (luid, s) = wt_GetAdapterLUID W (wa_handle d) s
     in io_unless (io_map (\<lambda>index. \<lparr>td_index = index, td_luid = luid, td_adapter = d\<rparr>) (luid_to_index W luid)) (adapter_drop W d) s)"

definition build_device :: "('s, 'x) wintun_scheme \<Rightarrow> rstr \<Rightarrow> u32 \<Rightarrow> bool \<Rightarrow> bool \<Rightarrow> ('s \<Rightarrow> handle \<times> 's) \<Rightarrow> ('s, TunDevice) io" where
  "build_device W wintun_path ring_capacity delete_driver wintun_log call =
     io_bind (create_event W) (\<lambda>event.
     io_bind (io_unless (load_adapter W wintun_path wintun_log call) (wi_CloseHandle W event)) (\<lambda>adapter.
     finish_device W (adapter_new adapter event ring_capacity delete_driver)))"

definition capacity_in_range :: "u32 \<Rightarrow> bool" where
  "capacity_in_range ring_capacity \<longleftrightarrow> MIN_RING_CAPACITY \<le> ring_capacity \<and> ring_capacity \<le> MAX_RING_CAPACITY"

definition wtun_open :: "('s, 'x) wintun_scheme \<Rightarrow> rstr \<Rightarrow> rstr \<Rightarrow> u32 \<Rightarrow> bool \<Rightarrow> bool \<Rightarrow> ('s, TunDevice) io" where
  "wtun_open W wintun_path name ring_capacity delete_driver wintun_log =
     (if \<not> capacity_in_range ring_capacity then io_res (err_other ''ring capacity'')
      else if length (encode_utf16 name) > MAX_POOL then io_res (err_other ''name too long'')
      else build_device W wintun_path ring_capacity delete_driver wintun_log (wt_OpenAdapter W (encode_utf16 name)))"

definition wtun_create :: "('s, 'x) wintun_scheme \<Rightarrow> rstr \<Rightarrow> rstr \<Rightarrow> rstr \<Rightarrow> 128 word option \<Rightarrow> u32 \<Rightarrow> bool \<Rightarrow> bool \<Rightarrow> ('s, TunDevice) io" where
  "wtun_create W wintun_path name description guid ring_capacity delete_driver wintun_log =
     (if \<not> capacity_in_range ring_capacity then io_res (err_other ''ring capacity'')
      else if length (encode_utf16 name) > MAX_POOL then io_res (err_other ''name too long'')
      else if length (encode_utf16 description) > MAX_POOL then io_res (err_other ''tunnel type too long'')
      else build_device W wintun_path ring_capacity delete_driver wintun_log
        (wt_CreateAdapter W (encode_utf16 name) (encode_utf16 description) (map_option (wt_guid_from_u128 W) guid)))"

definition wtun_get_name :: "('s, 'x) wintun_scheme \<Rightarrow> TunDevice \<Rightarrow> ('s, rstr) io" where
  "wtun_get_name W t = luid_to_alias W (td_luid t)"

definition wtun_send :: "('s, 'x) wintun_scheme \<Rightarrow> ('s \<Rightarrow> bool) \<Rightarrow> TunDevice \<Rightarrow> byte list \<Rightarrow> 's \<Rightarrow> (nat res \<times> 's) option" where
  "wtun_send W load t buf = adapter_send W load (td_adapter t) buf None"

definition wtun_send_interruptible :: "('s, 'x) wintun_scheme \<Rightarrow> ('s \<Rightarrow> bool) \<Rightarrow> TunDevice \<Rightarrow> byte list \<Rightarrow> handle
    \<Rightarrow> 's \<Rightarrow> (nat res \<times> 's) option" where
  "wtun_send_interruptible W load t buf interrupt_event = adapter_send W load (td_adapter t) buf (Some interrupt_event)"

definition wtun_wait_readable_interruptible :: "('s, 'x) wintun_scheme \<Rightarrow> TunDevice \<Rightarrow> handle \<Rightarrow> nat option \<Rightarrow> ('s, unit) io" where
  "wtun_wait_readable_interruptible W t = adapter_wait_readable_interruptible W (td_adapter t)"

definition wtun_recv :: "('s, 'x) wintun_scheme \<Rightarrow> TunDevice \<Rightarrow> byte list \<Rightarrow> 's \<Rightarrow> ((nat \<times> byte list) res \<times> 's) option" where
  "wtun_recv W t = adapter_recv W (td_adapter t)"

definition wtun_try_send :: "('s, 'x) wintun_scheme \<Rightarrow> TunDevice \<Rightarrow> byte list \<Rightarrow> ('s, nat) io" where
  "wtun_try_send W t = adapter_try_send W (td_adapter t)"

definition wtun_try_recv :: "('s, 'x) wintun_scheme \<Rightarrow> TunDevice \<Rightarrow> byte list \<Rightarrow> ('s, nat \<times> byte list) io" where
  "wtun_try_recv W t = adapter_try_recv W (td_adapter t)"

definition on_adapter :: "('s, unit) adapter_io \<Rightarrow> TunDevice \<Rightarrow> 's \<Rightarrow> unit res \<times> TunDevice \<times> 's" where
  "on_adapter f t s = (let (r, d, s) = f (td_adapter t) s in (r, t\<lparr>td_adapter := d\<rparr>, s))"

definition wtun_shutdown :: "('s, 'x) wintun_scheme \<Rightarrow> TunDevice \<Rightarrow> 's \<Rightarrow> unit res \<times> TunDevice \<times> 's" where
  "wtun_shutdown W = on_adapter (adapter_disable W)"

definition wtun_version :: "('s, 'x) wintun_scheme \<Rightarrow> ('s, rstr) io" where
  "wtun_version W = adapter_version W"

definition wtun_enabled :: "('s, 'x) wintun_scheme \<Rightarrow> TunDevice \<Rightarrow> bool \<Rightarrow> 's \<Rightarrow> unit res \<times> TunDevice \<times> 's" where
  "wtun_enabled W t value = on_adapter (if value then adapter_enable W else adapter_disable W) t"

end
