(* ===== verification/WinAdapter.thy ===== *)
theory WinAdapter
  imports WinTun
begin

text \<open>
  Finding an adapter that a process left behind (\<open>src/platform/windows/tun/adapter.rs\<close>,
  \<open>src/platform/windows/tun/adapter_win7.rs\<close>): the network devices of wintun are enumerated by an index and one
  with the name and a problem, on Windows 7 one whose process is gone, is looked for.
\<close>

section \<open>The setup functions\<close>

text \<open>
  A device is its \<open>SP_DEVINFO_DATA\<close>, of which the code reads \<open>DevInst\<close>.  A property comes with its type, its bytes
  and the size they need.
\<close>

record devinfo =
  di_DevInst :: u32
  di_rest :: "byte list"

datatype devpkey = DEVPKEY_Wintun_Name | DEVPKEY_Wintun_OwningProcess

record FILETIME =
  dwLowDateTime :: u32
  dwHighDateTime :: u32

record 's setup_sys = "'s wintun" +
  sd_GetVersionEx :: "'s \<Rightarrow> (nat \<times> u32 \<times> u32) \<times> 's"
  sd_GetClassDevsEx :: "win_guid \<Rightarrow> u16 list \<Rightarrow> 's \<Rightarrow> int \<times> 's"
  sd_EnumDeviceInfo :: "int \<Rightarrow> u32 \<Rightarrow> 's \<Rightarrow> (nat \<times> devinfo) \<times> 's"
  sd_DestroyDeviceInfoList :: "int \<Rightarrow> 's \<Rightarrow> nat \<times> 's"
  sd_DevNodeStatus :: "u32 \<Rightarrow> 's \<Rightarrow> (nat \<times> u32) \<times> 's"
  sd_GetDeviceProperty :: "int \<Rightarrow> devinfo \<Rightarrow> devpkey \<Rightarrow> nat \<Rightarrow> 's \<Rightarrow> (nat \<times> u32 \<times> byte list \<times> u32) \<times> 's"
  sd_OpenProcess :: "u32 \<Rightarrow> 's \<Rightarrow> handle \<times> 's"
  sd_GetProcessTimes :: "handle \<Rightarrow> 's \<Rightarrow> (nat \<times> FILETIME) \<times> 's"

definition DN_HAS_PROBLEM :: u32 where "DN_HAS_PROBLEM = 0x400"
definition ERROR_INSUFFICIENT_BUFFER :: nat where "ERROR_INSUFFICIENT_BUFFER = 122"
definition DEVPROP_TYPE_BINARY :: u32 where "DEVPROP_TYPE_BINARY = 0x1003"

definition GUID_NETWORK_ADAPTER :: win_guid where
  "GUID_NETWORK_ADAPTER = \<lparr>guid_data1 = 0x4d36e972, guid_data2 = 0xe325, guid_data3 = 0x11ce,
     guid_data4 = [0xbf, 0xc1, 0x08, 0x00, 0x2b, 0xe1, 0x03, 0x18]\<rparr>"

text \<open>\<open>None\<close> at the end of the list.\<close>

definition enum_device_info :: "('s, 'x) setup_sys_scheme \<Rightarrow> int \<Rightarrow> u32 \<Rightarrow> 's \<Rightarrow> devinfo res option \<times> 's" where
  "enum_device_info W devs member_index s =
     (let ((r, data), s) = sd_EnumDeviceInfo W devs member_index s
      in if r \<noteq> 0 then (Some (Ok data), s)
         else if wi_GetLastError W s = ERROR_NO_MORE_ITEMS then (None, s) else (Some (Err (OsError (wi_GetLastError W s))), s))"

definition destroy_device_info_list :: "('s, 'x) setup_sys_scheme \<Rightarrow> int \<Rightarrow> ('s, unit) io" where
  "destroy_device_info_list W devs = (\<lambda>s.
     let (r, s) = sd_DestroyDeviceInfoList W devs s in if r = 0 then win_last_os_error W s else (Ok (), s))"

section \<open>Looking at a device\<close>

definition dev_node_status :: "('s, 'x) setup_sys_scheme \<Rightarrow> devinfo \<Rightarrow> ('s, u32) io" where
  "dev_node_status W data = (\<lambda>s.
     let ((cr, status), s) = sd_DevNodeStatus W (di_DevInst data) s in if cr \<noteq> 0 then win_last_os_error W s else (Ok status, s))"

text \<open>The bytes of a buffer as 16-bit units.\<close>

fun units_of :: "byte list \<Rightarrow> u16 list" where
  "units_of (a # b # bs) = be16 b a # units_of bs"
| "units_of _ = []"

definition get_device_name :: "('s, 'x) setup_sys_scheme \<Rightarrow> int \<Rightarrow> devinfo \<Rightarrow> ('s, rstr) io" where
  "get_device_name W devs data = (\<lambda>s.
     let ((ok, _, _, required), s) = sd_GetDeviceProperty W devs data DEVPKEY_Wintun_Name 0 s
     in if ok = 0 \<and> wi_GetLastError W s \<noteq> ERROR_INSUFFICIENT_BUFFER then win_last_os_error W s
        else let ((ok, _, bytes, _), s) = sd_GetDeviceProperty W devs data DEVPKEY_Wintun_Name (unat required) s
          in if ok = 0 then win_last_os_error W s
             else (Ok (decode_utf16 (wide_buffer (unat required div 2) (units_of bytes))), s))"

definition is_windows_seven :: "('s, 'x) setup_sys_scheme \<Rightarrow> 's \<Rightarrow> bool \<times> 's" where
  "is_windows_seven W s = (let ((r, major, minor), s) = sd_GetVersionEx W s in (r \<noteq> 0 \<and> major = 6 \<and> minor = 1, s))"

section \<open>The search\<close>

text \<open>A device that cannot be enumerated is tried again at the same index.\<close>

partial_function (option) scan_devices :: "('s, 'x) setup_sys_scheme \<Rightarrow> int \<Rightarrow> rstr \<Rightarrow> u32 \<Rightarrow> 's \<Rightarrow> (bool \<times> 's) option" where
  "scan_devices W devs adapter_name index s =
     (case enum_device_info W devs index s of
        (None, s) \<Rightarrow> Some (False, s)
      | (Some (Ok data), s) \<Rightarrow> (case dev_node_status W data s of
            (Ok status, s) \<Rightarrow>
              if status AND DN_HAS_PROBLEM = 0 then scan_devices W devs adapter_name (index + 1) s
              else (case get_device_name W devs data s of
                  (Ok name, s) \<Rightarrow> if adapter_name = name then Some (True, s) else scan_devices W devs adapter_name (index + 1) s
                | (_, s) \<Rightarrow> scan_devices W devs adapter_name (index + 1) s)
          | (_, s) \<Rightarrow> scan_devices W devs adapter_name (index + 1) s)
      | (_, s) \<Rightarrow> scan_devices W devs adapter_name index s)"

record OwningProcess =
  op_process_id :: u32
  op_creation_time :: FILETIME

text \<open>The property's bytes: the process and its creation time, little-endian, in a buffer of twelve bytes.\<close>

definition owning_process_of :: "byte list \<Rightarrow> OwningProcess" where
  "owning_process_of bytes = (let buf = blit (replicate 12 0) 0 (take 12 bytes)
     in \<lparr>op_process_id = get_le32 buf,
         op_creation_time = \<lparr>dwLowDateTime = get_le32 (drop 4 buf), dwHighDateTime = get_le32 (drop 8 buf)\<rparr>\<rparr>)"

definition process_is_stale :: "('s, 'x) setup_sys_scheme \<Rightarrow> OwningProcess \<Rightarrow> 's \<Rightarrow> bool \<times> 's" where
  "process_is_stale W p s =
     (let (process, s) = sd_OpenProcess W (op_process_id p) s
      in if process = 0 then (True, s)
         else let ((ret, creation_time), s) = sd_GetProcessTimes W process s; s = wi_CloseHandle W process s
           in if ret = 0 then (False, s)
              else (dwHighDateTime creation_time = dwHighDateTime (op_creation_time p)
                  \<and> dwLowDateTime creation_time = dwLowDateTime (op_creation_time p), s))"

definition owner_alive :: "('s, 'x) setup_sys_scheme \<Rightarrow> int \<Rightarrow> devinfo \<Rightarrow> 's \<Rightarrow> bool \<times> 's" where
  "owner_alive W devs data s =
     (let ((ok, ptype, bytes, _), s) = sd_GetDeviceProperty W devs data DEVPKEY_Wintun_OwningProcess 12 s
      in if ok \<noteq> 0 \<and> ptype = DEVPROP_TYPE_BINARY then
           let (stale, s) = process_is_stale W (owning_process_of bytes) s in (\<not> stale, s)
         else (False, s))"

partial_function (option) scan_devices_win7 :: "('s, 'x) setup_sys_scheme \<Rightarrow> int \<Rightarrow> rstr \<Rightarrow> u32 \<Rightarrow> 's \<Rightarrow> (bool \<times> 's) option" where
  "scan_devices_win7 W devs adapter_name index s =
     (case enum_device_info W devs index s of
        (None, s) \<Rightarrow> Some (False, s)
      | (Some (Ok data), s) \<Rightarrow> (case owner_alive W devs data s of (alive, s) \<Rightarrow>
            if alive then scan_devices_win7 W devs adapter_name index s
            else (case get_device_name W devs data s of
                (Ok name, s) \<Rightarrow> if adapter_name = name then Some (True, s) else scan_devices_win7 W devs adapter_name (index + 1) s
              | (_, s) \<Rightarrow> scan_devices_win7 W devs adapter_name (index + 1) s))
      | (_, s) \<Rightarrow> scan_devices_win7 W devs adapter_name index s)"

text \<open>Both searches open the list of devices and destroy it at the end.\<close>

definition check_with :: "('s, 'x) setup_sys_scheme \<Rightarrow> string \<Rightarrow> (int \<Rightarrow> 's \<Rightarrow> (bool \<times> 's) option) \<Rightarrow> 's \<Rightarrow> (bool \<times> 's) option" where
  "check_with W enumerator scan s =
     (case sd_GetClassDevsEx W GUID_NETWORK_ADAPTER (encode_utf16 (str_of enumerator)) s of (devs, s) \<Rightarrow>
        if devs = -1 then Some (False, s)
        else map_option (\<lambda>(orphaned, s). (orphaned, snd (destroy_device_info_list W devs s))) (scan devs s))"

definition check_adapter_if_orphaned_devices_win7 :: "('s, 'x) setup_sys_scheme \<Rightarrow> rstr \<Rightarrow> 's \<Rightarrow> (bool \<times> 's) option" where
  "check_adapter_if_orphaned_devices_win7 W adapter_name =
     check_with W (''ROOT'' @ [CHR 0x5C] @ ''Wintun'') (\<lambda>devs. scan_devices_win7 W devs adapter_name 0)"

definition check_adapter_if_orphaned_devices :: "('s, 'x) setup_sys_scheme \<Rightarrow> rstr \<Rightarrow> 's \<Rightarrow> (bool \<times> 's) option" where
  "check_adapter_if_orphaned_devices W adapter_name s =
     (case is_windows_seven W s of (seven, s) \<Rightarrow>
        if seven then check_adapter_if_orphaned_devices_win7 W adapter_name s
        else check_with W (''SWD'' @ [CHR 0x5C] @ ''Wintun'') (\<lambda>devs. scan_devices W devs adapter_name 0) s)"

end
