(* ===== verification/LinuxNet.thy ===== *)
theory LinuxNet
  imports UnixFd Address
begin

text \<open>
  What the Linux device asks of the system (\<open>src/platform/linux/sys.rs\<close>, \<open>src/platform/unix/device.rs\<close>):
  the control sockets, the requests of the netdevice interface with their \<open>ifreq\<close>, names as C strings.
  The kernel is the record \<open>lin_sys\<close>, which extends the system calls of \<open>UnixFd\<close>.
\<close>

section \<open>The system\<close>

text \<open>The third argument of \<open>ioctl\<close>: a pointer to some bytes, or a number.\<close>

datatype ioctl_arg = Ptr "byte list" | Val nat

text \<open>
  \<open>ioctl\<close> returns its C result and what it left behind the pointer.  The functions of the crates
  \<open>netconfig_rs\<close>, \<open>getifaddrs\<close> and \<open>ipnet\<close> are fields like the system calls are; an \<open>IpNet\<close> is an address
  with a prefix length, an entry of \<open>getifaddrs\<close> has the name, the address and the netmask.
\<close>

type_synonym IpNet = "IpAddr \<times> byte"

record if_entry =
  ife_name :: "byte list"
  ife_addr :: "IpAddr option"
  ife_netmask :: "IpAddr option"

record 's lin_sys = "'s fd_sys" +
  lk_socket :: "nat \<Rightarrow> 's \<Rightarrow> int \<times> 's"
  lk_ioctl :: "int \<Rightarrow> nat \<Rightarrow> ioctl_arg \<Rightarrow> 's \<Rightarrow> (int \<times> byte list) \<times> 's"
  lk_exists :: "('s, bool) io"
  lk_create_dir_all :: "('s, unit) io"
  lk_mknod :: "'s \<Rightarrow> int \<times> 's"
  lk_open_tun :: "'s \<Rightarrow> int \<times> 's"
  lk_if_nametoindex :: "byte list \<Rightarrow> 's \<Rightarrow> u32 \<times> 's"
  lk_interface_from_index :: "u32 \<Rightarrow> ('s, nat) io"
  lk_interface_addresses :: "nat \<Rightarrow> ('s, IpNet list) io"
  lk_interface_add_address :: "nat \<Rightarrow> IpNet \<Rightarrow> ('s, unit) io"
  lk_interface_remove_address :: "nat \<Rightarrow> IpNet \<Rightarrow> ('s, unit) io"
  lk_ipnet_new_assert :: "IpAddr \<Rightarrow> byte \<Rightarrow> IpNet res"
  lk_ip_mask_to_prefix :: "IpAddr \<Rightarrow> byte option"
  lk_getifaddrs :: "('s, if_entry list) io"

text \<open>\<open>ctl\<close> and \<open>ctl_v6\<close>, with the scope the returned descriptor lives in.\<close>

definition SOCK_INET :: nat where "SOCK_INET = 2"
definition SOCK_INET6 :: nat where "SOCK_INET6 = 10"

definition socket_fd :: "('s, 'x) lin_sys_scheme \<Rightarrow> nat \<Rightarrow> ('s, Fd) io" where
  "socket_fd K domain = (\<lambda>s. let (v, s) = lk_socket K domain s in Fd_new (fd_sys.truncate K) v s)"

definition drop_fd :: "('s, 'x) lin_sys_scheme \<Rightarrow> Fd \<Rightarrow> 's \<Rightarrow> 's" where
  "drop_fd K fd s = snd (Fd_drop (fd_sys.truncate K) fd s)"

definition with_ctl :: "('s, 'x) lin_sys_scheme \<Rightarrow> (int \<Rightarrow> ('s, 'a) io) \<Rightarrow> ('s, 'a) io" where
  "with_ctl K body = io_bind (socket_fd K SOCK_INET) (\<lambda>fd. io_scope (body (fd_inner fd)) (drop_fd K fd))"

definition with_ctl_v6 :: "('s, 'x) lin_sys_scheme \<Rightarrow> (int \<Rightarrow> ('s, 'a) io) \<Rightarrow> ('s, 'a) io" where
  "with_ctl_v6 K body = io_bind (socket_fd K SOCK_INET6) (\<lambda>fd. io_scope (body (fd_inner fd)) (drop_fd K fd))"

section \<open>C strings\<close>

text \<open>\<open>CString::new\<close>: the bytes, which must not contain a NUL; the terminating NUL is not kept here.\<close>

definition cstring_new :: "byte list \<Rightarrow> byte list res" where
  "cstring_new v = (if 0 \<in> set v then invalid_input ''nul byte found in provided data'' else Ok v)"

text \<open>
  \<open>to_string_lossy\<close>: the valid UTF-8 sequences are kept, each maximal prefix of one that goes no further
  is replaced by U+FFFD.
\<close>

definition utf8_width :: "byte \<Rightarrow> nat" where
  "utf8_width b = (if b < 0x80 then 1 else if 0xC2 \<le> b \<and> b \<le> 0xDF then 2 else if 0xE0 \<le> b \<and> b \<le> 0xEF then 3
     else if 0xF0 \<le> b \<and> b \<le> 0xF4 then 4 else 0)"

definition utf8_cont :: "byte \<Rightarrow> bool" where
  "utf8_cont b \<longleftrightarrow> 0x80 \<le> b \<and> b \<le> 0xBF"

definition utf8_second :: "byte \<Rightarrow> byte \<Rightarrow> bool" where
  "utf8_second b c \<longleftrightarrow> (if b = 0xE0 then 0xA0 \<le> c \<and> c \<le> 0xBF else if b = 0xED then 0x80 \<le> c \<and> c \<le> 0x9F
     else if b = 0xF0 then 0x90 \<le> c \<and> c \<le> 0xBF else if b = 0xF4 then 0x80 \<le> c \<and> c \<le> 0x8F else utf8_cont c)"

definition utf8_run :: "byte \<Rightarrow> byte list \<Rightarrow> nat" where
  "utf8_run b bs = (case bs of [] \<Rightarrow> 0
     | c # cs \<Rightarrow> if utf8_width b < 2 \<or> \<not> utf8_second b c then 0
                else 1 + length (takeWhile utf8_cont (take (utf8_width b - 2) cs)))"

function utf8_lossy :: "byte list \<Rightarrow> byte list" where
  "utf8_lossy [] = []"
| "utf8_lossy (b # bs) =
     (let k = utf8_run b bs
      in (if utf8_width b = k + 1 then b # take k bs else [0xEF, 0xBF, 0xBD]) @ utf8_lossy (drop k bs))"
  by pat_completeness auto

termination by (relation "measure length") auto

section \<open>Interface requests\<close>

text \<open>
  \<open>ifreq\<close>: the name in 16 bytes and the union in 24, read at the types of its members on a little-endian
  machine.  \<open>OVERWRITE_SIZE\<close> is the size of the union.
\<close>

record ifreq =
  ifr_name :: "byte list"
  ifr_ifru :: "byte list"

definition IFNAMSIZ :: nat where "IFNAMSIZ = 16"
definition OVERWRITE_SIZE :: nat where "OVERWRITE_SIZE = 24"

definition ifreq_zeroed :: ifreq where
  "ifreq_zeroed = \<lparr>ifr_name = replicate IFNAMSIZ 0, ifr_ifru = replicate OVERWRITE_SIZE 0\<rparr>"

definition ifreq_bytes :: "ifreq \<Rightarrow> byte list" where
  "ifreq_bytes r = ifr_name r @ ifr_ifru r"

definition ifreq_of :: "byte list \<Rightarrow> ifreq" where
  "ifreq_of bs = \<lparr>ifr_name = take IFNAMSIZ bs, ifr_ifru = drop IFNAMSIZ bs\<rparr>"

definition set_ifru :: "byte list \<Rightarrow> ifreq \<Rightarrow> ifreq" where
  "set_ifru bs r = r\<lparr>ifr_ifru := blit (ifr_ifru r) 0 bs\<rparr>"

text \<open>
  The calls of \<open>nix\<close>'s macros: \<open>-1\<close> is turned into the error number.  A reading request gives the \<open>ifreq\<close>
  the kernel filled in.
\<close>

definition ioctl :: "('s, 'x) lin_sys_scheme \<Rightarrow> nat \<Rightarrow> int \<Rightarrow> ioctl_arg \<Rightarrow> ('s, byte list) io" where
  "ioctl K request fd a = (\<lambda>s.
     let ((r, out), s) = lk_ioctl K fd request a s
     in if r = -1 then (Err (OsError (sys_errno K s)), s) else (Ok out, s))"

definition ioctl_read :: "('s, 'x) lin_sys_scheme \<Rightarrow> nat \<Rightarrow> int \<Rightarrow> ifreq \<Rightarrow> ('s, ifreq) io" where
  "ioctl_read K request fd r = io_map ifreq_of (ioctl K request fd (Ptr (ifreq_bytes r)))"

definition ioctl_write :: "('s, 'x) lin_sys_scheme \<Rightarrow> nat \<Rightarrow> int \<Rightarrow> ioctl_arg \<Rightarrow> ('s, unit) io" where
  "ioctl_write K request fd a = io_map (\<lambda>_. ()) (ioctl K request fd a)"

definition siocgifflags where "siocgifflags K = ioctl_read K 0x8913"
definition siocsifflags where "siocsifflags K fd r = ioctl_write K 0x8914 fd (Ptr (ifreq_bytes r))"
definition siocsifaddr where "siocsifaddr K fd r = ioctl_write K 0x8916 fd (Ptr (ifreq_bytes r))"
definition siocsifaddr_in6 where "siocsifaddr_in6 K fd bs = ioctl_write K 0x8916 fd (Ptr bs)"
definition siocdifaddr_in6 where "siocdifaddr_in6 K fd bs = ioctl_write K 0x8936 fd (Ptr bs)"
definition siocsifdstaddr where "siocsifdstaddr K fd r = ioctl_write K 0x8918 fd (Ptr (ifreq_bytes r))"
definition siocgifbrdaddr where "siocgifbrdaddr K = ioctl_read K 0x8919"
definition siocsifbrdaddr where "siocsifbrdaddr K fd r = ioctl_write K 0x891a fd (Ptr (ifreq_bytes r))"
definition siocsifnetmask where "siocsifnetmask K fd r = ioctl_write K 0x891c fd (Ptr (ifreq_bytes r))"
definition siocgifmtu where "siocgifmtu K = ioctl_read K 0x8921"
definition siocsifmtu where "siocsifmtu K fd r = ioctl_write K 0x8922 fd (Ptr (ifreq_bytes r))"
definition siocsifname where "siocsifname K fd r = ioctl_write K 0x8923 fd (Ptr (ifreq_bytes r))"
definition siocgifhwaddr where "siocgifhwaddr K = ioctl_read K 0x8927"
definition siocsifhwaddr where "siocsifhwaddr K fd r = ioctl_write K 0x8924 fd (Ptr (ifreq_bytes r))"
definition get_tx_queue_len where "get_tx_queue_len K = ioctl_read K 0x8942"
definition change_tx_queue_len where "change_tx_queue_len K fd r = ioctl_write K 0x8943 fd (Ptr (ifreq_bytes r))"

text \<open>\<open>ioctl_read!\<close> and \<open>ioctl_write_ptr!\<close> encode direction, size, group and number in the request.\<close>

definition ior :: "nat \<Rightarrow> nat" where "ior nr = 0x80045400 + nr"
definition iow :: "nat \<Rightarrow> nat" where "iow nr = 0x40045400 + nr"

definition tungetiff where "tungetiff K = ioctl_read K (ior 210)"
definition tunsetiff where "tunsetiff K fd r = ioctl_read K (iow 202) fd r"
definition tunsetpersist where "tunsetpersist K fd a = ioctl_write K (iow 203) fd a"
definition tunsetowner where "tunsetowner K fd a = ioctl_write K (iow 204) fd a"
definition tunsetgroup where "tunsetgroup K fd a = ioctl_write K (iow 206) fd a"
definition tunsetoffload where "tunsetoffload K fd a = ioctl_write K (iow 208) fd a"

lemmas request_defs =
  siocgifflags_def siocsifflags_def siocsifaddr_def siocsifaddr_in6_def siocdifaddr_in6_def siocsifdstaddr_def
  siocgifbrdaddr_def siocsifbrdaddr_def siocsifnetmask_def siocgifmtu_def siocsifmtu_def siocsifname_def
  siocgifhwaddr_def siocsifhwaddr_def get_tx_queue_len_def change_tx_queue_len_def
  tungetiff_def tunsetiff_def tunsetpersist_def tunsetowner_def tunsetgroup_def tunsetoffload_def

end
