(* ===== verification/LinuxConfig.thy ===== *)
theory LinuxConfig
  imports LinuxNet VirtioIo
begin

text \<open>
  The Linux device (\<open>src/platform/linux/device.rs\<close>): creation and the configuration of its interface.
  Every public operation holds \<open>op_lock\<close> from its first statement to its last, so operations of one
  device run one at a time; the lock itself is not in the model.  Copying a name past the end of an
  \<open>ifreq\<close> field is undefined behaviour; it shows as \<open>Panic\<close>.
\<close>

section \<open>The device\<close>

record LinuxDevice = DeviceImpl +
  dev_fd :: Fd

record DeviceConfig =
  cfg_dev_name :: "byte list option"
  cfg_packet_information :: "bool option"
  cfg_offload :: "bool option"

definition IFF_TUN :: u16 where "IFF_TUN = 0x0001"
definition IFF_NO_PI :: u16 where "IFF_NO_PI = 0x1000"
definition IFF_VNET_HDR :: u16 where "IFF_VNET_HDR = 0x4000"
definition IFF_UP :: u16 where "IFF_UP = 0x1"
definition IFF_RUNNING :: u16 where "IFF_RUNNING = 0x40"
definition TCP_OFFLOADS :: nat where "TCP_OFFLOADS = 7"
definition UDP_OFFLOADS :: nat where "UDP_OFFLOADS = 96"

definition opt_or :: "'a option \<Rightarrow> 'a \<Rightarrow> 'a" where
  "opt_or x d = (case x of Some a \<Rightarrow> a | None \<Rightarrow> d)"

definition new_dev_name :: "DeviceConfig \<Rightarrow> byte list option res" where
  "new_dev_name config = (case cfg_dev_name config of
     None \<Rightarrow> Ok None
   | Some n \<Rightarrow> bind_res (cstring_new n) (\<lambda>n.
       if length n + 1 > IFNAMSIZ then invalid_input ''device name too long'' else Ok (Some n)))"

text \<open>The device node is made when it is missing; errors are ignored.\<close>

definition make_node :: "('s, 'x) lin_sys_scheme \<Rightarrow> ('s, unit) io" where
  "make_node K = io_match (lk_exists K)
     (\<lambda>e. if e then io_return ()
          else io_match (lk_create_dir_all K) (\<lambda>_ s. (Ok (), snd (lk_mknod K s))) (\<lambda>_ s. (Ok (), snd (lk_mknod K s))))
     (\<lambda>_. io_return ())"

definition new_flags :: "DeviceConfig \<Rightarrow> u16" where
  "new_flags config = IFF_TUN
     OR (if opt_or (cfg_packet_information config) False then 0 else IFF_NO_PI)
     OR (if opt_or (cfg_offload config) False then IFF_VNET_HDR else 0)"

definition new_request :: "byte list option \<Rightarrow> DeviceConfig \<Rightarrow> ifreq" where
  "new_request dev_name config =
     set_ifru (to_le16 (new_flags config))
       (case dev_name of Some n \<Rightarrow> ifreq_zeroed\<lparr>ifr_name := blit (ifr_name ifreq_zeroed) 0 (n @ [0])\<rparr> | None \<Rightarrow> ifreq_zeroed)"

text \<open>The offload negotiation: the virtio header and the UDP offload the device will assume.\<close>

definition new_offload :: "('s, 'x) lin_sys_scheme \<Rightarrow> int \<Rightarrow> bool \<Rightarrow> ('s, bool \<times> bool) io" where
  "new_offload K fd offload =
     (if offload then
        io_match (tunsetoffload K fd (Val TCP_OFFLOADS))
          (\<lambda>_. io_match (tunsetoffload K fd (Val (TCP_OFFLOADS + UDP_OFFLOADS)))
            (\<lambda>_. io_return (True, True)) (\<lambda>_. io_return (True, False)))
          (\<lambda>_. io_return (False, False))
      else
        io_match (tunsetoffload K fd (Val 0)) (\<lambda>_. io_return (False, False)) (\<lambda>_. io_return (False, False)))"

definition dev_new :: "('s, 'x) lin_sys_scheme \<Rightarrow> DeviceConfig \<Rightarrow> ('s, LinuxDevice) io" where
  "dev_new K config =
     io_bind (io_res (new_dev_name config)) (\<lambda>dev_name.
     io_then (make_node K)
     (io_bind (\<lambda>s. let (v, s) = lk_open_tun K s in Fd_new (fd_sys.truncate K) v s) (\<lambda>fd.
       io_unless
         (io_then (tunsetiff K (fd_inner fd) (new_request dev_name config))
         (io_bind (new_offload K (fd_inner fd) (opt_or (cfg_offload config) False)) (\<lambda>(vnet_hdr, udp_gso).
          io_return \<lparr>dev_vnet_hdr = vnet_hdr, dev_udp_gso = udp_gso, dev_fd = fd\<rparr>)))
         (drop_fd K fd))))"

definition from_tun :: "Fd \<Rightarrow> LinuxDevice res" where
  "from_tun fd = Ok \<lparr>dev_vnet_hdr = False, dev_udp_gso = False, dev_fd = fd\<rparr>"

definition dev_drop :: "('s, 'x) lin_sys_scheme \<Rightarrow> LinuxDevice \<Rightarrow> 's \<Rightarrow> 's" where
  "dev_drop K d = drop_fd K (dev_fd d)"

definition raw_fd :: "LinuxDevice \<Rightarrow> int" where
  "raw_fd d = fd_inner (dev_fd d)"

section \<open>Names and requests\<close>

text \<open>\<open>name\<close> reads the C string at \<open>ifr_name\<close>; without a NUL there the read goes on into the union.\<close>

definition name :: "('s, 'x) lin_sys_scheme \<Rightarrow> int \<Rightarrow> ('s, byte list) io" where
  "name K fd = io_map (\<lambda>r. utf8_lossy (takeWhile (\<lambda>b. b \<noteq> 0) (ifreq_bytes r))) (tungetiff K fd ifreq_zeroed)"

definition request :: "byte list \<Rightarrow> ifreq res" where
  "request n = ensure (length n \<le> IFNAMSIZ) (Ok (ifreq_zeroed\<lparr>ifr_name := blit (ifr_name ifreq_zeroed) 0 n\<rparr>))"

definition name_impl :: "('s, 'x) lin_sys_scheme \<Rightarrow> LinuxDevice \<Rightarrow> ('s, byte list) io" where
  "name_impl K d = name K (raw_fd d)"

definition dev_request :: "('s, 'x) lin_sys_scheme \<Rightarrow> LinuxDevice \<Rightarrow> ('s, ifreq) io" where
  "dev_request K d = io_bind (name_impl K d) (\<lambda>n. io_res (request n))"

definition if_index_impl :: "('s, 'x) lin_sys_scheme \<Rightarrow> LinuxDevice \<Rightarrow> ('s, u32) io" where
  "if_index_impl K d =
     io_bind (name_impl K d) (\<lambda>n.
     io_bind (io_res (cstring_new n)) (\<lambda>n s. let (i, s) = lk_if_nametoindex K n s in (Ok i, s)))"

text \<open>A request that writes one value into the union and hands it to the kernel, and one that reads.\<close>

definition set_attr where
  "set_attr K d call bs = io_bind (dev_request K d) (\<lambda>req. with_ctl K (\<lambda>fd. call fd (set_ifru bs req)))"

definition get_attr where
  "get_attr K d call f = io_bind (dev_request K d) (\<lambda>req.
     io_bind (with_ctl K (\<lambda>fd. call fd req)) (\<lambda>r. io_res (f (ifr_ifru r))))"

section \<open>Queue length, ownership\<close>

definition set_tx_queue_len :: "('s, 'x) lin_sys_scheme \<Rightarrow> LinuxDevice \<Rightarrow> u32 \<Rightarrow> ('s, unit) io" where
  "set_tx_queue_len K d v = set_attr K d (change_tx_queue_len K) (to_le32 v)"

definition tx_queue_len :: "('s, 'x) lin_sys_scheme \<Rightarrow> LinuxDevice \<Rightarrow> ('s, u32) io" where
  "tx_queue_len K d = get_attr K d (get_tx_queue_len K) (\<lambda>u. Ok (get_le32 u))"

text \<open>These three hand the kernel a pointer to the number.\<close>

definition persist :: "('s, 'x) lin_sys_scheme \<Rightarrow> LinuxDevice \<Rightarrow> ('s, unit) io" where
  "persist K d = tunsetpersist K (raw_fd d) (Ptr (to_le32 1))"

definition user :: "('s, 'x) lin_sys_scheme \<Rightarrow> LinuxDevice \<Rightarrow> u32 \<Rightarrow> ('s, unit) io" where
  "user K d v = tunsetowner K (raw_fd d) (Ptr (to_le32 v))"

definition group :: "('s, 'x) lin_sys_scheme \<Rightarrow> LinuxDevice \<Rightarrow> u32 \<Rightarrow> ('s, unit) io" where
  "group K d v = tunsetgroup K (raw_fd d) (Ptr (to_le32 v))"

section \<open>Addresses\<close>

definition linux_layout :: sa_layout where
  "linux_layout = \<lparr>sa_has_len = False, sa_inet6 = 10\<rparr>"

definition set_addr_attr where
  "set_addr_attr K d call ip = io_bind (dev_request K d) (\<lambda>req.
     with_ctl K (\<lambda>fd. call fd (req\<lparr>ifr_ifru := ipaddr_to_sockaddr linux_layout ip 0 (ifr_ifru req) OVERWRITE_SIZE\<rparr>)))"

definition set_address_v4 :: "('s, 'x) lin_sys_scheme \<Rightarrow> LinuxDevice \<Rightarrow> Ipv4Addr \<Rightarrow> ('s, unit) io" where
  "set_address_v4 K d a = set_addr_attr K d (siocsifaddr K) (V4 a)"

definition set_netmask :: "('s, 'x) lin_sys_scheme \<Rightarrow> LinuxDevice \<Rightarrow> Ipv4Addr \<Rightarrow> ('s, unit) io" where
  "set_netmask K d a = set_addr_attr K d (siocsifnetmask K) (V4 a)"

definition set_destination :: "('s, 'x) lin_sys_scheme \<Rightarrow> LinuxDevice \<Rightarrow> Ipv4Addr \<Rightarrow> ('s, unit) io" where
  "set_destination K d a = set_addr_attr K d (siocsifdstaddr K) (V4 a)"

definition set_broadcast :: "('s, 'x) lin_sys_scheme \<Rightarrow> LinuxDevice \<Rightarrow> IpAddr \<Rightarrow> ('s, unit) io" where
  "set_broadcast K d ip = set_addr_attr K d (siocsifbrdaddr K) ip"

text \<open>Only the first 16 bytes of the union are copied out; the rest of \<open>sockaddr_union\<close> is unset, here zero.\<close>

definition broadcast :: "('s, 'x) lin_sys_scheme \<Rightarrow> LinuxDevice \<Rightarrow> ('s, IpAddr) io" where
  "broadcast K d = get_attr K d (siocgifbrdaddr K) (\<lambda>u.
     bind_res (socket_addr_try_from linux_layout (take 16 u @ replicate 112 0)) (\<lambda>a. Ok (socket_addr_ip a)))"

definition remove_all_address_v4 :: "('s, 'x) lin_sys_scheme \<Rightarrow> LinuxDevice \<Rightarrow> ('s, unit) io" where
  "remove_all_address_v4 K d =
     io_bind (if_index_impl K d) (\<lambda>i.
     io_bind (lk_interface_from_index K i) (\<lambda>interface.
     io_bind (lk_interface_addresses K interface) (\<lambda>list.
     io_each (\<lambda>x. io_when (is_ipv4 (fst x)) (lk_interface_remove_address K interface x)) list)))"

definition set_network_address :: "('s, 'x) lin_sys_scheme \<Rightarrow> (string \<Rightarrow> Ipv4Addr option) \<Rightarrow> LinuxDevice
    \<Rightarrow> addr4_arg \<Rightarrow> Ipv4Addr mask_arg \<Rightarrow> addr4_arg option \<Rightarrow> ('s, unit) io" where
  "set_network_address K parse d address netmask destination =
     io_then (remove_all_address_v4 K d)
     (io_then (io_bind (io_res (ipv4 parse address)) (set_address_v4 K d))
     (io_then (io_bind (io_res (netmask4 parse netmask)) (set_netmask K d))
     (case destination of
        Some destination \<Rightarrow> io_bind (io_res (ipv4 parse destination)) (set_destination K d)
      | None \<Rightarrow> io_return ())))"

definition add_address_v4 :: "('s, 'x) lin_sys_scheme \<Rightarrow> (string \<Rightarrow> Ipv4Addr option) \<Rightarrow> LinuxDevice
    \<Rightarrow> addr4_arg \<Rightarrow> Ipv4Addr mask_arg \<Rightarrow> ('s, unit) io" where
  "add_address_v4 K parse d address netmask =
     io_bind (if_index_impl K d) (\<lambda>i.
     io_bind (lk_interface_from_index K i) (\<lambda>interface.
     io_bind (io_res (ipv4 parse address)) (\<lambda>a.
     io_bind (io_res (prefix4 parse netmask)) (\<lambda>p.
     io_bind (io_res (lk_ipnet_new_assert K (V4 a) p)) (lk_interface_add_address K interface)))))"

text \<open>\<open>in6_ifreq\<close>: address, prefix length, interface index.\<close>

definition in6_ifreq :: "Ipv6Addr \<Rightarrow> u32 \<Rightarrow> u32 \<Rightarrow> byte list" where
  "in6_ifreq a prefix if_index = octets6 a @ to_le32 prefix @ to_le32 if_index"

definition add_address_v6 :: "('s, 'x) lin_sys_scheme \<Rightarrow> (string \<Rightarrow> Ipv6Addr option) \<Rightarrow> LinuxDevice
    \<Rightarrow> addr6_arg \<Rightarrow> Ipv6Addr mask_arg \<Rightarrow> ('s, unit) io" where
  "add_address_v6 K parse d address netmask =
     io_bind (if_index_impl K d) (\<lambda>i.
     with_ctl_v6 K (\<lambda>fd.
       io_bind (io_res (prefix6 parse netmask)) (\<lambda>p.
       io_bind (io_res (ipv6 parse address)) (\<lambda>a.
       siocsifaddr_in6 K fd (in6_ifreq a (ucast p) i)))))"

definition remove_address_v6_impl :: "('s, 'x) lin_sys_scheme \<Rightarrow> LinuxDevice \<Rightarrow> Ipv6Addr \<Rightarrow> byte \<Rightarrow> ('s, unit) io" where
  "remove_address_v6_impl K d a prefix =
     io_bind (if_index_impl K d) (\<lambda>i.
     with_ctl_v6 K (\<lambda>fd. siocdifaddr_in6 K fd (in6_ifreq a (ucast prefix) i)))"

definition remove_address_v6 :: "('s, 'x) lin_sys_scheme \<Rightarrow> LinuxDevice \<Rightarrow> Ipv6Addr \<Rightarrow> byte \<Rightarrow> ('s, unit) io" where
  "remove_address_v6 K d a prefix = remove_address_v6_impl K d a prefix"

definition get_if_addrs_by_name :: "('s, 'x) lin_sys_scheme \<Rightarrow> byte list \<Rightarrow> ('s, if_entry list) io" where
  "get_if_addrs_by_name K n = io_map (filter (\<lambda>v. ife_name v = n)) (lk_getifaddrs K)"

definition dev_addresses :: "('s, 'x) lin_sys_scheme \<Rightarrow> LinuxDevice \<Rightarrow> ('s, IpAddr list) io" where
  "dev_addresses K d = io_bind (name_impl K d) (\<lambda>n.
     io_map (List.map_filter ife_addr) (get_if_addrs_by_name K n))"

definition remove_address :: "('s, 'x) lin_sys_scheme \<Rightarrow> LinuxDevice \<Rightarrow> IpAddr \<Rightarrow> ('s, unit) io" where
  "remove_address K d addr = (case addr of
     V4 _ \<Rightarrow>
       io_bind (if_index_impl K d) (\<lambda>i.
       io_bind (lk_interface_from_index K i) (\<lambda>interface.
       io_bind (lk_interface_addresses K interface) (\<lambda>list.
       io_each (\<lambda>x. io_when (fst x = addr) (lk_interface_remove_address K interface x)) list)))
   | V6 a \<Rightarrow>
       io_bind (name_impl K d) (\<lambda>n.
       io_bind (get_if_addrs_by_name K n) (\<lambda>addrs.
       io_each (\<lambda>x. if ife_addr x \<noteq> Some addr then io_return ()
         else case ife_netmask x of
             None \<Rightarrow> io_return ()
           | Some netmask \<Rightarrow> remove_address_v6_impl K d a (opt_or (lk_ip_mask_to_prefix K netmask) 0)) addrs)))"

section \<open>Name, flags, MTU, hardware address\<close>

definition set_name :: "('s, 'x) lin_sys_scheme \<Rightarrow> LinuxDevice \<Rightarrow> byte list \<Rightarrow> ('s, unit) io" where
  "set_name K d value =
     io_bind (io_res (cstring_new value)) (\<lambda>n.
     if length n + 1 > IFNAMSIZ then io_res (invalid_input ''name too long'')
     else set_attr K d (siocsifname K) value)"

definition ifru_flags :: "('s, 'x) lin_sys_scheme \<Rightarrow> LinuxDevice \<Rightarrow> ('s, u16) io" where
  "ifru_flags K d = with_ctl K (\<lambda>fd.
     io_bind (dev_request K d) (\<lambda>req.
     io_map (\<lambda>r. get_le16 (ifr_ifru r)) (siocgifflags K fd req)))"

definition is_running :: "('s, 'x) lin_sys_scheme \<Rightarrow> LinuxDevice \<Rightarrow> ('s, bool) io" where
  "is_running K d = io_map (\<lambda>f. f AND (IFF_UP OR IFF_RUNNING) = IFF_UP OR IFF_RUNNING) (ifru_flags K d)"

definition enabled_flags :: "bool \<Rightarrow> u16 \<Rightarrow> u16" where
  "enabled_flags value f = (if value then f OR (IFF_UP OR IFF_RUNNING) else f AND NOT IFF_UP)"

definition enabled :: "('s, 'x) lin_sys_scheme \<Rightarrow> LinuxDevice \<Rightarrow> bool \<Rightarrow> ('s, unit) io" where
  "enabled K d value = with_ctl K (\<lambda>fd.
     io_bind (dev_request K d) (\<lambda>req.
     io_bind (siocgifflags K fd req) (\<lambda>req.
     siocsifflags K fd (set_ifru (to_le16 (enabled_flags value (get_le16 (ifr_ifru req)))) req))))"

definition mtu :: "('s, 'x) lin_sys_scheme \<Rightarrow> LinuxDevice \<Rightarrow> ('s, u16) io" where
  "mtu K d = get_attr K d (siocgifmtu K) (\<lambda>u. let v = sint (get_le32 u)
     in if 0 \<le> v \<and> v \<le> 65535 then Ok (of_int v) else invalid_data ''TryFromIntError'')"

definition set_mtu :: "('s, 'x) lin_sys_scheme \<Rightarrow> LinuxDevice \<Rightarrow> u16 \<Rightarrow> ('s, unit) io" where
  "set_mtu K d v = set_attr K d (siocsifmtu K) (to_le32 (ucast v))"

definition ARPHRD_ETHER :: u16 where "ARPHRD_ETHER = 1"

definition set_mac_address :: "('s, 'x) lin_sys_scheme \<Rightarrow> LinuxDevice \<Rightarrow> byte list \<Rightarrow> ('s, unit) io" where
  "set_mac_address K d eth_addr = set_attr K d (siocsifhwaddr K) (to_le16 ARPHRD_ETHER @ eth_addr)"

definition mac_address :: "('s, 'x) lin_sys_scheme \<Rightarrow> LinuxDevice \<Rightarrow> ('s, byte list) io" where
  "mac_address K d = get_attr K d (siocgifhwaddr K) (\<lambda>u. Ok (subslice 2 8 u))"

definition dev_name :: "('s, 'x) lin_sys_scheme \<Rightarrow> LinuxDevice \<Rightarrow> ('s, byte list) io" where
  "dev_name K d = name_impl K d"

definition if_index :: "('s, 'x) lin_sys_scheme \<Rightarrow> LinuxDevice \<Rightarrow> ('s, u32) io" where
  "if_index K d = if_index_impl K d"

end
