(* ===== verification/LinuxSpec.thy ===== *)
theory LinuxSpec
  imports LinuxConfig
begin

text \<open>
  Properties of the Linux device: no descriptor is leaked, what is set is what is read, what the kernel
  is told at creation.
\<close>

section \<open>Descriptors\<close>

text \<open>
  What is assumed of the system for the account of open descriptors: \<open>opens\<close> is their set; \<open>socket\<close> and
  \<open>open\<close> return a negative number and change nothing or add a new one, \<open>close\<close> takes one away, nothing
  else opens or closes any.
\<close>

definition opens_new :: "('s \<Rightarrow> int set) \<Rightarrow> ('s \<Rightarrow> int \<times> 's) \<Rightarrow> bool" where
  "opens_new opens f \<longleftrightarrow> (\<forall>s. case f s of (v, s') \<Rightarrow>
     if v < 0 then opens s' = opens s else v \<notin> opens s \<and> opens s' = insert v (opens s))"

definition fd_account :: "('s, 'x) lin_sys_scheme \<Rightarrow> ('s \<Rightarrow> int set) \<Rightarrow> bool" where
  "fd_account K opens \<longleftrightarrow> (\<forall>dom. opens_new opens (lk_socket K dom)) \<and> opens_new opens (lk_open_tun K)
     \<and> (\<forall>v s. opens (sys_close K v s) = opens s - {v})
     \<and> (\<forall>fd c a s. opens (snd (lk_ioctl K fd c a s)) = opens s)
     \<and> io_preserves opens (lk_exists K) \<and> io_preserves opens (lk_create_dir_all K)
     \<and> (\<forall>s. opens (snd (lk_mknod K s)) = opens s) \<and> (\<forall>n s. opens (snd (lk_if_nametoindex K n s)) = opens s)
     \<and> (\<forall>i. io_preserves opens (lk_interface_from_index K i)) \<and> (\<forall>i. io_preserves opens (lk_interface_addresses K i))
     \<and> (\<forall>i x. io_preserves opens (lk_interface_add_address K i x))
     \<and> (\<forall>i x. io_preserves opens (lk_interface_remove_address K i x)) \<and> io_preserves opens (lk_getifaddrs K)"

lemma truncate_simps:
  "sys_close (fd_sys.truncate K) = sys_close K" "sys_errno (fd_sys.truncate K) = sys_errno K"
  by (simp_all add: fd_sys.truncate_def)

lemma ioctl_preserves:
  assumes acc: "fd_account K opens"
  shows "io_preserves opens (ioctl K c fd a)"
proof -
  have "opens (snd (lk_ioctl K fd c a s)) = opens s" for s using acc by (simp add: fd_account_def)
  then show ?thesis by (auto simp: io_preserves_def ioctl_def split: prod.splits) (metis snd_conv)+
qed

lemma requests_preserve:
  assumes acc: "fd_account K opens"
  shows "io_preserves opens (ioctl_read K c fd r)" "io_preserves opens (ioctl_write K c fd a)"
  by (auto simp: ioctl_read_def ioctl_write_def intro: io_pres ioctl_preserves [OF acc])

text \<open>A new descriptor: the body runs with it open, and when it is dropped the set is as before.\<close>

lemma with_fd_preserves:
  assumes acc: "fd_account K opens"
    and "opens_new opens f" "\<And>fd. io_preserves opens (body fd)"
  shows "io_preserves opens (io_bind (\<lambda>s. let (v, s) = f s in Fd_new (fd_sys.truncate K) v s)
    (\<lambda>fd. io_scope (body (fd_inner fd)) (drop_fd K fd)))"
proof -
  have "opens (snd (io_bind (\<lambda>s. let (v, s) = f s in Fd_new (fd_sys.truncate K) v s)
    (\<lambda>fd. io_scope (body (fd_inner fd)) (drop_fd K fd)) s)) = opens s" for s
  proof -
    obtain v s1 where f: "f s = (v, s1)" by force
    have o: "if v < 0 then opens s1 = opens s else v \<notin> opens s \<and> opens s1 = insert v (opens s)"
      using assms(2) f by (auto simp: opens_new_def dest!: spec [of _ s])
    obtain r s2 where b: "body v s1 = (r, s2)" by force
    have "opens s2 = opens s1" using assms(3) b by (metis io_preservesD)
    moreover have "opens (sys_close K v s2) = opens s2 - {v}" using acc by (simp add: fd_account_def)
    ultimately show ?thesis using f o b
      by (auto simp: Fd_new_def last_os_error_def io_bind_def io_scope_def drop_fd_def Fd_drop_def truncate_simps
          Fd_new_unchecked_def Fd_new_unchecked_with_borrow_def io_return_def)
  qed
  then show ?thesis by (simp add: io_preserves_def)
qed

lemma with_ctl_preserves:
  assumes acc: "fd_account K opens"
    and "\<And>fd. io_preserves opens (body fd)"
  shows "io_preserves opens (with_ctl K body)" "io_preserves opens (with_ctl_v6 K body)"
  using with_fd_preserves [OF acc _ assms(2), of "lk_socket K _"] acc
  by (auto simp: with_ctl_def with_ctl_v6_def socket_fd_def fd_account_def)

lemma name_preserves:
  assumes acc: "fd_account K opens"
  shows "io_preserves opens (name_impl K d)"
  by (auto simp: name_impl_def name_def tungetiff_def intro: io_pres requests_preserve [OF acc])

lemma dev_request_preserves:
  assumes acc: "fd_account K opens"
  shows "io_preserves opens (dev_request K d)"
  by (auto simp: dev_request_def intro!: io_pres name_preserves [OF acc])

lemma if_index_preserves:
  assumes acc: "fd_account K opens"
  shows "io_preserves opens (if_index_impl K d)"
proof -
  have "io_preserves opens (\<lambda>s. let (i, s) = lk_if_nametoindex K n s in (Ok i, s))" for n
  proof -
    have "opens (snd (lk_if_nametoindex K n s)) = opens s" for s using acc unfolding fd_account_def by blast
    then show ?thesis by (auto simp: io_preserves_def split: prod.splits) (metis snd_conv)+
  qed
  then show ?thesis by (auto simp: if_index_impl_def intro!: io_pres name_preserves [OF acc])
qed

lemma attr_preserves:
  assumes acc: "fd_account K opens"
  shows
  "(\<And>fd r. io_preserves opens (call fd r)) \<Longrightarrow> io_preserves opens (set_attr K d call bs)"
  "(\<And>fd r. io_preserves opens (call fd r)) \<Longrightarrow> io_preserves opens (set_addr_attr K d call ip)"
  "(\<And>fd r. io_preserves opens (get fd r)) \<Longrightarrow> io_preserves opens (get_attr K d get f)"
  by (auto simp: set_attr_def set_addr_attr_def get_attr_def intro!: io_pres dev_request_preserves [OF acc] with_ctl_preserves [OF acc])

lemma lk_preserves:
  assumes acc: "fd_account K opens"
  shows "io_preserves opens (lk_interface_from_index K i)" "io_preserves opens (lk_interface_addresses K j)"
  "io_preserves opens (lk_interface_add_address K j x)" "io_preserves opens (lk_interface_remove_address K j x)"
  "io_preserves opens (lk_getifaddrs K)"
  using acc unfolding fd_account_def by blast+

lemmas preserve_rules = requests_preserve with_ctl_preserves name_preserves dev_request_preserves if_index_preserves
  attr_preserves lk_preserves



text \<open>The public operations of a device and their sequences; a caller may go on after an error.\<close>

datatype config_op =
    SetTxQueueLen u32 | TxQueueLen | Persist | User u32 | Group u32
  | SetBroadcast IpAddr | Broadcast | SetNetworkAddress addr4_arg "Ipv4Addr mask_arg" "addr4_arg option"
  | AddAddressV4 addr4_arg "Ipv4Addr mask_arg" | AddAddressV6 addr6_arg "Ipv6Addr mask_arg"
  | RemoveAddress IpAddr | RemoveAddressV6 Ipv6Addr byte | Addresses
  | SetName "byte list" | Name | IfIndex | IsRunning | Enabled bool | SetMtu u16 | Mtu
  | SetMacAddress "byte list" | MacAddress

type_synonym parsers = "(string \<Rightarrow> Ipv4Addr option) \<times> (string \<Rightarrow> Ipv6Addr option)"

fun run_op :: "('s, 'x) lin_sys_scheme \<Rightarrow> parsers \<Rightarrow> LinuxDevice \<Rightarrow> config_op \<Rightarrow> ('s, unit) io" where
  "run_op K P d (SetTxQueueLen v) = set_tx_queue_len K d v"
| "run_op K P d TxQueueLen = io_map (\<lambda>_. ()) (tx_queue_len K d)"
| "run_op K P d Persist = persist K d"
| "run_op K P d (User v) = user K d v"
| "run_op K P d (Group v) = group K d v"
| "run_op K P d (SetBroadcast ip) = set_broadcast K d ip"
| "run_op K P d Broadcast = io_map (\<lambda>_. ()) (broadcast K d)"
| "run_op K P d (SetNetworkAddress a m dst) = set_network_address K (fst P) d a m dst"
| "run_op K P d (AddAddressV4 a m) = add_address_v4 K (fst P) d a m"
| "run_op K P d (AddAddressV6 a m) = add_address_v6 K (snd P) d a m"
| "run_op K P d (RemoveAddress ip) = remove_address K d ip"
| "run_op K P d (RemoveAddressV6 a p) = remove_address_v6 K d a p"
| "run_op K P d Addresses = io_map (\<lambda>_. ()) (dev_addresses K d)"
| "run_op K P d (SetName n) = set_name K d n"
| "run_op K P d Name = io_map (\<lambda>_. ()) (dev_name K d)"
| "run_op K P d IfIndex = io_map (\<lambda>_. ()) (if_index K d)"
| "run_op K P d IsRunning = io_map (\<lambda>_. ()) (is_running K d)"
| "run_op K P d (Enabled b) = enabled K d b"
| "run_op K P d (SetMtu v) = set_mtu K d v"
| "run_op K P d Mtu = io_map (\<lambda>_. ()) (mtu K d)"
| "run_op K P d (SetMacAddress m) = set_mac_address K d m"
| "run_op K P d MacAddress = io_map (\<lambda>_. ()) (mac_address K d)"

definition run_ops :: "('s, 'x) lin_sys_scheme \<Rightarrow> parsers \<Rightarrow> LinuxDevice \<Rightarrow> config_op list \<Rightarrow> 's \<Rightarrow> 's" where
  "run_ops K P d ops s = foldl (\<lambda>s a. snd (run_op K P d a s)) s ops"

lemma run_op_preserves:
  assumes acc: "fd_account K opens"
  shows "io_preserves opens (run_op K P d a)"
proof (cases a)
  case (SetNetworkAddress x m dst)
  then show ?thesis
    by (auto simp: set_network_address_def remove_all_address_v4_def set_address_v4_def set_netmask_def set_destination_def
        request_defs intro!: io_pres preserve_rules [OF acc])
next
  case (RemoveAddress ip)
  then show ?thesis
    by (cases ip) (auto simp: remove_address_def remove_address_v6_impl_def get_if_addrs_by_name_def request_defs
        intro!: io_pres preserve_rules [OF acc])
qed (auto simp: set_tx_queue_len_def tx_queue_len_def persist_def user_def group_def set_broadcast_def broadcast_def
    add_address_v4_def add_address_v6_def remove_address_v6_def remove_address_v6_impl_def dev_addresses_def
    get_if_addrs_by_name_def set_name_def dev_name_def if_index_def is_running_def ifru_flags_def enabled_def
    set_mtu_def mtu_def set_mac_address_def mac_address_def request_defs
    intro!: io_pres preserve_rules [OF acc])

lemma run_ops_preserves:
  assumes "fd_account K opens"
  shows "opens (run_ops K P d ops s) = opens s"
proof (induction ops arbitrary: s)
  case (Cons a ops)
  have "opens (snd (run_op K P d a s)) = opens s"
    using run_op_preserves [OF assms] unfolding io_preserves_def by blast
  then show ?case using Cons [of "snd (run_op K P d a s)"] by (simp add: run_ops_def)
qed (simp add: run_ops_def)


lemma make_node_preserves:
  assumes acc: "fd_account K opens"
  shows "io_preserves opens (make_node K)"
proof -
  have "opens (snd (lk_mknod K s)) = opens s" for s using acc unfolding fd_account_def by blast
  then have "io_preserves opens (\<lambda>s. (Ok (), snd (lk_mknod K s)))" by (simp add: io_preserves_def)
  moreover have "io_preserves opens (lk_exists K)" "io_preserves opens (lk_create_dir_all K)"
    using acc unfolding fd_account_def by blast+
  ultimately show ?thesis by (auto simp: make_node_def intro!: io_pres)
qed

lemma new_offload_preserves:
  assumes acc: "fd_account K opens"
  shows "io_preserves opens (new_offload K fd b)"
  by (auto simp: new_offload_def request_defs intro!: io_pres preserve_rules [OF acc])

definition new_body :: "('s, 'x) lin_sys_scheme \<Rightarrow> DeviceConfig \<Rightarrow> byte list option \<Rightarrow> Fd \<Rightarrow> ('s, LinuxDevice) io" where
  "new_body K config n fd = io_then (tunsetiff K (fd_inner fd) (new_request n config))
     (io_bind (new_offload K (fd_inner fd) (opt_or (cfg_offload config) False)) (\<lambda>(vnet_hdr, udp_gso).
      io_return \<lparr>dev_vnet_hdr = vnet_hdr, dev_udp_gso = udp_gso, dev_fd = fd\<rparr>))"

lemma new_body_preserves:
  assumes acc: "fd_account K opens"
  shows "io_preserves opens (new_body K config n fd)"
  by (auto simp: new_body_def request_defs intro!: io_pres preserve_rules [OF acc] new_offload_preserves [OF acc])

lemma new_body_fd: "new_body K config n fd s = (Ok d, s') \<Longrightarrow> dev_fd d = fd"
  by (auto simp: new_body_def io_then_def io_bind_def io_return_def split: prod.splits res.splits)

lemma dev_new_eq: "dev_new K config =
     io_bind (io_res (new_dev_name config)) (\<lambda>n. io_then (make_node K)
       (io_bind (\<lambda>s. let (v, s) = lk_open_tun K s in Fd_new (fd_sys.truncate K) v s)
         (\<lambda>fd. io_unless (new_body K config n fd) (drop_fd K fd))))"
  by (simp add: dev_new_def new_body_def)

lemma open_unless:
  assumes acc: "fd_account K opens" and body: "\<And>fd. io_preserves opens (body fd)"
    and r: "io_bind (\<lambda>s. let (v, s) = lk_open_tun K s in Fd_new (fd_sys.truncate K) v s)
         (\<lambda>fd. io_unless (body fd) (drop_fd K fd)) s = (r, s')"
  shows "(case r of
     Ok d \<Rightarrow> (\<exists>v s1 s2. 0 \<le> v \<and> body (Fd_new_unchecked v) s1 = (Ok d, s2) \<and> v \<notin> opens s \<and> opens s' = insert v (opens s))
   | _ \<Rightarrow> opens s' = opens s)"
proof -
  obtain v s1 where f: "lk_open_tun K s = (v, s1)" by force
  have o: "if v < 0 then opens s1 = opens s else v \<notin> opens s \<and> opens s1 = insert v (opens s)"
    using acc f unfolding fd_account_def opens_new_def by (auto dest!: spec [of _ s])
  obtain q s2 where b: "body (Fd_new_unchecked v) s1 = (q, s2)" by force
  have "opens s2 = opens s1" using body b by (metis io_preservesD)
  moreover have "opens (sys_close K v s2) = opens s2 - {v}" using acc by (simp add: fd_account_def)
  ultimately show ?thesis using f o b r
    by (cases q) (auto intro!: exI [of _ v] simp: Fd_new_def last_os_error_def io_bind_def io_unless_def drop_fd_def Fd_drop_def truncate_simps
        Fd_new_unchecked_def Fd_new_unchecked_with_borrow_def io_return_def split: if_splits, blast)
qed

text \<open>Everything before the device node is opened.\<close>

definition new_prefix :: "('s, 'x) lin_sys_scheme \<Rightarrow> DeviceConfig \<Rightarrow> ('s, byte list option) io" where
  "new_prefix K config = io_bind (io_res (new_dev_name config)) (\<lambda>n. io_then (make_node K) (io_return n))"

lemma dev_new_prefix: "dev_new K config = io_bind (new_prefix K config)
    (\<lambda>n. io_bind (\<lambda>s. let (v, s) = lk_open_tun K s in Fd_new (fd_sys.truncate K) v s)
         (\<lambda>fd. io_unless (new_body K config n fd) (drop_fd K fd)))"
  by (simp add: dev_new_eq new_prefix_def io_then_def io_bind_assoc)

lemma dev_new_account:
  assumes acc: "fd_account K opens" and r: "dev_new K config s = (r, s')"
  shows "case r of
      Ok d \<Rightarrow> fd_borrow (dev_fd d) = False \<and> 0 \<le> raw_fd d \<and> raw_fd d \<notin> opens s \<and> opens s' = insert (raw_fd d) (opens s)
    | _ \<Rightarrow> opens s' = opens s"
proof -
  obtain q s0 where q: "new_prefix K config s = (q, s0)" by force
  have "io_preserves opens (new_prefix K config)"
    by (auto simp: new_prefix_def intro!: io_pres make_node_preserves [OF acc])
  then have s0: "opens s0 = opens s" using q by (rule io_preservesD)
  show ?thesis
  proof (cases q)
    case (Ok n)
    have "io_bind (\<lambda>s. let (v, s) = lk_open_tun K s in Fd_new (fd_sys.truncate K) v s)
         (\<lambda>fd. io_unless (new_body K config n fd) (drop_fd K fd)) s0 = (r, s')"
      using r q Ok by (simp add: dev_new_prefix io_bind_def)
    from open_unless [OF acc new_body_preserves [OF acc] this] show ?thesis
      using s0 by (auto split: res.splits dest!: new_body_fd
          simp: raw_fd_def Fd_new_unchecked_def Fd_new_unchecked_with_borrow_def)
  qed (use r q s0 in \<open>auto simp: dev_new_prefix io_bind_def\<close>)
qed

text \<open>
  C19. No descriptor is leaked.  When creation fails, at whatever step, as many are open as before; when
  it succeeds the device's own descriptor is open in addition.  Whatever operations follow, in any
  order and whether they fail or not, leave exactly that, and dropping the device closes it.
\<close>

theorem device_lifecycle_closes:
  assumes "fd_account K opens"
  shows "case dev_new K config s of
      (Ok d, s') \<Rightarrow> raw_fd d \<notin> opens s \<and> opens s' = insert (raw_fd d) (opens s)
        \<and> opens (run_ops K P d ops s') = insert (raw_fd d) (opens s)
        \<and> opens (dev_drop K d (run_ops K P d ops s')) = opens s
    | (_, s') \<Rightarrow> opens s' = opens s"
proof -
  obtain r s' where r: "dev_new K config s = (r, s')" by force
  have "opens (sys_close K v s) = opens s - {v}" for v s using assms unfolding fd_account_def by blast
  then have "fd_borrow (dev_fd d) = False \<Longrightarrow> 0 \<le> raw_fd d \<Longrightarrow> opens (dev_drop K d t) = opens t - {raw_fd d}" for d t
    by (simp add: raw_fd_def dev_drop_def drop_fd_def Fd_drop_def truncate_simps)
  then show ?thesis
    using dev_new_account [OF assms r] run_ops_preserves [OF assms, of P _ ops s'] r by (cases r) simp_all
qed

section \<open>What is set is what is read\<close>

text \<open>
  What is assumed of the netdevice interface (netdevice(7)) while the interface is \<open>alive\<close>: sockets can
  be opened; \<open>TUNGETIFF\<close> on the device gives its name; a reading request with that name gives the value
  of the attribute; a setting request, when it succeeds, stores the leading bytes its type has there
  and changes no other attribute, for the flags at least the bit \<open>IFF_UP\<close>.  The attributes \<open>at\<close> are
  indexed by their reading request.
\<close>

definition attr_setters :: "(nat \<times> nat \<times> nat) list" where
  "attr_setters = [(0x8922, 0x8921, 4), (0x8943, 0x8942, 4), (0x891a, 0x8919, 16), (0x8924, 0x8927, 8)]"

definition same_net :: "('s \<Rightarrow> bool) \<Rightarrow> ('s \<Rightarrow> byte list) \<Rightarrow> ('s \<Rightarrow> nat \<Rightarrow> byte list) \<Rightarrow> 's \<Rightarrow> 's \<Rightarrow> bool" where
  "same_net alive nm at s s' \<longleftrightarrow> alive s' \<and> nm s' = nm s \<and> at s' = at s"

definition net_ptr :: "byte list \<Rightarrow> byte list \<Rightarrow> ioctl_arg" where
  "net_ptr n u = Ptr (ifreq_bytes \<lparr>ifr_name = n @ replicate (IFNAMSIZ - length n) 0, ifr_ifru = u\<rparr>)"

definition reply_name where
  "reply_name K dev alive nm at s a \<longleftrightarrow> (case lk_ioctl K dev (ior 210) a s of ((r, out), s') \<Rightarrow>
     r \<noteq> -1 \<and> takeWhile (\<lambda>b. b \<noteq> 0) out = nm s \<and> same_net alive nm at s s')"

definition reply_attr where
  "reply_attr K alive nm at s g v u \<longleftrightarrow> (case lk_ioctl K v g (net_ptr (nm s) u) s of ((r, out), s') \<Rightarrow>
     r \<noteq> -1 \<and> out = nm s @ replicate (IFNAMSIZ - length (nm s)) 0 @ at s g \<and> same_net alive nm at s s')"

definition stored_attr where
  "stored_attr K alive nm at s c g w v u \<longleftrightarrow> (case lk_ioctl K v c (net_ptr (nm s) u) s of ((r, out), s') \<Rightarrow> r \<noteq> -1 \<longrightarrow>
     alive s' \<and> nm s' = nm s \<and> take w (at s' g) = take w u \<and> (\<forall>g'. g' \<noteq> g \<longrightarrow> at s' g' = at s g'))"

definition stored_flags where
  "stored_flags K alive nm at s v u \<longleftrightarrow> (case lk_ioctl K v 0x8914 (net_ptr (nm s) u) s of ((r, out), s') \<Rightarrow> r \<noteq> -1 \<longrightarrow>
     alive s' \<and> nm s' = nm s \<and> bit (get_le16 (at s' 0x8913)) 0 = bit (get_le16 u) 0
       \<and> (\<forall>g'. g' \<noteq> 0x8913 \<longrightarrow> at s' g' = at s g'))"

definition opened_ctl where
  "opened_ctl K alive nm at s fam \<longleftrightarrow> (case lk_socket K fam s of (v, s') \<Rightarrow> 0 \<le> v \<and> same_net alive nm at s s')"

definition net_reads :: "('s, 'x) lin_sys_scheme \<Rightarrow> int \<Rightarrow> ('s \<Rightarrow> bool) \<Rightarrow> ('s \<Rightarrow> byte list) \<Rightarrow> ('s \<Rightarrow> nat \<Rightarrow> byte list) \<Rightarrow> bool" where
  "net_reads K dev alive nm at \<longleftrightarrow> (\<forall>s. alive s \<longrightarrow>
     length (nm s) < IFNAMSIZ \<and> (\<forall>b \<in> set (nm s). 0 < b \<and> b < 0x80) \<and> (\<forall>g. length (at s g) = OVERWRITE_SIZE)
     \<and> (\<forall>dom. opened_ctl K alive nm at s dom) \<and> (\<forall>v. same_net alive nm at s (sys_close K v s))
     \<and> (\<forall>a. reply_name K dev alive nm at s a)
     \<and> (\<forall>g \<in> {0x8913, 0x8919, 0x8921, 0x8927, 0x8942}. \<forall>v u. length u = OVERWRITE_SIZE \<longrightarrow> reply_attr K alive nm at s g v u))"

definition net_stores :: "('s, 'x) lin_sys_scheme \<Rightarrow> ('s \<Rightarrow> bool) \<Rightarrow> ('s \<Rightarrow> byte list) \<Rightarrow> ('s \<Rightarrow> nat \<Rightarrow> byte list) \<Rightarrow> bool" where
  "net_stores K alive nm at \<longleftrightarrow> (\<forall>s v u. alive s \<and> length u = OVERWRITE_SIZE \<longrightarrow>
     (\<forall>(c, g, w) \<in> set attr_setters. stored_attr K alive nm at s c g w v u) \<and> stored_flags K alive nm at s v u)"

lemma utf8_lossy_ascii: "(\<forall>b \<in> set bs. b < 0x80) \<Longrightarrow> utf8_lossy bs = bs"
proof (induction bs)
  case (Cons b bs)
  then have "utf8_width b = 1" by (simp add: utf8_width_def)
  moreover then have "utf8_run b bs = 0" by (simp add: utf8_run_def split: list.splits)
  ultimately show ?case using Cons by simp
qed simp

abbreviation net_request :: "byte list \<Rightarrow> ifreq" where
  "net_request n \<equiv> \<lparr>ifr_name = n @ replicate (IFNAMSIZ - length n) 0, ifr_ifru = replicate OVERWRITE_SIZE 0\<rparr>"

lemma dev_request_alive:
  assumes "net_reads K (raw_fd d) alive nm at" "alive s"
  obtains s' where "dev_request K d s = (Ok (net_request (nm s)), s')" "same_net alive nm at s s'"
proof -
  let ?a = "Ptr (ifreq_bytes ifreq_zeroed)"
  obtain r out s' where i: "lk_ioctl K (raw_fd d) (ior 210) ?a s = ((r, out), s')" by (metis prod.exhaust)
  have "reply_name K (raw_fd d) alive nm at s ?a" using assms unfolding net_reads_def by blast
  then have *: "r \<noteq> -1" "takeWhile (\<lambda>b. b \<noteq> 0) out = nm s" "same_net alive nm at s s'"
    using i by (simp_all add: reply_name_def)
  have "length (nm s) < IFNAMSIZ" "\<forall>b \<in> set (nm s). b < 0x80" using assms unfolding net_reads_def by blast+
  note * = * this
  have "ifreq_bytes (ifreq_of out) = out" by (simp add: ifreq_bytes_def ifreq_of_def)
  then have "name_impl K d s = (Ok (nm s), s')"
    using i * by (simp add: name_impl_def name_def tungetiff_def ioctl_read_def ioctl_def io_defs utf8_lossy_ascii)
  moreover have "request (nm s) = Ok (net_request (nm s))"
    using *(4) by (simp add: request_def ifreq_zeroed_def blit_def)
  ultimately show ?thesis using * that by (simp add: dev_request_def io_defs)
qed


lemma same_net_trans: "same_net alive nm at s t \<Longrightarrow> same_net alive nm at t u \<Longrightarrow> same_net alive nm at s u"
  by (auto simp: same_net_def)

lemma truncate_sys:
  "sys_close (fd_sys.truncate K) = sys_close K" "sys_errno (fd_sys.truncate K) = sys_errno K"
  by (simp_all add: fd_sys.truncate_def)

text \<open>The body of a control socket's scope runs on the same interface, and closing changes nothing.\<close>

lemma with_ctl_alive:
  assumes "net_reads K dev alive nm at" "alive s"
  shows "\<exists>v s1. same_net alive nm at s s1
    \<and> with_ctl K body s = (fst (body v s1), sys_close K v (snd (body v s1)))"
proof -
  obtain v s1 where k: "lk_socket K SOCK_INET s = (v, s1)" by force
  have "opened_ctl K alive nm at s SOCK_INET" using assms unfolding net_reads_def by blast
  then have "0 \<le> v" "same_net alive nm at s s1" using k by (simp_all add: opened_ctl_def)
  then show ?thesis using k
    by (intro exI [of _ v] exI [of _ s1]) (simp add: with_ctl_def socket_fd_def Fd_new_def io_defs io_scope_def drop_fd_def
        Fd_drop_def Fd_new_unchecked_def Fd_new_unchecked_with_borrow_def truncate_sys split: prod.splits)
qed

lemma close_alive:
  assumes "net_reads K dev alive nm at" "alive s"
  shows "same_net alive nm at s (sys_close K v s)"
  using assms unfolding net_reads_def by blast

lemma get_attr_alive:
  assumes net: "net_reads K (raw_fd d) alive nm at" and s: "alive s"
    and g: "g \<in> {0x8913, 0x8919, 0x8921, 0x8927, 0x8942}"
  shows "fst (get_attr K d (ioctl_read K g) f s) = f (at s g)"
proof -
  obtain s1 where r: "dev_request K d s = (Ok (net_request (nm s)), s1)" "same_net alive nm at s s1"
    using dev_request_alive [OF net s] .
  then have s1: "alive s1" "nm s1 = nm s" by (auto simp: same_net_def)
  let ?body = "\<lambda>fd. ioctl_read K g fd (net_request (nm s))"
  obtain v s2 where k: "same_net alive nm at s1 s2"
      and body: "with_ctl K ?body s1 = (fst (?body v s2), sys_close K v (snd (?body v s2)))"
    using with_ctl_alive [OF net s1(1)] by blast
  let ?a = "Ptr (ifreq_bytes (net_request (nm s)))"
  obtain q out s3 where i: "lk_ioctl K v g ?a s2 = ((q, out), s3)" by (metis prod.exhaust)
  have s2: "alive s2" "nm s2 = nm s" "at s2 = at s" using k r(2) by (auto simp: same_net_def)
  have "\<forall>g \<in> {0x8913, 0x8919, 0x8921, 0x8927, 0x8942}. \<forall>v u. length u = OVERWRITE_SIZE \<longrightarrow> reply_attr K alive nm at s2 g v u"
    using net s2(1) unfolding net_reads_def by blast
  from bspec [OF this g] have R: "reply_attr K alive nm at s2 g v (replicate OVERWRITE_SIZE 0)" by simp
  have "length (nm s) < IFNAMSIZ" using net s unfolding net_reads_def by blast
  then have "q \<noteq> -1 \<and> drop IFNAMSIZ out = at s g"
    using R i by (simp add: reply_attr_def net_ptr_def s2)
  then have "ioctl_read K g v (net_request (nm s)) s2 = (Ok (ifreq_of out), s3)" "ifr_ifru (ifreq_of out) = at s g"
    using i by (simp_all add: ioctl_read_def ioctl_def io_defs ifreq_of_def)
  then have "with_ctl K (\<lambda>fd. ioctl_read K g fd (net_request (nm s))) s1 = (Ok (ifreq_of out), sys_close K v s3)"
    using body by simp
  then show ?thesis using r \<open>ifr_ifru (ifreq_of out) = at s g\<close> by (simp add: get_attr_def io_defs)
qed

lemma set_attr_alive:
  assumes net: "net_reads K (raw_fd d) alive nm at" "net_stores K alive nm at" and s: "alive s"
    and c: "(c, g, w) \<in> set attr_setters" and w: "w \<le> length (f (net_request (nm s)))" and f: "length (f (net_request (nm s))) = OVERWRITE_SIZE"
    and ok: "io_bind (dev_request K d) (\<lambda>req. with_ctl K (\<lambda>fd. ioctl_write K c fd (Ptr (ifreq_bytes (req\<lparr>ifr_ifru := f req\<rparr>))))) s = (Ok (), s')"
  shows "alive s' \<and> take w (at s' g) = take w (f (net_request (nm s)))"
proof -
  obtain s1 where r: "dev_request K d s = (Ok (net_request (nm s)), s1)" "same_net alive nm at s s1"
    using dev_request_alive [OF net(1) s] .
  then have s1: "alive s1" "nm s1 = nm s" by (auto simp: same_net_def)
  let ?u = "f (net_request (nm s))"
  let ?a = "Ptr (ifreq_bytes (net_request (nm s)\<lparr>ifr_ifru := ?u\<rparr>))"
  let ?body = "\<lambda>fd. ioctl_write K c fd ?a"
  obtain v s2 where k: "same_net alive nm at s1 s2"
      and body: "with_ctl K ?body s1 = (fst (?body v s2), sys_close K v (snd (?body v s2)))"
    using with_ctl_alive [OF net(1) s1(1)] by blast
  obtain q out s3 where i: "lk_ioctl K v c ?a s2 = ((q, out), s3)" by (metis prod.exhaust)
  have s2: "alive s2" "nm s2 = nm s" "at s2 = at s" using k r(2) by (auto simp: same_net_def)
  have "with_ctl K (\<lambda>fd. ioctl_write K c fd ?a) s1 =
      (if q = -1 then Err (OsError (sys_errno K s3)) else Ok (), sys_close K v s3)"
    using i body by (simp add: ioctl_write_def ioctl_def io_defs)
  then have q: "q \<noteq> -1" "s' = sys_close K v s3"
    using ok r by (auto simp: io_defs split: if_splits)
  have "stored_attr K alive nm at s2 c g w v ?u"
    using net(2) s2(1) c f unfolding net_stores_def by blast
  then have "alive s3 \<and> take w (at s3 g) = take w ?u"
    using i q(1) by (simp add: stored_attr_def net_ptr_def s2)
  then show ?thesis using close_alive [OF net(1), of s3 v] q(2) by (simp add: same_net_def)
qed


lemma get_le16_blit: "2 \<le> length u \<Longrightarrow> get_le16 (blit u 0 (to_le16 w)) = w"
  by (simp add: get_le16_def to_le16_def to_be16_def blit_def)

lemma bit_enabled_flags: "bit (enabled_flags value f) 0 = value"
  by (simp add: enabled_flags_def IFF_UP_def IFF_RUNNING_def bit_simps)

lemma enabled_alive:
  assumes net: "net_reads K (raw_fd d) alive nm at" "net_stores K alive nm at" and s: "alive s"
    and ok: "enabled K d value s = (Ok (), s')"
  shows "alive s' \<and> bit (get_le16 (at s' 0x8913)) 0 = value"
proof -
  let ?set = "\<lambda>fd req. siocsifflags K fd (set_ifru (to_le16 (enabled_flags value (get_le16 (ifr_ifru req)))) req)"
  let ?body = "\<lambda>fd. io_bind (dev_request K d) (\<lambda>req. io_bind (siocgifflags K fd req) (?set fd))"
  obtain v s1 where k: "same_net alive nm at s s1"
      and body: "with_ctl K ?body s = (fst (?body v s1), sys_close K v (snd (?body v s1)))"
    using with_ctl_alive [OF net(1) s] by blast
  then have s1: "alive s1" "nm s1 = nm s" by (auto simp: same_net_def)
  obtain s2 where r: "dev_request K d s1 = (Ok (net_request (nm s1)), s2)" "same_net alive nm at s1 s2"
    using dev_request_alive [OF net(1) s1(1)] .
  then have s2: "alive s2" "nm s2 = nm s1" by (auto simp: same_net_def)
  let ?a = "net_ptr (nm s1) (replicate OVERWRITE_SIZE 0)"
  obtain q out s3 where i: "lk_ioctl K v 0x8913 ?a s2 = ((q, out), s3)" by (metis prod.exhaust)
  have "\<forall>g \<in> {0x8913, 0x8919, 0x8921, 0x8927, 0x8942}. \<forall>v u. length u = OVERWRITE_SIZE \<longrightarrow> reply_attr K alive nm at s2 g v u"
    using net s2(1) unfolding net_reads_def by blast
  from bspec [OF this, of "0x8913"] have "reply_attr K alive nm at s2 0x8913 v (replicate OVERWRITE_SIZE 0)" by simp
  then have q: "q \<noteq> -1" "out = nm s1 @ replicate (IFNAMSIZ - length (nm s1)) 0 @ at s2 0x8913" "same_net alive nm at s2 s3"
    using i by (simp_all add: reply_attr_def s2)
  have len: "length (nm s1) < IFNAMSIZ" "length (at s2 0x8913) = OVERWRITE_SIZE"
    using net s1(1) s2(1) unfolding net_reads_def by blast+
  let ?f = "enabled_flags value (get_le16 (at s2 0x8913))"
  let ?u = "blit (at s2 0x8913) 0 (to_le16 ?f)"
  let ?b = "net_ptr (nm s1) ?u"
  have of_out: "ifreq_of out = \<lparr>ifr_name = nm s1 @ replicate (IFNAMSIZ - length (nm s1)) 0, ifr_ifru = at s2 0x8913\<rparr>"
    using q(2) len by (simp add: ifreq_of_def)
  obtain p out' s4 where j: "lk_ioctl K v 0x8914 ?b s3 = ((p, out'), s4)" by (metis prod.exhaust)
  have "?body v s1 = (if p = -1 then Err (OsError (sys_errno K s4)) else Ok (), s4)"
    using r i j q(1) of_out by (simp add: siocgifflags_def siocsifflags_def ioctl_read_def ioctl_write_def ioctl_def io_defs
        net_ptr_def set_ifru_def)
  then have p: "p \<noteq> -1" "s' = sys_close K v s4"
    using ok body unfolding enabled_def by (auto split: if_splits)
  have s3: "alive s3" "nm s3 = nm s1" using q(3) s2 by (auto simp: same_net_def)
  have u: "length ?u = OVERWRITE_SIZE" using len by (simp add: to_le16_def to_be16_def OVERWRITE_SIZE_def)
  then have "stored_flags K alive nm at s3 v ?u" using net(2) s3(1) unfolding net_stores_def by blast
  then have "alive s4 \<and> bit (get_le16 (at s4 0x8913)) 0 = value"
    using j p(1) len by (simp add: stored_flags_def s3 get_le16_blit OVERWRITE_SIZE_def bit_enabled_flags)
  then show ?thesis using close_alive [OF net(1), of s4 v] p(2) by (simp add: same_net_def)
qed


lemma nth_of_take: "take w u = take w u' \<Longrightarrow> i < w \<Longrightarrow> u ! i = u' ! i"
  by (metis nth_take)

lemma get_le32_take: "take 4 u = take 4 u' \<Longrightarrow> get_le32 u = get_le32 u'"
  using nth_of_take [of 4 u u'] by (simp add: get_le32_def)

lemma length_to_le [simp]: "length (to_le32 w) = 4" "length (to_le16 v) = 2"
  by (simp_all add: to_le32_def to_be32_def to_le16_def to_be16_def)

lemma get_le32_to_le32 [simp]: "get_le32 (to_le32 w) = w"
  by (simp add: get_le32_def to_le32_def to_be32_def)

lemma set_attr_eq:
  "set_attr K d (\<lambda>fd r. ioctl_write K c fd (Ptr (ifreq_bytes r))) bs =
    io_bind (dev_request K d) (\<lambda>req. with_ctl K (\<lambda>fd. ioctl_write K c fd (Ptr (ifreq_bytes (req\<lparr>ifr_ifru := blit (ifr_ifru req) 0 bs\<rparr>)))))"
  by (simp add: set_attr_def set_ifru_def)

lemma set_value_alive:
  assumes net: "net_reads K (raw_fd d) alive nm at" "net_stores K alive nm at" and s: "alive s"
    and c: "(c, g, length bs) \<in> set attr_setters"
    and ok: "set_attr K d (\<lambda>fd r. ioctl_write K c fd (Ptr (ifreq_bytes r))) bs s = (Ok (), s')"
  shows "alive s' \<and> take (length bs) (at s' g) = bs"
proof -
  have "length bs \<le> OVERWRITE_SIZE" using c by (auto simp: attr_setters_def OVERWRITE_SIZE_def)
  then show ?thesis
    using set_attr_alive [OF net s c _ _ ok [unfolded set_attr_eq]]
    by (simp add: blit_def)
qed

lemma mtu_roundtrip:
  assumes net: "net_reads K (raw_fd d) alive nm at" "net_stores K alive nm at" and s: "alive s"
    and ok: "set_mtu K d m s = (Ok (), s')"
  shows "fst (mtu K d s') = Ok m"
proof -
  have "set_attr K d (\<lambda>fd r. ioctl_write K 0x8922 fd (Ptr (ifreq_bytes r))) (to_le32 (ucast m)) s = (Ok (), s')"
    using ok by (simp add: set_mtu_def siocsifmtu_def [abs_def])
  then have a: "alive s' \<and> take 4 (at s' 0x8921) = to_le32 (ucast m)"
    using set_value_alive [OF net s, of "0x8922" "0x8921" "to_le32 (ucast m)" s'] by (simp add: attr_setters_def)
  have "get_le32 (at s' 0x8921) = ucast m"
    using get_le32_take [of "at s' 0x8921" "to_le32 (ucast m)"] a by simp
  moreover have "sint (ucast m :: u32) = int (unat m)"
  proof -
    have m: "uint m < 65536" "0 \<le> uint m" using unsigned_less [of m, where ?'a = int] by simp_all
    then have "signed_take_bit 31 (uint m) = uint m"
      by (intro signed_take_bit_int_eq_self order_trans [of "- (2 ^ 31)" 0 "uint m"]) simp_all
    then show ?thesis using m by (simp add: sint_uint unsigned_ucast_eq take_bit_int_eq_self)
  qed
  moreover have "uint m \<le> 65535" using unsigned_less [of m, where ?'a = int] by simp
  ultimately show ?thesis
    using a by (simp add: mtu_def siocgifmtu_def get_attr_alive [OF net(1)] Let_def)
qed


lemma tx_queue_len_roundtrip:
  assumes net: "net_reads K (raw_fd d) alive nm at" "net_stores K alive nm at" and s: "alive s"
    and ok: "set_tx_queue_len K d q s = (Ok (), s')"
  shows "fst (tx_queue_len K d s') = Ok q"
proof -
  have "set_attr K d (\<lambda>fd r. ioctl_write K 0x8943 fd (Ptr (ifreq_bytes r))) (to_le32 q) s = (Ok (), s')"
    using ok by (simp add: set_tx_queue_len_def change_tx_queue_len_def [abs_def])
  then have a: "alive s' \<and> take 4 (at s' 0x8942) = to_le32 q"
    using set_value_alive [OF net s, of "0x8943" "0x8942" "to_le32 q" s'] by (simp add: attr_setters_def)
  then have "get_le32 (at s' 0x8942) = q"
    using get_le32_take [of "at s' 0x8942" "to_le32 q"] by simp
  then show ?thesis
    using \<open>get_le32 (at s' 0x8942) = q\<close> a
    by (simp add: tx_queue_len_def get_tx_queue_len_def get_attr_alive [OF net(1)])
qed

lemma mac_roundtrip:
  assumes net: "net_reads K (raw_fd d) alive nm at" "net_stores K alive nm at" and s: "alive s"
    and m: "length m = 6" and ok: "set_mac_address K d m s = (Ok (), s')"
  shows "fst (mac_address K d s') = Ok m"
proof -
  have "set_attr K d (\<lambda>fd r. ioctl_write K 0x8924 fd (Ptr (ifreq_bytes r))) (to_le16 ARPHRD_ETHER @ m) s = (Ok (), s')"
    using ok by (simp add: set_mac_address_def siocsifhwaddr_def [abs_def])
  then have a: "alive s' \<and> take 8 (at s' 0x8927) = to_le16 ARPHRD_ETHER @ m"
    using set_value_alive [OF net s, of "0x8924" "0x8927" "to_le16 ARPHRD_ETHER @ m" s'] m by (simp add: attr_setters_def)
  have "subslice 2 8 (at s' 0x8927) = drop 2 (take 8 (at s' 0x8927))" by (simp add: subslice_def drop_take)
  then have "subslice 2 8 (at s' 0x8927) = m" using a by simp
  then show ?thesis
    using \<open>subslice 2 8 (at s' 0x8927) = m\<close> a
    by (simp add: mac_address_def siocgifhwaddr_def get_attr_alive [OF net(1)])
qed

lemma broadcast_roundtrip:
  assumes net: "net_reads K (raw_fd d) alive nm at" "net_stores K alive nm at" and s: "alive s"
    and ok: "set_broadcast K d (V4 a) s = (Ok (), s')"
  shows "fst (broadcast K d s') = Ok (V4 a)"
proof -
  let ?u = "ipaddr_to_sockaddr linux_layout (V4 a) 0 (replicate OVERWRITE_SIZE 0) OVERWRITE_SIZE"
  have len: "length ?u = OVERWRITE_SIZE"
    by (simp add: length_ipaddr_to_sockaddr)
  have b: "alive s' \<and> take 16 (at s' 0x8919) = take 16 ?u"
    using set_attr_alive [OF net s, of "0x891a" "0x8919" 16 "\<lambda>req. ipaddr_to_sockaddr linux_layout (V4 a) 0 (ifr_ifru req) OVERWRITE_SIZE" s']
      ok len by (simp add: set_broadcast_def set_addr_attr_def siocsifbrdaddr_def attr_setters_def OVERWRITE_SIZE_def)
  have "take 16 ?u @ replicate 112 0 = rs_addr_to_sockaddr linux_layout (SockV4 a 0)"
    by (simp add: ipaddr_to_sockaddr_def socket_addr_new_def blit_def OVERWRITE_SIZE_def to_be16_def to_be32_def sa_header_def
        linux_layout_def numeral_eq_Suc)
  then have "socket_addr_try_from linux_layout (take 16 (at s' 0x8919) @ replicate 112 0) = Ok (SockV4 a 0)"
    using b sockaddr_of_v4 [of linux_layout a 0] by (simp add: socket_addr_try_from_def del: rs_addr_to_sockaddr.simps)
  then show ?thesis
    using \<open>socket_addr_try_from linux_layout _ = _\<close> b
    by (simp add: broadcast_def siocgifbrdaddr_def get_attr_alive [OF net(1)])
qed


text \<open>
  A system of this kind: the list of open descriptors, the interface name, the attributes and the offload
  mask of the device.  Everything succeeds.
\<close>

record net =
  n_open :: "int list"
  n_name :: "byte list"
  n_at :: "nat \<Rightarrow> byte list"
  n_mask :: nat

definition n_pad :: "byte list \<Rightarrow> byte list" where
  "n_pad n = n @ replicate (IFNAMSIZ - length n) 0"

definition n_fresh :: "net \<Rightarrow> int \<times> net" where
  "n_fresh s = (let v = foldr max (n_open s) 2 + 1 in (v, s\<lparr>n_open := v # n_open s\<rparr>))"

definition n_ioctl :: "int \<Rightarrow> nat \<Rightarrow> ioctl_arg \<Rightarrow> net \<Rightarrow> (int \<times> byte list) \<times> net" where
  "n_ioctl fd c a s =
     (let bs = (case a of Ptr bs \<Rightarrow> bs | Val _ \<Rightarrow> [])
      in if c = ior 210 then ((0, n_pad (n_name s) @ replicate OVERWRITE_SIZE 0), s)
      else if c = iow 202 then ((0, bs), s\<lparr>n_name := takeWhile (\<lambda>b. b \<noteq> 0) (take IFNAMSIZ bs)\<rparr>)
      else if c = iow 208 then ((0, []), s\<lparr>n_mask := (case a of Val v \<Rightarrow> v | Ptr _ \<Rightarrow> 0)\<rparr>)
      else if c \<in> {0x8913, 0x8919, 0x8921, 0x8927, 0x8942} then ((0, n_pad (n_name s) @ n_at s c), s)
      else case map_of [(0x8914, 0x8913), (0x8922, 0x8921), (0x8943, 0x8942), (0x891a, 0x8919), (0x8924, 0x8927)] c of
          Some g \<Rightarrow> ((0, bs), s\<lparr>n_at := (n_at s)(g := drop IFNAMSIZ bs)\<rparr>)
        | None \<Rightarrow> ((0, bs), s))"

definition net_sys :: "net lin_sys" where
  "net_sys = \<lparr>sys_read = (\<lambda>_ _ s. ((0, []), s)), sys_readv = (\<lambda>_ _ s. ((0, []), s)), sys_write = (\<lambda>_ bs s. (int (length bs), s)),
     sys_writev = (\<lambda>_ bs s. (int (length (concat bs)), s)), sys_fionbio = (\<lambda>_ _ s. (0, s)),
     sys_close = (\<lambda>v s. s\<lparr>n_open := filter (\<lambda>x. x \<noteq> v) (n_open s)\<rparr>), sys_errno = (\<lambda>_. 22), sys_iov_max = 1024,
     lk_socket = (\<lambda>_. n_fresh), lk_ioctl = n_ioctl, lk_exists = io_return True, lk_create_dir_all = io_return (),
     lk_mknod = (\<lambda>s. (0, s)), lk_open_tun = n_fresh, lk_if_nametoindex = (\<lambda>_ s. (3, s)),
     lk_interface_from_index = (\<lambda>i. io_return (unat i)), lk_interface_addresses = (\<lambda>_. io_return []),
     lk_interface_add_address = (\<lambda>_ _. io_return ()), lk_interface_remove_address = (\<lambda>_ _. io_return ()),
     lk_ipnet_new_assert = (\<lambda>a p. Ok (a, p)), lk_ip_mask_to_prefix = (\<lambda>_. None), lk_getifaddrs = io_return []\<rparr>"

lemma net_sys_simps [simp]:
  "lk_socket net_sys fam = n_fresh" "lk_ioctl net_sys = n_ioctl" "lk_open_tun net_sys = n_fresh"
  "sys_close net_sys v s = s\<lparr>n_open := filter (\<lambda>x. x \<noteq> v) (n_open s)\<rparr>" "lk_exists net_sys = io_return True"
  by (simp_all add: net_sys_def)

lemma foldr_max_ge: "x \<in> set xs \<Longrightarrow> (x :: int) \<le> foldr max xs b" "b \<le> foldr max xs b"
  by (induction xs) auto

lemma n_fresh_new: "opens_new (\<lambda>s. set (n_open s)) n_fresh"
proof -
  have "foldr max (n_open s) 2 + 1 \<notin> set (n_open s) \<and> \<not> foldr max (n_open s) 2 + 1 < 0" for s
    using foldr_max_ge(1) [of "foldr max (n_open s) 2 + 1" "n_open s" 2] foldr_max_ge(2) [of 2 "n_open s"] by auto
  then show ?thesis by (auto simp: opens_new_def n_fresh_def Let_def)
qed

lemma net_sys_account: "fd_account net_sys (\<lambda>s. set (n_open s))"
  using n_fresh_new
  by (auto simp: fd_account_def io_preserves_def n_ioctl_def Let_def io_return_def split: option.splits ioctl_arg.splits)
    (auto simp: net_sys_def io_return_def)

definition n_alive :: "net \<Rightarrow> bool" where
  "n_alive s \<longleftrightarrow> length (n_name s) < IFNAMSIZ \<and> (\<forall>b \<in> set (n_name s). 0 < b \<and> b < 0x80) \<and> (\<forall>g. length (n_at s g) = OVERWRITE_SIZE)"

lemma takeWhile_pad:
  assumes "\<forall>b \<in> set n. 0 < b" "length n < IFNAMSIZ"
  shows "takeWhile (\<lambda>b. b \<noteq> 0) (n_pad n @ xs) = (n :: byte list)"
proof -
  obtain k where "IFNAMSIZ - length n = Suc k" using assms(2) by (metis Suc_diff_Suc)
  moreover have "takeWhile (\<lambda>b. b \<noteq> 0) (n @ 0 # ys) = n" for ys
    using assms(1) by (subst takeWhile_append2) auto
  ultimately show ?thesis by (simp add: n_pad_def)
qed

lemma net_sys_reads: "net_reads net_sys dev n_alive n_name n_at"
proof -
  have "opened_ctl net_sys n_alive n_name n_at s fam" if "n_alive s" for s fam
    using that foldr_max_ge(2) [of 2 "n_open s"] by (auto simp: opened_ctl_def n_fresh_def Let_def same_net_def n_alive_def)
  moreover have "reply_name net_sys dev n_alive n_name n_at s a" if "n_alive s" for s a
    using that takeWhile_pad [of "n_name s"] by (auto simp: reply_name_def n_ioctl_def same_net_def n_alive_def)
  moreover have "reply_attr net_sys n_alive n_name n_at s g v u"
    if "n_alive s" "g \<in> {0x8913, 0x8919, 0x8921, 0x8927, 0x8942}" for s g v u
    using that by (auto simp: reply_attr_def n_ioctl_def same_net_def n_pad_def ior_def iow_def Let_def)
  ultimately show ?thesis unfolding net_reads_def by (auto simp: n_alive_def same_net_def)
qed

lemma net_sys_stores: "net_stores net_sys n_alive n_name n_at"
proof -
  have "drop IFNAMSIZ (ifreq_bytes \<lparr>ifr_name = n_name s @ replicate (IFNAMSIZ - length (n_name s)) 0, ifr_ifru = u\<rparr>) = u"
    if "n_alive s" for s u
    using that by (simp add: ifreq_bytes_def n_alive_def)
  then show ?thesis
    by (auto simp: net_stores_def attr_setters_def stored_attr_def stored_flags_def n_ioctl_def net_ptr_def ior_def iow_def
        Let_def n_alive_def)
qed


text \<open>
  C20. What was set is what is read.  On a system with the netdevice interface, when setting the MTU, the
  queue length, the broadcast address or the hardware address succeeds, reading it afterwards succeeds
  and gives the value; after enabling or disabling the interface the flag \<open>IFF_UP\<close> says so, and a disabled
  interface is not running.
\<close>

theorem config_set_get:
  assumes "net_reads K (raw_fd d) alive nm at" "net_stores K alive nm at" "alive s"
  shows "(set_mtu K d m s = (Ok (), s') \<longrightarrow> fst (mtu K d s') = Ok m)
    \<and> (set_tx_queue_len K d q s = (Ok (), s') \<longrightarrow> fst (tx_queue_len K d s') = Ok q)
    \<and> (set_broadcast K d (V4 b) s = (Ok (), s') \<longrightarrow> fst (broadcast K d s') = Ok (V4 b))
    \<and> (length h = 6 \<and> set_mac_address K d h s = (Ok (), s') \<longrightarrow> fst (mac_address K d s') = Ok h)
    \<and> (enabled K d v s = (Ok (), s') \<longrightarrow> bit (get_le16 (at s' 0x8913)) 0 = v)"
  using mtu_roundtrip [OF assms] tx_queue_len_roundtrip [OF assms] broadcast_roundtrip [OF assms]
    mac_roundtrip [OF assms] enabled_alive [OF assms] by blast

definition n_device :: LinuxDevice where
  "n_device = \<lparr>dev_vnet_hdr = True, dev_udp_gso = True, dev_fd = Fd_new_unchecked 3\<rparr>"

definition n_start :: net where
  "n_start = \<lparr>n_open = [3], n_name = [0x74, 0x75, 0x6E, 0x30], n_at = (\<lambda>_. replicate 24 0), n_mask = 0\<rparr>"

lemma n_start_alive: "n_alive n_start"
  by (simp add: n_alive_def n_start_def IFNAMSIZ_def OVERWRITE_SIZE_def)

lemma n_start_ok: "\<exists>s'. set_mtu net_sys n_device 1400 n_start = (Ok (), s')"
proof -
  obtain s1 where r: "dev_request net_sys n_device n_start = (Ok (net_request (n_name n_start)), s1)" "same_net n_alive n_name n_at n_start s1"
    using dev_request_alive [OF net_sys_reads n_start_alive] .
  let ?body = "\<lambda>fd. siocsifmtu net_sys fd (set_ifru (to_le32 (ucast (1400 :: u16))) (net_request (n_name n_start)))"
  obtain v s2 where "with_ctl net_sys ?body s1 = (fst (?body v s2), sys_close net_sys v (snd (?body v s2)))"
    using with_ctl_alive [OF net_sys_reads, of s1] r(2) unfolding same_net_def by blast
  moreover have "fst (?body v s2) = Ok ()"
    by (simp add: siocsifmtu_def ioctl_write_def ioctl_def io_defs n_ioctl_def ior_def iow_def Let_def)
  ultimately show ?thesis using r(1) by (simp add: set_mtu_def set_attr_def io_defs)
qed

theorem config_set_get_witness:
  "\<exists>s'. set_mtu net_sys n_device 1400 n_start = (Ok (), s') \<and> fst (mtu net_sys n_device s') = Ok 1400"
proof -
  obtain s' where "set_mtu net_sys n_device 1400 n_start = (Ok (), s')" using n_start_ok by blast
  moreover have "set_mtu net_sys n_device 1400 n_start = (Ok (), s') \<longrightarrow> fst (mtu net_sys n_device s') = Ok 1400"
    using config_set_get [OF net_sys_reads net_sys_stores n_start_alive, of n_device 1400 s'] by blast
  ultimately show ?thesis by blast
qed

section \<open>Creation\<close>

text \<open>The offload mask of the device, as far as \<open>TUNSETOFFLOAD\<close> goes: a request that succeeds stores its argument.\<close>

definition mask_account :: "('s, 'x) lin_sys_scheme \<Rightarrow> ('s \<Rightarrow> nat) \<Rightarrow> bool" where
  "mask_account K msk \<longleftrightarrow> (\<forall>fd v s. case lk_ioctl K fd (iow 208) (Val v) s of
     ((r, _), s') \<Rightarrow> msk s' = (if r = -1 then msk s else v))"

lemma dev_new_Ok:
  assumes "dev_new K config s = (Ok d, s')"
  shows "\<exists>v s1. new_offload K v (opt_or (cfg_offload config) False) s1 = (Ok (dev_vnet_hdr d, dev_udp_gso d), s')"
  using assms
  by (auto simp: dev_new_prefix new_body_def io_then_def io_bind_def io_unless_def io_return_def split: prod.splits res.splits)
    blast

lemma new_offload_Ok:
  assumes "mask_account K msk" "new_offload K fd offload s = (Ok (vnet, udp), s')"
  shows "(vnet \<longrightarrow> offload \<and> msk s' = (if udp then TCP_OFFLOADS + UDP_OFFLOADS else TCP_OFFLOADS)) \<and> (udp \<longrightarrow> vnet)"
proof -
  have m: "lk_ioctl K fd (iow 208) (Val v) s = ((r, out), s') \<Longrightarrow> msk s' = (if r = -1 then msk s else v)" for v s r out s'
    using assms(1) unfolding mask_account_def by (auto dest!: spec [of _ fd] spec [of _ v] spec [of _ s])
  show ?thesis
    using assms(2) by (auto simp: new_offload_def tunsetoffload_def ioctl_write_def ioctl_def io_defs
        split: if_splits prod.splits dest!: m)
qed

text \<open>
  A device that assumes virtio headers was asked for offloading, and the offload mask the kernel holds
  for it is then exactly what the device assumes: TCP and UDP when it will merge UDP, else TCP alone.
\<close>

theorem new_offload_agrees:
  assumes "mask_account K msk" "dev_new K config s = (Ok d, s')"
  shows "(dev_vnet_hdr d \<longrightarrow> opt_or (cfg_offload config) False
      \<and> msk s' = (if dev_udp_gso d then TCP_OFFLOADS + UDP_OFFLOADS else TCP_OFFLOADS)) \<and> (dev_udp_gso d \<longrightarrow> dev_vnet_hdr d)"
  using dev_new_Ok [OF assms(2)] new_offload_Ok [OF assms(1)] by metis

lemma net_sys_mask: "mask_account net_sys n_mask"
  by (simp add: mask_account_def n_ioctl_def ior_def iow_def)

definition n_offload :: DeviceConfig where
  "n_offload = \<lparr>cfg_dev_name = Some [0x74, 0x75, 0x6E, 0x30], cfg_packet_information = None, cfg_offload = Some True\<rparr>"

definition n_made :: LinuxDevice where
  "n_made = \<lparr>dev_vnet_hdr = True, dev_udp_gso = True, dev_fd = Fd_new_unchecked 4\<rparr>"

lemma n_new: "dev_new net_sys n_offload n_start = (Ok \<lparr>dev_vnet_hdr = True, dev_udp_gso = True, dev_fd = Fd_new_unchecked 4\<rparr>,
    n_start\<lparr>n_open := [4, 3], n_mask := 103\<rparr>)"
  by (simp add: dev_new_def n_offload_def new_dev_name_def cstring_new_def IFNAMSIZ_def make_node_def io_defs n_fresh_def n_start_def
      Fd_new_def Fd_new_unchecked_def Fd_new_unchecked_with_borrow_def io_unless_def new_request_def ifreq_bytes_def blit_def
      ifreq_zeroed_def set_ifru_def tunsetiff_def ioctl_read_def ioctl_def n_ioctl_def ior_def iow_def new_offload_def opt_or_def
      tunsetoffload_def ioctl_write_def TCP_OFFLOADS_def UDP_OFFLOADS_def)

theorem new_offload_agrees_witness:
  "n_mask (snd (dev_new net_sys n_offload n_start)) = TCP_OFFLOADS + UDP_OFFLOADS"
  using new_offload_agrees [OF net_sys_mask n_new] by (simp add: n_new)

text \<open>
  When offloading is asked for and the kernel refuses \<open>TUNSETOFFLOAD\<close>, creation still succeeds, with a
  device that assumes no virtio headers although \<open>IFF_VNET_HDR\<close>, by which the kernel puts one before
  every packet, was asked for in \<open>TUNSETIFF\<close> and stays set.
\<close>

theorem new_ignores_refusal:
  assumes "opt_or (cfg_offload config) False" "\<And>fd a s. fst (fst (lk_ioctl K fd (iow 208) a s)) = -1"
    and "dev_new K config s = (Ok d, s')"
  shows "new_flags config AND IFF_VNET_HDR \<noteq> 0 \<and> \<not> dev_vnet_hdr d \<and> \<not> dev_udp_gso d"
proof -
  obtain v s1 where "new_offload K v True s1 = (Ok (dev_vnet_hdr d, dev_udp_gso d), s')"
    using dev_new_Ok [OF assms(3)] assms(1) by metis
  then have "\<not> dev_vnet_hdr d \<and> \<not> dev_udp_gso d"
    using assms(2) by (auto simp: new_offload_def tunsetoffload_def ioctl_write_def ioctl_def io_defs split: prod.splits if_splits)
      (metis fst_conv)+
  moreover have "new_flags config AND IFF_VNET_HDR = IFF_VNET_HDR"
    using assms(1) by (simp add: new_flags_def IFF_TUN_def IFF_NO_PI_def IFF_VNET_HDR_def)
  ultimately show ?thesis by (simp add: IFF_VNET_HDR_def)
qed

definition refusing_sys :: "net lin_sys" where
  "refusing_sys = net_sys\<lparr>lk_ioctl := (\<lambda>fd c a s. if c = iow 208 then ((-1, []), s) else n_ioctl fd c a s)\<rparr>"

lemma refusing_new: "dev_new refusing_sys n_offload n_start = (Ok \<lparr>dev_vnet_hdr = False, dev_udp_gso = False, dev_fd = Fd_new_unchecked 4\<rparr>,
    n_start\<lparr>n_open := [4, 3]\<rparr>)"
  by (simp add: refusing_sys_def dev_new_def n_offload_def new_dev_name_def cstring_new_def IFNAMSIZ_def make_node_def io_defs n_fresh_def n_start_def
      Fd_new_def Fd_new_unchecked_def Fd_new_unchecked_with_borrow_def io_unless_def new_request_def ifreq_bytes_def blit_def
      ifreq_zeroed_def set_ifru_def tunsetiff_def ioctl_read_def ioctl_def n_ioctl_def ior_def iow_def new_offload_def opt_or_def
      tunsetoffload_def ioctl_write_def net_sys_def)

theorem new_ignores_refusal_witness:
  "\<exists>d. fst (dev_new refusing_sys n_offload n_start) = Ok d \<and> new_flags n_offload AND IFF_VNET_HDR \<noteq> 0 \<and> \<not> dev_vnet_hdr d"
proof -
  have "fst (fst (lk_ioctl refusing_sys fd (iow 208) a s)) = -1" for fd a s by (simp add: refusing_sys_def)
  moreover have "opt_or (cfg_offload n_offload) False" by (simp add: n_offload_def opt_or_def)
  ultimately show ?thesis using new_ignores_refusal [OF _ _ refusing_new] by (simp add: refusing_new)
qed

section \<open>Names and arguments\<close>

lemma net_sys_name:
  assumes "\<forall>b \<in> set (n_name s). 0 < b" "length (n_name s) < IFNAMSIZ"
  shows "name_impl net_sys d s = (Ok (utf8_lossy (n_name s)), s)"
proof -
  have "ifreq_bytes (ifreq_of out) = out" for out by (simp add: ifreq_bytes_def ifreq_of_def)
  then show ?thesis
    using takeWhile_pad [OF assms] by (simp add: name_impl_def name_def tungetiff_def ioctl_read_def ioctl_def n_ioctl_def io_defs)
qed

text \<open>
  An interface name given by the caller is checked before the system is touched: one with a NUL or
  longer than 15 bytes is refused, in creation and in renaming, and nothing was called; any other is
  in the request in full, padded with zeros, so that it is NUL-terminated within its 16 bytes.
\<close>

theorem names_checked:
  "if 0 \<in> set n \<or> 15 < length n
   then is_invalid_input (fst (set_name K d n s)) \<and> snd (set_name K d n s) = s
      \<and> is_invalid_input (fst (dev_new K (config\<lparr>cfg_dev_name := Some n\<rparr>) s)) \<and> snd (dev_new K (config\<lparr>cfg_dev_name := Some n\<rparr>) s) = s
   else new_dev_name (config\<lparr>cfg_dev_name := Some n\<rparr>) = Ok (Some n)
      \<and> ifr_name (new_request (Some n) config) = n @ replicate (16 - length n) 0
      \<and> takeWhile (\<lambda>b. b \<noteq> 0) (ifr_name (new_request (Some n) config)) = n"
proof (cases "0 \<in> set n \<or> 15 < length n")
  case True
  then show ?thesis
    by (auto simp: set_name_def dev_new_def new_dev_name_def cstring_new_def IFNAMSIZ_def io_defs invalid_input_def is_invalid_input_def)
next
  case False
  then have "ifr_name (new_request (Some n) config) = n @ replicate (16 - length n) 0"
    by (auto simp: new_request_def set_ifru_def ifreq_zeroed_def IFNAMSIZ_def blit_def Suc_diff_le not_less
        simp flip: replicate_Suc)
  moreover have "takeWhile (\<lambda>b. b \<noteq> 0) (n @ replicate (16 - length n) 0) = n"
  proof -
    have "\<forall>b \<in> set n. 0 < b" using False by (auto simp: word_gt_0)
    then show ?thesis using False takeWhile_pad [of n "[]"] by (simp add: n_pad_def IFNAMSIZ_def)
  qed
  ultimately show ?thesis using False by (simp add: new_dev_name_def cstring_new_def IFNAMSIZ_def)
qed

text \<open>
  The name the kernel reports is not under the caller's control, and its lossy decoding can be longer
  than it is: an interface name of six bytes that are no UTF-8 gives a request whose name no longer
  fits into \<open>ifr_name\<close>.
\<close>

theorem request_overflow:
  "length (replicate 6 (0xFF :: byte)) < IFNAMSIZ \<and> length (utf8_lossy (replicate 6 0xFF)) = 18
    \<and> fst (dev_request net_sys n_device (n_start\<lparr>n_name := replicate 6 0xFF\<rparr>)) = Panic"
proof -
  have step: "utf8_lossy (0xFF # bs) = [0xEF, 0xBF, 0xBD] @ utf8_lossy bs" for bs
  proof -
    have "utf8_width 0xFF = 0" by (simp add: utf8_width_def)
    moreover from this have "utf8_run 0xFF bs = 0" by (simp add: utf8_run_def split: list.splits)
    ultimately show ?thesis by simp
  qed
  have "length (utf8_lossy (replicate k 0xFF)) = 3 * k" for k
    by (induction k) (simp_all add: step del: utf8_lossy.simps(2))
  then have l: "length (utf8_lossy (replicate 6 0xFF)) = 18" by simp
  have "name_impl net_sys n_device (n_start\<lparr>n_name := replicate 6 0xFF\<rparr>) =
      (Ok (utf8_lossy (replicate 6 0xFF)), n_start\<lparr>n_name := replicate 6 0xFF\<rparr>)"
    using net_sys_name [of "n_start\<lparr>n_name := replicate 6 0xFF\<rparr>" n_device] by (simp add: IFNAMSIZ_def)
  then show ?thesis using l by (simp add: dev_request_def io_defs request_def IFNAMSIZ_def del: replicate.simps)
qed

text \<open>
  \<open>set_network_address\<close> removes the old addresses before it looks at its arguments: with an address that
  is none it fails, and by then every IPv4 address is gone.
\<close>

lemma set_network_address_removes_first:
  assumes "remove_all_address_v4 K d s = (Ok (), s')" "ipv4 parse address = Err e"
  shows "set_network_address K parse d address nmask dst s = (Err e, s')"
  using assms by (simp add: set_network_address_def io_defs)

text \<open>
  The three requests about ownership and persistence hand the kernel the address of a number where
  tun's \<open>TUNSETPERSIST\<close>, \<open>TUNSETOWNER\<close> and \<open>TUNSETGROUP\<close> take the number itself as their argument.
\<close>

lemma owner_by_pointer:
  "user K d v s = io_map (\<lambda>_. ()) (ioctl K (iow 204) (raw_fd d) (Ptr (to_le32 v))) s"
  "group K d v s = io_map (\<lambda>_. ()) (ioctl K (iow 206) (raw_fd d) (Ptr (to_le32 v))) s"
  by (simp_all add: user_def group_def tunsetowner_def tunsetgroup_def ioctl_write_def)

text \<open>The account of descriptors on the example system, from creation to the end.\<close>

theorem device_lifecycle_closes_witness:
  "raw_fd n_made \<notin> set (n_open n_start) \<and> set (n_open (dev_drop net_sys n_made (run_ops net_sys (\<lambda>_. None, \<lambda>_. None) n_made
      [SetMtu 1400, Mtu, Enabled True, Name] (n_start\<lparr>n_open := [4, 3], n_mask := 103\<rparr>)))) = set (n_open n_start)"
  using device_lifecycle_closes [OF net_sys_account, where config = n_offload and s = n_start
      and P = "(\<lambda>_. None, \<lambda>_. None)" and ops = "[SetMtu 1400, Mtu, Enabled True, Name]"]
  unfolding n_new n_made_def by simp

end
