(* ===== verification/Builder.thy ===== *)
theory Builder
  imports LinuxSpec AsyncUnix
begin

text \<open>
  The builder (\<open>src/builder.rs\<close>) with the fields it has on Linux, and how it makes and configures a
  device.  The device is seen through the four operations the builder calls, the record \<open>device_ops\<close>.
\<close>

section \<open>The builder\<close>

type_synonym IPV4 = "Ipv4Addr res \<times> byte res \<times> Ipv4Addr res option"

record DeviceBuilder =
  b_dev_name :: "byte list option"
  b_enabled :: "bool option"
  b_mtu :: "u16 option"
  b_ipv4 :: "IPV4 option"
  b_ipv6 :: "(Ipv6Addr res \<times> byte res) list option"
  b_packet_information :: "bool option"
  b_offload :: "bool option"

definition builder_default :: DeviceBuilder where
  "builder_default = \<lparr>b_dev_name = None, b_enabled = None, b_mtu = None, b_ipv4 = None, b_ipv6 = None,
     b_packet_information = None, b_offload = None\<rparr>"

definition with_enable :: "bool \<Rightarrow> DeviceBuilder \<Rightarrow> DeviceBuilder" where
  "with_enable e b = b\<lparr>b_enabled := Some e\<rparr>"

definition builder_new :: DeviceBuilder where
  "builder_new = with_enable True builder_default"

definition with_name :: "byte list \<Rightarrow> DeviceBuilder \<Rightarrow> DeviceBuilder" where
  "with_name n b = b\<lparr>b_dev_name := Some n\<rparr>"

definition with_mtu :: "u16 \<Rightarrow> DeviceBuilder \<Rightarrow> DeviceBuilder" where
  "with_mtu m b = b\<lparr>b_mtu := Some m\<rparr>"

text \<open>Conversion errors are kept for \<open>config\<close>.\<close>

definition with_ipv4 :: "(string \<Rightarrow> Ipv4Addr option) \<Rightarrow> addr4_arg \<Rightarrow> Ipv4Addr mask_arg \<Rightarrow> addr4_arg option
    \<Rightarrow> DeviceBuilder \<Rightarrow> DeviceBuilder" where
  "with_ipv4 parse address msk destination b =
     b\<lparr>b_ipv4 := Some (ipv4 parse address, prefix4 parse msk, map_option (ipv4 parse) destination)\<rparr>"

definition with_ipv6 :: "(string \<Rightarrow> Ipv6Addr option) \<Rightarrow> addr6_arg \<Rightarrow> Ipv6Addr mask_arg \<Rightarrow> DeviceBuilder \<Rightarrow> DeviceBuilder" where
  "with_ipv6 parse address msk b = (case b_ipv6 b of
     Some v \<Rightarrow> b\<lparr>b_ipv6 := Some (v @ [(ipv6 parse address, prefix6 parse msk)])\<rparr>
   | None \<Rightarrow> b\<lparr>b_ipv6 := Some [(ipv6 parse address, prefix6 parse msk)]\<rparr>)"

definition with_packet_information :: "bool \<Rightarrow> DeviceBuilder \<Rightarrow> DeviceBuilder" where
  "with_packet_information v b = b\<lparr>b_packet_information := Some v\<rparr>"

definition with_offload :: "bool \<Rightarrow> DeviceBuilder \<Rightarrow> DeviceBuilder" where
  "with_offload v b = b\<lparr>b_offload := Some v\<rparr>"

section \<open>Building\<close>

text \<open>\<open>take\<close> leaves \<open>None\<close> in the builder.\<close>

definition build_config :: "DeviceBuilder \<Rightarrow> DeviceConfig \<times> DeviceBuilder" where
  "build_config b =
     (\<lparr>cfg_dev_name = b_dev_name b, cfg_packet_information = b_packet_information b, cfg_offload = b_offload b\<rparr>,
      b\<lparr>b_dev_name := None, b_packet_information := None, b_offload := None\<rparr>)"

record 's device_ops =
  op_set_mtu :: "u16 \<Rightarrow> ('s, unit) io"
  op_set_network_address :: "Ipv4Addr \<Rightarrow> byte \<Rightarrow> Ipv4Addr option \<Rightarrow> ('s, unit) io"
  op_add_address_v6 :: "Ipv6Addr \<Rightarrow> byte \<Rightarrow> ('s, unit) io"
  op_enabled :: "bool \<Rightarrow> ('s, unit) io"

definition transpose_res :: "'a res option \<Rightarrow> 'a option res" where
  "transpose_res x = (case x of None \<Rightarrow> Ok None | Some r \<Rightarrow> bind_res r (\<lambda>a. Ok (Some a)))"

definition config :: "'s device_ops \<Rightarrow> DeviceBuilder \<Rightarrow> ('s, unit) io" where
  "config D b =
     io_then (case b_mtu b of Some m \<Rightarrow> op_set_mtu D m | None \<Rightarrow> io_return ())
    (io_then (case b_ipv4 b of
         Some (address, prefix, destination) \<Rightarrow>
           io_bind (io_res prefix) (\<lambda>prefix.
           io_bind (io_res address) (\<lambda>address.
           io_bind (io_res (transpose_res destination)) (\<lambda>destination.
           op_set_network_address D address prefix destination)))
       | None \<Rightarrow> io_return ())
    (io_then (case b_ipv6 b of
         Some addrs \<Rightarrow> io_each (\<lambda>(address, prefix).
           io_bind (io_res prefix) (\<lambda>prefix.
           io_bind (io_res address) (\<lambda>address.
           op_add_address_v6 D address prefix))) addrs
       | None \<Rightarrow> io_return ())
    (case b_enabled b of Some e \<Rightarrow> op_enabled D e | None \<Rightarrow> io_return ())))"

text \<open>The operations of the Linux device at the argument types the builder uses.\<close>

definition linux_ops :: "('s, 'x) lin_sys_scheme \<Rightarrow> LinuxDevice \<Rightarrow> 's device_ops" where
  "linux_ops K d = \<lparr>op_set_mtu = set_mtu K d,
     op_set_network_address = (\<lambda>a p dst. set_network_address K (\<lambda>_. None) d (Ipv4Arg a) (PrefixArg p) (map_option Ipv4Arg dst)),
     op_add_address_v6 = (\<lambda>a p. add_address_v6 K (\<lambda>_. None) d (Ipv6Arg a) (PrefixArg p)),
     op_enabled = enabled K d\<rparr>"

definition build_sync :: "('s, 'x) lin_sys_scheme \<Rightarrow> DeviceBuilder \<Rightarrow> ('s, LinuxDevice) io" where
  "build_sync K b = (case build_config b of (cfg, b) \<Rightarrow>
     io_bind (dev_new K cfg) (\<lambda>d. io_unless (io_then (config (linux_ops K d) b) (io_return d)) (dev_drop K d)))"

definition build_async :: "('s, 'x) lin_sys_scheme \<Rightarrow> (Fd \<Rightarrow> ('s, unit) io) \<Rightarrow> DeviceBuilder \<Rightarrow> ('s, LinuxDevice) io" where
  "build_async K register b = io_bind (build_sync K b) (\<lambda>d. io_map (\<lambda>_. d) (new_dev (fd_sys.truncate K) register (dev_fd d)))"

section \<open>The plan of a configuration\<close>

text \<open>What is done to the device and in which order, and the conversion error that ends it, if there is one.\<close>

datatype device_call = SetMtuTo u16 | SetNetwork Ipv4Addr byte "Ipv4Addr option" | AddV6 Ipv6Addr byte | SetEnabled bool

fun do_call :: "'s device_ops \<Rightarrow> device_call \<Rightarrow> ('s, unit) io" where
  "do_call D (SetMtuTo m) = op_set_mtu D m"
| "do_call D (SetNetwork a p dst) = op_set_network_address D a p dst"
| "do_call D (AddV6 a p) = op_add_address_v6 D a p"
| "do_call D (SetEnabled e) = op_enabled D e"

type_synonym call_plan = "device_call list \<times> unit res"

definition then_plan :: "call_plan \<Rightarrow> call_plan \<Rightarrow> call_plan" where
  "then_plan p q = (case snd p of Ok _ \<Rightarrow> (fst p @ fst q, snd q) | Err e \<Rightarrow> (fst p, Err e) | Panic \<Rightarrow> (fst p, Panic))"

definition call_of :: "device_call res \<Rightarrow> call_plan" where
  "call_of r = (case r of Ok c \<Rightarrow> ([c], Ok ()) | Err e \<Rightarrow> ([], Err e) | Panic \<Rightarrow> ([], Panic))"

fun v6_plan :: "(Ipv6Addr res \<times> byte res) list \<Rightarrow> call_plan" where
  "v6_plan [] = ([], Ok ())"
| "v6_plan ((address, prefix) # xs) =
     then_plan (call_of (bind_res prefix (\<lambda>p. bind_res address (\<lambda>a. Ok (AddV6 a p))))) (v6_plan xs)"

definition plan :: "DeviceBuilder \<Rightarrow> call_plan" where
  "plan b =
     then_plan (case b_mtu b of Some m \<Rightarrow> ([SetMtuTo m], Ok ()) | None \<Rightarrow> ([], Ok ()))
    (then_plan (case b_ipv4 b of
         Some (address, prefix, destination) \<Rightarrow> call_of (bind_res prefix (\<lambda>p. bind_res address (\<lambda>a.
           bind_res (transpose_res destination) (\<lambda>dst. Ok (SetNetwork a p dst)))))
       | None \<Rightarrow> ([], Ok ()))
    (then_plan (case b_ipv6 b of Some xs \<Rightarrow> v6_plan xs | None \<Rightarrow> ([], Ok ()))
    (case b_enabled b of Some e \<Rightarrow> ([SetEnabled e], Ok ()) | None \<Rightarrow> ([], Ok ()))))"

definition run_plan :: "'s device_ops \<Rightarrow> call_plan \<Rightarrow> ('s, unit) io" where
  "run_plan D p = io_then (io_each (do_call D) (fst p)) (io_res (snd p))"

lemma io_res_simps [simp]:
  "io_res (Ok a) = io_return a"
  "io_bind (io_res (Err e)) f = io_res (Err e)" "io_bind (io_res Panic) g = io_res Panic"
  by (auto simp: io_defs fun_eq_iff)

lemma io_then_simps [simp]:
  "io_then (io_return a) n = n" "io_then (io_res (Err e)) n = io_res (Err e)" "io_then (io_res Panic) n = io_res Panic"
  by (simp_all add: io_then_def)

lemma io_then_unit [simp]: "io_then m (io_return ()) = (m :: ('s, unit) io)"
proof -
  have "(\<lambda>_ :: unit. io_return ()) = io_return" by (auto simp: fun_eq_iff)
  then show ?thesis by (simp add: io_then_def)
qed

lemma io_then_assoc: "io_then (io_then l m) n = io_then l (io_then m n)"
  by (simp add: io_then_def io_bind_assoc)

lemma run_then_plan: "run_plan D (then_plan p q) = io_then (run_plan D p) (run_plan D q)"
  by (cases "snd p") (simp_all add: run_plan_def then_plan_def io_each_append io_then_assoc)

lemma run_single: "run_plan D ([c], Ok ()) = do_call D c" "run_plan D ([], Ok ()) = io_return ()"
  by (simp_all add: run_plan_def)

lemma run_call_of: "run_plan D (call_of r) = io_bind (io_res r) (do_call D)"
  by (cases r) (simp_all add: call_of_def run_plan_def)

lemma io_res_bind: "io_bind (io_res (bind_res r f)) g = io_bind (io_res r) (\<lambda>a. io_bind (io_res (f a)) g)"
  by (cases r) simp_all

lemma run_v6_plan: "run_plan D (v6_plan xs) = io_each (\<lambda>(address, prefix).
    io_bind (io_res prefix) (\<lambda>prefix. io_bind (io_res address) (\<lambda>address. op_add_address_v6 D address prefix))) xs"
  by (induction xs rule: v6_plan.induct) (simp_all add: run_single run_then_plan run_call_of io_res_bind)

lemma config_runs_plan_eq: "config D b = run_plan D (plan b)"
proof -
  have 1: "run_plan D (case b_mtu b of Some m \<Rightarrow> ([SetMtuTo m], Ok ()) | None \<Rightarrow> ([], Ok ())) =
      (case b_mtu b of Some m \<Rightarrow> op_set_mtu D m | None \<Rightarrow> io_return ())"
    by (cases "b_mtu b") (simp_all add: run_single)
  have 2: "run_plan D (case b_ipv4 b of Some (a, p, dst) \<Rightarrow> call_of (bind_res p (\<lambda>p. bind_res a (\<lambda>a.
        bind_res (transpose_res dst) (\<lambda>dst. Ok (SetNetwork a p dst))))) | None \<Rightarrow> ([], Ok ())) =
      (case b_ipv4 b of Some (a, p, dst) \<Rightarrow> io_bind (io_res p) (\<lambda>p. io_bind (io_res a) (\<lambda>a.
        io_bind (io_res (transpose_res dst)) (\<lambda>dst. op_set_network_address D a p dst))) | None \<Rightarrow> io_return ())"
    by (cases "b_ipv4 b") (simp_all add: run_single run_call_of io_res_bind split: prod.splits)
  have 3: "run_plan D (case b_ipv6 b of Some xs \<Rightarrow> v6_plan xs | None \<Rightarrow> ([], Ok ())) =
      (case b_ipv6 b of Some xs \<Rightarrow> run_plan D (v6_plan xs) | None \<Rightarrow> io_return ())"
    by (cases "b_ipv6 b") (simp_all add: run_single)
  have 4: "run_plan D (case b_enabled b of Some e \<Rightarrow> ([SetEnabled e], Ok ()) | None \<Rightarrow> ([], Ok ())) =
      (case b_enabled b of Some e \<Rightarrow> op_enabled D e | None \<Rightarrow> io_return ())"
    by (cases "b_enabled b") (simp_all add: run_single)
  show ?thesis by (simp only: config_def plan_def run_then_plan 1 2 3 4 run_v6_plan)
qed


lemma fold_with_ipv6:
  "b_ipv6 (fold (\<lambda>(a, p). with_ipv6 parse (Ipv6Arg a) (PrefixArg p)) v6 (b\<lparr>b_ipv6 := Some l\<rparr>)) =
    Some (l @ map (\<lambda>(a, p). (Ok a, prefix6 parse (PrefixArg p))) v6)"
  "fold (\<lambda>(a, p). with_ipv6 parse (Ipv6Arg a) (PrefixArg p)) v6 (b\<lparr>b_ipv6 := Some l\<rparr>) =
    b\<lparr>b_ipv6 := Some (l @ map (\<lambda>(a, p). (Ok a, prefix6 parse (PrefixArg p))) v6)\<rparr>"
  by (induction v6 arbitrary: l) (auto simp: with_ipv6_def)

lemma fold_with_ipv6_None:
  assumes "b_ipv6 b = None"
  shows "fold (\<lambda>(a, p). with_ipv6 parse (Ipv6Arg a) (PrefixArg p)) v6 b =
    (if v6 = [] then b else b\<lparr>b_ipv6 := Some (map (\<lambda>(a, p). (Ok a, prefix6 parse (PrefixArg p))) v6)\<rparr>)"
proof (cases v6)
  case (Cons x xs)
  obtain a p where x: "x = (a, p)" by force
  have "with_ipv6 parse (Ipv6Arg a) (PrefixArg p) b = b\<lparr>b_ipv6 := Some [(Ok a, prefix6 parse (PrefixArg p))]\<rparr>"
    using assms by (simp add: with_ipv6_def)
  then show ?thesis by (simp add: Cons x fold_with_ipv6(2) del: prefix6.simps)
qed simp

lemma v6_plan_valid:
  "list_all (\<lambda>(a, p). p \<le> 128) v6 \<Longrightarrow>
    v6_plan (map (\<lambda>(a, p). (Ok a, prefix6 parse (PrefixArg p))) v6) = (map (\<lambda>(a, p). AddV6 a p) v6, Ok ())"
  by (induction v6) (auto simp: then_plan_def call_of_def not_less)

text \<open>
  A builder that was given a valid IPv4 address with prefix, an MTU and valid IPv6 addresses plans exactly
  these, the IPv6 addresses all and in order, then to enable the device unless told otherwise; the last
  call of a setter counts.
\<close>

theorem builder_plan:
  assumes "list_all (\<lambda>(a, p). p \<le> 128) v6" "p \<le> 32"
  shows "plan (fold (\<lambda>(a, p). with_ipv6 parse6 (Ipv6Arg a) (PrefixArg p)) v6
      (with_ipv4 parse4 (Ipv4Arg a) (PrefixArg p) (map_option Ipv4Arg dst) (with_mtu m (with_mtu m' (with_name n builder_new)))))
    = (SetMtuTo m # SetNetwork a p dst # map (\<lambda>(a, p). AddV6 a p) v6 @ [SetEnabled True], Ok ())"
proof -
  let ?b = "with_ipv4 parse4 (Ipv4Arg a) (PrefixArg p) (map_option Ipv4Arg dst) (with_mtu m (with_mtu m' (with_name n builder_new)))"
  have b: "b_ipv6 ?b = None" "b_mtu ?b = Some m" "b_enabled ?b = Some True"
      "b_ipv4 ?b = Some (Ok a, Ok p, map_option (ipv4 parse4) (map_option Ipv4Arg dst))"
    using assms(2) by (simp_all add: with_ipv4_def with_mtu_def with_name_def builder_new_def with_enable_def builder_default_def not_less)
  have "transpose_res (map_option (ipv4 parse4) (map_option Ipv4Arg dst)) = Ok dst"
    by (cases dst) (simp_all add: transpose_res_def)
  then show ?thesis
    using v6_plan_valid [OF assms(1), of parse6]
    by (simp add: plan_def fold_with_ipv6_None [OF b(1)] b then_plan_def call_of_def del: prefix6.simps)
qed

theorem builder_plan_witness:
  "plan (with_ipv6 (\<lambda>_. None) (Ipv6Arg 2) (PrefixArg 64) (with_ipv6 (\<lambda>_. None) (Ipv6Arg 1) (PrefixArg 64)
      (with_ipv4 (\<lambda>_. None) (Ipv4Arg 7) (PrefixArg 24) None (with_mtu 1400 (with_mtu 9000 (with_name [0x61] builder_new))))))
    = ([SetMtuTo 1400, SetNetwork 7 24 None, AddV6 1 64, AddV6 2 64, SetEnabled True], Ok ())"
  using builder_plan [of "[(1, 64), (2, 64)]" 24 "\<lambda>_. None" "\<lambda>_. None" 7 None 1400 9000 "[0x61]"] by simp



lemma config_preserves:
  assumes acc: "fd_account K opens"
  shows "io_preserves opens (config (linux_ops K d) b)"
proof -
  have op: "io_preserves opens (run_op K (\<lambda>_. None, \<lambda>_. None) d a)" for a by (rule run_op_preserves [OF acc])
  have "io_preserves opens (do_call (linux_ops K d) c)" for c
    using op [of "SetMtu _"] op [of "SetNetworkAddress _ _ _"] op [of "AddAddressV6 _ _"] op [of "Enabled _"]
    by (cases c) (simp_all add: linux_ops_def)
  then show ?thesis unfolding config_runs_plan_eq run_plan_def by (auto intro!: io_pres)
qed

text \<open>An owned device: a step that fails and drops it leaves the descriptors as before it was made.\<close>

definition holds_device :: "('s \<Rightarrow> int set) \<Rightarrow> 's \<Rightarrow> LinuxDevice res \<times> 's \<Rightarrow> bool" where
  "holds_device opens s r = (case r of
      (Ok d, s') \<Rightarrow> fd_borrow (dev_fd d) = False \<and> 0 \<le> raw_fd d \<and> raw_fd d \<notin> opens s \<and> opens s' = insert (raw_fd d) (opens s)
    | (_, s') \<Rightarrow> opens s' = opens s)"

lemma holds_device_bind:
  assumes "fd_account K opens" "holds_device opens s (m s)" "\<And>d. io_preserves opens (f d)"
    and drp: "\<And>d s. drp d s = drop_fd K (dev_fd d) s"
  shows "holds_device opens s (io_bind m (\<lambda>d. io_unless (io_then (f d) (io_return d)) (drp d)) s)"
proof -
  obtain r s1 where m: "m s = (r, s1)" by force
  have close: "opens (sys_close K v t) = opens t - {v}" for v t using assms(1) unfolding fd_account_def by blast
  show ?thesis
  proof (cases r)
    case (Ok d)
    obtain q s2 where f: "f d s1 = (q, s2)" by force
    then have "opens s2 = opens s1" using assms(3) by (metis io_preservesD)
    then show ?thesis using assms(2) m Ok f close
      by (cases q) (auto simp: holds_device_def io_bind_def io_then_def io_return_def io_unless_def drp drop_fd_def Fd_drop_def raw_fd_def truncate_simps)
  qed (use assms(2) m in \<open>auto simp: holds_device_def io_bind_def\<close>)
qed

lemma dev_new_holds: "fd_account K opens \<Longrightarrow> holds_device opens s (dev_new K cfg s)"
  using dev_new_account [of K opens cfg s] by (auto simp: holds_device_def split: prod.splits res.splits)

lemma build_sync_holds:
  assumes "fd_account K opens"
  shows "holds_device opens s (build_sync K b s)"
proof -
  obtain cfg c where c: "build_config b = (cfg, c)" by force
  have "holds_device opens s (io_bind (dev_new K cfg)
      (\<lambda>d. io_unless (io_then (config (linux_ops K d) c) (io_return d)) (dev_drop K d)) s)"
    by (rule holds_device_bind [OF assms dev_new_holds [OF assms] config_preserves [OF assms]]) (simp add: dev_drop_def)
  then show ?thesis by (simp add: build_sync_def c)
qed

lemma io_map_unless: "io_map (\<lambda>_. d) (io_unless (io_then m (io_return x)) drp) = io_unless (io_then m (io_return d)) drp"
  by (auto simp: io_defs io_unless_def fun_eq_iff split: prod.splits res.splits)

lemma build_async_eq: "build_async K register b = io_bind (build_sync K b) (\<lambda>d. io_unless
    (io_then (io_then (Fd_set_nonblocking (fd_sys.truncate K) (dev_fd d) True) (register (dev_fd d))) (io_return d)) (drop_fd K (dev_fd d)))"
  unfolding build_async_def new_dev_def drop_fd_def io_then_assoc [symmetric] io_map_unless ..

text \<open>
  C22. Building never leaks the device: when any step fails, creation, configuration, switching to
  non-blocking mode or registration with the reactor, the descriptor opened on the way is closed again;
  on success the device's own descriptor is the only new one.
\<close>

theorem build_async_account:
  assumes "fd_account K opens" "\<And>fd. io_preserves opens (register fd)"
    and "\<And>v b s. opens (snd (sys_fionbio K v b s)) = opens s"
  shows "case build_async K register b s of
      (Ok d, s') \<Rightarrow> raw_fd d \<notin> opens s \<and> opens s' = insert (raw_fd d) (opens s)
    | (_, s') \<Rightarrow> opens s' = opens s"
proof -
  have "io_preserves opens (Fd_set_nonblocking (fd_sys.truncate K) fd v)" for fd v
    using assms(3) by (auto simp: io_preserves_def Fd_set_nonblocking_def fd_sys.truncate_def last_os_error_def split: prod.splits)
      (metis snd_conv)+
  then have "io_preserves opens (io_then (Fd_set_nonblocking (fd_sys.truncate K) (dev_fd d) True) (register (dev_fd d)))" for d
    using assms(2) by (auto intro: io_pres)
  then have "holds_device opens s (build_async K register b s)"
    unfolding build_async_eq by (intro holds_device_bind [OF assms(1) build_sync_holds [OF assms(1)]]) simp_all
  then show ?thesis by (auto simp: holds_device_def split: prod.splits res.splits)
qed

theorem build_async_account_witness:
  "case build_async net_sys (\<lambda>_. io_fail (OsError 24)) builder_new n_start of
      (Ok d, s') \<Rightarrow> raw_fd d \<notin> set (n_open n_start) \<and> set (n_open s') = insert (raw_fd d) (set (n_open n_start))
    | (_, s') \<Rightarrow> set (n_open s') = set (n_open n_start)"
  by (rule build_async_account [OF net_sys_account]) (simp_all add: net_sys_def)

end
