(* ===== verification/WinDevice.thy ===== *)
theory WinDevice
  imports WinAdapter Builder
begin

text \<open>
  The device of Windows (\<open>src/platform/windows/device.rs\<close>) with its name servers
  (\<open>src/platform/windows/dns.rs\<close>, \<open>src/platform/windows/netsh.rs\<close>).  The crates \<open>getifaddrs\<close> and \<open>netconfig_rs\<close>, the
  commands run and the name service of Windows extend the record of \<open>WinAdapter\<close>.
\<close>

section \<open>The system\<close>

record win_if =
  wif_description :: rstr
  wif_index :: "u32 option"
  wif_ip :: "IpAddr option"

record dns_settings =
  dns_Flags :: u64
  dns_NameServer :: "u16 list"

text \<open>
  \<open>wd_cmd\<close> runs a command line with \<open>cmd /C\<close> and says whether it succeeded; \<open>wd_dns_api\<close> whether the
  system has \<open>SetInterfaceDnsSettings\<close>, found out once; \<open>wd_debug\<close> is the escaping of the format \<open>{:?}\<close>.
\<close>

record 's windev = "'s setup_sys" +
  wd_getifaddrs :: "('s, win_if list) io"
  wd_interface_from_index :: "u32 \<Rightarrow> ('s, nat) io"
  wd_interface_add_address :: "nat \<Rightarrow> IpNet \<Rightarrow> ('s, unit) io"
  wd_ipnet_new_assert :: "IpAddr \<Rightarrow> byte \<Rightarrow> IpNet res"
  wd_cmd :: "rstr \<Rightarrow> ('s, bool) io"
  wd_dns_api :: "'s \<Rightarrow> bool \<times> 's"
  wd_SetInterfaceDnsSettings :: "win_guid \<Rightarrow> dns_settings \<Rightarrow> 's \<Rightarrow> nat \<times> 's"
  wd_DnsFlushResolverCache :: "'s \<Rightarrow> nat \<times> 's"
  wd_debug :: "rstr \<Rightarrow> rstr"

section \<open>Addresses as text\<close>

definition join_with :: "rstr \<Rightarrow> rstr list \<Rightarrow> rstr" where
  "join_with sep xs = (case xs of [] \<Rightarrow> [] | x # xs \<Rightarrow> x @ concat (map (\<lambda>y. sep @ y) xs))"

definition ipv4_to_string :: "Ipv4Addr \<Rightarrow> rstr" where
  "ipv4_to_string a = join_with (str_of ''.'') (map (decimal \<circ> unat) (to_be32 a))"

fun hexadecimal :: "nat \<Rightarrow> rstr" where
  "hexadecimal n = (let d = n mod 16; c = (if d < 10 then 48 + d else 87 + d)
     in if n < 16 then [c] else hexadecimal (n div 16) @ [c])"

declare hexadecimal.simps [simp del]

text \<open>The eight groups of an IPv6 address, and the first longest run of zeroes among them as its start and length.\<close>

definition segments6 :: "Ipv6Addr \<Rightarrow> nat list" where
  "segments6 a = map (\<lambda>i. unat a div 2 ^ (112 - 16 * i) mod 2 ^ 16) [0..<8]"

fun zero_run :: "nat list \<Rightarrow> nat \<Rightarrow> nat \<times> nat \<Rightarrow> nat \<times> nat \<Rightarrow> nat \<times> nat" where
  "zero_run [] i cur longest = longest"
| "zero_run (g # gs) i cur longest =
     (if g = 0 then
        let cur = (if snd cur = 0 then (i, 1) else (fst cur, snd cur + 1))
        in zero_run gs (i + 1) cur (if snd cur > snd longest then cur else longest)
      else zero_run gs (i + 1) (0, 0) longest)"

definition ipv6_to_string :: "Ipv6Addr \<Rightarrow> rstr" where
  "ipv6_to_string a =
     (let gs = segments6 a; groups = (\<lambda>xs. join_with (str_of '':'') (map hexadecimal xs)); (start, len) = zero_run gs 0 (0, 0) (0, 0)
      in if take 6 gs = [0, 0, 0, 0, 0, 0xFFFF] then str_of ''::ffff:'' @ ipv4_to_string (ucast a)
         else if len > 1 then groups (take start gs) @ str_of ''::'' @ groups (drop (start + len) gs)
         else groups gs)"

fun ip_to_string :: "IpAddr \<Rightarrow> rstr" where
  "ip_to_string (V4 a) = ipv4_to_string a"
| "ip_to_string (V6 a) = ipv6_to_string a"

section \<open>Commands\<close>

text \<open>The output of a failed command becomes the text of an error.\<close>

definition exe_cmd :: "('s, 'x) windev_scheme \<Rightarrow> rstr \<Rightarrow> ('s, unit) io" where
  "exe_cmd W cmd = io_bind (wd_cmd W cmd) (\<lambda>success. if success then io_return () else io_res (err_other ''cmd''))"

definition set_interface_name :: "('s, 'x) windev_scheme \<Rightarrow> rstr \<Rightarrow> rstr \<Rightarrow> ('s, unit) io" where
  "set_interface_name W old_name new_name =
     exe_cmd W (str_of '' netsh interface set interface name='' @ wd_debug W old_name @ str_of '' newname='' @ wd_debug W new_name)"

definition family_name :: "bool \<Rightarrow> rstr" where
  "family_name v4 = str_of (if v4 then ''ipv4'' else ''ipv6'')"

definition set_primary_dns :: "('s, 'x) windev_scheme \<Rightarrow> u32 \<Rightarrow> IpAddr \<Rightarrow> ('s, unit) io" where
  "set_primary_dns W index address = exe_cmd W (str_of ''netsh interface '' @ family_name (is_ipv4 address) @ str_of '' set dnsservers ''
     @ decimal (unat index) @ str_of '' static '' @ ip_to_string address @ str_of '' primary'')"

definition add_secondary_dns :: "('s, 'x) windev_scheme \<Rightarrow> u32 \<Rightarrow> IpAddr \<Rightarrow> u32 \<Rightarrow> ('s, unit) io" where
  "add_secondary_dns W index address index_pos = exe_cmd W (str_of ''netsh interface '' @ family_name (is_ipv4 address)
     @ str_of '' add dnsservers '' @ decimal (unat index) @ str_of '' '' @ ip_to_string address @ str_of '' index='' @ decimal (unat index_pos))"

definition netsh_clear_dns_servers :: "('s, 'x) windev_scheme \<Rightarrow> u32 \<Rightarrow> bool \<Rightarrow> ('s, unit) io" where
  "netsh_clear_dns_servers W index v4 = exe_cmd W (str_of ''netsh interface '' @ family_name v4 @ str_of '' set dnsservers ''
     @ decimal (unat index) @ str_of '' source=dhcp'')"

definition check_dns_servers :: "IpAddr list \<Rightarrow> unit res" where
  "check_dns_servers servers =
     (if servers = [] then invalid_input ''DNS servers list cannot be empty''
      else if \<not> list_all (\<lambda>a. is_ipv4 a = is_ipv4 (hd servers)) servers then invalid_input ''All DNS servers must be either IPv4 or IPv6''
      else Ok ())"

definition netsh_set_dns_servers :: "('s, 'x) windev_scheme \<Rightarrow> u32 \<Rightarrow> IpAddr list \<Rightarrow> ('s, unit) io" where
  "netsh_set_dns_servers W index servers =
     io_then (io_res (check_dns_servers servers))
     (io_then (netsh_clear_dns_servers W index (is_ipv4 (hd servers)))
     (io_then (set_primary_dns W index (hd servers))
       (io_each (\<lambda>(i, addr). add_secondary_dns W index addr (of_nat (i + 2))) (enumerate 0 (tl servers)))))"

section \<open>Name servers\<close>

definition DNS_SETTING_NAMESERVER :: u64 where "DNS_SETTING_NAMESERVER = 2"
definition DNS_SETTING_IPV6 :: u64 where "DNS_SETTING_IPV6 = 1"

definition dns_apply :: "('s, 'x) windev_scheme \<Rightarrow> win_guid \<Rightarrow> IpAddr list \<Rightarrow> bool \<Rightarrow> ('s, unit) io" where
  "dns_apply W guid servers v4 = win_call (wd_SetInterfaceDnsSettings W guid
     \<lparr>dns_Flags = (if v4 then DNS_SETTING_NAMESERVER else DNS_SETTING_NAMESERVER OR DNS_SETTING_IPV6),
      dns_NameServer = encode_utf16 (join_with (str_of '','') (map ip_to_string servers))\<rparr>)"

definition flush_resolver_cache :: "('s, 'x) windev_scheme \<Rightarrow> ('s, unit) io" where
  "flush_resolver_cache W = (\<lambda>s. (Ok (), snd (wd_DnsFlushResolverCache W s)))"

text \<open>The new interface when it is there, the commands otherwise.\<close>

definition with_dns :: "('s, 'x) windev_scheme \<Rightarrow> LUID \<Rightarrow> IpAddr list \<Rightarrow> bool \<Rightarrow> ('s, unit) io \<Rightarrow> ('s, unit) io" where
  "with_dns W luid servers v4 fallback = (\<lambda>s. case wd_dns_api W s of (has_api, s) \<Rightarrow>
     io_then (if has_api then io_bind (luid_to_guid W luid) (\<lambda>guid. dns_apply W guid servers v4) else fallback)
       (flush_resolver_cache W) s)"

definition dns_set_dns_servers :: "('s, 'x) windev_scheme \<Rightarrow> u32 \<Rightarrow> LUID \<Rightarrow> IpAddr list \<Rightarrow> ('s, unit) io" where
  "dns_set_dns_servers W index luid servers =
     io_then (io_res (check_dns_servers servers))
       (with_dns W luid servers (is_ipv4 (hd servers)) (netsh_set_dns_servers W index servers))"

definition dns_clear_dns_servers :: "('s, 'x) windev_scheme \<Rightarrow> u32 \<Rightarrow> LUID \<Rightarrow> bool \<Rightarrow> ('s, unit) io" where
  "dns_clear_dns_servers W index luid v4 = with_dns W luid [] v4 (netsh_clear_dns_servers W index v4)"

section \<open>Creation\<close>

record WinDeviceConfig =
  wc_dev_name :: "rstr option"
  wc_description :: "rstr option"
  wc_device_guid :: "128 word option"
  wc_wintun_log :: "bool option"
  wc_wintun_file :: "rstr option"
  wc_ring_capacity :: "u32 option"
  wc_delete_driver :: "bool option"

definition default_name :: "nat \<Rightarrow> rstr" where
  "default_name n = str_of ''tun'' @ decimal n"

definition open_named :: "('s, 'x) windev_scheme \<Rightarrow> WinDeviceConfig \<Rightarrow> rstr \<Rightarrow> ('s, TunDevice) io" where
  "open_named W cfg nm = wtun_open W (opt_or (wc_wintun_file cfg) (str_of ''wintun.dll'')) nm
     (opt_or (wc_ring_capacity cfg) 0x200000) (opt_or (wc_delete_driver cfg) False) (opt_or (wc_wintun_log cfg) False)"

definition create_named :: "('s, 'x) windev_scheme \<Rightarrow> WinDeviceConfig \<Rightarrow> rstr \<Rightarrow> ('s, TunDevice) io" where
  "create_named W cfg nm = wtun_create W (opt_or (wc_wintun_file cfg) (str_of ''wintun.dll'')) nm
     (opt_or (wc_description cfg) nm) (wc_device_guid cfg)
     (opt_or (wc_ring_capacity cfg) 0x200000) (opt_or (wc_delete_driver cfg) False) (opt_or (wc_wintun_log cfg) False)"

text \<open>
  The loop over names.  A name that is in use is passed over when it was not asked for; when it was, the
  adapter is opened, unless it was left behind.  Creating is tried five times.
\<close>

datatype name_action = SkipName | OpenName | CreateName

definition action_for :: "('s, 'x) windev_scheme \<Rightarrow> WinDeviceConfig \<Rightarrow> rstr set \<Rightarrow> rstr \<Rightarrow> 's \<Rightarrow> (name_action \<times> 's) option" where
  "action_for W cfg interfaces nm s =
     (if nm \<notin> interfaces then Some (CreateName, s)
      else if wc_dev_name cfg = None then Some (SkipName, s)
      else map_option (\<lambda>(orphaned, s). (if orphaned then CreateName else OpenName, s)) (check_adapter_if_orphaned_devices W nm s))"

definition name_at :: "WinDeviceConfig \<Rightarrow> nat \<Rightarrow> rstr" where
  "name_at cfg n = opt_or (wc_dev_name cfg) (default_name n)"

partial_function (option) new_loop :: "('s, 'x) windev_scheme \<Rightarrow> WinDeviceConfig \<Rightarrow> rstr set \<Rightarrow> nat \<Rightarrow> nat
    \<Rightarrow> 's \<Rightarrow> (TunDevice res \<times> 's) option" where
  "new_loop W cfg interfaces n attempts s =
     (case action_for W cfg interfaces (name_at cfg n) s of
        None \<Rightarrow> None
      | Some (SkipName, s) \<Rightarrow> new_loop W cfg interfaces (n + 1) attempts s
      | Some (OpenName, s) \<Rightarrow> Some (open_named W cfg (name_at cfg n) s)
      | Some (CreateName, s) \<Rightarrow> (case create_named W cfg (name_at cfg n) s of
            (Err e, s) \<Rightarrow> if attempts > 3 then Some (Err e, s) else new_loop W cfg interfaces (n + 1) (attempts + 1) s
          | (r, s) \<Rightarrow> Some (r, s)))"

definition windev_new :: "('s, 'x) windev_scheme \<Rightarrow> WinDeviceConfig \<Rightarrow> 's \<Rightarrow> (TunDevice res \<times> 's) option" where
  "windev_new W cfg s =
     (case wd_getifaddrs W s of
        (Ok ifs, s) \<Rightarrow> new_loop W cfg (set (map wif_description ifs)) 0 0 s
      | (Err e, s) \<Rightarrow> Some (Err e, s)
      | (Panic, s) \<Rightarrow> Some (Panic, s))"

section \<open>Operations\<close>

definition windev_name :: "('s, 'x) windev_scheme \<Rightarrow> TunDevice \<Rightarrow> ('s, rstr) io" where
  "windev_name W t = wtun_get_name W t"

definition windev_set_name :: "('s, 'x) windev_scheme \<Rightarrow> TunDevice \<Rightarrow> rstr \<Rightarrow> ('s, unit) io" where
  "windev_set_name W t v = io_bind (windev_name W t) (\<lambda>name. if v = name then io_return () else set_interface_name W name v)"

definition windev_if_index :: "TunDevice \<Rightarrow> ('s, u32) io" where
  "windev_if_index t = io_return (td_index t)"

definition windev_if_luid :: "TunDevice \<Rightarrow> ('s, LUID) io" where
  "windev_if_luid t = io_return (td_luid t)"

definition windev_addresses :: "('s, 'x) windev_scheme \<Rightarrow> TunDevice \<Rightarrow> ('s, IpAddr list) io" where
  "windev_addresses W t = io_map (\<lambda>ifs. List.map_filter wif_ip (filter (\<lambda>v. wif_index v = Some (td_index t)) ifs)) (wd_getifaddrs W)"

definition windev_set_network_address :: "('s, 'x) windev_scheme \<Rightarrow> (string \<Rightarrow> Ipv4Addr option) \<Rightarrow> TunDevice
    \<Rightarrow> addr4_arg \<Rightarrow> Ipv4Addr mask_arg \<Rightarrow> addr4_arg option \<Rightarrow> ('s, unit) io" where
  "windev_set_network_address W parse t address netmask destination =
     io_bind (io_res (ipv4 parse address)) (\<lambda>a.
     io_bind (io_res (prefix4 parse netmask)) (\<lambda>len.
     io_bind (io_res (transpose_res (map_option (ipv4 parse) destination))) (\<lambda>dest.
     win_set_address W (td_index t) (V4 a) len (map_option V4 dest))))"

definition windev_add_address_v4 :: "('s, 'x) windev_scheme \<Rightarrow> (string \<Rightarrow> Ipv4Addr option) \<Rightarrow> TunDevice
    \<Rightarrow> addr4_arg \<Rightarrow> Ipv4Addr mask_arg \<Rightarrow> ('s, unit) io" where
  "windev_add_address_v4 W parse t address netmask =
     io_bind (wd_interface_from_index W (td_index t)) (\<lambda>i.
     io_bind (io_res (ipv4 parse address)) (\<lambda>a.
     io_bind (io_res (prefix4 parse netmask)) (\<lambda>len.
     io_bind (io_res (wd_ipnet_new_assert W (V4 a) len)) (wd_interface_add_address W i))))"

definition windev_remove_address :: "('s, 'x) windev_scheme \<Rightarrow> TunDevice \<Rightarrow> IpAddr \<Rightarrow> ('s, unit) io" where
  "windev_remove_address W t addr = win_remove_address W (td_index t) addr"

definition windev_add_address_v6 :: "('s, 'x) windev_scheme \<Rightarrow> (string \<Rightarrow> Ipv6Addr option) \<Rightarrow> TunDevice
    \<Rightarrow> addr6_arg \<Rightarrow> Ipv6Addr mask_arg \<Rightarrow> ('s, unit) io" where
  "windev_add_address_v6 W parse t addr netmask =
     io_bind (io_res (ipv6 parse addr)) (\<lambda>a.
     io_bind (io_res (prefix6 parse netmask)) (\<lambda>len.
     win_add_address W (td_index t) (V6 a) len None))"

text \<open>The MTU is cut to 16 bits.\<close>

definition windev_mtu :: "('s, 'x) windev_scheme \<Rightarrow> TunDevice \<Rightarrow> ('s, u16) io" where
  "windev_mtu W t = io_map ucast (get_mtu_by_index W (td_index t) True)"

definition windev_mtu_v6 :: "('s, 'x) windev_scheme \<Rightarrow> TunDevice \<Rightarrow> ('s, u16) io" where
  "windev_mtu_v6 W t = io_map ucast (get_mtu_by_index W (td_index t) False)"

definition windev_set_mtu :: "('s, 'x) windev_scheme \<Rightarrow> TunDevice \<Rightarrow> u16 \<Rightarrow> ('s, unit) io" where
  "windev_set_mtu W t v = set_interface_mtu W (td_index t) (ucast v) True"

definition windev_set_mtu_v6 :: "('s, 'x) windev_scheme \<Rightarrow> TunDevice \<Rightarrow> u16 \<Rightarrow> ('s, unit) io" where
  "windev_set_mtu_v6 W t v = set_interface_mtu W (td_index t) (ucast v) False"

definition windev_set_mac_address :: "byte list \<Rightarrow> ('s, unit) io" where
  "windev_set_mac_address eth_addr = io_fail (Custom Unsupported '''')"

definition windev_mac_address :: "('s, byte list) io" where
  "windev_mac_address = io_fail (Custom Unsupported '''')"

definition windev_set_metric :: "('s, 'x) windev_scheme \<Rightarrow> TunDevice \<Rightarrow> u16 \<Rightarrow> ('s, unit) io" where
  "windev_set_metric W t metric = set_interface_metric W (td_index t) (ucast metric)"

definition windev_version :: "('s, 'x) windev_scheme \<Rightarrow> ('s, rstr) io" where
  "windev_version W = wtun_version W"

definition windev_set_dns_servers :: "('s, 'x) windev_scheme \<Rightarrow> TunDevice \<Rightarrow> IpAddr list \<Rightarrow> ('s, unit) io" where
  "windev_set_dns_servers W t servers = dns_set_dns_servers W (td_index t) (td_luid t) servers"

definition windev_clear_dns_servers :: "('s, 'x) windev_scheme \<Rightarrow> TunDevice \<Rightarrow> bool \<Rightarrow> ('s, unit) io" where
  "windev_clear_dns_servers W t v4 = dns_clear_dns_servers W (td_index t) (td_luid t) v4"

text \<open>Packets and the switch are those of the driver.\<close>

definition windev_enabled :: "('s, 'x) windev_scheme \<Rightarrow> TunDevice \<Rightarrow> bool \<Rightarrow> 's \<Rightarrow> unit res \<times> TunDevice \<times> 's" where
  "windev_enabled W = wtun_enabled W"

definition windev_shutdown :: "('s, 'x) windev_scheme \<Rightarrow> TunDevice \<Rightarrow> 's \<Rightarrow> unit res \<times> TunDevice \<times> 's" where
  "windev_shutdown W = wtun_shutdown W"

definition windev_recv where "windev_recv W = wtun_recv W"
definition windev_try_recv where "windev_try_recv W = wtun_try_recv W"
definition windev_send where "windev_send W = wtun_send W"
definition windev_try_send where "windev_try_send W = wtun_try_send W"
definition windev_wait_readable_interruptible where "windev_wait_readable_interruptible W = wtun_wait_readable_interruptible W"
definition windev_write_interruptible where "windev_write_interruptible W = wtun_send_interruptible W"

end
