(* ===== verification/WinTunSpec.thy ===== *)
theory WinTunSpec
  imports WinTun
begin

text \<open>
  Properties of the wintun device: every packet is given back to wintun, a device holds its event, its adapter
  and, while it is enabled, one session, and dropping it releases them; what sending and receiving do to the
  ring; when sending returns.  The wintun library and Windows are assumed to account for what they hand out
  (\<open>wintun_accounts\<close>) and to move packets through a ring (\<open>ring_documented\<close>); a concrete system for which both are proved
  serves the witnesses.
\<close>

section \<open>What the device holds\<close>

text \<open>
  Events, adapters, sessions and packets are acquired and released.  \<open>held\<close> reads from the state which ones
  are held; a call gives something new or NULL, a release takes away what it is given, every other call
  keeps them.
\<close>

datatype win_resource = WEvent handle | WAdapter handle | WSession handle | RxPacket handle handle | TxPacket handle handle

definition acquires :: "('s \<Rightarrow> win_resource set) \<Rightarrow> (handle \<Rightarrow> win_resource) \<Rightarrow> ('s \<Rightarrow> handle \<times> 's) \<Rightarrow> bool" where
  "acquires held k f \<longleftrightarrow> (\<forall>s. let (h, s') = f s in
     if h = 0 then held s' = held s else k h \<notin> held s \<and> held s' = insert (k h) (held s))"

definition releases :: "('s \<Rightarrow> win_resource set) \<Rightarrow> win_resource \<Rightarrow> ('s \<Rightarrow> 's) \<Rightarrow> bool" where
  "releases held k f \<longleftrightarrow> (\<forall>s. held (f s) = held s - {k})"

definition acquires_all :: "('s, 'x) wintun_scheme \<Rightarrow> ('s \<Rightarrow> win_resource set) \<Rightarrow> bool" where
  "acquires_all W held \<longleftrightarrow> acquires held WEvent (wi_CreateEvent W True False)
     \<and> (\<forall>us. acquires held WAdapter (wt_OpenAdapter W us))
     \<and> (\<forall>us vs g. acquires held WAdapter (wt_CreateAdapter W us vs g))
     \<and> (\<forall>h c. acquires held WSession (wt_StartSession W h c))
     \<and> (\<forall>h. acquires held (RxPacket h) (\<lambda>s. map_prod fst id (wt_ReceivePacket W h s)))
     \<and> (\<forall>h n. acquires held (TxPacket h) (wt_AllocateSendPacket W h n))"

definition releases_all :: "('s, 'x) wintun_scheme \<Rightarrow> ('s \<Rightarrow> win_resource set) \<Rightarrow> bool" where
  "releases_all W held \<longleftrightarrow> (\<forall>h. releases held (WEvent h) (wi_CloseHandle W h))
     \<and> (\<forall>h. releases held (WAdapter h) (wt_CloseAdapter W h))
     \<and> (\<forall>h. releases held (WSession h) (wt_EndSession W h))
     \<and> (\<forall>h p. releases held (RxPacket h p) (wt_ReleaseReceivePacket W h p))
     \<and> (\<forall>h p. releases held (TxPacket h p) (wt_SendPacket W h p))"

definition keeps_all :: "('s, 'x) wintun_scheme \<Rightarrow> ('s \<Rightarrow> 'v) \<Rightarrow> bool" where
  "keeps_all W held \<longleftrightarrow> (\<forall>h. keeps held (wi_SetEvent W h)) \<and> (\<forall>h. keeps held (wi_ResetEvent W h))
     \<and> (\<forall>h n. keeps held (wi_WaitForSingleObject W h n)) \<and> (\<forall>hs n. keeps held (wi_WaitForMultipleObjects W hs n))
     \<and> (\<forall>l. keeps held (wi_LuidToIndex W l)) \<and> (\<forall>p. keeps held (wt_load W p))
     \<and> (\<forall>h. keeps held (wt_GetAdapterLUID W h)) \<and> (\<forall>h. keeps held (wt_GetReadWaitEvent W h))
     \<and> keeps held (wt_now W) \<and> (\<forall>s. held (wt_SetLogger W s) = held s) \<and> (\<forall>s. held (wt_DeleteDriver W s) = held s)
     \<and> (\<forall>p bs s. held (wt_copy W p bs s) = held s) \<and> (\<forall>n s. held (wt_sleep W n s) = held s)"

definition wintun_accounts :: "('s, 'x) wintun_scheme \<Rightarrow> ('s \<Rightarrow> win_resource set) \<Rightarrow> bool" where
  "wintun_accounts W held \<longleftrightarrow> acquires_all W held \<and> releases_all W held \<and> keeps_all W held"

lemma acquiresD:
  assumes "acquires held k f" "f s = (h, s')"
  shows "h = 0 \<Longrightarrow> held s' = held s" "h \<noteq> 0 \<Longrightarrow> k h \<notin> held s \<and> held s' = insert (k h) (held s)"
  using assms by (auto simp: acquires_def Let_def split: prod.splits)

lemma win_acquire:
  assumes "wintun_accounts W held"
  shows "wi_CreateEvent W True False s = (h, s') \<Longrightarrow> h \<noteq> 0 \<Longrightarrow> WEvent h \<notin> held s \<and> held s' = insert (WEvent h) (held s)"
    and "wi_CreateEvent W True False s = (0, s') \<Longrightarrow> held s' = held s"
    and "wt_StartSession W a c s = (h, s') \<Longrightarrow> h \<noteq> 0 \<Longrightarrow> WSession h \<notin> held s \<and> held s' = insert (WSession h) (held s)"
    and "wt_StartSession W a c s = (0, s') \<Longrightarrow> held s' = held s"
    and "wt_ReceivePacket W a s = ((p, n), s') \<Longrightarrow> p \<noteq> 0 \<Longrightarrow> RxPacket a p \<notin> held s \<and> held s' = insert (RxPacket a p) (held s)"
    and "wt_ReceivePacket W a s = ((0, n), s') \<Longrightarrow> held s' = held s"
    and "wt_AllocateSendPacket W a c s = (h, s') \<Longrightarrow> h \<noteq> 0 \<Longrightarrow> TxPacket a h \<notin> held s \<and> held s' = insert (TxPacket a h) (held s)"
    and "wt_AllocateSendPacket W a c s = (0, s') \<Longrightarrow> held s' = held s"
proof -
  have a: "acquires held WEvent (wi_CreateEvent W True False)" "acquires held WSession (wt_StartSession W a c)"
      "acquires held (RxPacket a) (\<lambda>s. map_prod fst id (wt_ReceivePacket W a s))" "acquires held (TxPacket a) (wt_AllocateSendPacket W a c)"
    using assms by (simp_all add: wintun_accounts_def acquires_all_def)
  show "wi_CreateEvent W True False s = (h, s') \<Longrightarrow> h \<noteq> 0 \<Longrightarrow> WEvent h \<notin> held s \<and> held s' = insert (WEvent h) (held s)"
    "wi_CreateEvent W True False s = (0, s') \<Longrightarrow> held s' = held s"
    using acquiresD [OF a(1)] by blast+
  show "wt_StartSession W a c s = (h, s') \<Longrightarrow> h \<noteq> 0 \<Longrightarrow> WSession h \<notin> held s \<and> held s' = insert (WSession h) (held s)"
    "wt_StartSession W a c s = (0, s') \<Longrightarrow> held s' = held s"
    using acquiresD [OF a(2)] by blast+
  show "wt_ReceivePacket W a s = ((p, n), s') \<Longrightarrow> p \<noteq> 0 \<Longrightarrow> RxPacket a p \<notin> held s \<and> held s' = insert (RxPacket a p) (held s)"
    "wt_ReceivePacket W a s = ((0, n), s') \<Longrightarrow> held s' = held s"
    using acquiresD [OF a(3), of s _ s'] by simp_all
  show "wt_AllocateSendPacket W a c s = (h, s') \<Longrightarrow> h \<noteq> 0 \<Longrightarrow> TxPacket a h \<notin> held s \<and> held s' = insert (TxPacket a h) (held s)"
    "wt_AllocateSendPacket W a c s = (0, s') \<Longrightarrow> held s' = held s"
    using acquiresD [OF a(4)] by blast+
qed

lemma win_release:
  assumes "wintun_accounts W held"
  shows "held (wi_CloseHandle W h s) = held s - {WEvent h}" "held (wt_CloseAdapter W h s) = held s - {WAdapter h}"
    "held (wt_EndSession W h s) = held s - {WSession h}" "held (wt_ReleaseReceivePacket W h p s) = held s - {RxPacket h p}"
    "held (wt_SendPacket W h p s) = held s - {TxPacket h p}"
  using assms by (simp_all add: wintun_accounts_def releases_all_def releases_def)

lemma win_keep:
  assumes "wintun_accounts W held"
  shows "held (wt_SetLogger W s) = held s" "held (wt_DeleteDriver W s) = held s" "held (wt_copy W p bs s) = held s"
    "held (wt_sleep W n s) = held s"
    "wi_SetEvent W h s = (r, s') \<Longrightarrow> held s' = held s" "wi_ResetEvent W h s = (r, s') \<Longrightarrow> held s' = held s"
    "wi_WaitForSingleObject W h n s = (r, s') \<Longrightarrow> held s' = held s"
    "wi_WaitForMultipleObjects W hs n s = (r, s') \<Longrightarrow> held s' = held s"
    "wi_LuidToIndex W l s = (i, s') \<Longrightarrow> held s' = held s" "wt_load W path s = (b, s') \<Longrightarrow> held s' = held s"
    "wt_GetAdapterLUID W h s = (l', s') \<Longrightarrow> held s' = held s" "wt_GetReadWaitEvent W h s = (ev, s') \<Longrightarrow> held s' = held s"
    "wt_now W s = (now, s') \<Longrightarrow> held s' = held s"
proof -
  show "held (wt_SetLogger W s) = held s" "held (wt_DeleteDriver W s) = held s" "held (wt_copy W p bs s) = held s"
    "held (wt_sleep W n s) = held s"
    using assms by (simp_all add: wintun_accounts_def keeps_all_def)
  have k: "keeps held (wi_SetEvent W h)" "keeps held (wi_ResetEvent W h)" "keeps held (wi_WaitForSingleObject W h n)"
      "keeps held (wi_WaitForMultipleObjects W hs n)" "keeps held (wi_LuidToIndex W l)" "keeps held (wt_load W path)"
      "keeps held (wt_GetAdapterLUID W h)" "keeps held (wt_GetReadWaitEvent W h)" "keeps held (wt_now W)"
    using assms by (simp_all add: wintun_accounts_def keeps_all_def)
  show "wi_SetEvent W h s = (r, s') \<Longrightarrow> held s' = held s" "wi_ResetEvent W h s = (r, s') \<Longrightarrow> held s' = held s"
    "wi_WaitForSingleObject W h n s = (r, s') \<Longrightarrow> held s' = held s"
    "wi_WaitForMultipleObjects W hs n s = (r, s') \<Longrightarrow> held s' = held s"
    "wi_LuidToIndex W l s = (i, s') \<Longrightarrow> held s' = held s" "wt_load W path s = (b, s') \<Longrightarrow> held s' = held s"
    "wt_GetAdapterLUID W h s = (l', s') \<Longrightarrow> held s' = held s" "wt_GetReadWaitEvent W h s = (ev, s') \<Longrightarrow> held s' = held s"
    "wt_now W s = (now, s') \<Longrightarrow> held s' = held s"
    by (rule k [THEN keepsD], assumption)+
qed

section \<open>Packets are given back\<close>

lemma try_send_held:
  assumes "wintun_accounts W held" shows "io_preserves held (session_try_send W ses buf)"
  unfolding io_preserves_def
proof
  fix s
  obtain p s1 where p: "wt_AllocateSendPacket W (ws_handle ses) (of_nat (length buf)) s = (p, s1)" by force
  show "held (snd (session_try_send W ses buf s)) = held s"
    using p win_acquire(7) [OF assms p] win_acquire(8) [OF assms, where s = s and s' = s1]
    by (cases "p = 0") (auto simp: session_try_send_def io_res_def Let_def win_release [OF assms] win_keep [OF assms])
qed

lemma try_recv_held:
  assumes "wintun_accounts W held" shows "io_preserves held (session_try_recv W ses buf)"
  unfolding io_preserves_def
proof
  fix s
  obtain p n s1 where p: "wt_ReceivePacket W (ws_handle ses) s = ((p, n), s1)" by (metis surj_pair)
  show "held (snd (session_try_recv W ses buf s)) = held s"
    using p win_acquire(5) [OF assms p] win_acquire(6) [OF assms, where s = s and s' = s1]
    by (cases "p = 0") (auto simp: session_try_recv_def Let_def win_release [OF assms])
qed

lemma recv_tries_held:
  assumes "wintun_accounts W held" shows "recv_tries W ses buf n s = (r, s') \<Longrightarrow> held s' = held s"
proof (induction n arbitrary: s)
  case (Suc n)
  obtain q s1 where q: "session_try_recv W ses buf s = (q, s1)" by force
  note h = io_preservesD [OF try_recv_held [OF assms] q]
  show ?case using Suc q h by (cases q) (auto split: if_splits)
qed simp

lemma wait_held:
  assumes "wintun_accounts W held"
  shows "io_preserves held (wait_readable W ses h)" "io_preserves held (wait_readable_interruptible W ses h h' t)"
    "io_preserves held (wait_for_single_object W h n)" "io_preserves held (set_event W h)" "io_preserves held (reset_event W h)"
  by (auto simp: io_preserves_def wait_readable_def wait_readable_interruptible_def wait_for_single_object_def set_event_def
      reset_event_def win_last_os_error_def Let_def win_keep [OF assms] split: prod.splits if_splits)

lemma session_recv_held:
  assumes "wintun_accounts W held" "session_recv W ses h buf s = Some q"
  shows "held (snd q) = held s"
proof -
  have "wintun_accounts W held \<longrightarrow> held (snd q) = held s"
  proof (induction rule: session_recv.raw_induct [OF _ assms(2)])
    case (1 self W ses h buf s q)
    show ?case
    proof
      assume a: "wintun_accounts W held"
      obtain t s1 where t: "recv_tries W ses buf 16 s = (t, s1)" by force
      obtain w s2 where w: "wait_readable W ses h s1 = (w, s2)" by force
      show "held (snd q) = held s"
        using 1 t w a recv_tries_held [OF a t] io_preservesD [OF wait_held(1) [OF a] w]
        by (cases t; cases w) auto
    qed
  qed
  then show ?thesis using assms(1) by blast
qed

lemma send_loop_held:
  assumes "wintun_accounts W held" "send_loop W load ses buf event start backoff s = Some q"
  shows "held (snd q) = held s"
proof -
  have "wintun_accounts W held \<longrightarrow> held (snd q) = held s"
  proof (induction rule: send_loop.raw_induct [OF _ assms(2)])
    case (1 self W load ses buf event start backoff s q)
    show ?case
    proof
      assume a: "wintun_accounts W held"
      obtain t s1 where t: "session_try_send W ses buf s = (t, s1)" by force
      obtain now s2 where n: "wt_now W s1 = (now, s2)" by force
      obtain hit s3 where i: "interrupted W event s2 = (hit, s3)" by force
      have h: "held s1 = held s" "held s2 = held s1" "held s3 = held s2"
        using io_preservesD [OF try_send_held [OF a] t] win_keep [OF a] n i io_preservesD [OF wait_held(3) [OF a]]
        by (auto simp: interrupted_def split: option.splits prod.splits)
      show "held (snd q) = held s"
        using 1 n i a h io_preserves_def [THEN iffD1, OF try_send_held [OF a, where ses = ses and buf = buf]] t
        by (cases t) (auto simp: win_keep [OF a] split: if_splits)
    qed
  qed
  then show ?thesis using assms(1) by blast
qed

lemma session_send_held:
  assumes "wintun_accounts W held" "session_send W load ses buf event s = Some q"
  shows "held (snd q) = held s"
  using assms send_loop_held [OF assms(1)] win_keep(13) [OF assms(1)] by (auto simp: session_send_def split: prod.splits)

section \<open>The life of a device\<close>

definition session_part :: "WinTunSession option \<Rightarrow> win_resource set" where
  "session_part ses = (case ses of None \<Rightarrow> {} | Some ses \<Rightarrow> {WSession (ws_handle ses)})"

definition device_parts :: "WinTunAdapter \<Rightarrow> win_resource set" where
  "device_parts d = {WEvent (wa_event d), WAdapter (wa_handle d)} \<union> session_part (wa_session d)"

text \<open>The invariant: the flag says whether there is a session, and the device holds its parts and nothing else.\<close>

definition adapter_ok :: "('s \<Rightarrow> win_resource set) \<Rightarrow> win_resource set \<Rightarrow> WinTunAdapter \<Rightarrow> 's \<Rightarrow> bool" where
  "adapter_ok held base d s \<longleftrightarrow> (wa_state d \<longleftrightarrow> wa_session d \<noteq> None)
     \<and> held s = base \<union> device_parts d \<and> base \<inter> device_parts d = {}"

datatype adapter_op = EnableOp bool | SendOp "byte list" "handle option" | RecvOp "byte list" | TrySendOp "byte list"
  | TryRecvOp "byte list" | WaitOp handle "nat option"

text \<open>An operation whose result is not looked at.\<close>

fun adapter_step :: "('s, 'x) wintun_scheme \<Rightarrow> ('s \<Rightarrow> bool) \<Rightarrow> adapter_op \<Rightarrow> WinTunAdapter \<times> 's \<Rightarrow> (WinTunAdapter \<times> 's) option" where
  "adapter_step W load (EnableOp v) (d, s) = Some (snd ((if v then adapter_enable W else adapter_disable W) d s))"
| "adapter_step W load (SendOp buf event) (d, s) = map_option (\<lambda>q. (d, snd q)) (adapter_send W load d buf event s)"
| "adapter_step W load (RecvOp buf) (d, s) = map_option (\<lambda>q. (d, snd q)) (adapter_recv W d buf s)"
| "adapter_step W load (TrySendOp buf) (d, s) = Some (d, snd (adapter_try_send W d buf s))"
| "adapter_step W load (TryRecvOp buf) (d, s) = Some (d, snd (adapter_try_recv W d buf s))"
| "adapter_step W load (WaitOp h t) (d, s) = Some (d, snd (adapter_wait_readable_interruptible W d h t s))"

fun adapter_run :: "('s, 'x) wintun_scheme \<Rightarrow> ('s \<Rightarrow> bool) \<Rightarrow> adapter_op list \<Rightarrow> WinTunAdapter \<times> 's \<Rightarrow> (WinTunAdapter \<times> 's) option" where
  "adapter_run W load [] q = Some q"
| "adapter_run W load (op # ops) q = Option.bind (adapter_step W load op q) (adapter_run W load ops)"

lemma session_part_simps [simp]: "session_part None = {}" "session_part (Some ses) = {WSession (ws_handle ses)}"
  by (simp_all add: session_part_def)

lemma set_event_cases:
  assumes "wintun_accounts W held" "set_event W h s = (r, s')"
  shows "held s' = held s \<and> r \<noteq> Panic"
  using assms io_preservesD [OF wait_held(4) [OF assms(1)] assms(2)]
  by (auto simp: set_event_def win_last_os_error_def Let_def split: prod.splits if_splits)

lemma disable_ok:
  assumes W: "wintun_accounts W held" and "adapter_ok held base d s" "adapter_disable W d s = (r, d', s')"
  shows "adapter_ok held base d' s'"
proof (cases "wa_state d")
  case True
  obtain q s1 where q: "set_event W (wa_event d) s = (q, s1)" by force
  have s1: "held s1 = held s" "q \<noteq> Panic" using set_event_cases [OF W q] by auto
  show ?thesis
  proof (cases q)
    case (Ok u)
    obtain ses where ses: "wa_session d = Some ses" using assms(2) True by (auto simp: adapter_ok_def)
    define s2 where "s2 = wt_EndSession W (ws_handle ses) s1"
    have "held s2 = held s - {WSession (ws_handle ses)}" by (simp add: s2_def s1 win_release [OF W])
    moreover obtain q2 s3 where q2: "reset_event W (wa_event d) s2 = (q2, s3)" by force
    moreover have "d' = d\<lparr>wa_state := False, wa_session := None\<rparr>" "s' = s3"
      using assms(3) True q Ok ses q2 by (simp_all add: adapter_disable_def take_session_def session_drop_def s2_def [symmetric])
    moreover have "held s3 = held s2" using io_preservesD [OF wait_held(5) [OF W] q2] .
    ultimately show ?thesis using assms(2) ses by (auto simp: adapter_ok_def device_parts_def)
  next
    case (Err e)
    then have "d' = d\<lparr>wa_state := True\<rparr>" "s' = s1" using assms(3) True q by (simp_all add: adapter_disable_def)
    then show ?thesis using assms(2) True s1 by (simp add: adapter_ok_def device_parts_def)
  qed (use s1 in simp)
qed (use assms in \<open>simp add: adapter_disable_def\<close>)

lemma enable_ok:
  assumes W: "wintun_accounts W held" and "adapter_ok held base d s" "adapter_enable W d s = (r, d', s')"
  shows "adapter_ok held base d' s'"
proof (cases "wa_state d")
  case False
  have none: "wa_session d = None" using assms(2) False by (simp add: adapter_ok_def)
  obtain h s1 where h: "wt_StartSession W (wa_handle d) (wa_ring_capacity d) s = (h, s1)" by force
  show ?thesis
  proof (cases "h = 0")
    case True
    then show ?thesis using assms(2,3) False h win_acquire(4) [OF W, where s = s and s' = s1]
      by (auto simp: adapter_enable_def adapter_ok_def)
  next
    case nz: False
    note s1 = win_acquire(3) [OF W h nz]
    obtain ev s2 where ev: "wt_GetReadWaitEvent W h s1 = (ev, s2)" by force
    have s2: "held s2 = held s1" using win_keep(12) [OF W ev] .
    show ?thesis
    proof (cases "ev = 0")
      case True
      then have "d' = d" "s' = wt_EndSession W h s2" using assms(3) False h nz ev by (simp_all add: adapter_enable_def Let_def)
      moreover have "held (wt_EndSession W h s2) = held s" using s1 s2 by (simp add: win_release [OF W])
      ultimately show ?thesis using assms(2) by (simp add: adapter_ok_def)
    next
      case False
      then have "d' = d\<lparr>wa_session := Some \<lparr>ws_handle = h, ws_read_event = ev\<rparr>, wa_state := True\<rparr>" "s' = s2"
        using assms(3) \<open>\<not> wa_state d\<close> h nz ev none by (simp_all add: adapter_enable_def take_session_def Let_def)
      then show ?thesis using assms(2) none s1 s2 by (auto simp: adapter_ok_def device_parts_def)
    qed
  qed
qed (use assms in \<open>simp add: adapter_enable_def\<close>)

lemma adapter_ok_held: "adapter_ok held base d s \<Longrightarrow> held s' = held s \<Longrightarrow> adapter_ok held base d s'"
  by (simp add: adapter_ok_def)

lemma packets_held:
  assumes W: "wintun_accounts W held"
  shows "held (snd (adapter_try_send W d buf s)) = held s" "held (snd (adapter_try_recv W d buf s)) = held s"
    "held (snd (adapter_wait_readable_interruptible W d h t s)) = held s"
    "adapter_send W load d buf event s = Some q \<Longrightarrow> held (snd q) = held s"
    "adapter_recv W d buf s = Some q' \<Longrightarrow> held (snd q') = held s"
  using try_send_held [OF W] try_recv_held [OF W] wait_held(2) [OF W] session_send_held [OF W] session_recv_held [OF W]
  by (auto simp: adapter_try_send_def adapter_try_recv_def adapter_wait_readable_interruptible_def adapter_send_def
      adapter_recv_def with_session_def io_preserves_def io_fail_def split: option.splits)

lemma step_ok:
  assumes W: "wintun_accounts W held" and ok: "adapter_ok held base d s" and st: "adapter_step W load op (d, s) = Some (d', s')"
  shows "adapter_ok held base d' s'"
proof (cases op)
  case (EnableOp v)
  obtain r where r: "(if v then adapter_enable W else adapter_disable W) d s = (r, d', s')"
    using st EnableOp by (cases "(if v then adapter_enable W else adapter_disable W) d s") auto
  then show ?thesis using enable_ok [OF W ok] disable_ok [OF W ok] by (cases v) simp_all
next
  case (SendOp buf event)
  then show ?thesis using st ok packets_held(4) [OF W] by (auto intro: adapter_ok_held)
next
  case (RecvOp buf)
  then show ?thesis using st ok packets_held(5) [OF W] by (auto intro: adapter_ok_held)
qed (use st ok packets_held(1-3) [OF W] in \<open>auto intro: adapter_ok_held\<close>)

lemma run_ok:
  assumes W: "wintun_accounts W held"
  shows "adapter_ok held base d s \<Longrightarrow> adapter_run W load ops (d, s) = Some (d', s') \<Longrightarrow> adapter_ok held base d' s'"
proof (induction ops arbitrary: d s)
  case (Cons op ops)
  then obtain d1 s1 where "adapter_step W load op (d, s) = Some (d1, s1)" "adapter_run W load ops (d1, s1) = Some (d', s')"
    by (auto simp: Option.bind_eq_Some_conv)
  then show ?case using Cons.IH step_ok [OF W Cons.prems(1)] by blast
qed simp

lemma drop_held:
  assumes W: "wintun_accounts W held" and "adapter_ok held base d s" shows "held (adapter_drop W d s) = base"
  using assms(2) by (cases "wa_session d")
    (auto simp: adapter_drop_def take_session_def session_drop_def Let_def win_release [OF W] win_keep [OF W]
      adapter_ok_def device_parts_def)

lemma io_unless_simps [io_simps]:
  "m s = (Ok a, s') \<Longrightarrow> io_unless m d s = (Ok a, s')"
  "m s = (Err e, s') \<Longrightarrow> io_unless m d s = (Err e, d s')"
  "m s = (Panic, s') \<Longrightarrow> io_unless m d s = (Panic, d s')"
  by (simp_all add: io_unless_def)

lemma load_held:
  assumes W: "wintun_accounts W held" and c: "acquires held WAdapter call" and l: "load_adapter W path log call s = (r, s')"
  shows "(\<exists>a. r = Ok a \<and> WAdapter a \<notin> held s \<and> held s' = insert (WAdapter a) (held s)) \<or> (\<exists>e. r = Err e) \<and> held s' = held s"
proof -
  obtain b s1 where b: "wt_load W path s = (b, s1)" by force
  define s2 where "s2 = (if log then wt_SetLogger W s1 else s1)"
  obtain a s3 where a: "call s2 = (a, s3)" by force
  have h: "held s1 = held s" "held s2 = held s1" using win_keep [OF W] b by (auto simp: s2_def)
  show ?thesis
  proof (cases b)
    case True
    have "(r, s') = (if a = 0 then win_last_os_error W s3 else (Ok a, s3))"
      using l b True a by (simp add: load_adapter_def s2_def [symmetric])
    then show ?thesis using acquiresD [OF c a] h by (cases "a = 0") (auto simp: win_last_os_error_def)
  next
    case False
    then show ?thesis using l b h by (auto simp: load_adapter_def err_other_def)
  qed
qed

lemma finish_held:
  assumes W: "wintun_accounts W held" and d: "adapter_ok held base d s" and f: "finish_device W d s = (r, s')"
  shows "(\<exists>t. r = Ok t \<and> td_adapter t = d \<and> adapter_ok held base d s') \<or> (\<exists>e. r = Err e) \<and> held s' = base"
proof -
  obtain luid s1 where l: "wt_GetAdapterLUID W (wa_handle d) s = (luid, s1)" by force
  obtain c i s2 where i: "wi_LuidToIndex W luid s1 = ((c, i), s2)" by (metis surj_pair)
  have h: "held s1 = held s" "held s2 = held s1" using win_keep(11) [OF W l] win_keep(9) [OF W i] by simp_all
  have ok: "adapter_ok held base d s2" by (rule adapter_ok_held [OF d]) (simp add: h)
  show ?thesis
  proof (cases "c = 0")
    case True
    then have "luid_to_index W luid s1 = (Ok i, s2)" using i by (simp add: luid_to_index_def)
    then show ?thesis using f l ok by (auto simp: finish_device_def io_map_def io_unless_def io_bind_def io_return_def)
  next
    case False
    then have "luid_to_index W luid s1 = (Err (OsError (wi_GetLastError W s2)), s2)"
      using i by (simp add: luid_to_index_def win_last_os_error_def)
    then show ?thesis using f l drop_held [OF W ok] by (auto simp: finish_device_def io_map_def io_unless_def io_bind_def)
  qed
qed

lemma build_held:
  assumes W: "wintun_accounts W held" and c: "acquires held WAdapter call"
    and b: "build_device W path cap del log call s = (r, s')"
  shows "(\<exists>t. r = Ok t \<and> adapter_ok held (held s) (td_adapter t) s') \<or> (\<exists>e. r = Err e) \<and> held s' = held s"
proof -
  obtain ev s1 where ev: "wi_CreateEvent W True False s = (ev, s1)" by force
  show ?thesis
  proof (cases "ev = 0")
    case True
    then show ?thesis using b ev win_acquire(2) [OF W, where s = s and s' = s1]
      by (auto simp: build_device_def create_event_def win_last_os_error_def io_bind_def)
  next
    case False
    note e = win_acquire(1) [OF W ev False]
    have ce: "create_event W s = (Ok ev, s1)" using ev False by (simp add: create_event_def)
    obtain q s2 where q: "load_adapter W path log call s1 = (q, s2)" by force
    show ?thesis
    proof (cases q)
      case (Ok a)
      have a: "WAdapter a \<notin> held s1" "held s2 = insert (WAdapter a) (held s1)" using load_held [OF W c q] Ok by auto
      have ok: "adapter_ok held (held s) (adapter_new a ev cap del) s2"
        using e a by (auto simp: adapter_ok_def adapter_new_def device_parts_def)
      have "finish_device W (adapter_new a ev cap del) s2 = (r, s')"
        using b ce q Ok by (simp add: build_device_def io_simps)
      from finish_held [OF W ok this] show ?thesis by auto
    next
      case (Err x)
      have "held s2 = held s1" using load_held [OF W c q] Err by auto
      moreover have "(r, s') = (Err x, wi_CloseHandle W ev s2)" using b ce q Err by (simp add: build_device_def io_simps)
      ultimately show ?thesis using e by (auto simp: win_release [OF W])
    qed (use load_held [OF W c q] in auto)
  qed
qed

lemma create_held:
  assumes W: "wintun_accounts W held"
  shows "wtun_create W path name desc guid cap del log s = (r, s') \<Longrightarrow>
      (\<exists>t. r = Ok t \<and> adapter_ok held (held s) (td_adapter t) s') \<or> (\<exists>e. r = Err e) \<and> held s' = held s"
    and "wtun_open W path name cap del log s = (r, s') \<Longrightarrow>
      (\<exists>t. r = Ok t \<and> adapter_ok held (held s) (td_adapter t) s') \<or> (\<exists>e. r = Err e) \<and> held s' = held s"
proof -
  have c: "acquires held WAdapter (wt_OpenAdapter W us)" "acquires held WAdapter (wt_CreateAdapter W us vs g)" for us vs g
    using W by (simp_all add: wintun_accounts_def acquires_all_def)
  show "wtun_create W path name desc guid cap del log s = (r, s') \<Longrightarrow>
      (\<exists>t. r = Ok t \<and> adapter_ok held (held s) (td_adapter t) s') \<or> (\<exists>e. r = Err e) \<and> held s' = held s"
    using build_held [OF W c(2)] by (auto simp: wtun_create_def io_res_def err_other_def split: if_splits)
  show "wtun_open W path name cap del log s = (r, s') \<Longrightarrow>
      (\<exists>t. r = Ok t \<and> adapter_ok held (held s) (td_adapter t) s') \<or> (\<exists>e. r = Err e) \<and> held s' = held s"
    using build_held [OF W c(1)] by (auto simp: wtun_open_def io_res_def err_other_def split: if_splits)
qed

section \<open>A system\<close>

text \<open>
  A Windows with one ring, whose handles are fresh numbers: what is held, the packets waiting to be read, those
  written, the memory, the clock and the last error.  \<open>room\<close> is how many packets may still be written.
\<close>

record wdemo =
  dm_held :: "win_resource list"
  dm_in :: "byte list list"
  dm_out :: "byte list list"
  dm_mem :: "handle \<Rightarrow> byte list"
  dm_room :: nat
  dm_clock :: nat
  dm_error :: nat

fun resource_id :: "win_resource \<Rightarrow> int" where
  "resource_id (WEvent h) = \<bar>h\<bar>"
| "resource_id (WAdapter h) = \<bar>h\<bar>"
| "resource_id (WSession h) = \<bar>h\<bar>"
| "resource_id (RxPacket h p) = \<bar>p\<bar>"
| "resource_id (TxPacket h p) = \<bar>p\<bar>"

definition fresh_id :: "win_resource list \<Rightarrow> int" where
  "fresh_id rs = 1 + sum_list (map resource_id rs)"

definition dm_new :: "(handle \<Rightarrow> win_resource) \<Rightarrow> wdemo \<Rightarrow> handle \<times> wdemo" where
  "dm_new k s = (let h = fresh_id (dm_held s) in (h, s\<lparr>dm_held := k h # dm_held s\<rparr>))"

definition dm_free :: "win_resource \<Rightarrow> wdemo \<Rightarrow> wdemo" where
  "dm_free r s = s\<lparr>dm_held := removeAll r (dm_held s)\<rparr>"

lemma resource_id_nonneg: "0 \<le> resource_id r"
  by (cases r) simp_all

lemma resource_id_le: "r \<in> set rs \<Longrightarrow> resource_id r < fresh_id rs"
proof (induction rs)
  case (Cons x rs)
  have "0 \<le> sum_list (map resource_id rs)" by (induction rs) (auto simp: resource_id_nonneg add_nonneg_nonneg)
  then show ?case using Cons resource_id_nonneg [of x] by (auto simp: fresh_id_def)
qed simp

lemma fresh_id_pos: "0 < fresh_id rs"
proof (induction rs)
  case (Cons r rs)
  then show ?case using resource_id_nonneg [of r] by (simp add: fresh_id_def)
qed (simp add: fresh_id_def)

lemma fresh_not_held: "resource_id (k (fresh_id rs)) = fresh_id rs \<Longrightarrow> k (fresh_id rs) \<notin> set rs"
  using resource_id_le by fastforce

definition dm_receive :: "handle \<Rightarrow> wdemo \<Rightarrow> (handle \<times> u32) \<times> wdemo" where
  "dm_receive h s = (case dm_in s of [] \<Rightarrow> ((0, 0), s\<lparr>dm_error := ERROR_NO_MORE_ITEMS\<rparr>)
     | bs # rest \<Rightarrow> (case dm_new (RxPacket h) s of (p, s) \<Rightarrow>
         ((p, of_nat (length bs)), s\<lparr>dm_in := rest, dm_mem := (dm_mem s)(p := bs)\<rparr>)))"

definition dm_allocate :: "handle \<Rightarrow> u32 \<Rightarrow> wdemo \<Rightarrow> handle \<times> wdemo" where
  "dm_allocate h n s = (if dm_room s = 0 then (0, s\<lparr>dm_error := ERROR_BUFFER_OVERFLOW\<rparr>) else dm_new (TxPacket h) s)"

definition dm_send :: "handle \<Rightarrow> handle \<Rightarrow> wdemo \<Rightarrow> wdemo" where
  "dm_send h p s = dm_free (TxPacket h p) (s\<lparr>dm_out := dm_out s @ [dm_mem s p], dm_room := dm_room s - 1\<rparr>)"

definition dm_guid :: win_guid where
  "dm_guid = \<lparr>guid_data1 = 0, guid_data2 = 0, guid_data3 = 0, guid_data4 = []\<rparr>"

definition dm_rows :: "ipinterface_row \<times> unicast_row \<times> forward_row" where
  "dm_rows = (\<lparr>ir_Family = 0, ir_InterfaceIndex = 0, ir_NlMtu = 0, ir_Metric = 0, ir_UseAutomaticMetric = False,
       ir_SitePrefixLength = 0, ir_rest = []\<rparr>,
     \<lparr>ur_Address = [], ur_InterfaceIndex = 0, ur_OnLinkPrefixLength = 0, ur_rest = []\<rparr>,
     \<lparr>fr_InterfaceIndex = 0, fr_Prefix = [], fr_PrefixLength = 0, fr_NextHop = [], fr_SitePrefixLength = 0, fr_Metric = 0,
      fr_Protocol = 0, fr_Origin = 0, fr_rest = []\<rparr>)"

definition win_demo :: "wdemo wintun" where
  "win_demo = \<lparr>wi_GetLastError = dm_error, wi_CreateEvent = (\<lambda>_ _. dm_new WEvent),
     wi_SetEvent = (\<lambda>_ s. (1, s)), wi_ResetEvent = (\<lambda>_ s. (1, s)), wi_CloseHandle = (\<lambda>h. dm_free (WEvent h)),
     wi_WaitForSingleObject = (\<lambda>_ _ s. (258, s)), wi_WaitForMultipleObjects = (\<lambda>_ _ s. (0, s)),
     wi_StringFromGUID2 = (\<lambda>_ _ s. ((0, []), s)), wi_AliasToLuid = (\<lambda>_ s. ((0, 7), s)), wi_LuidToIndex = (\<lambda>_ s. ((0, 3), s)),
     wi_LuidToGuid = (\<lambda>_ s. ((0, dm_guid), s)), wi_LuidToAlias = (\<lambda>_ _ s. ((0, [116]), s)),
     wi_GetIpInterfaceTable = (\<lambda>_ s. ((0, 0, []), s)), wi_GetUnicastIpAddressTable = (\<lambda>_ s. ((0, 0, []), s)),
     wi_GetIpForwardTable2 = (\<lambda>_ s. ((0, 0, []), s)), wi_FreeMibTable = (\<lambda>_ s. s),
     wi_GetIpInterfaceEntry = (\<lambda>r s. ((0, r), s)), wi_SetIpInterfaceEntry = (\<lambda>_ s. (0, s)),
     wi_InitializeUnicastIpAddressEntry = id, wi_CreateUnicastIpAddressEntry = (\<lambda>_ s. (0, s)),
     wi_DeleteUnicastIpAddressEntry = (\<lambda>_ s. (0, s)), wi_InitializeIpForwardEntry = id,
     wi_CreateIpForwardEntry2 = (\<lambda>_ s. (0, s)), wi_DeleteIpForwardEntry2 = (\<lambda>_ s. (0, s)), wi_defaults = dm_rows,
     wt_load = (\<lambda>_ s. (True, s)), wt_SetLogger = id, wt_OpenAdapter = (\<lambda>_. dm_new WAdapter),
     wt_CreateAdapter = (\<lambda>_ _ _. dm_new WAdapter), wt_CloseAdapter = (\<lambda>h. dm_free (WAdapter h)), wt_DeleteDriver = id,
     wt_GetAdapterLUID = (\<lambda>_ s. (7, s)), wt_GetRunningDriverVersion = (\<lambda>s. (14, s)),
     wt_StartSession = (\<lambda>_ _. dm_new WSession), wt_EndSession = (\<lambda>h. dm_free (WSession h)),
     wt_GetReadWaitEvent = (\<lambda>_ s. (1, s)), wt_ReceivePacket = dm_receive,
     wt_ReleaseReceivePacket = (\<lambda>h p. dm_free (RxPacket h p)), wt_AllocateSendPacket = dm_allocate, wt_SendPacket = dm_send,
     wt_copy = (\<lambda>p bs s. s\<lparr>dm_mem := (dm_mem s)(p := bs)\<rparr>), wt_read = (\<lambda>p n s. take n (dm_mem s p)),
     wt_now = (\<lambda>s. (dm_clock s, s)), wt_sleep = (\<lambda>n s. s\<lparr>dm_clock := dm_clock s + n\<rparr>), wt_guid_from_u128 = (\<lambda>_. dm_guid)\<rparr>"

lemma win_demo_simps:
  "wi_GetLastError win_demo = dm_error"
  "wi_CreateEvent win_demo = (\<lambda>_ _. dm_new WEvent)"
  "wi_SetEvent win_demo = (\<lambda>_ s. (1, s))"
  "wi_ResetEvent win_demo = (\<lambda>_ s. (1, s))"
  "wi_CloseHandle win_demo = (\<lambda>h. dm_free (WEvent h))"
  "wi_WaitForSingleObject win_demo = (\<lambda>_ _ s. (258, s))"
  "wi_WaitForMultipleObjects win_demo = (\<lambda>_ _ s. (0, s))"
  "wi_StringFromGUID2 win_demo = (\<lambda>_ _ s. ((0, []), s))"
  "wi_AliasToLuid win_demo = (\<lambda>_ s. ((0, 7), s))"
  "wi_LuidToIndex win_demo = (\<lambda>_ s. ((0, 3), s))"
  "wi_LuidToGuid win_demo = (\<lambda>_ s. ((0, dm_guid), s))"
  "wi_LuidToAlias win_demo = (\<lambda>_ _ s. ((0, [116]), s))"
  "wi_GetIpInterfaceTable win_demo = (\<lambda>_ s. ((0, 0, []), s))"
  "wi_GetUnicastIpAddressTable win_demo = (\<lambda>_ s. ((0, 0, []), s))"
  "wi_GetIpForwardTable2 win_demo = (\<lambda>_ s. ((0, 0, []), s))"
  "wi_FreeMibTable win_demo = (\<lambda>_ s. s)"
  "wi_GetIpInterfaceEntry win_demo = (\<lambda>r s. ((0, r), s))"
  "wi_SetIpInterfaceEntry win_demo = (\<lambda>_ s. (0, s))"
  "wi_InitializeUnicastIpAddressEntry win_demo = id"
  "wi_CreateUnicastIpAddressEntry win_demo = (\<lambda>_ s. (0, s))"
  "wi_DeleteUnicastIpAddressEntry win_demo = (\<lambda>_ s. (0, s))"
  "wi_InitializeIpForwardEntry win_demo = id"
  "wi_CreateIpForwardEntry2 win_demo = (\<lambda>_ s. (0, s))"
  "wi_DeleteIpForwardEntry2 win_demo = (\<lambda>_ s. (0, s))"
  "wi_defaults win_demo = dm_rows"
  "wt_load win_demo = (\<lambda>_ s. (True, s))"
  "wt_SetLogger win_demo = id"
  "wt_OpenAdapter win_demo = (\<lambda>_. dm_new WAdapter)"
  "wt_CreateAdapter win_demo = (\<lambda>_ _ _. dm_new WAdapter)"
  "wt_CloseAdapter win_demo = (\<lambda>h. dm_free (WAdapter h))"
  "wt_DeleteDriver win_demo = id"
  "wt_GetAdapterLUID win_demo = (\<lambda>_ s. (7, s))"
  "wt_GetRunningDriverVersion win_demo = (\<lambda>s. (14, s))"
  "wt_StartSession win_demo = (\<lambda>_ _. dm_new WSession)"
  "wt_EndSession win_demo = (\<lambda>h. dm_free (WSession h))"
  "wt_GetReadWaitEvent win_demo = (\<lambda>_ s. (1, s))"
  "wt_ReceivePacket win_demo = dm_receive"
  "wt_ReleaseReceivePacket win_demo = (\<lambda>h p. dm_free (RxPacket h p))"
  "wt_AllocateSendPacket win_demo = dm_allocate"
  "wt_SendPacket win_demo = dm_send"
  "wt_copy win_demo = (\<lambda>p bs s. s\<lparr>dm_mem := (dm_mem s)(p := bs)\<rparr>)"
  "wt_read win_demo = (\<lambda>p n s. take n (dm_mem s p))"
  "wt_now win_demo = (\<lambda>s. (dm_clock s, s))"
  "wt_sleep win_demo = (\<lambda>n s. s\<lparr>dm_clock := dm_clock s + n\<rparr>)"
  "wt_guid_from_u128 win_demo = (\<lambda>_. dm_guid)"
  by (simp_all add: win_demo_def)

lemma dm_new_acquires: "(\<And>h. 0 \<le> h \<Longrightarrow> resource_id (k h) = h) \<Longrightarrow> acquires (\<lambda>s. set (dm_held s)) k (dm_new k)"
  using fresh_not_held [of k] fresh_id_pos by (auto simp: acquires_def dm_new_def Let_def less_le)

lemma win_demo_accounts: "wintun_accounts win_demo (\<lambda>s. set (dm_held s))"
proof -
  have "acquires (\<lambda>s. set (dm_held s)) (RxPacket h) (\<lambda>s. map_prod fst id (dm_receive h s))" for h
    using fresh_not_held [of "RxPacket h"] fresh_id_pos
    by (auto simp: acquires_def dm_receive_def dm_new_def Let_def less_le split: list.splits)
  moreover have "acquires (\<lambda>s. set (dm_held s)) (TxPacket h) (dm_allocate h n)" for h n
    using dm_new_acquires [of "TxPacket h"] by (auto simp: acquires_def dm_allocate_def)
  ultimately show ?thesis
    by (auto simp: wintun_accounts_def acquires_all_def releases_all_def keeps_all_def win_demo_simps dm_new_acquires
        releases_def keeps_def dm_free_def dm_send_def)
qed

definition dm_start :: wdemo where
  "dm_start = \<lparr>dm_held = [], dm_in = [[1, 2, 3]], dm_out = [], dm_mem = (\<lambda>_. []), dm_room = 1, dm_clock = 0, dm_error = 0\<rparr>"

text \<open>
  C23. A device accounts for what it holds.  When creating it fails, the event and the adapter are released; when
  it succeeds, then after any operations the flag says whether there is a session, the device holds its event, its
  adapter and that session beside what was held before, no packet is kept, and dropping the device releases all of it.
\<close>

theorem win_device_lifecycle:
  assumes "wintun_accounts W held"
  shows "case wtun_create W path name desc guid cap del log s of
      (Ok t, s1) \<Rightarrow> (\<forall>d s2. adapter_run W load ops (td_adapter t, s1) = Some (d, s2) \<longrightarrow>
         (wa_state d \<longleftrightarrow> wa_session d \<noteq> None) \<and> held s2 = held s \<union> device_parts d
         \<and> held s \<inter> device_parts d = {} \<and> held (adapter_drop W d s2) = held s)
    | (_, s1) \<Rightarrow> held s1 = held s"
proof -
  obtain r s1 where r: "wtun_create W path name desc guid cap del log s = (r, s1)" by force
  show ?thesis
  proof (cases r)
    case (Ok t)
    have ok: "adapter_ok held (held s) (td_adapter t) s1" using create_held(1) [OF assms r] Ok by simp
    have "(wa_state d \<longleftrightarrow> wa_session d \<noteq> None) \<and> held s2 = held s \<union> device_parts d
         \<and> held s \<inter> device_parts d = {} \<and> held (adapter_drop W d s2) = held s"
      if "adapter_run W load ops (td_adapter t, s1) = Some (d, s2)" for d s2
      using run_ok [OF assms ok that] drop_held [OF assms] unfolding adapter_ok_def by blast
    then show ?thesis using r Ok by simp
  qed (use create_held(1) [OF assms r] r in simp_all)
qed

definition demo_ops :: "adapter_op list" where
  "demo_ops = [EnableOp True, TryRecvOp [0, 0, 0, 0], SendOp [9] None, EnableOp False, EnableOp True]"

definition demo_device :: "TunDevice res \<times> wdemo" where
  "demo_device = wtun_create win_demo [] [116] [116] None 0x20000 False False dm_start"

definition dm_has :: "win_resource list \<Rightarrow> wdemo" where
  "dm_has rs = dm_start\<lparr>dm_held := rs\<rparr>"

lemma dm_has_new: "dm_new k (dm_has rs) = (fresh_id rs, dm_has (k (fresh_id rs) # rs))"
  by (simp add: dm_has_def dm_new_def dm_start_def Let_def)

lemma demo_device_eq: "demo_device =
    (Ok \<lparr>td_index = 3, td_luid = 7, td_adapter = adapter_new 2 1 0x20000 False\<rparr>, dm_has [WAdapter 2, WEvent 1])"
proof -
  have f: "fresh_id [] = 1" "fresh_id [WEvent 1] = 2" by (simp_all add: fresh_id_def)
  have "dm_start = dm_has []" by (simp add: dm_has_def dm_start_def)
  moreover have "create_event win_demo (dm_has []) = (Ok 1, dm_has [WEvent 1])"
    by (simp add: create_event_def win_demo_simps dm_has_new f)
  moreover have "load_adapter win_demo [] False (wt_CreateAdapter win_demo us vs g) (dm_has [WEvent 1])
      = (Ok 2, dm_has [WAdapter 2, WEvent 1])" for us vs g
    by (simp add: load_adapter_def win_demo_simps dm_has_new f)
  moreover have "finish_device win_demo d (dm_has [WAdapter 2, WEvent 1])
      = (Ok \<lparr>td_index = 3, td_luid = 7, td_adapter = d\<rparr>, dm_has [WAdapter 2, WEvent 1])" for d
    by (simp add: finish_device_def luid_to_index_def io_map_def io_bind_def io_return_def io_unless_def win_demo_simps)
  moreover have "capacity_in_range 0x20000" "length (encode_utf16 [116]) \<le> MAX_POOL"
    by (simp_all add: capacity_in_range_def MIN_RING_CAPACITY_def MAX_RING_CAPACITY_def encode_utf16_def utf16_units_def MAX_POOL_def)
  ultimately show ?thesis
    by (simp add: demo_device_def wtun_create_def build_device_def io_simps)
qed

lemma demo_run: "\<exists>d s. adapter_run win_demo (\<lambda>_. True) demo_ops (adapter_new 2 1 0x20000 False, dm_has [WAdapter 2, WEvent 1]) = Some (d, s)
    \<and> wa_session d \<noteq> None \<and> dm_out s = [[9]]"
  apply (simp add: demo_ops_def adapter_enable_def adapter_new_def win_demo_simps dm_has_new fresh_id_def take_session_def)
  apply (simp add: adapter_try_recv_def session_try_recv_def adapter_send_def with_session_def session_send_def win_demo_simps dm_receive_def dm_has_def dm_start_def dm_new_def fresh_id_def dm_free_def)
  apply (subst send_loop.simps)
  apply (simp add: session_try_send_def dm_allocate_def dm_new_def win_demo_simps fresh_id_def dm_send_def dm_free_def)
  apply (simp add: adapter_disable_def set_event_def reset_event_def take_session_def session_drop_def win_demo_simps dm_free_def adapter_enable_def dm_new_def fresh_id_def)
  done

theorem win_device_lifecycle_witness:
  "\<exists>d s. adapter_run win_demo (\<lambda>_. True) demo_ops (adapter_new 2 1 0x20000 False, dm_has [WAdapter 2, WEvent 1]) = Some (d, s)
    \<and> wa_state d \<and> dm_out s = [[9]] \<and> set (dm_held s) = device_parts d \<and> dm_held (adapter_drop win_demo d s) = []"
proof -
  obtain d s where d: "adapter_run win_demo (\<lambda>_. True) demo_ops (adapter_new 2 1 0x20000 False, dm_has [WAdapter 2, WEvent 1]) = Some (d, s)"
      "wa_session d \<noteq> None" "dm_out s = [[9]]" using demo_run by blast
  have "dm_held dm_start = []" by (simp add: dm_start_def)
  then show ?thesis
    using win_device_lifecycle [OF win_demo_accounts, where path = "[]" and name = "[116]" and desc = "[116]" and guid = None
        and cap = "0x20000" and del = False and log = False and s = dm_start and load = "\<lambda>_. True" and ops = demo_ops] d
    unfolding demo_device_def [symmetric] demo_device_eq by auto
qed

section \<open>Packets and the ring\<close>

text \<open>
  What wintun documents of its ring, with \<open>inn\<close> the packets waiting and \<open>out\<close> those written: the first packet
  is handed out and stays readable until it is released, an allocated packet is written as it is when sent.
  No packet is longer than 65535 bytes.
\<close>

definition ring_receives :: "('s, 'x) wintun_scheme \<Rightarrow> ('s \<Rightarrow> byte list list) \<Rightarrow> ('s \<Rightarrow> byte list list) \<Rightarrow> bool" where
  "ring_receives W inn out \<longleftrightarrow> (\<forall>h s. let ((p, n), s') = wt_ReceivePacket W h s in out s' = out s \<and>
     (case inn s of
        [] \<Rightarrow> p = 0 \<and> wi_GetLastError W s' = ERROR_NO_MORE_ITEMS \<and> inn s' = []
      | bs # rest \<Rightarrow> length bs \<le> 65535 \<longrightarrow> p \<noteq> 0 \<and> unat n = length bs \<and> wt_read W p (length bs) s' = bs \<and> inn s' = rest))"

definition ring_sends :: "('s, 'x) wintun_scheme \<Rightarrow> ('s \<Rightarrow> byte list list) \<Rightarrow> ('s \<Rightarrow> byte list list) \<Rightarrow> bool" where
  "ring_sends W inn out \<longleftrightarrow> (\<forall>h n s. let (p, s') = wt_AllocateSendPacket W h n s in inn s' = inn s \<and> out s' = out s \<and>
     (p \<noteq> 0 \<longrightarrow> (\<forall>bs. length bs = unat n \<longrightarrow>
        inn (wt_SendPacket W h p (wt_copy W p bs s')) = inn s \<and> out (wt_SendPacket W h p (wt_copy W p bs s')) = out s @ [bs])))"

definition ring_documented :: "('s, 'x) wintun_scheme \<Rightarrow> ('s \<Rightarrow> byte list list) \<Rightarrow> ('s \<Rightarrow> byte list list) \<Rightarrow> bool" where
  "ring_documented W inn out \<longleftrightarrow> ring_receives W inn out \<and> ring_sends W inn out \<and> keeps_all W inn \<and> keeps_all W out
     \<and> (\<forall>h p s. inn (wt_ReleaseReceivePacket W h p s) = inn s \<and> out (wt_ReleaseReceivePacket W h p s) = out s)"

lemma keeps_allD:
  assumes "keeps_all W f"
  shows "wt_now W s = (now, s') \<Longrightarrow> f s' = f s" "wi_WaitForSingleObject W h n s = (r, s') \<Longrightarrow> f s' = f s" "f (wt_sleep W n s) = f s"
proof -
  show "f (wt_sleep W n s) = f s" using assms by (simp add: keeps_all_def)
  have k: "keeps f (wt_now W)" "keeps f (wi_WaitForSingleObject W h n)" using assms by (simp_all add: keeps_all_def)
  show "wt_now W s = (now, s') \<Longrightarrow> f s' = f s" by (rule keepsD [OF k(1)])
  show "wi_WaitForSingleObject W h n s = (r, s') \<Longrightarrow> f s' = f s" by (rule keepsD [OF k(2)])
qed

lemma interrupted_keeps: "keeps_all W f \<Longrightarrow> interrupted W event s = (hit, s') \<Longrightarrow> f s' = f s"
  using keeps_allD(2) [of W f]
  by (auto simp: interrupted_def wait_for_single_object_def win_last_os_error_def Let_def split: option.splits prod.splits if_splits)

text \<open>A packet is written whole, or nothing is.\<close>

definition wrote :: "('s \<Rightarrow> byte list list) \<Rightarrow> byte list \<Rightarrow> 's \<Rightarrow> nat res \<times> 's \<Rightarrow> bool" where
  "wrote out buf s q \<longleftrightarrow> (case q of (Ok n, s') \<Rightarrow> n = length buf \<and> out s' = out s @ [buf] | (Err e, s') \<Rightarrow> out s' = out s | (Panic, s') \<Rightarrow> False)"

lemma try_send_ring:
  assumes "ring_documented W inn out" shows "wrote out buf s (session_try_send W ses buf s)"
proof (cases "length buf > 0xFFFFFFFF")
  case False
  define h where "h = ws_handle ses"
  obtain p s1 where p: "wt_AllocateSendPacket W h (of_nat (length buf)) s = (p, s1)" by force
  have n: "unat (of_nat (length buf) :: u32) = length buf" using False by (simp add: unat_of_nat take_bit_nat_eq_self)
  have "out s1 = out s \<and> (p \<noteq> 0 \<longrightarrow> (\<forall>bs. length bs = unat (of_nat (length buf) :: u32) \<longrightarrow>
      out (wt_SendPacket W h p (wt_copy W p bs s1)) = out s @ [bs]))"
    using assms p unfolding ring_documented_def ring_sends_def by (fastforce simp: Let_def split: prod.splits)
  then show ?thesis using p n False by (auto simp: session_try_send_def wrote_def h_def [symmetric] Let_def)
qed (simp add: session_try_send_def wrote_def io_res_def invalid_input_def)

lemma send_loop_ring:
  assumes "ring_documented W inn out" "send_loop W load ses buf event start backoff s = Some q"
  shows "wrote out buf s q"
proof -
  have "ring_documented W inn out \<longrightarrow> wrote out buf s q"
  proof (induction rule: send_loop.raw_induct [OF _ assms(2)])
    case (1 self W load ses buf event start backoff s q)
    show ?case
    proof
      assume a: "ring_documented W inn out"
      then have k: "keeps_all W out" by (simp add: ring_documented_def)
      obtain t s1 where t: "session_try_send W ses buf s = (t, s1)" by force
      obtain now s2 where n: "wt_now W s1 = (now, s2)" by force
      obtain hit s3 where i: "interrupted W event s2 = (hit, s3)" by force
      have w: "wrote out buf s (t, s1)" using try_send_ring [OF a, of buf s ses] t by simp
      have h: "out s2 = out s1" "out s3 = out s2" using keeps_allD(1) [OF k n] interrupted_keeps [OF k i] by simp_all
      show "wrote out buf s q"
      proof (cases t)
        case (Err e)
        have s1: "out s1 = out s" using w Err by (simp add: wrote_def)
        show ?thesis
        proof (cases "win_would_block e \<and> load s1 \<and> \<not> now - start > send_timeout \<and> \<not> hit")
          case True
          define s4 where "s4 = (if backoff = 0 then s3 else wt_sleep W backoff s3)"
          have "self W load ses buf event start (next_backoff backoff) s4 = Some q"
            using 1(2) t n i Err True by (simp add: s4_def)
          then have "wrote out buf s4 q" using 1(1) a by blast
          moreover have "out s4 = out s" using h s1 keeps_allD(3) [OF k] by (simp add: s4_def)
          ultimately show ?thesis by (simp add: wrote_def split: prod.splits res.splits)
        next
          case False
          then show ?thesis using 1(2) t n i Err s1 h by (auto simp: wrote_def split: if_splits)
        qed
      qed (use 1(2) t w in \<open>auto simp: wrote_def\<close>)
    qed
  qed
  then show ?thesis using assms(1) by blast
qed

lemma win_demo_ring: "ring_documented win_demo dm_in dm_out"
proof -
  have "keeps_all win_demo dm_in" "keeps_all win_demo dm_out"
    by (auto simp: keeps_all_def keeps_def win_demo_simps)
  moreover have "ring_receives win_demo dm_in dm_out"
    using fresh_id_pos by (auto simp: ring_receives_def win_demo_simps dm_receive_def dm_new_def Let_def less_le unat_of_nat
        take_bit_nat_eq_self split: list.splits)
  moreover have "ring_sends win_demo dm_in dm_out"
    by (auto simp: ring_sends_def win_demo_simps dm_allocate_def dm_new_def dm_send_def dm_free_def Let_def)
  ultimately show ?thesis by (simp add: ring_documented_def win_demo_simps dm_free_def)
qed

lemma adapter_send_wrote:
  assumes "ring_documented W inn out" "adapter_send W load d buf event s = Some q"
  shows "wrote out buf s q" "fst q = Ok n \<Longrightarrow> wa_session d \<noteq> None"
proof -
  show "wrote out buf s q"
  proof (cases "wa_session d")
    case (Some ses)
    obtain start s1 where n: "wt_now W s = (start, s1)" by force
    have "out s1 = out s" using keeps_allD(1) [of W out, OF _ n] assms(1) by (simp add: ring_documented_def)
    moreover have "send_loop W load ses buf event start 0 s1 = Some q"
      using assms(2) Some n by (simp add: adapter_send_def with_session_def session_send_def)
    ultimately have "out s1 = out s" "wrote out buf s1 q" using send_loop_ring [OF assms(1)] by blast+
    then show ?thesis by (cases q) (auto simp: wrote_def split: res.splits)
  qed (use assms(2) in \<open>auto simp: adapter_send_def with_session_def wrote_def\<close>)
  show "fst q = Ok n \<Longrightarrow> wa_session d \<noteq> None" using assms(2) by (auto simp: adapter_send_def with_session_def split: option.splits)
qed

text \<open>
  C24. Sending on a wintun device writes the whole packet once and reports its length, or reports an error and
  writes nothing, however often the ring was found full; a device that is not enabled writes nothing.
\<close>

theorem win_send_all_or_nothing:
  assumes "ring_documented W inn out" "adapter_send W load d buf event s = Some (r, s')"
  shows "r = Ok (length buf) \<and> wa_session d \<noteq> None \<and> out s' = out s @ [buf] \<or> (\<exists>e. r = Err e) \<and> out s' = out s"
  using adapter_send_wrote [OF assms] by (cases r) (auto simp: wrote_def)

lemma demo_send: "\<exists>s'. adapter_send win_demo (\<lambda>_. True) ((adapter_new 2 1 0x20000 False)\<lparr>wa_session := Some \<lparr>ws_handle = 3, ws_read_event = 4\<rparr>\<rparr>)
    [5, 6] None dm_start = Some (Ok 2, s')"
  apply (simp add: adapter_send_def with_session_def session_send_def win_demo_simps)
  apply (subst send_loop.simps)
  apply (simp add: session_try_send_def dm_allocate_def dm_new_def win_demo_simps fresh_id_def dm_start_def)
  done

theorem win_send_all_or_nothing_witness:
  "\<exists>s'. adapter_send win_demo (\<lambda>_. True) ((adapter_new 2 1 0x20000 False)\<lparr>wa_session := Some \<lparr>ws_handle = 3, ws_read_event = 4\<rparr>\<rparr>)
    [5, 6] None dm_start = Some (Ok 2, s') \<and> dm_out s' = [[5, 6]]"
proof -
  obtain s' where s': "adapter_send win_demo (\<lambda>_. True) ((adapter_new 2 1 0x20000 False)\<lparr>wa_session := Some \<lparr>ws_handle = 3, ws_read_event = 4\<rparr>\<rparr>)
    [5, 6] None dm_start = Some (Ok 2, s')" using demo_send by blast
  have "dm_out dm_start = []" by (simp add: dm_start_def)
  then show ?thesis using win_send_all_or_nothing [OF win_demo_ring s'] s' by auto
qed

lemma try_recv_ring:
  assumes "ring_documented W inn out" "inn s = bs # rest" "length bs \<le> 65535"
  shows "\<exists>s'. session_try_recv W ses buf s = (if length bs \<le> length buf then Ok (length bs, bs @ drop (length bs) buf)
      else invalid_input ''destination buffer too small'', s') \<and> inn s' = rest"
proof -
  define h where "h = ws_handle ses"
  obtain p n s1 where p: "wt_ReceivePacket W h s = ((p, n), s1)" by (metis surj_pair)
  have r: "ring_receives W inn out" "inn (wt_ReleaseReceivePacket W h p s1) = inn s1"
    using assms(1) by (simp_all add: ring_documented_def)
  have "p \<noteq> 0 \<and> unat n = length bs \<and> wt_read W p (length bs) s1 = bs \<and> inn s1 = rest"
    using r(1) [unfolded ring_receives_def, rule_format, of h s] p assms(2,3) by simp
  then show ?thesis using p r(2) by (auto simp: session_try_recv_def h_def [symmetric] Let_def)
qed

text \<open>
  C25. When a packet waits in the ring, a blocking receive takes it at once: the buffer holds it and what the
  buffer held behind it, or, when it does not fit, the packet is lost and the error says so.
\<close>

theorem win_recv_takes_packet:
  assumes "ring_documented W inn out" "wa_session d = Some ses" "inn s = bs # rest" "length bs \<le> 65535"
  shows "\<exists>s'. adapter_recv W d buf s = Some (if length bs \<le> length buf then Ok (length bs, bs @ drop (length bs) buf)
      else invalid_input ''destination buffer too small'', s') \<and> inn s' = rest"
proof -
  obtain s' where s': "session_try_recv W ses buf s = (if length bs \<le> length buf then Ok (length bs, bs @ drop (length bs) buf)
      else invalid_input ''destination buffer too small'', s')" "inn s' = rest"
    using try_recv_ring [OF assms(1,3,4), of ses buf] by blast
  have "recv_tries W ses buf (Suc n) s = (Some (fst (session_try_recv W ses buf s)), s')" for n
    using s'(1) by (simp add: invalid_input_def win_would_block_def)
  from this [of 15] s' show ?thesis
    by (simp add: adapter_recv_def with_session_def assms(2) session_recv.simps)
qed

theorem win_recv_takes_packet_witness:
  "\<exists>s'. adapter_recv win_demo ((adapter_new 2 1 0x20000 False)\<lparr>wa_session := Some \<lparr>ws_handle = 3, ws_read_event = 4\<rparr>\<rparr>)
    [0, 0, 0, 8] dm_start = Some (Ok (3, [1, 2, 3, 8]), s') \<and> dm_in s' = []"
  using win_recv_takes_packet [OF win_demo_ring, where s = dm_start and bs = "[1, 2, 3]" and buf = "[0, 0, 0, 8]" and rest = "[]"
      and ses = "\<lparr>ws_handle = 3, ws_read_event = 4\<rparr>" and d = "(adapter_new 2 1 0x20000 False)\<lparr>wa_session := Some \<lparr>ws_handle = 3, ws_read_event = 4\<rparr>\<rparr>"]
  by (simp add: dm_start_def numeral_3_eq_3)

section \<open>Sending returns\<close>

text \<open>A clock that does not run backwards and that passes the time slept.\<close>

definition clock_documented :: "('s, 'x) wintun_scheme \<Rightarrow> ('s \<Rightarrow> nat) \<Rightarrow> bool" where
  "clock_documented W clock \<longleftrightarrow> (\<forall>s. clock s \<le> fst (wt_now W s) \<and> fst (wt_now W s) \<le> clock (snd (wt_now W s)))
     \<and> (\<forall>n s. clock s + n \<le> clock (wt_sleep W n s))
     \<and> (\<forall>h n s. clock s \<le> clock (snd (wt_AllocateSendPacket W h n s)))
     \<and> (\<forall>p bs s. clock s \<le> clock (wt_copy W p bs s)) \<and> (\<forall>h p s. clock s \<le> clock (wt_SendPacket W h p s))
     \<and> (\<forall>h n s. clock s \<le> clock (snd (wi_WaitForSingleObject W h n s)))"

lemma clock_try_send:
  assumes "clock_documented W clock" shows "clock s \<le> clock (snd (session_try_send W ses buf s))"
proof -
  obtain p s1 where p: "wt_AllocateSendPacket W (ws_handle ses) (of_nat (length buf)) s = (p, s1)" by force
  have 1: "clock s \<le> clock s1" using assms p unfolding clock_documented_def by (metis snd_conv)
  have 2: "clock s1 \<le> clock (wt_SendPacket W (ws_handle ses) p (wt_copy W p buf s1))"
    using assms unfolding clock_documented_def by (meson order_trans)
  show ?thesis using p 1 2 by (auto simp: session_try_send_def io_res_def Let_def)
qed

lemma clock_interrupted:
  assumes "clock_documented W clock" shows "clock s \<le> clock (snd (interrupted W event s))"
proof (cases event)
  case (Some h)
  have "snd (interrupted W event s) = snd (wi_WaitForSingleObject W h 0 s)"
    using Some by (simp add: interrupted_def wait_for_single_object_def win_last_os_error_def Let_def split: prod.splits)
  then show ?thesis using assms by (simp add: clock_documented_def)
qed (simp add: interrupted_def)

text \<open>A result that \<open>send\<close> may give; it says \<open>TimedOut\<close> only when the time is over.\<close>

definition send_result :: "('s \<Rightarrow> nat) \<Rightarrow> nat \<Rightarrow> nat res \<times> 's \<Rightarrow> bool" where
  "send_result clock start q \<longleftrightarrow> fst q \<noteq> Panic \<and> (\<forall>e. fst q = Err e \<longrightarrow> \<not> win_would_block e)
     \<and> (fst q = Err (Custom TimedOut '''') \<longrightarrow> start + send_timeout < clock (snd q))"

lemma try_send_kinds:
  "fst (session_try_send W ses buf s) \<noteq> Panic \<and> fst (session_try_send W ses buf s) \<noteq> Err (Custom TimedOut m)"
  by (auto simp: session_try_send_def io_res_def invalid_input_def Let_def split: prod.splits)

lemma send_step:
  assumes C: "clock_documented W clock"
    and rec: "\<And>s'. clock s < clock s' \<or> backoff = 0 \<Longrightarrow> clock s \<le> start + send_timeout \<Longrightarrow>
      \<exists>q. send_loop W load ses buf event start (next_backoff backoff) s' = Some q \<and> send_result clock start q"
  shows "\<exists>q. send_loop W load ses buf event start backoff s = Some q \<and> send_result clock start q"
proof -
  obtain t s1 where t: "session_try_send W ses buf s = (t, s1)" by force
  obtain now s2 where n: "wt_now W s1 = (now, s2)" by force
  obtain hit s3 where i: "interrupted W event s2 = (hit, s3)" by force
  have c: "clock s \<le> clock s1" "clock s1 \<le> now" "now \<le> clock s2" "clock s2 \<le> clock s3"
    using clock_try_send [OF C, of s ses buf] clock_interrupted [OF C, of s2 event] C n t i
    unfolding clock_documented_def by (metis fst_conv snd_conv)+
  have k: "t \<noteq> Panic" "t \<noteq> Err (Custom TimedOut [])" using try_send_kinds [of W ses buf s] t by simp_all
  show ?thesis
  proof (cases "\<exists>e. t = Err e \<and> win_would_block e \<and> load s1 \<and> \<not> now - start > send_timeout \<and> \<not> hit")
    case True
    define s4 where "s4 = (if backoff = 0 then s3 else wt_sleep W backoff s3)"
    have "send_loop W load ses buf event start backoff s = send_loop W load ses buf event start (next_backoff backoff) s4"
      using True t n i by (subst send_loop.simps) (auto simp: s4_def)
    moreover have "clock s3 + backoff \<le> clock s4" using C unfolding clock_documented_def s4_def by simp
    then have "clock s < clock s4 \<or> backoff = 0" using c by linarith
    moreover have "clock s \<le> start + send_timeout" using c True by auto
    ultimately show ?thesis using rec [of s4] by metis
  next
    case False
    have "\<exists>q. send_loop W load ses buf event start backoff s = Some q \<and>
        (q = (t, s1) \<and> (\<forall>e. t = Err e \<longrightarrow> \<not> win_would_block e) \<or> q = (Err disabled_error, s1)
         \<or> q = (Err (Custom TimedOut ''''), s2) \<and> now - start > send_timeout \<or> q = (Err (Custom Interrupted ''trigger interrupt''), s3))"
      using False t n i by (subst send_loop.simps) (cases t; auto)
    then show ?thesis using c k by (auto simp: send_result_def disabled_error_def win_would_block_def)
  qed
qed

lemma send_loop_returns:
  assumes C: "clock_documented W clock"
  shows "0 < backoff \<Longrightarrow> \<exists>q. send_loop W load ses buf event start backoff s = Some q \<and> send_result clock start q"
proof (induction "start + send_timeout + 1 - clock s" arbitrary: s backoff rule: less_induct)
  case less
  have nb: "0 < next_backoff backoff" by (simp add: next_backoff_def millisecond_def)
  have "\<exists>q. send_loop W load ses buf event start (next_backoff backoff) s' = Some q \<and> send_result clock start q"
    if "clock s < clock s' \<or> backoff = 0" "clock s \<le> start + send_timeout" for s'
  proof (rule less.hyps [OF _ nb])
    show "start + send_timeout + 1 - clock s' < start + send_timeout + 1 - clock s" using less.prems that by linarith
  qed
  then show ?case by (rule send_step [OF C])
qed

text \<open>
  C26. Sending returns: with a clock that runs, \<open>send\<close> leaves its loop whatever the ring, the flag and the event do.
  The outcome is never \<open>WouldBlock\<close>, and it is a timeout only after more than five seconds.
\<close>

theorem win_send_returns:
  assumes "clock_documented W clock"
  shows "\<exists>r s'. adapter_send W load d buf event s = Some (r, s') \<and> r \<noteq> Panic
    \<and> (\<forall>e. r = Err e \<longrightarrow> \<not> win_would_block e)
    \<and> (r = Err (Custom TimedOut '''') \<longrightarrow> clock s + 5 * 10 ^ 9 < clock s')"
proof (cases "wa_session d")
  case (Some ses)
  obtain start s1 where n: "wt_now W s = (start, s1)" by force
  have "0 < next_backoff 0" by (simp add: next_backoff_def millisecond_def)
  then obtain q where q: "send_loop W load ses buf event start 0 s1 = Some q" "send_result clock start q"
    using send_step [OF assms, of s1 0 start load ses buf event] send_loop_returns [OF assms] by blast
  have "clock s \<le> start" using assms n unfolding clock_documented_def by (metis fst_conv)
  then show ?thesis using q Some n
    by (cases q) (auto simp: adapter_send_def with_session_def session_send_def send_result_def send_timeout_def)
qed (auto simp: adapter_send_def with_session_def disabled_error_def win_would_block_def)

lemma win_demo_clock: "clock_documented win_demo dm_clock"
  by (simp add: clock_documented_def win_demo_simps dm_allocate_def dm_new_def dm_send_def dm_free_def Let_def)

theorem win_send_returns_witness:
  "\<exists>r s'. adapter_send win_demo (\<lambda>_. True) ((adapter_new 2 1 0x20000 False)\<lparr>wa_session := Some \<lparr>ws_handle = 3, ws_read_event = 4\<rparr>\<rparr>)
    [5, 6] None (dm_start\<lparr>dm_room := 0\<rparr>) = Some (r, s') \<and> (r = Err (Custom TimedOut '''') \<longrightarrow> 5 * 10 ^ 9 < dm_clock s')"
proof -
  have "dm_clock (dm_start\<lparr>dm_room := 0\<rparr>) = 0" by (simp add: dm_start_def)
  then show ?thesis
    using win_send_returns [OF win_demo_clock, where s = "dm_start\<lparr>dm_room := 0\<rparr>" and load = "\<lambda>_. True" and buf = "[5, 6]" and event = None
        and d = "(adapter_new 2 1 0x20000 False)\<lparr>wa_session := Some \<lparr>ws_handle = 3, ws_read_event = 4\<rparr>\<rparr>"]
    by (metis add_0)
qed

end
