(* ===== verification/WinDeviceSpec.thy ===== *)
theory WinDeviceSpec
  imports WinDevice WinTunSpec
begin

text \<open>
  Properties of the Windows device: what the search for a left-behind adapter finds and when it does not end, and that
  creating a device returns, under a fresh name when none was asked for.
\<close>

section \<open>The search for an adapter\<close>

text \<open>
  A system in which the devices do not change: \<open>I\<close> holds throughout, \<open>ds\<close> are the devices, \<open>st\<close> their status and
  \<open>nm\<close> their names.
\<close>

definition devices_steady :: "('s, 'x) setup_sys_scheme \<Rightarrow> ('s \<Rightarrow> bool) \<Rightarrow> int \<Rightarrow> devinfo list \<Rightarrow> (devinfo \<Rightarrow> u32 res)
    \<Rightarrow> (devinfo \<Rightarrow> rstr res) \<Rightarrow> bool" where
  "devices_steady W I devs ds st nm \<longleftrightarrow> (\<forall>s. I s \<longrightarrow>
     (\<forall>i. fst (enum_device_info W devs i s) = (if unat i < length ds then Some (Ok (ds ! unat i)) else None) \<and> I (snd (enum_device_info W devs i s)))
   \<and> (\<forall>d. fst (dev_node_status W d s) = st d \<and> I (snd (dev_node_status W d s)))
   \<and> (\<forall>d. fst (get_device_name W devs d s) = nm d \<and> I (snd (get_device_name W devs d s))))"

definition is_orphan :: "(devinfo \<Rightarrow> u32 res) \<Rightarrow> (devinfo \<Rightarrow> rstr res) \<Rightarrow> rstr \<Rightarrow> devinfo \<Rightarrow> bool" where
  "is_orphan st nm adapter_name d \<longleftrightarrow> (\<exists>w. st d = Ok w \<and> w AND DN_HAS_PROBLEM \<noteq> 0) \<and> nm d = Ok adapter_name"

lemma steadyD:
  assumes "devices_steady W I devs ds st nm" "I s"
  shows "enum_device_info W devs i s = (e, s') \<Longrightarrow> e = (if unat i < length ds then Some (Ok (ds ! unat i)) else None) \<and> I s'"
    and "dev_node_status W d s = (w, s') \<Longrightarrow> w = st d \<and> I s'"
    and "get_device_name W devs d s = (n, s') \<Longrightarrow> n = nm d \<and> I s'"
proof -
  note a = assms(1) [unfolded devices_steady_def, rule_format, OF assms(2)]
  show "enum_device_info W devs i s = (e, s') \<Longrightarrow> e = (if unat i < length ds then Some (Ok (ds ! unat i)) else None) \<and> I s'"
    using a [THEN conjunct1, rule_format, of i] by simp
  show "dev_node_status W d s = (w, s') \<Longrightarrow> w = st d \<and> I s'"
    using a [THEN conjunct2, THEN conjunct1, rule_format, of d] by simp
  show "get_device_name W devs d s = (n, s') \<Longrightarrow> n = nm d \<and> I s'"
    using a [THEN conjunct2, THEN conjunct2, rule_format, of d] by simp
qed

lemma scan_from:
  assumes W: "devices_steady W I devs ds st nm" and len: "length ds < 2 ^ 32"
  shows "I s \<Longrightarrow> unat i \<le> length ds \<Longrightarrow>
    \<exists>s'. scan_devices W devs adapter_name i s = Some (\<exists>d \<in> set (drop (unat i) ds). is_orphan st nm adapter_name d, s') \<and> I s'"
proof (induction "length ds - unat i" arbitrary: i s)
  case 0
  obtain e s1 where e: "enum_device_info W devs i s = (e, s1)" by force
  have "e = None" "I s1" using steadyD(1) [OF W 0(2) e] 0(1,3) by simp_all
  then show ?case using 0 e by (simp add: scan_devices.simps)
next
  case (Suc k)
  have i: "unat i < length ds" using Suc.hyps(2) by linarith
  define d where "d = ds ! unat i"
  obtain e s1 where e: "enum_device_info W devs i s = (e, s1)" by force
  obtain w s2 where w: "dev_node_status W d s1 = (w, s2)" by force
  obtain n s3 where n: "get_device_name W devs d s2 = (n, s3)" by force
  have 1: "e = Some (Ok d)" "I s1" using steadyD(1) [OF W Suc.prems(1) e] i by (simp_all add: d_def)
  have 2: "w = st d" "I s2" using steadyD(2) [OF W 1(2) w] by simp_all
  have 3: "n = nm d" "I s3" using steadyD(3) [OF W 2(2) n] by simp_all
  have next_i: "unat (i + 1) = unat i + 1" using i len by (simp add: unat_plus_if')
  have dr: "drop (unat i) ds = d # drop (unat (i + 1)) ds" using i by (simp add: next_i d_def Cons_nth_drop_Suc)
  have rec: "\<exists>s'. scan_devices W devs adapter_name (i + 1) s4
      = Some (\<exists>d \<in> set (drop (unat (i + 1)) ds). is_orphan st nm adapter_name d, s') \<and> I s'" if "I s4" for s4
    using Suc.hyps(1) [of "i + 1" s4] Suc.hyps(2) that i by (simp add: next_i)
  show ?case
  proof (cases "is_orphan st nm adapter_name d")
    case True
    then show ?thesis using e 1 w 2 n 3 dr by (auto simp: scan_devices.simps [of W devs adapter_name i s] is_orphan_def)
  next
    case False
    have "\<exists>s4. I s4 \<and> scan_devices W devs adapter_name i s = scan_devices W devs adapter_name (i + 1) s4"
      using e [unfolded 1(1)] w [unfolded 2(1)] n [unfolded 3(1)] 2(2) 3(2) False
      by (cases "st d"; cases "nm d") (auto simp: scan_devices.simps [of W devs adapter_name i s] is_orphan_def)
    then show ?thesis using rec dr False by auto
  qed
qed

lemma scan_stuck_at:
  assumes "scan_devices W devs adapter_name i s = Some q"
  shows "\<forall>s. I s \<longrightarrow> (\<exists>e s'. enum_device_info W devs i s = (Some (Err e), s') \<and> I s') \<Longrightarrow> \<not> I s"
proof (induction rule: scan_devices.raw_induct [OF _ assms])
  case (1 self W devs adapter_name i s q)
  show ?case
  proof
    assume "I s"
    then obtain e s' where "enum_device_info W devs i s = (Some (Err e), s')" "I s'" using "1.prems" by blast
    then show False using 1 by auto
  qed
qed

text \<open>
  A device that cannot be enumerated, as long as that does not change, keeps the search at its index for ever.
\<close>

theorem scan_stuck:
  assumes "I s" "\<And>s. I s \<Longrightarrow> \<exists>e s'. enum_device_info W devs i s = (Some (Err e), s') \<and> I s'"
  shows "scan_devices W devs adapter_name i s = None"
proof (rule ccontr)
  assume "scan_devices W devs adapter_name i s \<noteq> None"
  then obtain q where "scan_devices W devs adapter_name i s = Some q" by blast
  from scan_stuck_at [OF this, of I] show False using assms by blast
qed

lemma scan_win7_stuck_at:
  assumes "scan_devices_win7 W devs adapter_name i s = Some q"
  shows "\<forall>s. I s \<longrightarrow> (\<exists>d s1 s2. enum_device_info W devs i s = (Some (Ok d), s1) \<and> owner_alive W devs d s1 = (True, s2) \<and> I s2) \<Longrightarrow> \<not> I s"
proof (induction rule: scan_devices_win7.raw_induct [OF _ assms])
  case (1 self W devs adapter_name i s q)
  show ?case
  proof
    assume "I s"
    then obtain d s1 s2 where "enum_device_info W devs i s = (Some (Ok d), s1)" "owner_alive W devs d s1 = (True, s2)" "I s2"
      using "1.prems" by blast
    then show False using 1 by auto
  qed
qed

text \<open>On Windows 7 the search stays at a device whose process runs.\<close>

theorem scan_win7_stuck:
  assumes "I s" "\<And>s. I s \<Longrightarrow> \<exists>d s1 s2. enum_device_info W devs i s = (Some (Ok d), s1) \<and> owner_alive W devs d s1 = (True, s2) \<and> I s2"
  shows "scan_devices_win7 W devs adapter_name i s = None"
proof (rule ccontr)
  assume "scan_devices_win7 W devs adapter_name i s \<noteq> None"
  then obtain q where "scan_devices_win7 W devs adapter_name i s = Some q" by blast
  from scan_win7_stuck_at [OF this, of I] show False using assms by blast
qed

section \<open>Names\<close>

lemma decimal_value: "foldl (\<lambda>v d. 10 * v + (d - 48)) 0 (decimal n) = n"
proof (induction n rule: decimal.induct)
  case (1 n)
  show ?case
  proof (cases "n < 10")
    case True then show ?thesis by (subst decimal.simps) simp
  next
    case False
    then show ?thesis using 1 by (subst decimal.simps) (simp add: mult_div_mod_eq)
  qed
qed

lemma default_name_inj: "default_name m = default_name n \<longleftrightarrow> m = n"
  unfolding default_name_def by (metis append_same_eq same_append_eq decimal_value)

text \<open>The loop over names returns: creations are counted, and only finitely many names are in use.\<close>

lemma new_loop_returns:
  assumes fin: "finite interfaces" and chk: "\<And>nm s. wc_dev_name cfg = Some nm \<Longrightarrow> check_adapter_if_orphaned_devices W nm s \<noteq> None"
  shows "\<exists>q. new_loop W cfg interfaces n attempts s = Some q"
proof (induction "(5 - attempts, card {m. n \<le> m \<and> default_name m \<in> interfaces})" arbitrary: n attempts s
    rule: wf_induct_rule [OF wf_lex_prod [OF wf_less_than wf_less_than]])
  case (1 n attempts s)
  have fm: "finite {m. n \<le> m \<and> default_name m \<in> interfaces}"
  proof (rule finite_subset [OF _ finite_vimageI [OF fin]])
    show "inj default_name" by (simp add: inj_def default_name_inj)
  qed auto
  have more: "\<exists>q. new_loop W cfg interfaces (n + 1) (attempts + 1) s' = Some q" if "\<not> attempts > 3" for s'
  proof -
    have "5 - (attempts + 1) < 5 - attempts" using that by linarith
    then show ?thesis using 1 [of "attempts + 1" "n + 1" s'] by simp
  qed
  have skip: "\<exists>q. new_loop W cfg interfaces (n + 1) attempts s' = Some q" if "default_name n \<in> interfaces" for s'
  proof -
    have "{m. n + 1 \<le> m \<and> default_name m \<in> interfaces} \<subset> {m. n \<le> m \<and> default_name m \<in> interfaces}"
      using that by (intro psubsetI) (auto simp: set_eq_iff intro!: exI [of _ n])
    then have "card {m. n + 1 \<le> m \<and> default_name m \<in> interfaces} < card {m. n \<le> m \<and> default_name m \<in> interfaces}"
      by (rule psubset_card_mono [OF fm])
    then show ?thesis using 1 [of attempts "n + 1" s'] by auto
  qed
  obtain a s1 where a: "action_for W cfg interfaces (name_at cfg n) s = Some (a, s1)"
  proof (cases "action_for W cfg interfaces (name_at cfg n) s")
    case None
    then have "wc_dev_name cfg \<noteq> None \<and> check_adapter_if_orphaned_devices W (name_at cfg n) s = None"
      by (auto simp: action_for_def split: if_splits)
    then show ?thesis using chk [of "name_at cfg n" s] by (auto simp: name_at_def opt_or_def)
  qed auto
  show ?case
  proof (cases a)
    case SkipName
    then have "default_name n \<in> interfaces" using a
      by (auto simp: action_for_def name_at_def opt_or_def split: if_splits option.splits)
    then show ?thesis using skip a SkipName by (subst new_loop.simps) simp
  next
    case OpenName
    then show ?thesis using a by (subst new_loop.simps) simp
  next
    case CreateName
    obtain r s2 where "create_named W cfg (name_at cfg n) s1 = (r, s2)" by force
    then show ?thesis using a CreateName more by (subst new_loop.simps) (cases r; simp)
  qed
qed

lemma new_loop_fresh:
  assumes "new_loop W cfg interfaces n attempts s = Some q"
  shows "wc_dev_name cfg = None \<longrightarrow> fst q = Ok t \<longrightarrow>
    (\<exists>m s1. n \<le> m \<and> default_name m \<notin> interfaces \<and> create_named W cfg (default_name m) s1 = q)"
proof (induction rule: new_loop.raw_induct [OF _ assms])
  case (1 self W cfg interfaces n attempts s q)
  show ?case
  proof (intro impI)
    assume d: "wc_dev_name cfg = None" and q: "fst q = Ok t"
    have nm: "name_at cfg n = default_name n" using d by (simp add: name_at_def opt_or_def)
    have rec: "\<exists>m s1. n \<le> m \<and> default_name m \<notin> interfaces \<and> create_named W cfg (default_name m) s1 = q"
      if "self W cfg interfaces (n + 1) b s' = Some q" for b s'
      using 1(1) [OF that] d q by (metis Suc_eq_plus1 Suc_leD)
    show "\<exists>m s1. n \<le> m \<and> default_name m \<notin> interfaces \<and> create_named W cfg (default_name m) s1 = q"
    proof (cases "default_name n \<in> interfaces")
      case True
      then show ?thesis using 1(2) d nm rec by (simp add: action_for_def)
    next
      case False
      obtain r s2 where r: "create_named W cfg (default_name n) s = (r, s2)" by force
      show ?thesis
      proof (cases r)
        case (Err e)
        then show ?thesis using 1(2) False nm r rec q by (auto simp: action_for_def split: if_splits)
      qed (use 1(2) False nm r in \<open>auto simp: action_for_def\<close>)
    qed
  qed
qed


section \<open>A system\<close>

text \<open>The system of \<open>WinTunSpec\<close> with two devices, of which the second was left behind, and an interface \<open>tun0\<close>.\<close>

definition dm_enum :: "u32 \<Rightarrow> wdemo \<Rightarrow> (nat \<times> devinfo) \<times> wdemo" where
  "dm_enum i s = (if i < 2 then ((1, \<lparr>di_DevInst = i, di_rest = []\<rparr>), s)
     else ((0, \<lparr>di_DevInst = 0, di_rest = []\<rparr>), s\<lparr>dm_error := ERROR_NO_MORE_ITEMS\<rparr>))"

definition dev_demo :: "wdemo windev" where
  "dev_demo = \<lparr>wi_GetLastError = dm_error,
     wi_CreateEvent = (\<lambda>_ _. dm_new WEvent),
     wi_SetEvent = (\<lambda>_ s. (1, s)),
     wi_ResetEvent = (\<lambda>_ s. (1, s)),
     wi_CloseHandle = (\<lambda>h. dm_free (WEvent h)),
     wi_WaitForSingleObject = (\<lambda>_ _ s. (258, s)),
     wi_WaitForMultipleObjects = (\<lambda>_ _ s. (0, s)),
     wi_StringFromGUID2 = (\<lambda>_ _ s. ((0, []), s)),
     wi_AliasToLuid = (\<lambda>_ s. ((0, 7), s)),
     wi_LuidToIndex = (\<lambda>_ s. ((0, 3), s)),
     wi_LuidToGuid = (\<lambda>_ s. ((0, dm_guid), s)),
     wi_LuidToAlias = (\<lambda>_ _ s. ((0, [116]), s)),
     wi_GetIpInterfaceTable = (\<lambda>_ s. ((0, 0, []), s)),
     wi_GetUnicastIpAddressTable = (\<lambda>_ s. ((0, 0, []), s)),
     wi_GetIpForwardTable2 = (\<lambda>_ s. ((0, 0, []), s)),
     wi_FreeMibTable = (\<lambda>_ s. s),
     wi_GetIpInterfaceEntry = (\<lambda>r s. ((0, r), s)),
     wi_SetIpInterfaceEntry = (\<lambda>_ s. (0, s)),
     wi_InitializeUnicastIpAddressEntry = id,
     wi_CreateUnicastIpAddressEntry = (\<lambda>_ s. (0, s)),
     wi_DeleteUnicastIpAddressEntry = (\<lambda>_ s. (0, s)),
     wi_InitializeIpForwardEntry = id,
     wi_CreateIpForwardEntry2 = (\<lambda>_ s. (0, s)),
     wi_DeleteIpForwardEntry2 = (\<lambda>_ s. (0, s)),
     wi_defaults = dm_rows,
     wt_load = (\<lambda>_ s. (True, s)),
     wt_SetLogger = id,
     wt_OpenAdapter = (\<lambda>_. dm_new WAdapter),
     wt_CreateAdapter = (\<lambda>_ _ _. dm_new WAdapter),
     wt_CloseAdapter = (\<lambda>h. dm_free (WAdapter h)),
     wt_DeleteDriver = id,
     wt_GetAdapterLUID = (\<lambda>_ s. (7, s)),
     wt_GetRunningDriverVersion = (\<lambda>s. (14, s)),
     wt_StartSession = (\<lambda>_ _. dm_new WSession),
     wt_EndSession = (\<lambda>h. dm_free (WSession h)),
     wt_GetReadWaitEvent = (\<lambda>_ s. (1, s)),
     wt_ReceivePacket = dm_receive,
     wt_ReleaseReceivePacket = (\<lambda>h p. dm_free (RxPacket h p)),
     wt_AllocateSendPacket = dm_allocate,
     wt_SendPacket = dm_send,
     wt_copy = (\<lambda>p bs s. s\<lparr>dm_mem := (dm_mem s)(p := bs)\<rparr>),
     wt_read = (\<lambda>p n s. take n (dm_mem s p)),
     wt_now = (\<lambda>s. (dm_clock s, s)),
     wt_sleep = (\<lambda>n s. s\<lparr>dm_clock := dm_clock s + n\<rparr>),
     wt_guid_from_u128 = (\<lambda>_. dm_guid),
     sd_GetVersionEx = (\<lambda>s. ((1, 10, 0), s)),
     sd_GetClassDevsEx = (\<lambda>_ _ s. (5, s)),
     sd_EnumDeviceInfo = (\<lambda>_. dm_enum),
     sd_DestroyDeviceInfoList = (\<lambda>_ s. (1, s)),
     sd_DevNodeStatus = (\<lambda>i s. ((0, if i = 1 then 0x400 else 0), s)),
     sd_GetDeviceProperty = (\<lambda>_ d _ n s. if n = 0 then ((0, 0, [], 4), s\<lparr>dm_error := 122\<rparr>) else ((1, 0, [97 + ucast (di_DevInst d), 0, 0, 0], 4), s)),
     sd_OpenProcess = (\<lambda>_ s. (0, s)),
     sd_GetProcessTimes = (\<lambda>_ s. ((0, \<lparr>dwLowDateTime = 0, dwHighDateTime = 0\<rparr>), s)),
     wd_getifaddrs = io_return [\<lparr>wif_description = default_name 0, wif_index = None, wif_ip = None\<rparr>],
     wd_interface_from_index = (\<lambda>_. io_return 0),
     wd_interface_add_address = (\<lambda>_ _. io_return ()),
     wd_ipnet_new_assert = (\<lambda>a l. Ok (a, l)),
     wd_cmd = (\<lambda>_. io_return True),
     wd_dns_api = (\<lambda>s. (False, s)),
     wd_SetInterfaceDnsSettings = (\<lambda>_ _ s. (0, s)),
     wd_DnsFlushResolverCache = (\<lambda>s. (1, s)),
     wd_debug = (\<lambda>x. x)\<rparr>"

lemma dev_demo_simps:
  "sd_EnumDeviceInfo dev_demo = (\<lambda>_. dm_enum)"
  "sd_DevNodeStatus dev_demo = (\<lambda>i s. ((0, if i = 1 then 0x400 else 0), s))"
  "sd_GetDeviceProperty dev_demo = (\<lambda>_ d _ n s. if n = 0 then ((0, 0, [], 4), s\<lparr>dm_error := 122\<rparr>) else ((1, 0, [97 + ucast (di_DevInst d), 0, 0, 0], 4), s))"
  "wd_getifaddrs dev_demo = io_return [\<lparr>wif_description = default_name 0, wif_index = None, wif_ip = None\<rparr>]"
  "wi_GetLastError dev_demo = dm_error"
  by (simp_all add: dev_demo_def)

definition demo_devices :: "devinfo list" where
  "demo_devices = [\<lparr>di_DevInst = 0, di_rest = []\<rparr>, \<lparr>di_DevInst = 1, di_rest = []\<rparr>]"

lemma demo_steady: "devices_steady dev_demo (\<lambda>_. True) 5 demo_devices (\<lambda>d. Ok (if di_DevInst d = 1 then 0x400 else 0))
    (\<lambda>d. Ok (decode_utf16 [be16 0 (97 + ucast (di_DevInst d)), 0]))"
proof -
  have "i < 2 \<longleftrightarrow> unat i < length demo_devices" for i :: u32
  proof -
    have "length demo_devices = 2" by (simp add: demo_devices_def)
    then show ?thesis by (simp add: word_less_nat_alt)
  qed
  moreover have "demo_devices ! unat i = \<lparr>di_DevInst = i, di_rest = []\<rparr>" if "i < 2" for i :: u32
  proof -
    have "i = 0 \<or> i = 1" using that unfolding word_less_nat_alt word_eq_iff_unsigned [where ?'a = nat] by auto
    then show ?thesis by (auto simp: demo_devices_def)
  qed
  moreover have "be16 0 0 = 0" by (simp add: be16_def)
  ultimately show ?thesis
    by (simp add: devices_steady_def enum_device_info_def dev_demo_simps dm_enum_def dev_node_status_def get_device_name_def
        ERROR_INSUFFICIENT_BUFFER_def wide_buffer_def Let_def)
qed

text \<open>
  The search for a left-behind adapter ends and is right, when every device can be enumerated: it finds one exactly
  when some device has a problem and the name.
\<close>

theorem win_orphan_search:
  assumes "devices_steady W I devs ds st nm" "length ds < 2 ^ 32" "I s"
  shows "\<exists>s'. scan_devices W devs adapter_name 0 s
    = Some (\<exists>d \<in> set ds. (\<exists>w. st d = Ok w \<and> w AND DN_HAS_PROBLEM \<noteq> 0) \<and> nm d = Ok adapter_name, s')"
  using scan_from [OF assms(1,2,3), of 0 adapter_name] by (auto simp: is_orphan_def)

theorem win_orphan_search_witness:
  "\<exists>s'. scan_devices dev_demo 5 [98] 0 dm_start = Some (True, s')"
proof -
  have "decode_utf16 [be16 0 98, 0] = [98]" by (simp add: decode_utf16_def be16_def)
  moreover have "length demo_devices < 2 ^ 32" by (simp add: demo_devices_def)
  ultimately show ?thesis
    using win_orphan_search [OF demo_steady, where s = dm_start and adapter_name = "[98]"] by (simp add: demo_devices_def DN_HAS_PROBLEM_def)
qed

definition no_name :: WinDeviceConfig where
  "no_name = \<lparr>wc_dev_name = None, wc_description = None, wc_device_guid = None, wc_wintun_log = None, wc_wintun_file = None,
     wc_ring_capacity = None, wc_delete_driver = None\<rparr>"


end
