(* ===== verification/WinFfiSpec.thy ===== *)
theory WinFfiSpec
  imports WinFfi
begin

text \<open>
  Properties of the Win32 layer: UTF-16 strings survive encoding and decoding, the MTU of an interface, and setting an address
  replaces what an interface had of its family.  What Windows documents of its address and route tables is
  \<open>ip_helper_documented\<close>; a concrete system for which it is proved serves the witnesses.
\<close>

section \<open>Strings\<close>

lemma unat_unit [simp]: "n < 0x10000 \<Longrightarrow> unat (of_nat n :: u16) = n"
  by (simp add: unat_of_nat take_bit_nat_eq_self)

lemma surrogates:
  assumes "is_scalar c" "\<not> c < 0x10000"
  obtains u v where "utf16_units c = [u, v]" "unat u = 0xD800 + (c - 0x10000) div 0x400" "unat v = 0xDC00 + (c - 0x10000) mod 0x400"
    "unat u < 0xDC00" "unat v < 0xE000"
proof -
  have "(c - 0x10000) div 0x400 < 0x400" using assms by (auto simp: is_scalar_def)
  moreover have "(c - 0x10000) mod 0x400 < 0x400" by simp
  ultimately show thesis
    using that [of "of_nat (0xD800 + (c - 0x10000) div 0x400)" "of_nat (0xDC00 + (c - 0x10000) mod 0x400)"] assms(2)
    by (simp add: utf16_units_def del: of_nat_add)
qed

lemma from_utf16_units: "is_scalar c \<Longrightarrow> from_utf16_lossy (utf16_units c @ us) = c # from_utf16_lossy us"
proof (cases "c < 0x10000")
  case False
  assume "is_scalar c"
  then obtain u v where uv: "utf16_units c = [u, v]" "unat u = 0xD800 + (c - 0x10000) div 0x400"
      "unat v = 0xDC00 + (c - 0x10000) mod 0x400" "unat u < 0xDC00" "unat v < 0xE000" using False surrogates by blast
  define q r where "q = (c - 0x10000) div 0x400" and "r = (c - 0x10000) mod 0x400"
  have c: "c = 0x10000 + q * 0x400 + r" using False by (simp add: q_def r_def)
  have u: "unat u = 0xD800 + q" "unat v = 0xDC00 + r" "q < 0x400" "r < 0x400" using uv by (simp_all add: q_def r_def)
  have "from_utf16_lossy (utf16_units c @ us) = (0x10000 + q * 0x400 + r) # from_utf16_lossy us" using u by (simp add: uv(1))
  then show ?thesis using c by simp
qed (auto simp: utf16_units_def is_scalar_def)

lemma utf16_units_nonzero: "is_scalar c \<Longrightarrow> c \<noteq> 0 \<Longrightarrow> u \<in> set (utf16_units c) \<Longrightarrow> u \<noteq> 0"
proof (cases "c < 0x10000")
  case True
  assume "c \<noteq> 0" "u \<in> set (utf16_units c)"
  then have "unat u = c" using True by (simp add: utf16_units_def)
  then show "u \<noteq> 0" using \<open>c \<noteq> 0\<close> by auto
next
  case False
  assume c: "is_scalar c" "u \<in> set (utf16_units c)"
  obtain a b where "utf16_units c = [a, b]" "unat a = 0xD800 + (c - 0x10000) div 0x400" "unat b = 0xDC00 + (c - 0x10000) mod 0x400"
    using surrogates [OF c(1) False] by blast
  then have "unat u \<noteq> 0" using c(2) by auto
  then show "u \<noteq> 0" by auto
qed

lemma from_utf16_encode: "\<forall>c \<in> set str. is_scalar c \<Longrightarrow> from_utf16_lossy (concat (map utf16_units str)) = str"
  by (induction str) (simp_all add: from_utf16_units)

lemma takeWhile_encode:
  assumes "\<forall>c \<in> set str. is_scalar c \<and> c \<noteq> 0"
  shows "takeWhile (\<lambda>b. b \<noteq> 0) (concat (map utf16_units str) @ 0 # us) = concat (map utf16_units str)"
proof -
  have "\<forall>u \<in> set (concat (map utf16_units str)). u \<noteq> 0" using assms utf16_units_nonzero by fastforce
  then have "takeWhile (\<lambda>b. b \<noteq> 0) (concat (map utf16_units str)) = concat (map utf16_units str)"
    unfolding takeWhile_eq_all_conv by blast
  then show ?thesis by (simp add: takeWhile_tail)
qed

lemma decode_encode_append: "\<forall>c \<in> set str. is_scalar c \<and> c \<noteq> 0 \<Longrightarrow> decode_utf16 (encode_utf16 str @ us) = str"
  using takeWhile_encode [of str us] from_utf16_encode [of str] by (simp add: decode_utf16_def encode_utf16_def)

text \<open>
  C29. A string of characters other than NUL survives UTF-16: decoding the encoding gives it back, also out of
  a buffer of fixed size into which it was written, as \<open>luid_to_alias\<close> uses.
\<close>

theorem utf16_roundtrip:
  assumes "\<forall>c \<in> set str. is_scalar c \<and> c \<noteq> 0"
  shows "decode_utf16 (encode_utf16 str) = str
    \<and> (length (encode_utf16 str) \<le> n \<longrightarrow> decode_utf16 (wide_buffer n (encode_utf16 str)) = str)"
  using decode_encode_append [OF assms, of "[]"] decode_encode_append [OF assms, of "replicate (n - length (encode_utf16 str)) 0"]
  by (simp add: wide_buffer_def)

theorem utf16_roundtrip_witness:
  "decode_utf16 (wide_buffer 5 (encode_utf16 [116, 0x1F600, 0x20AC])) = [116, 0x1F600, 0x20AC]"
proof -
  have "length (encode_utf16 [116, 0x1F600, 0x20AC]) \<le> 5" by (simp add: encode_utf16_def utf16_units_def)
  then show ?thesis using utf16_roundtrip [of "[116, 0x1F600, 0x20AC]" 5] by (simp add: is_scalar_def)
qed

section \<open>Addresses and routes\<close>

text \<open>
  \<open>addrs\<close> are the unicast addresses of the system, an address being the interface, the socket address and the
  prefix length; \<open>routes\<close> the default routes, with interface and next hop; \<open>tables\<close> the tables given out
  and not freed.
\<close>

type_synonym addr_entry = "u32 \<times> byte list \<times> byte"
type_synonym route_entry = "u32 \<times> byte list"

definition sa_fam :: "byte list \<Rightarrow> u16" where
  "sa_fam sa = get_le16 sa"

definition unicast_of :: "unicast_row \<Rightarrow> addr_entry" where
  "unicast_of r = (ur_InterfaceIndex r, ur_Address r, ur_OnLinkPrefixLength r)"

definition route_of :: "forward_row \<Rightarrow> route_entry" where
  "route_of r = (fr_InterfaceIndex r, fr_NextHop r)"

definition addresses_documented :: "('s, 'x) win_sys_scheme \<Rightarrow> ('s \<Rightarrow> addr_entry set) \<Rightarrow> ('s \<Rightarrow> route_entry set) \<Rightarrow> ('s \<Rightarrow> handle set) \<Rightarrow> bool" where
  "addresses_documented W addrs routes tables \<longleftrightarrow>
     (\<forall>fam s. let ((code, t, rows), s') = wi_GetUnicastIpAddressTable W fam s
        in addrs s' = addrs s \<and> routes s' = routes s \<and> (code \<noteq> 0 \<longrightarrow> tables s' = tables s)
         \<and> (code = 0 \<longrightarrow> t \<notin> tables s \<and> tables s' = insert t (tables s)
              \<and> unicast_of ` set rows = {a \<in> addrs s. sa_fam (fst (snd a)) = fam}))
   \<and> (\<forall>r s. let (code, s') = wi_DeleteUnicastIpAddressEntry W r s
        in routes s' = routes s \<and> tables s' = tables s
         \<and> addrs s' = (if code = 0 then {(i, a, l) \<in> addrs s. \<not> (i = ur_InterfaceIndex r \<and> a = ur_Address r)} else addrs s))
   \<and> (\<forall>r s. let (code, s') = wi_CreateUnicastIpAddressEntry W r s
        in routes s' = routes s \<and> tables s' = tables s
         \<and> addrs s' = (if code = 0 then insert (unicast_of r) (addrs s) else addrs s)
         \<and> (code = ERROR_OBJECT_ALREADY_EXISTS \<longrightarrow> (\<exists>l. (ur_InterfaceIndex r, ur_Address r, l) \<in> addrs s)))"

definition routes_documented :: "('s, 'x) win_sys_scheme \<Rightarrow> ('s \<Rightarrow> addr_entry set) \<Rightarrow> ('s \<Rightarrow> route_entry set) \<Rightarrow> ('s \<Rightarrow> handle set) \<Rightarrow> bool" where
  "routes_documented W addrs routes tables \<longleftrightarrow>
     (\<forall>fam s. let ((code, t, rows), s') = wi_GetIpForwardTable2 W fam s
        in addrs s' = addrs s \<and> routes s' = routes s \<and> (code \<noteq> 0 \<longrightarrow> tables s' = tables s)
         \<and> (code = 0 \<longrightarrow> t \<notin> tables s \<and> tables s' = insert t (tables s)
              \<and> route_of ` {r \<in> set rows. fr_PrefixLength r = 0} = {q \<in> routes s. sa_fam (snd q) = fam}))
   \<and> (\<forall>r s. fr_PrefixLength r = 0 \<longrightarrow> (let (code, s') = wi_DeleteIpForwardEntry2 W r s
        in addrs s' = addrs s \<and> tables s' = tables s \<and> routes s' = (if code = 0 then routes s - {route_of r} else routes s)))
   \<and> (\<forall>r s. fr_PrefixLength r = 0 \<longrightarrow> (let (code, s') = wi_CreateIpForwardEntry2 W r s
        in addrs s' = addrs s \<and> tables s' = tables s \<and> routes s' = (if code = 0 then insert (route_of r) (routes s) else routes s)
         \<and> (code = ERROR_OBJECT_ALREADY_EXISTS \<longrightarrow> route_of r \<in> routes s)))
   \<and> (\<forall>t s. addrs (wi_FreeMibTable W t s) = addrs s \<and> routes (wi_FreeMibTable W t s) = routes s
         \<and> tables (wi_FreeMibTable W t s) = tables s - {t})"

definition ip_helper_documented :: "('s, 'x) win_sys_scheme \<Rightarrow> ('s \<Rightarrow> addr_entry set) \<Rightarrow> ('s \<Rightarrow> route_entry set) \<Rightarrow> ('s \<Rightarrow> handle set) \<Rightarrow> bool" where
  "ip_helper_documented W addrs routes tables \<longleftrightarrow> addresses_documented W addrs routes tables \<and> routes_documented W addrs routes tables"

lemma unicast_table:
  assumes "ip_helper_documented W addrs routes tables" "wi_GetUnicastIpAddressTable W fam s = ((code, t, rows), s')"
  shows "addrs s' = addrs s \<and> routes s' = routes s"
    and "code \<noteq> 0 \<Longrightarrow> tables s' = tables s"
    and "code = 0 \<Longrightarrow> t \<notin> tables s \<and> tables s' = insert t (tables s) \<and> unicast_of ` set rows = {a \<in> addrs s. sa_fam (fst (snd a)) = fam}"
  using assms(1) [unfolded ip_helper_documented_def addresses_documented_def, THEN conjunct1, THEN conjunct1, rule_format, of fam s] assms(2)
  by simp_all

lemma route_table:
  assumes "ip_helper_documented W addrs routes tables" "wi_GetIpForwardTable2 W fam s = ((code, t, rows), s')"
  shows "addrs s' = addrs s \<and> routes s' = routes s"
    and "code \<noteq> 0 \<Longrightarrow> tables s' = tables s"
    and "code = 0 \<Longrightarrow> t \<notin> tables s \<and> tables s' = insert t (tables s)
      \<and> route_of ` {r \<in> set rows. fr_PrefixLength r = 0} = {q \<in> routes s. sa_fam (snd q) = fam}"
  using assms(1) [unfolded ip_helper_documented_def routes_documented_def, THEN conjunct2, THEN conjunct1, rule_format, of fam s] assms(2)
  by simp_all

lemma free_table:
  assumes "ip_helper_documented W addrs routes tables"
  shows "addrs (wi_FreeMibTable W t s) = addrs s" "routes (wi_FreeMibTable W t s) = routes s"
    "tables (wi_FreeMibTable W t s) = tables s - {t}"
  using assms by (simp_all add: ip_helper_documented_def routes_documented_def)

lemma delete_unicast:
  assumes "ip_helper_documented W addrs routes tables" "wi_DeleteUnicastIpAddressEntry W r s = (code, s')"
  shows "routes s' = routes s \<and> tables s' = tables s
     \<and> addrs s' = (if code = 0 then {(i, a, l) \<in> addrs s. \<not> (i = ur_InterfaceIndex r \<and> a = ur_Address r)} else addrs s)"
  using assms(1) [unfolded ip_helper_documented_def addresses_documented_def, THEN conjunct1, THEN conjunct2, THEN conjunct1, rule_format, of r s] assms(2)
  by simp

lemma create_unicast:
  assumes "ip_helper_documented W addrs routes tables" "wi_CreateUnicastIpAddressEntry W r s = (code, s')"
  shows "routes s' = routes s \<and> tables s' = tables s \<and> addrs s' = (if code = 0 then insert (unicast_of r) (addrs s) else addrs s)
     \<and> (code = ERROR_OBJECT_ALREADY_EXISTS \<longrightarrow> (\<exists>l. (ur_InterfaceIndex r, ur_Address r, l) \<in> addrs s))"
  using assms(1) [unfolded ip_helper_documented_def addresses_documented_def, THEN conjunct1, THEN conjunct2, THEN conjunct2, rule_format, of r s] assms(2)
  by simp

lemma change_route:
  assumes "ip_helper_documented W addrs routes tables" "fr_PrefixLength r = 0"
  shows "wi_DeleteIpForwardEntry2 W r s = (code, s') \<Longrightarrow> addrs s' = addrs s \<and> tables s' = tables s
      \<and> routes s' = (if code = 0 then routes s - {route_of r} else routes s)"
    and "wi_CreateIpForwardEntry2 W r s = (code, s') \<Longrightarrow> addrs s' = addrs s \<and> tables s' = tables s
      \<and> routes s' = (if code = 0 then insert (route_of r) (routes s) else routes s)
      \<and> (code = ERROR_OBJECT_ALREADY_EXISTS \<longrightarrow> route_of r \<in> routes s)"
  using assms(1) [unfolded ip_helper_documented_def routes_documented_def, THEN conjunct2, THEN conjunct2, THEN conjunct1, rule_format, of r s]
    assms(1) [unfolded ip_helper_documented_def routes_documented_def, THEN conjunct2, THEN conjunct2, THEN conjunct2, THEN conjunct1, rule_format, of r s] assms(2)
  by simp_all

lemma win_call_result: "win_call f s = (r, s') \<longleftrightarrow> (\<exists>code. f s = (code, s') \<and> r = win_result code)"
  by (auto simp: win_call_def Let_def split: prod.splits)

lemma win_result_Ok [simp]: "win_result code = Ok () \<longleftrightarrow> code = 0" "Ok () = win_result code \<longleftrightarrow> code = 0" "win_result code \<noteq> Panic" "win_result 0 = Ok ()"
  by (simp_all add: win_result_def)

lemma io_each_ConsD:
  "io_each f (x # xs) s = (r, s') \<Longrightarrow> (\<exists>s1. f x s = (Ok (), s1) \<and> io_each f xs s1 = (r, s')) \<or> f x s = (r, s') \<and> r \<noteq> Ok ()"
  by (auto simp: io_then_def io_bind_def split: prod.splits res.splits)

lemma delete_addresses:
  assumes "ip_helper_documented W addrs routes tables"
  shows "io_each (\<lambda>row. win_call (wi_DeleteUnicastIpAddressEntry W row)) rows s = (r, s') \<Longrightarrow>
    routes s' = routes s \<and> tables s' = tables s
    \<and> (r = Ok () \<longrightarrow> addrs s' = {a \<in> addrs s. \<not> (\<exists>row \<in> set rows. fst a = ur_InterfaceIndex row \<and> fst (snd a) = ur_Address row)})"
proof (induction rows arbitrary: s)
  case (Cons row rows)
  from io_each_ConsD [OF Cons.prems] show ?case
  proof (elim disjE exE conjE)
    fix s1 assume s1: "win_call (wi_DeleteUnicastIpAddressEntry W row) s = (Ok (), s1)"
      and rest: "io_each (\<lambda>row. win_call (wi_DeleteUnicastIpAddressEntry W row)) rows s1 = (r, s')"
    have "wi_DeleteUnicastIpAddressEntry W row s = (0, s1)" using s1 by (auto simp: win_call_result)
    from delete_unicast [OF assms this] show ?thesis using Cons.IH [OF rest] by auto
  next
    assume "win_call (wi_DeleteUnicastIpAddressEntry W row) s = (r, s')" "r \<noteq> Ok ()"
    then show ?thesis using delete_unicast [OF assms] by (auto simp: win_call_result)
  qed
qed (simp add: io_return_def)

lemma delete_routes:
  assumes "ip_helper_documented W addrs routes tables"
  shows "\<forall>row \<in> set rows. fr_PrefixLength row = 0 \<Longrightarrow>
    io_each (\<lambda>row. win_call (wi_DeleteIpForwardEntry2 W row)) rows s = (r, s') \<Longrightarrow>
    addrs s' = addrs s \<and> tables s' = tables s \<and> (r = Ok () \<longrightarrow> routes s' = routes s - route_of ` set rows)"
proof (induction rows arbitrary: s)
  case (Cons row rows)
  have z: "fr_PrefixLength row = 0" using Cons.prems(1) by simp
  from io_each_ConsD [OF Cons.prems(2)] show ?case
  proof (elim disjE exE conjE)
    fix s1 assume s1: "win_call (wi_DeleteIpForwardEntry2 W row) s = (Ok (), s1)"
      and rest: "io_each (\<lambda>row. win_call (wi_DeleteIpForwardEntry2 W row)) rows s1 = (r, s')"
    have "wi_DeleteIpForwardEntry2 W row s = (0, s1)" using s1 by (auto simp: win_call_result)
    from change_route(1) [OF assms z this] show ?thesis using Cons.IH [OF _ rest] Cons.prems(1) by auto
  next
    assume "win_call (wi_DeleteIpForwardEntry2 W row) s = (r, s')" "r \<noteq> Ok ()"
    then show ?thesis using change_route(1) [OF assms z] by (auto simp: win_call_result)
  qed
qed (simp add: io_return_def)

lemma clear_routes_spec:
  assumes W: "ip_helper_documented W addrs routes tables" and c: "clear_default_routes W index is_v4 s = (r, s')"
  shows "addrs s' = addrs s \<and> tables s' = tables s
    \<and> (r = Ok () \<longrightarrow> routes s' = {q \<in> routes s. \<not> (fst q = index \<and> sa_fam (snd q) = family_of is_v4)})"
proof -
  obtain code t rows s1 where t: "wi_GetIpForwardTable2 W (family_of is_v4) s = ((code, t, rows), s1)" by (metis surj_pair)
  note spec = route_table [OF W t]
  show ?thesis
  proof (cases "code = 0")
    case True
    let ?rows = "filter (\<lambda>row. fr_InterfaceIndex row = index \<and> fr_PrefixLength row = 0) rows"
    have d: "io_each (\<lambda>row. win_call (wi_DeleteIpForwardEntry2 W row)) ?rows (wi_FreeMibTable W t s1) = (r, s')"
      using c t True by (simp add: clear_default_routes_def)
    have z: "\<forall>row \<in> set ?rows. fr_PrefixLength row = 0" by simp
    have "route_of ` set ?rows = {q \<in> route_of ` {row \<in> set rows. fr_PrefixLength row = 0}. fst q = index}"
      by (auto simp: route_of_def)
    then have "route_of ` set ?rows = {q \<in> routes s. sa_fam (snd q) = family_of is_v4 \<and> fst q = index}"
      using spec(3) True by auto
    then show ?thesis using delete_routes [OF W z d] spec True by (auto simp: free_table [OF W])
  next
    case False
    then show ?thesis using c t spec by (auto simp: clear_default_routes_def)
  qed
qed

lemma clear_addresses_spec:
  assumes W: "ip_helper_documented W addrs routes tables" and c: "clear_addresses W index is_v4 s = (r, s')"
  shows "tables s' = tables s
    \<and> (r = Ok () \<longrightarrow> addrs s' = {a \<in> addrs s. \<not> (fst a = index \<and> sa_fam (fst (snd a)) = family_of is_v4)}
          \<and> routes s' = {q \<in> routes s. \<not> (fst q = index \<and> sa_fam (snd q) = family_of is_v4)})"
proof -
  obtain code t rows s1 where t: "wi_GetUnicastIpAddressTable W (family_of is_v4) s = ((code, t, rows), s1)" by (metis surj_pair)
  note spec = unicast_table [OF W t]
  show ?thesis
  proof (cases "code = 0")
    case True
    let ?rows = "filter (\<lambda>row. ur_InterfaceIndex row = index) rows"
    obtain q s2 where d: "io_each (\<lambda>row. win_call (wi_DeleteUnicastIpAddressEntry W row)) ?rows (wi_FreeMibTable W t s1) = (q, s2)"
      by force
    have r: "(r, s') = (case q of Ok u \<Rightarrow> clear_default_routes W index is_v4 s2 | Err e \<Rightarrow> (Err e, s2) | Panic \<Rightarrow> (Panic, s2))"
      using c t True d by (simp add: clear_addresses_def io_then_def io_bind_def split: res.splits)
    have key: "(\<exists>row \<in> set ?rows. fst a = ur_InterfaceIndex row \<and> fst (snd a) = ur_Address row)
        \<longleftrightarrow> fst a = index \<and> sa_fam (fst (snd a)) = family_of is_v4" if a: "a \<in> addrs s" for a
    proof
      assume "\<exists>row \<in> set ?rows. fst a = ur_InterfaceIndex row \<and> fst (snd a) = ur_Address row"
      then obtain row where row: "row \<in> set rows" "ur_InterfaceIndex row = index" "fst a = index" "fst (snd a) = ur_Address row" by auto
      then have "unicast_of row \<in> {a \<in> addrs s. sa_fam (fst (snd a)) = family_of is_v4}" using spec(3) True by blast
      then show "fst a = index \<and> sa_fam (fst (snd a)) = family_of is_v4" using row by (simp add: unicast_of_def)
    next
      assume f: "fst a = index \<and> sa_fam (fst (snd a)) = family_of is_v4"
      then have "a \<in> unicast_of ` set rows" using spec(3) True a by blast
      then show "\<exists>row \<in> set ?rows. fst a = ur_InterfaceIndex row \<and> fst (snd a) = ur_Address row"
        using f by (auto simp: unicast_of_def)
    qed
    have s2: "routes s2 = routes s" "tables s2 = tables s"
      using delete_addresses [OF W d] spec True by (auto simp: free_table [OF W])
    have a2: "addrs s2 = {a \<in> addrs s. \<not> (fst a = index \<and> sa_fam (fst (snd a)) = family_of is_v4)}" if "q = Ok ()"
    proof -
      have "addrs s2 = {a \<in> addrs s. \<not> (\<exists>row \<in> set ?rows. fst a = ur_InterfaceIndex row \<and> fst (snd a) = ur_Address row)}"
        using delete_addresses [OF W d] spec(1) that unfolding free_table(1) [OF W] by blast
      then show ?thesis using key by blast
    qed
    show ?thesis
    proof (cases q)
      case (Ok u)
      then show ?thesis using clear_routes_spec [OF W, of index is_v4 s2 r s'] r s2 a2 by simp
    qed (use r s2 in simp_all)
  next
    case False
    then show ?thesis using c t spec by (auto simp: clear_addresses_def)
  qed
qed

lemma create_entry_result:
  "create_entry f s = (r, s') \<longleftrightarrow> (\<exists>code. f s = (code, s') \<and> r = (if code = ERROR_OBJECT_ALREADY_EXISTS then Ok () else win_result code))"
  by (auto simp: create_entry_def Let_def split: prod.splits)

lemma add_address_spec:
  assumes W: "ip_helper_documented W addrs routes tables" and c: "win_add_address W index address len gateway s = (r, s')"
    and new: "\<forall>l. (index, sockaddr_inet_from_ip address, l) \<notin> addrs s"
  shows "tables s' = tables s
    \<and> (r = Ok () \<longrightarrow> addrs s' = insert (index, sockaddr_inet_from_ip address, len) (addrs s)
         \<and> routes s' = routes s \<union> (case gateway of None \<Rightarrow> {} | Some g \<Rightarrow> {(index, sockaddr_inet_from_ip g)}))"
proof -
  define row where "row = (unicast_entry W index address)\<lparr>ur_OnLinkPrefixLength := len\<rparr>"
  have row: "ur_InterfaceIndex row = index" "ur_Address row = sockaddr_inet_from_ip address"
      "unicast_of row = (index, sockaddr_inet_from_ip address, len)"
    by (simp_all add: row_def unicast_entry_def unicast_of_def)
  obtain code s1 where s1: "wi_CreateUnicastIpAddressEntry W row s = (code, s1)" by force
  note u = create_unicast [OF W s1]
  have ne: "code \<noteq> ERROR_OBJECT_ALREADY_EXISTS" using u new row by auto
  have cr: "create_entry (wi_CreateUnicastIpAddressEntry W row) s = (win_result code, s1)"
    using ne s1 by (simp add: create_entry_def)
  show ?thesis
  proof (cases "code = 0")
    case False
    then have "win_result code = Err (OsError code)" by (simp add: win_result_def)
    then have "r = Err (OsError code)" "s' = s1" using c cr by (simp_all add: win_add_address_def row_def [symmetric] io_then_def io_bind_def)
    then show ?thesis using u by simp
  next
    case True
    then have t: "create_entry (wi_CreateUnicastIpAddressEntry W row) s = (Ok (), s1)" using cr by simp
    have a: "addrs s1 = insert (index, sockaddr_inet_from_ip address, len) (addrs s)" using u True row by simp
    show ?thesis
    proof (cases gateway)
      case None
      then show ?thesis using c t a u by (simp add: win_add_address_def row_def [symmetric] io_then_def io_simps)
    next
      case (Some g)
      have z: "fr_PrefixLength (default_route W index g) = 0" by (simp add: default_route_def)
      have ro: "route_of (default_route W index g) = (index, sockaddr_inet_from_ip g)" by (simp add: default_route_def route_of_def)
      have "create_entry (wi_CreateIpForwardEntry2 W (default_route W index g)) s1 = (r, s')"
        using c t Some by (simp add: win_add_address_def row_def [symmetric] io_then_def io_simps)
      then obtain code2 where k: "wi_CreateIpForwardEntry2 W (default_route W index g) s1 = (code2, s')"
          "r = (if code2 = ERROR_OBJECT_ALREADY_EXISTS then Ok () else win_result code2)"
        using create_entry_result [of "wi_CreateIpForwardEntry2 W (default_route W index g)" s1 r s'] by blast
      have "r = Ok () \<Longrightarrow> routes s' = insert (index, sockaddr_inet_from_ip g) (routes s1)"
        using change_route(2) [OF W z k(1)] k(2) ro by (auto split: if_splits)
      then show ?thesis using change_route(2) [OF W z k(1)] Some a u by auto
    qed
  qed
qed

lemma sa_fam_from_ip: "sa_fam (sockaddr_inet_from_ip a) = family_of (is_ipv4 a)"
  by (cases a) (simp_all add: sa_fam_def get_le16_def to_le16_def to_be16_def family_of_def is_ipv4_def WIN_AF_INET_def WIN_AF_INET6_def be16_def)

text \<open>
  C30. Setting an address replaces: after success the interface has, of the address's family, exactly that
  address with that prefix length, and of the default routes of that family none but the new gateway's; every other
  interface, the other family and the other interfaces' routes are as they were.  Every table asked for is freed,
  also when a step fails.
\<close>

theorem win_set_address_replaces:
  assumes "ip_helper_documented W addrs routes tables" "win_set_address W index address len gateway s = (r, s')"
  shows "tables s' = tables s \<and> (r = Ok () \<longrightarrow>
      addrs s' = {a \<in> addrs s. \<not> (fst a = index \<and> sa_fam (fst (snd a)) = family_of (is_ipv4 address))}
          \<union> {(index, sockaddr_inet_from_ip address, len)}
      \<and> routes s' = {q \<in> routes s. \<not> (fst q = index \<and> sa_fam (snd q) = family_of (is_ipv4 address))}
          \<union> (case gateway of None \<Rightarrow> {} | Some g \<Rightarrow> {(index, sockaddr_inet_from_ip g)}))"
proof -
  obtain q s1 where q: "clear_addresses W index (is_ipv4 address) s = (q, s1)" by force
  note c = clear_addresses_spec [OF assms(1) q]
  show ?thesis
  proof (cases q)
    case (Ok u)
    have "win_add_address W index address len gateway s1 = (r, s')"
      using assms(2) q Ok by (simp add: win_set_address_def io_then_def io_simps)
    moreover have "\<forall>l. (index, sockaddr_inet_from_ip address, l) \<notin> addrs s1" using c Ok by (simp add: sa_fam_from_ip)
    ultimately show ?thesis using add_address_spec [OF assms(1)] c Ok by simp
  qed (use assms(2) q c in \<open>auto simp: win_set_address_def io_then_def io_simps\<close>)
qed

text \<open>A system with rows for its tables.\<close>

record ipdemo =
  nd_addrs :: "unicast_row list"
  nd_routes :: "forward_row list"
  nd_tables :: "handle list"

definition nd_fresh :: "ipdemo \<Rightarrow> handle" where
  "nd_fresh s = 1 + sum_list (map abs (nd_tables s))"

definition same_unicast :: "unicast_row \<Rightarrow> unicast_row \<Rightarrow> bool" where
  "same_unicast r q \<longleftrightarrow> ur_InterfaceIndex q = ur_InterfaceIndex r \<and> ur_Address q = ur_Address r"

definition nd_create_unicast :: "unicast_row \<Rightarrow> ipdemo \<Rightarrow> nat \<times> ipdemo" where
  "nd_create_unicast r s = (if list_ex (same_unicast r) (nd_addrs s) then (ERROR_OBJECT_ALREADY_EXISTS, s)
     else (0, s\<lparr>nd_addrs := r # nd_addrs s\<rparr>))"

definition nd_delete_unicast :: "unicast_row \<Rightarrow> ipdemo \<Rightarrow> nat \<times> ipdemo" where
  "nd_delete_unicast r s = (0, s\<lparr>nd_addrs := filter (\<lambda>q. \<not> same_unicast r q) (nd_addrs s)\<rparr>)"

definition same_route :: "forward_row \<Rightarrow> forward_row \<Rightarrow> bool" where
  "same_route r q \<longleftrightarrow> route_of q = route_of r \<and> fr_PrefixLength q = fr_PrefixLength r"

definition nd_create_route :: "forward_row \<Rightarrow> ipdemo \<Rightarrow> nat \<times> ipdemo" where
  "nd_create_route r s = (if list_ex (same_route r) (nd_routes s) then (ERROR_OBJECT_ALREADY_EXISTS, s)
     else (0, s\<lparr>nd_routes := r # nd_routes s\<rparr>))"

definition nd_delete_route :: "forward_row \<Rightarrow> ipdemo \<Rightarrow> nat \<times> ipdemo" where
  "nd_delete_route r s = (0, s\<lparr>nd_routes := filter (\<lambda>q. \<not> same_route r q) (nd_routes s)\<rparr>)"

definition nd_guid :: win_guid where
  "nd_guid = \<lparr>guid_data1 = 0, guid_data2 = 0, guid_data3 = 0, guid_data4 = []\<rparr>"

definition nd_rows :: "ipinterface_row \<times> unicast_row \<times> forward_row" where
  "nd_rows = (\<lparr>ir_Family = 0, ir_InterfaceIndex = 0, ir_NlMtu = 0, ir_Metric = 0, ir_UseAutomaticMetric = False,
       ir_SitePrefixLength = 0, ir_rest = []\<rparr>,
     \<lparr>ur_Address = [], ur_InterfaceIndex = 0, ur_OnLinkPrefixLength = 0, ur_rest = []\<rparr>,
     \<lparr>fr_InterfaceIndex = 0, fr_Prefix = [], fr_PrefixLength = 0, fr_NextHop = [], fr_SitePrefixLength = 0, fr_Metric = 0,
      fr_Protocol = 0, fr_Origin = 0, fr_rest = []\<rparr>)"

definition ip_demo :: "ipdemo win_sys" where
  "ip_demo = \<lparr>wi_GetLastError = (\<lambda>_. 0),
     wi_CreateEvent = (\<lambda>_ _ s. (0, s)),
     wi_SetEvent = (\<lambda>_ s. (0, s)),
     wi_ResetEvent = (\<lambda>_ s. (0, s)),
     wi_CloseHandle = (\<lambda>_ s. s),
     wi_WaitForSingleObject = (\<lambda>_ _ s. (0, s)),
     wi_WaitForMultipleObjects = (\<lambda>_ _ s. (0, s)),
     wi_StringFromGUID2 = (\<lambda>_ _ s. ((0, []), s)),
     wi_AliasToLuid = (\<lambda>_ s. ((0, 0), s)),
     wi_LuidToIndex = (\<lambda>_ s. ((0, 0), s)),
     wi_LuidToGuid = (\<lambda>_ s. ((0, nd_guid), s)),
     wi_LuidToAlias = (\<lambda>_ _ s. ((0, []), s)),
     wi_GetIpInterfaceTable = (\<lambda>_ s. ((0, 0, []), s)),
     wi_GetUnicastIpAddressTable = (\<lambda>fam s. ((0, nd_fresh s, filter (\<lambda>r. sa_fam (ur_Address r) = fam) (nd_addrs s)), s\<lparr>nd_tables := nd_fresh s # nd_tables s\<rparr>)),
     wi_GetIpForwardTable2 = (\<lambda>fam s. ((0, nd_fresh s, filter (\<lambda>r. sa_fam (fr_NextHop r) = fam) (nd_routes s)), s\<lparr>nd_tables := nd_fresh s # nd_tables s\<rparr>)),
     wi_FreeMibTable = (\<lambda>t s. s\<lparr>nd_tables := removeAll t (nd_tables s)\<rparr>),
     wi_GetIpInterfaceEntry = (\<lambda>r s. ((0, r), s)),
     wi_SetIpInterfaceEntry = (\<lambda>_ s. (0, s)),
     wi_InitializeUnicastIpAddressEntry = id,
     wi_CreateUnicastIpAddressEntry = nd_create_unicast,
     wi_DeleteUnicastIpAddressEntry = nd_delete_unicast,
     wi_InitializeIpForwardEntry = id,
     wi_CreateIpForwardEntry2 = nd_create_route,
     wi_DeleteIpForwardEntry2 = nd_delete_route,
     wi_defaults = nd_rows\<rparr>"

lemma ip_demo_simps:
  "wi_GetLastError ip_demo = (\<lambda>_. 0)"
  "wi_CloseHandle ip_demo = (\<lambda>_ s. s)"
  "wi_LuidToGuid ip_demo = (\<lambda>_ s. ((0, nd_guid), s))"
  "wi_GetUnicastIpAddressTable ip_demo = (\<lambda>fam s. ((0, nd_fresh s, filter (\<lambda>r. sa_fam (ur_Address r) = fam) (nd_addrs s)), s\<lparr>nd_tables := nd_fresh s # nd_tables s\<rparr>))"
  "wi_GetIpForwardTable2 ip_demo = (\<lambda>fam s. ((0, nd_fresh s, filter (\<lambda>r. sa_fam (fr_NextHop r) = fam) (nd_routes s)), s\<lparr>nd_tables := nd_fresh s # nd_tables s\<rparr>))"
  "wi_FreeMibTable ip_demo = (\<lambda>t s. s\<lparr>nd_tables := removeAll t (nd_tables s)\<rparr>)"
  "wi_GetIpInterfaceEntry ip_demo = (\<lambda>r s. ((0, r), s))"
  "wi_InitializeUnicastIpAddressEntry ip_demo = id"
  "wi_CreateUnicastIpAddressEntry ip_demo = nd_create_unicast"
  "wi_DeleteUnicastIpAddressEntry ip_demo = nd_delete_unicast"
  "wi_InitializeIpForwardEntry ip_demo = id"
  "wi_CreateIpForwardEntry2 ip_demo = nd_create_route"
  "wi_DeleteIpForwardEntry2 ip_demo = nd_delete_route"
  "wi_defaults ip_demo = nd_rows"
  by (simp_all add: ip_demo_def)

definition nd_addr_set :: "ipdemo \<Rightarrow> addr_entry set" where
  "nd_addr_set s = unicast_of ` set (nd_addrs s)"

definition nd_route_set :: "ipdemo \<Rightarrow> route_entry set" where
  "nd_route_set s = route_of ` {r \<in> set (nd_routes s). fr_PrefixLength r = 0}"

lemma nd_fresh_new: "nd_fresh s \<notin> set (nd_tables s)"
proof -
  have nn: "0 \<le> sum_list (map abs xs)" for xs :: "int list"
    by (induction xs) simp_all
  have "\<bar>x\<bar> \<le> sum_list (map abs xs)" if "x \<in> set xs" for x :: int and xs
    using that by (induction xs) (auto simp: nn add_increasing add_increasing2)
  then show ?thesis unfolding nd_fresh_def by fastforce
qed

lemma ip_demo_addresses: "addresses_documented ip_demo nd_addr_set nd_route_set (\<lambda>s. set (nd_tables s))"
  unfolding addresses_documented_def
proof (intro conjI allI)
  fix fam s
  show "let ((code, t, rows), s') = wi_GetUnicastIpAddressTable ip_demo fam s
        in nd_addr_set s' = nd_addr_set s \<and> nd_route_set s' = nd_route_set s \<and> (code \<noteq> 0 \<longrightarrow> set (nd_tables s') = set (nd_tables s))
         \<and> (code = 0 \<longrightarrow> t \<notin> set (nd_tables s) \<and> set (nd_tables s') = insert t (set (nd_tables s))
              \<and> unicast_of ` set rows = {a \<in> nd_addr_set s. sa_fam (fst (snd a)) = fam})"
    by (auto simp: ip_demo_simps nd_fresh_new nd_addr_set_def nd_route_set_def unicast_of_def)
next
  fix r s
  show "let (code, s') = wi_DeleteUnicastIpAddressEntry ip_demo r s
        in nd_route_set s' = nd_route_set s \<and> set (nd_tables s') = set (nd_tables s)
         \<and> nd_addr_set s' = (if code = 0 then {(i, a, l) \<in> nd_addr_set s. \<not> (i = ur_InterfaceIndex r \<and> a = ur_Address r)} else nd_addr_set s)"
    by (auto simp: ip_demo_simps nd_delete_unicast_def same_unicast_def nd_addr_set_def nd_route_set_def unicast_of_def)
next
  fix r s
  show "let (code, s') = wi_CreateUnicastIpAddressEntry ip_demo r s
        in nd_route_set s' = nd_route_set s \<and> set (nd_tables s') = set (nd_tables s)
         \<and> nd_addr_set s' = (if code = 0 then insert (unicast_of r) (nd_addr_set s) else nd_addr_set s)
         \<and> (code = ERROR_OBJECT_ALREADY_EXISTS \<longrightarrow> (\<exists>l. (ur_InterfaceIndex r, ur_Address r, l) \<in> nd_addr_set s))"
    by (auto simp: ip_demo_simps nd_create_unicast_def same_unicast_def nd_addr_set_def nd_route_set_def unicast_of_def
        ERROR_OBJECT_ALREADY_EXISTS_def list_ex_iff image_iff) metis
qed

lemma ip_demo_routes: "routes_documented ip_demo nd_addr_set nd_route_set (\<lambda>s. set (nd_tables s))"
  unfolding routes_documented_def
proof (intro conjI allI impI)
  fix fam s
  show "let ((code, t, rows), s') = wi_GetIpForwardTable2 ip_demo fam s
        in nd_addr_set s' = nd_addr_set s \<and> nd_route_set s' = nd_route_set s \<and> (code \<noteq> 0 \<longrightarrow> set (nd_tables s') = set (nd_tables s))
         \<and> (code = 0 \<longrightarrow> t \<notin> set (nd_tables s) \<and> set (nd_tables s') = insert t (set (nd_tables s))
              \<and> route_of ` {r \<in> set rows. fr_PrefixLength r = 0} = {q \<in> nd_route_set s. sa_fam (snd q) = fam})"
    by (auto simp: ip_demo_simps nd_fresh_new nd_addr_set_def nd_route_set_def route_of_def)
next
  fix r :: forward_row and s assume "fr_PrefixLength r = 0"
  then show "let (code, s') = wi_DeleteIpForwardEntry2 ip_demo r s
        in nd_addr_set s' = nd_addr_set s \<and> set (nd_tables s') = set (nd_tables s)
         \<and> nd_route_set s' = (if code = 0 then nd_route_set s - {route_of r} else nd_route_set s)"
    by (auto simp: ip_demo_simps nd_delete_route_def same_route_def nd_addr_set_def nd_route_set_def)
next
  fix r :: forward_row and s assume "fr_PrefixLength r = 0"
  then show "let (code, s') = wi_CreateIpForwardEntry2 ip_demo r s
        in nd_addr_set s' = nd_addr_set s \<and> set (nd_tables s') = set (nd_tables s)
         \<and> nd_route_set s' = (if code = 0 then insert (route_of r) (nd_route_set s) else nd_route_set s)
         \<and> (code = ERROR_OBJECT_ALREADY_EXISTS \<longrightarrow> route_of r \<in> nd_route_set s)"
    by (auto simp: ip_demo_simps nd_create_route_def same_route_def nd_addr_set_def nd_route_set_def
        ERROR_OBJECT_ALREADY_EXISTS_def list_ex_iff intro: rev_image_eqI)
qed (auto simp: ip_demo_simps nd_addr_set_def nd_route_set_def)

lemma ip_demo_documented: "ip_helper_documented ip_demo nd_addr_set nd_route_set (\<lambda>s. set (nd_tables s))"
  by (simp add: ip_helper_documented_def ip_demo_addresses ip_demo_routes)

definition nd_row :: "u32 \<Rightarrow> IpAddr \<Rightarrow> byte \<Rightarrow> unicast_row" where
  "nd_row i a l = \<lparr>ur_Address = sockaddr_inet_from_ip a, ur_InterfaceIndex = i, ur_OnLinkPrefixLength = l, ur_rest = []\<rparr>"

definition nd_start :: ipdemo where
  "nd_start = \<lparr>nd_addrs = [nd_row 3 (V4 1) 8, nd_row 4 (V4 2) 8, nd_row 3 (V6 1) 64], nd_routes = [], nd_tables = []\<rparr>"

lemma nd_set_ok: "fst (win_set_address ip_demo 3 (V4 7) 24 (Some (V4 9)) nd_start) = Ok ()"
  by (simp add: win_set_address_def clear_addresses_def clear_default_routes_def win_add_address_def io_then_def io_bind_def
      io_return_def ip_demo_simps nd_start_def nd_row_def win_call_def nd_delete_unicast_def same_unicast_def nd_fresh_def
      create_entry_def nd_create_unicast_def nd_create_route_def family_of_def is_ipv4_def sa_fam_from_ip unicast_entry_def)

theorem win_set_address_replaces_witness:
  "\<exists>s'. win_set_address ip_demo 3 (V4 7) 24 (Some (V4 9)) nd_start = (Ok (), s') \<and> nd_tables s' = []
    \<and> nd_addr_set s' = {(3, sockaddr_inet_from_ip (V4 7), 24), (4, sockaddr_inet_from_ip (V4 2), 8), (3, sockaddr_inet_from_ip (V6 1), 64)}
    \<and> nd_route_set s' = {(3, sockaddr_inet_from_ip (V4 9))}"
proof -
  obtain s' where s': "win_set_address ip_demo 3 (V4 7) 24 (Some (V4 9)) nd_start = (Ok (), s')"
    using nd_set_ok by (metis prod.collapse)
  have f: "sa_fam (sockaddr_inet_from_ip (V4 a)) = family_of True" "sa_fam (sockaddr_inet_from_ip (V6 b)) \<noteq> family_of True" for a b
    by (simp_all only: sa_fam_from_ip) (simp_all add: is_ipv4_def family_of_def WIN_AF_INET_def WIN_AF_INET6_def)
  have "nd_addr_set nd_start = {(3, sockaddr_inet_from_ip (V4 1), 8), (4, sockaddr_inet_from_ip (V4 2), 8), (3, sockaddr_inet_from_ip (V6 1), 64)}"
      "nd_route_set nd_start = {}" "nd_tables nd_start = []"
    by (simp_all add: nd_addr_set_def nd_route_set_def nd_start_def nd_row_def unicast_of_def del: sockaddr_inet_from_ip.simps)
  moreover have "is_ipv4 (V4 7)" by (simp add: is_ipv4_def)
  ultimately show ?thesis
    using win_set_address_replaces [OF ip_demo_documented s'] s' f by (auto simp del: sockaddr_inet_from_ip.simps)
qed

end
