(* ===== verification/WinBuild.thy ===== *)
theory WinBuild
  imports WinDeviceSpec WinFfiSpec
begin

text \<open>
  The builder on Windows (\<open>src/builder.rs\<close>): the configuration of the Windows device and what a build leaves behind, from the
  search for a free name to the session of the enabled device.
\<close>

section \<open>Building\<close>

text \<open>The name of the builder is a \<open>String\<close>; its characters out of their UTF-8 bytes.\<close>

fun utf8_chars :: "byte list \<Rightarrow> rstr" where
  "utf8_chars [] = []"
| "utf8_chars [a] = [unat a]"
| "utf8_chars (a # b # bs) =
     (if a < 0x80 then unat a # utf8_chars (b # bs)
      else if a < 0xE0 then ((unat a mod 32) * 64 + unat b mod 64) # utf8_chars bs
      else (case bs of
          [] \<Rightarrow> []
        | [c] \<Rightarrow> [(unat a mod 16) * 4096 + (unat b mod 64) * 64 + unat c mod 64]
        | c # d # cs \<Rightarrow>
            if a < 0xF0 then ((unat a mod 16) * 4096 + (unat b mod 64) * 64 + unat c mod 64) # utf8_chars (d # cs)
            else ((unat a mod 8) * 262144 + (unat b mod 64) * 4096 + (unat c mod 64) * 64 + unat d mod 64) # utf8_chars cs))"

text \<open>The fields that only Windows has are set nowhere.\<close>

definition win_build_config :: "DeviceBuilder \<Rightarrow> WinDeviceConfig \<times> DeviceBuilder" where
  "win_build_config b =
     (\<lparr>wc_dev_name = map_option utf8_chars (b_dev_name b), wc_description = None, wc_device_guid = None, wc_wintun_log = None,
       wc_wintun_file = None, wc_ring_capacity = None, wc_delete_driver = None\<rparr>, b\<lparr>b_dev_name := None\<rparr>)"

definition on_dev :: "(TunDevice \<Rightarrow> ('s, 'a) io) \<Rightarrow> (TunDevice \<times> 's, 'a) io" where
  "on_dev f = (\<lambda>(t, s). case f t s of (r, s) \<Rightarrow> (r, t, s))"

definition windows_ops :: "('s, 'x) windev_scheme \<Rightarrow> (TunDevice \<times> 's) device_ops" where
  "windows_ops W = \<lparr>op_set_mtu = (\<lambda>m. on_dev (\<lambda>t. windev_set_mtu W t m)),
     op_set_network_address = (\<lambda>a p dst. on_dev (\<lambda>t. windev_set_network_address W (\<lambda>_. None) t (Ipv4Arg a) (PrefixArg p) (map_option Ipv4Arg dst))),
     op_add_address_v6 = (\<lambda>a p. on_dev (\<lambda>t. windev_add_address_v6 W (\<lambda>_. None) t (Ipv6Arg a) (PrefixArg p))),
     op_enabled = (\<lambda>v (t, s). windev_enabled W t v s)\<rparr>"

definition win_build_sync :: "('s, 'x) windev_scheme \<Rightarrow> DeviceBuilder \<Rightarrow> 's \<Rightarrow> (TunDevice res \<times> 's) option" where
  "win_build_sync W b s = (case win_build_config b of (cfg, b) \<Rightarrow>
     (case windev_new W cfg s of
        Some (Ok t, s) \<Rightarrow> Some (case config (windows_ops W) b (t, s) of
            (Ok _, t, s) \<Rightarrow> (Ok t, s)
          | (Err e, t, s) \<Rightarrow> (Err e, adapter_drop W (td_adapter t) s)
          | (Panic, t, s) \<Rightarrow> (Panic, adapter_drop W (td_adapter t) s))
      | q \<Rightarrow> q))"

text \<open>Making it async cannot fail.\<close>

definition win_build_async :: "('s, 'x) windev_scheme \<Rightarrow> DeviceBuilder \<Rightarrow> 's \<Rightarrow> (TunDevice res \<times> 's) option" where
  "win_build_async W b s = win_build_sync W b s"

section \<open>What is held\<close>

text \<open>The other functions of Windows keep what is held; a process that is opened is a handle.\<close>

definition device_keeps :: "('s, 'x) windev_scheme \<Rightarrow> ('s \<Rightarrow> win_resource set) \<Rightarrow> bool" where
  "device_keeps W held \<longleftrightarrow> io_preserves held (wd_getifaddrs W)
     \<and> (\<forall>p. acquires held WEvent (sd_OpenProcess W p)) \<and> (\<forall>h. keeps held (sd_GetProcessTimes W h))
     \<and> keeps held (sd_GetVersionEx W) \<and> (\<forall>g us. keeps held (sd_GetClassDevsEx W g us))
     \<and> (\<forall>d i. keeps held (sd_EnumDeviceInfo W d i)) \<and> (\<forall>d. keeps held (sd_DestroyDeviceInfoList W d))
     \<and> (\<forall>i. keeps held (sd_DevNodeStatus W i)) \<and> (\<forall>d v k n. keeps held (sd_GetDeviceProperty W d v k n))"

definition tables_keep :: "('s, 'x) win_sys_scheme \<Rightarrow> ('s \<Rightarrow> win_resource set) \<Rightarrow> bool" where
  "tables_keep W held \<longleftrightarrow> (\<forall>r. keeps held (wi_GetIpInterfaceEntry W r)) \<and> (\<forall>r. keeps held (wi_SetIpInterfaceEntry W r))
     \<and> (\<forall>f. keeps held (wi_GetUnicastIpAddressTable W f)) \<and> (\<forall>f. keeps held (wi_GetIpForwardTable2 W f))
     \<and> (\<forall>t s. held (wi_FreeMibTable W t s) = held s)
     \<and> (\<forall>r. keeps held (wi_CreateUnicastIpAddressEntry W r)) \<and> (\<forall>r. keeps held (wi_DeleteUnicastIpAddressEntry W r))
     \<and> (\<forall>r. keeps held (wi_CreateIpForwardEntry2 W r)) \<and> (\<forall>r. keeps held (wi_DeleteIpForwardEntry2 W r))"

lemma win_call_keeps: "keeps held f \<Longrightarrow> io_preserves held (win_call f)" "keeps held f \<Longrightarrow> io_preserves held (create_entry f)"
  by (auto simp: keeps_def io_preserves_def win_call_def create_entry_def Let_def split: prod.splits) (metis snd_conv)+

lemma update_interface_keeps: "tables_keep W held \<Longrightarrow> io_preserves held (update_interface W index fam f)"
  unfolding io_preserves_def
proof
  fix s assume T: "tables_keep W held"
  let ?row = "(fst (wi_defaults W))\<lparr>ir_Family := fam, ir_InterfaceIndex := index\<rparr>"
  obtain c row s1 where g: "wi_GetIpInterfaceEntry W ?row s = ((c, row), s1)" by (metis surj_pair)
  have k: "keeps held (wi_GetIpInterfaceEntry W ?row)" "keeps held (wi_SetIpInterfaceEntry W (f row))" using T by (simp_all add: tables_keep_def)
  have "held s1 = held s" using keepsD [OF k(1) g] .
  moreover have "held (snd (win_call (wi_SetIpInterfaceEntry W (f row)) s1)) = held s1"
    using win_call_keeps(1) [OF k(2)] by (simp add: io_preserves_def)
  ultimately show "held (snd (update_interface W index fam f s)) = held s" using g by (simp add: update_interface_def)
qed

lemma clear_keeps:
  assumes T: "tables_keep W held"
  shows "io_preserves held (clear_default_routes W index v4)" "io_preserves held (clear_addresses W index v4)"
proof -
  have d: "io_preserves held (io_each (\<lambda>row. win_call (wi_DeleteIpForwardEntry2 W row)) rows)"
      "io_preserves held (io_each (\<lambda>row. win_call (wi_DeleteUnicastIpAddressEntry W row)) rows')" for rows rows'
    using T by (auto simp: tables_keep_def intro!: io_pres win_call_keeps)
  have f: "held (wi_FreeMibTable W t s) = held s" for t s using T by (simp add: tables_keep_def)
  show r: "io_preserves held (clear_default_routes W index v4)" unfolding io_preserves_def
  proof
    fix s
    obtain c t rows s1 where g: "wi_GetIpForwardTable2 W (family_of v4) s = ((c, t, rows), s1)" by (metis surj_pair)
    have "held s1 = held s" using T g keepsD [of held "wi_GetIpForwardTable2 W (family_of v4)" s] by (simp add: tables_keep_def)
    then show "held (snd (clear_default_routes W index v4 s)) = held s"
      using g d(1) f by (simp add: clear_default_routes_def io_preserves_def)
  qed
  show "io_preserves held (clear_addresses W index v4)" unfolding io_preserves_def
  proof
    fix s
    obtain c t rows s1 where g: "wi_GetUnicastIpAddressTable W (family_of v4) s = ((c, t, rows), s1)" by (metis surj_pair)
    have "held s1 = held s" using T g keepsD [of held "wi_GetUnicastIpAddressTable W (family_of v4)" s] by (simp add: tables_keep_def)
    moreover have "io_preserves held (io_then (io_each (\<lambda>row. win_call (wi_DeleteUnicastIpAddressEntry W row)) rs) (clear_default_routes W index v4))" for rs
      by (rule io_preserves_then [OF d(2) r])
    ultimately show "held (snd (clear_addresses W index v4 s)) = held s"
      using g f by (simp add: clear_addresses_def io_preserves_def)
  qed
qed

lemma address_keeps:
  assumes T: "tables_keep W held"
  shows "io_preserves held (win_add_address W index a len gw)" "io_preserves held (win_set_address W index a len gw)"
proof -
  have k: "io_preserves held (create_entry (wi_CreateUnicastIpAddressEntry W r))" "io_preserves held (create_entry (wi_CreateIpForwardEntry2 W r'))" for r r'
    using T by (auto simp: tables_keep_def intro: win_call_keeps)
  then show a: "io_preserves held (win_add_address W index a len gw)"
    unfolding win_add_address_def by (intro io_pres) simp_all
  show "io_preserves held (win_set_address W index a len gw)"
    unfolding win_set_address_def by (rule io_preserves_then [OF clear_keeps(2) [OF T] a])
qed

text \<open>An operation that keeps the invariant of the device.\<close>

definition keeps_ok :: "('s \<Rightarrow> win_resource set) \<Rightarrow> win_resource set \<Rightarrow> (TunDevice \<times> 's, 'a) io \<Rightarrow> bool" where
  "keeps_ok held base m \<longleftrightarrow> (\<forall>t s. adapter_ok held base (td_adapter t) s \<longrightarrow>
     (case m (t, s) of (r, t', s') \<Rightarrow> adapter_ok held base (td_adapter t') s'))"

lemma keeps_ok_dev: "(\<And>t. io_preserves held (f t)) \<Longrightarrow> keeps_ok held base (on_dev f)"
  unfolding keeps_ok_def on_dev_def by (auto split: prod.splits intro: adapter_ok_held dest: io_preservesD)

lemma keeps_okD: "keeps_ok held base m \<Longrightarrow> m ((t :: TunDevice), s) = (r, t', s') \<Longrightarrow> adapter_ok held base (td_adapter t) s \<Longrightarrow> adapter_ok held base (td_adapter t') s'"
  unfolding keeps_ok_def by (metis (mono_tags, lifting) case_prod_conv)

lemma keeps_ok_bind:
  assumes "keeps_ok held base m" "\<And>a. keeps_ok held base (f a)" shows "keeps_ok held base (io_bind m f)"
  unfolding keeps_ok_def
proof (intro allI impI)
  fix t :: TunDevice and s assume ok: "adapter_ok held base (td_adapter t) s"
  obtain r t1 s1 where m: "m (t, s) = (r, t1, s1)" by (metis surj_pair)
  have ok1: "adapter_ok held base (td_adapter t1) s1" using keeps_okD [OF assms(1) m ok] .
  show "case io_bind m f (t, s) of (r, t', s') \<Rightarrow> adapter_ok held base (td_adapter t') s'"
  proof (cases r)
    case (Ok a)
    obtain r2 t2 s2 where f: "f a (t1, s1) = (r2, t2, s2)" by (metis surj_pair)
    then show ?thesis using keeps_okD [OF assms(2) f ok1] m Ok by (simp add: io_simps)
  qed (use m ok1 in \<open>simp_all add: io_simps\<close>)
qed

lemma keeps_ok_res: "keeps_ok held base (io_res r)" "keeps_ok held base (io_return a)"
  by (simp_all add: keeps_ok_def io_res_def io_return_def)

lemma keeps_ok_each: "(\<And>x. keeps_ok held base (f x)) \<Longrightarrow> keeps_ok held base (io_each f xs)"
  by (induction xs) (auto simp: io_then_def intro: keeps_ok_bind keeps_ok_res)

lemma keeps_ok_enabled: "wintun_accounts W held \<Longrightarrow> keeps_ok held base (\<lambda>(t, s). windev_enabled W t v s)"
  unfolding keeps_ok_def windev_enabled_def wtun_enabled_def on_adapter_def
  by (auto split: prod.splits if_splits intro: enable_ok disable_ok)

lemma enabled_state: "windev_enabled W t v s = (Ok u, t', s') \<Longrightarrow> wa_state (td_adapter t') = v"
  by (auto simp: windev_enabled_def wtun_enabled_def on_adapter_def adapter_enable_def adapter_disable_def take_session_def Let_def
      split: prod.splits if_splits res.splits)

lemma windows_ops_keep:
  assumes "wintun_accounts W held" "tables_keep W held"
  shows "keeps_ok held base (do_call (windows_ops W) c)"
proof (cases c)
  case (SetMtuTo m)
  then show ?thesis using update_interface_keeps [OF assms(2)]
    by (auto simp: windows_ops_def windev_set_mtu_def set_interface_mtu_def intro: keeps_ok_dev)
next
  case (SetNetwork a p d)
  then show ?thesis using address_keeps [OF assms(2)]
    by (auto simp: windows_ops_def windev_set_network_address_def intro!: keeps_ok_dev io_pres)
next
  case (AddV6 a p)
  then show ?thesis using address_keeps [OF assms(2)]
    by (auto simp: windows_ops_def windev_add_address_v6_def intro!: keeps_ok_dev io_pres)
next
  case (SetEnabled v)
  then show ?thesis using keeps_ok_enabled [OF assms(1)] by (simp add: windows_ops_def)
qed

lemma config_keeps:
  assumes "wintun_accounts W held" "tables_keep W held" shows "keeps_ok held base (config (windows_ops W) b)"
  unfolding config_runs_plan_eq run_plan_def io_then_def
  by (intro keeps_ok_bind keeps_ok_each keeps_ok_res windows_ops_keep [OF assms])

lemma io_then_Ok: "io_then m n s = (Ok u, s') \<Longrightarrow> \<exists>a s1. m s = (Ok a, s1) \<and> n s1 = (Ok u, s')"
  by (auto simp: io_then_def io_bind_def split: prod.splits res.splits)

lemma config_enabled:
  assumes "config (windows_ops W) b (t, s) = (Ok u, t', s')" "b_enabled b = Some v"
  shows "wa_state (td_adapter t') = v"
proof -
  obtain t1 s1 where "op_enabled (windows_ops W) v (t1, s1) = (Ok u, t', s')"
    using assms unfolding config_def by (metis (no_types, lifting) io_then_Ok option.simps(5) surj_pair)
  then show ?thesis using enabled_state by (simp add: windows_ops_def)
qed

text \<open>Looking for a left-behind adapter closes the process it opens.\<close>

lemma owner_alive_held:
  assumes W: "wintun_accounts W held" "device_keeps W held" and o: "owner_alive W devs d s = (r, s')"
  shows "held s' = held s"
proof -
  obtain ok ty bs n s1 where p: "sd_GetDeviceProperty W devs d DEVPKEY_Wintun_OwningProcess 12 s = ((ok, ty, bs, n), s1)"
    by (metis surj_pair)
  have k: "keeps held (sd_GetDeviceProperty W devs d DEVPKEY_Wintun_OwningProcess 12)" using W(2) by (simp add: device_keeps_def)
  have s1: "held s1 = held s" using keepsD [OF k p] .
  define q where "q = owning_process_of bs"
  obtain h s2 where h: "sd_OpenProcess W (op_process_id q) s1 = (h, s2)" by force
  obtain c ft s3 where t: "sd_GetProcessTimes W h s2 = ((c, ft), s3)" by (metis surj_pair)
  have a: "acquires held WEvent (sd_OpenProcess W (op_process_id q))" "keeps held (sd_GetProcessTimes W h)"
    using W(2) by (simp_all add: device_keeps_def)
  have "held (snd (process_is_stale W q s1)) = held s1"
    using h t acquiresD [OF a(1) h] keepsD [OF a(2) t] by (auto simp: process_is_stale_def Let_def win_release [OF W(1)])
  then show ?thesis using o p s1 by (auto simp: owner_alive_def q_def [symmetric] Let_def split: if_splits prod.splits)
qed

lemma enum_held:
  assumes W: "device_keeps W held"
  shows "enum_device_info W devs i s = (e, s') \<Longrightarrow> held s' = held s"
    and "io_preserves held (dev_node_status W d)" "io_preserves held (get_device_name W devs d)"
proof -
  have k: "keeps held (sd_EnumDeviceInfo W devs i)" "keeps held (sd_DevNodeStatus W n)" "keeps held (sd_GetDeviceProperty W devs d p m)" for n p m
    using W by (simp_all add: device_keeps_def)
  show "enum_device_info W devs i s = (e, s') \<Longrightarrow> held s' = held s"
    using keepsD [OF k(1), of s] by (auto simp: enum_device_info_def Let_def split: prod.splits if_splits)
  show "io_preserves held (dev_node_status W d)"
    using keepsD [OF k(2)] by (auto simp: io_preserves_def dev_node_status_def win_last_os_error_def Let_def split: prod.splits)
  show "io_preserves held (get_device_name W devs d)"
    unfolding io_preserves_def
  proof
    fix s
    obtain ok ty bs req s1 where p: "sd_GetDeviceProperty W devs d DEVPKEY_Wintun_Name 0 s = ((ok, ty, bs, req), s1)" by (metis surj_pair)
    obtain ok2 ty2 bs2 n2 s2 where p2: "sd_GetDeviceProperty W devs d DEVPKEY_Wintun_Name (unat req) s1 = ((ok2, ty2, bs2, n2), s2)" by (metis surj_pair)
    show "held (snd (get_device_name W devs d s)) = held s"
      using p p2 keepsD [OF k(3) p] keepsD [OF k(3) p2] by (simp add: get_device_name_def win_last_os_error_def Let_def)
  qed
qed

lemma scan_held:
  assumes "device_keeps W held" "scan_devices W devs nm i s = Some q"
  shows "held (snd q) = held s"
proof -
  have "device_keeps W held \<longrightarrow> held (snd q) = held s"
  proof (induction rule: scan_devices.raw_induct [OF _ assms(2)])
    case (1 self W devs nm i s q)
    show ?case
    proof
      assume W: "device_keeps W held"
      have rec: "self W devs nm i' s' = Some q \<Longrightarrow> held s' = held s \<Longrightarrow> held (snd q) = held s" for i' s'
        using 1(1) [of W devs nm i' s' q] W by auto
      obtain e s1 where e: "enum_device_info W devs i s = (e, s1)" by force
      have s1: "held s1 = held s" using enum_held(1) [OF W e] .
      show "held (snd q) = held s"
      proof (cases e)
        case None then show ?thesis using 1(2) [unfolded e None prod.case option.case] s1 by force
      next
        case (Some d)
        show ?thesis
        proof (cases d)
          case (Ok d)
          obtain w s2 where w: "dev_node_status W d s1 = (w, s2)" by force
          obtain n s3 where n: "get_device_name W devs d s2 = (n, s3)" by force
          have h: "held s2 = held s" "held s3 = held s"
            using io_preservesD [OF enum_held(2) [OF W] w] io_preservesD [OF enum_held(3) [OF W] n] s1 by simp_all
          note q = 1(2) [unfolded e Some Ok prod.case option.case res.case w]
          show ?thesis
          proof (cases w)
            case w': (Ok status)
            show ?thesis
            proof (cases "status AND DN_HAS_PROBLEM = 0")
              case True then show ?thesis using q w' rec [OF _ h(1)] by simp
            next
              case False
              then show ?thesis using q w' n h(2) rec [OF _ h(2)] by (cases n) (simp_all split: if_splits, fastforce)
            qed
          qed (use q rec [OF _ h(1)] in simp_all)
        qed (use 1(2) e Some rec [OF _ s1] in simp_all)
      qed
    qed
  qed
  then show ?thesis using assms(1) by blast
qed

lemma scan_win7_held:
  assumes "wintun_accounts W held" "device_keeps W held" "scan_devices_win7 W devs nm i s = Some q"
  shows "held (snd q) = held s"
proof -
  have "wintun_accounts W held \<and> device_keeps W held \<longrightarrow> held (snd q) = held s"
  proof (induction rule: scan_devices_win7.raw_induct [OF _ assms(3)])
    case (1 self W devs nm i s q)
    show ?case
    proof
      assume W: "wintun_accounts W held \<and> device_keeps W held"
      have rec: "self W devs nm i' s' = Some q \<Longrightarrow> held s' = held s \<Longrightarrow> held (snd q) = held s" for i' s'
        using 1(1) [of W devs nm i' s' q] W by auto
      obtain e s1 where e: "enum_device_info W devs i s = (e, s1)" by force
      have s1: "held s1 = held s" using enum_held(1) [OF _ e] W by blast
      show "held (snd q) = held s"
      proof (cases e)
        case None then show ?thesis using 1(2) [unfolded e None prod.case option.case] s1 by force
      next
        case (Some d)
        show ?thesis
        proof (cases d)
          case (Ok d)
          obtain w s2 where w: "owner_alive W devs d s1 = (w, s2)" by force
          obtain n s3 where n: "get_device_name W devs d s2 = (n, s3)" by force
          have s2: "held s2 = held s" using owner_alive_held [where held = held, OF _ _ w] W s1 by simp
          moreover have "held s3 = held s2" using io_preservesD [OF enum_held(3) n] W by blast
          ultimately have h: "held s2 = held s" "held s3 = held s" using s2 by simp_all
          note q = 1(2) [unfolded e Some Ok prod.case option.case res.case w]
          show ?thesis
          proof (cases w)
            case True then show ?thesis using q rec [OF _ h(1)] by simp
          next
            case False
            then show ?thesis using q n h(2) rec [OF _ h(2)] by (cases n) (simp_all split: if_splits, fastforce)
          qed
        qed (use 1(2) e Some rec [OF _ s1] in simp_all)
      qed
    qed
  qed
  then show ?thesis using assms(1,2) by blast
qed

lemma check_held:
  assumes W: "wintun_accounts W held" "device_keeps W held" and c: "check_adapter_if_orphaned_devices W nm s = Some (r, s')"
  shows "held s' = held s"
proof -
  have k: "keeps held (sd_GetVersionEx W)" "keeps held (sd_GetClassDevsEx W g us)" "keeps held (sd_DestroyDeviceInfoList W d)" for g us d
    using W(2) by (simp_all add: device_keeps_def)
  have cw: "held t' = held t" if "check_with W e scan t = Some (r, t')" "\<And>devs u q. scan devs u = Some q \<Longrightarrow> held (snd q) = held u" for e scan t t'
  proof -
    obtain devs t1 where g: "sd_GetClassDevsEx W GUID_NETWORK_ADAPTER (encode_utf16 (str_of e)) t = (devs, t1)" by force
    have t1: "held t1 = held t" using keepsD [OF k(2) g] .
    have d: "held (snd (destroy_device_info_list W devs u)) = held u" for u
      using keepsD [OF k(3)] by (auto simp: destroy_device_info_list_def win_last_os_error_def Let_def split: prod.splits)
    show ?thesis using that g t1 d by (auto simp: check_with_def split: if_splits)
  qed
  obtain b s1 where b: "is_windows_seven W s = (b, s1)" by force
  have "held s1 = held s" using b keepsD [OF k(1), of s] by (auto simp: is_windows_seven_def Let_def split: prod.splits)
  then show ?thesis
    using c b cw scan_held [OF W(2)] scan_win7_held [OF W]
    by (cases b) (auto simp: check_adapter_if_orphaned_devices_def check_adapter_if_orphaned_devices_win7_def)
qed
text \<open>The loop over names: a device, or nothing.\<close>

definition made :: "('s \<Rightarrow> win_resource set) \<Rightarrow> 's \<Rightarrow> TunDevice res \<times> 's \<Rightarrow> bool" where
  "made held s q \<longleftrightarrow> (case q of (Ok t, s') \<Rightarrow> adapter_ok held (held s) (td_adapter t) s' | (_, s') \<Rightarrow> held s' = held s)"

lemma made_cases:
  assumes "(\<exists>t. r = Ok t \<and> adapter_ok held (held s) (td_adapter t) s') \<or> (\<exists>e. r = Err e) \<and> held s' = held s"
  shows "made held s (r, s')"
  using assms by (auto simp: made_def)

lemma made_from: "held s1 = held s \<Longrightarrow> made held s1 q \<Longrightarrow> made held s q"
  by (cases q) (simp add: made_def split: res.splits)

lemma named_made:
  assumes "wintun_accounts W held"
  shows "made held s (open_named W cfg nm s)" "made held s (create_named W cfg nm s)"
proof -
  obtain r s1 where r: "open_named W cfg nm s = (r, s1)" by force
  then show "made held s (open_named W cfg nm s)"
    using create_held(2) [OF assms r [unfolded open_named_def]] made_cases [of r held s s1] by simp
  obtain q s2 where q: "create_named W cfg nm s = (q, s2)" by force
  then show "made held s (create_named W cfg nm s)"
    using create_held(1) [OF assms q [unfolded create_named_def]] made_cases [of q held s s2] by simp
qed

lemma action_held:
  assumes "wintun_accounts W held" "device_keeps W held" "action_for W cfg interfaces nm s = Some (a, s')"
  shows "held s' = held s"
  using assms(3) check_held [OF assms(1,2), of nm s] by (auto simp: action_for_def split: if_splits)

lemma new_loop_made:
  assumes "wintun_accounts W held" "device_keeps W held" "new_loop W cfg interfaces n attempts s = Some q"
  shows "made held s q"
proof -
  have "wintun_accounts W held \<and> device_keeps W held \<longrightarrow> made held s q"
  proof (induction rule: new_loop.raw_induct [OF _ assms(3)])
    case (1 self W cfg interfaces n attempts s q)
    show ?case
    proof
      assume W: "wintun_accounts W held \<and> device_keeps W held"
      have rec: "self W cfg interfaces m k s' = Some q \<Longrightarrow> held s' = held s \<Longrightarrow> made held s q" for m k s'
        using 1(1) [of W cfg interfaces m k s' q] W made_from [of held s' s q] by blast
      obtain a s1 where a: "action_for W cfg interfaces (name_at cfg n) s = Some (a, s1)"
        using 1(2) by (cases "action_for W cfg interfaces (name_at cfg n) s") auto
      have s1: "held s1 = held s" using action_held [OF _ _ a] W by blast
      note q = 1(2) [unfolded a option.case prod.case]
      show "made held s q"
      proof (cases a)
        case SkipName then show ?thesis using q rec [OF _ s1] by simp
      next
        case OpenName
        then have "q = open_named W cfg (name_at cfg n) s1" using q by simp
        then show ?thesis using named_made(1) [of W held s1] W made_from [of held s1 s, OF s1] by blast
      next
        case CreateName
        obtain r s2 where r: "create_named W cfg (name_at cfg n) s1 = (r, s2)" by force
        have m: "made held s (r, s2)" using named_made(2) [of W held s1 cfg "name_at cfg n"] W made_from [of held s1 s, OF s1] r by simp
        show ?thesis
        proof (cases r)
          case (Err e)
          then have "held s2 = held s" using m by (simp add: made_def)
          then show ?thesis using q CreateName r Err rec m by (simp split: if_splits)
        qed (use q CreateName r m in simp_all)
      qed
    qed
  qed
  then show ?thesis using assms(1,2) by blast
qed

lemma windev_new_made:
  assumes "wintun_accounts W held" "device_keeps W held" "windev_new W cfg s = Some q"
  shows "made held s q"
proof -
  obtain r s1 where r: "wd_getifaddrs W s = (r, s1)" by force
  have "io_preserves held (wd_getifaddrs W)" using assms(2) by (simp add: device_keeps_def)
  from io_preservesD [OF this r] have s1: "held s1 = held s" .
  show ?thesis
  proof (cases r)
    case (Ok ifs)
    then have "made held s1 q" using assms r new_loop_made [OF assms(1,2)] by (simp add: windev_new_def)
    then show ?thesis using made_from [of held s1 s] s1 by blast
  qed (use assms(3) r s1 in \<open>auto simp: windev_new_def made_def\<close>)
qed

text \<open>
  C32. Building an async Windows device, when it returns: the device holds, beside what was held before, its event, its
  adapter and, exactly when it is enabled, one session; it is enabled or not as the builder says; and a build that fails
  holds nothing more than before.
\<close>

theorem win_build_account:
  assumes "wintun_accounts W held" "device_keeps W held" "tables_keep W held" "win_build_async W b s = Some (r, s')"
  shows "case r of
      Ok t \<Rightarrow> held s' = held s \<union> device_parts (td_adapter t) \<and> held s \<inter> device_parts (td_adapter t) = {}
        \<and> (wa_state (td_adapter t) \<longleftrightarrow> wa_session (td_adapter t) \<noteq> None)
        \<and> (b_enabled b = None \<or> b_enabled b = Some (wa_state (td_adapter t)))
    | _ \<Rightarrow> held s' = held s"
proof -
  obtain cfg b1 where c: "win_build_config b = (cfg, b1)" by force
  then have b1: "b_enabled b1 = b_enabled b" by (auto simp: win_build_config_def)
  obtain q s1 where q: "windev_new W cfg s = Some (q, s1)"
    using assms(4) c by (cases "windev_new W cfg s") (auto simp: win_build_async_def win_build_sync_def)
  note m = windev_new_made [OF assms(1,2) q]
  note b = assms(4) [unfolded win_build_async_def win_build_sync_def c prod.case q option.case]
  show ?thesis
  proof (cases q)
    case (Ok t)
    have ok: "adapter_ok held (held s) (td_adapter t) s1" using m Ok by (simp add: made_def)
    obtain u t2 s2 where u: "config (windows_ops W) b1 (t, s1) = (u, t2, s2)" by (metis surj_pair)
    have ok2: "adapter_ok held (held s) (td_adapter t2) s2" by (rule keeps_okD [OF config_keeps [OF assms(1,3)] u ok])
    show ?thesis
    proof (cases u)
      case (Ok v)
      have "b_enabled b = None \<or> b_enabled b = Some (wa_state (td_adapter t2))"
        using config_enabled [OF u [unfolded Ok]] b1 by (cases "b_enabled b") auto
      then show ?thesis using b \<open>q = Ok t\<close> u Ok ok2 by (auto simp: adapter_ok_def)
    qed (use b \<open>q = Ok t\<close> u drop_held [OF assms(1) ok2] in auto)
  qed (use b m in \<open>auto simp: made_def\<close>)
qed

lemma accounts_truncate: "wintun_accounts (wintun.truncate W) held = wintun_accounts W held"
  by (simp add: wintun_accounts_def acquires_all_def releases_all_def keeps_all_def wintun.truncate_def)

lemma dev_demo_wintun: "wintun.truncate dev_demo = win_demo"
  by (simp add: wintun.truncate_def dev_demo_def win_demo_def)

lemma dev_demo_accounts:
  "wintun_accounts dev_demo (\<lambda>s. set (dm_held s))" "device_keeps dev_demo (\<lambda>s. set (dm_held s))" "tables_keep dev_demo (\<lambda>s. set (dm_held s))"
proof -
  show "wintun_accounts dev_demo (\<lambda>s. set (dm_held s))"
    using win_demo_accounts accounts_truncate [of dev_demo "\<lambda>s. set (dm_held s)"] by (simp add: dev_demo_wintun)
  show "device_keeps dev_demo (\<lambda>s. set (dm_held s))"
    by (auto simp: device_keeps_def dev_demo_def keeps_def acquires_def dm_enum_def io_preserves_def io_return_def)
  show "tables_keep dev_demo (\<lambda>s. set (dm_held s))"
    by (auto simp: tables_keep_def dev_demo_def keeps_def)
qed

lemma dev_demo_wintun_simps:
  "wi_CreateEvent dev_demo = (\<lambda>_ _. dm_new WEvent)" "wt_load dev_demo = (\<lambda>_ s. (True, s))"
  "wt_CreateAdapter dev_demo = (\<lambda>_ _ _. dm_new WAdapter)" "wt_GetAdapterLUID dev_demo = (\<lambda>_ s. (7, s))"
  "wi_LuidToIndex dev_demo = (\<lambda>_ s. ((0, 3), s))" "wt_StartSession dev_demo = (\<lambda>_ _. dm_new WSession)"
  "wt_GetReadWaitEvent dev_demo = (\<lambda>_ s. (1, s))"
  by (simp_all add: dev_demo_def)

lemma dev_demo_create: "\<exists>t. create_named dev_demo no_name (default_name 1) dm_start = (Ok t, dm_has [WAdapter 2, WEvent 1])
    \<and> td_adapter t = adapter_new 2 1 0x200000 False"
proof -
  have f: "fresh_id [] = 1" "fresh_id [WEvent 1] = 2" by (simp_all add: fresh_id_def)
  have s: "dm_start = dm_has []" by (simp add: dm_has_def dm_start_def)
  have n: "default_name 1 = [116, 117, 110, 49]" by (simp add: default_name_def str_of_def decimal.simps)
  have "create_event dev_demo (dm_has []) = (Ok 1, dm_has [WEvent 1])"
    by (simp add: create_event_def dev_demo_wintun_simps dm_has_new f)
  moreover have "load_adapter dev_demo p False (wt_CreateAdapter dev_demo us vs g) (dm_has [WEvent 1])
      = (Ok 2, dm_has [WAdapter 2, WEvent 1])" for p us vs g
    by (simp add: load_adapter_def dev_demo_wintun_simps dm_has_new f)
  moreover have "finish_device dev_demo d (dm_has [WAdapter 2, WEvent 1])
      = (Ok \<lparr>td_index = 3, td_luid = 7, td_adapter = d\<rparr>, dm_has [WAdapter 2, WEvent 1])" for d
    by (simp add: finish_device_def luid_to_index_def io_map_def io_bind_def io_return_def io_unless_def dev_demo_wintun_simps)
  moreover have "capacity_in_range 0x200000" "length (encode_utf16 (default_name 1)) \<le> MAX_POOL"
    by (simp_all add: n [simplified] capacity_in_range_def MIN_RING_CAPACITY_def MAX_RING_CAPACITY_def encode_utf16_def utf16_units_def MAX_POOL_def)
  ultimately show ?thesis
    by (simp add: s create_named_def no_name_def opt_or_def wtun_create_def build_device_def io_simps)
qed

lemma dev_demo_build: "\<exists>t s'. win_build_async dev_demo builder_new dm_start = Some (Ok t, s') \<and> wa_state (td_adapter t)"
proof -
  obtain t where t: "create_named dev_demo no_name (default_name 1) dm_start = (Ok t, dm_has [WAdapter 2, WEvent 1])"
      "td_adapter t = adapter_new 2 1 0x200000 False" using dev_demo_create by blast
  have "action_for dev_demo no_name {default_name 0} (default_name 0) dm_start = Some (SkipName, dm_start)"
      "action_for dev_demo no_name {default_name 0} (default_name 1) dm_start = Some (CreateName, dm_start)"
      "name_at no_name n = default_name n" for n
    by (simp_all add: action_for_def no_name_def default_name_inj name_at_def opt_or_def)
  then have "new_loop dev_demo no_name {default_name 0} 0 0 dm_start = Some (Ok t, dm_has [WAdapter 2, WEvent 1])"
    using t by (simp add: new_loop.simps [of _ _ _ 0] new_loop.simps [of _ _ _ "Suc 0"])
  then have w: "windev_new dev_demo no_name dm_start = Some (Ok t, dm_has [WAdapter 2, WEvent 1])"
    by (simp add: windev_new_def dev_demo_simps io_return_def)
  have c: "win_build_config builder_new = (no_name, builder_new)"
    by (simp add: win_build_config_def builder_new_def with_enable_def builder_default_def no_name_def)
  have "\<exists>d s'. adapter_enable dev_demo (adapter_new 2 1 0x200000 False) (dm_has [WAdapter 2, WEvent 1]) = (Ok (), d, s') \<and> wa_state d"
    by (simp add: adapter_enable_def adapter_new_def dev_demo_wintun_simps dm_has_new fresh_id_def take_session_def)
  then obtain d s' where "adapter_enable dev_demo (td_adapter t) (dm_has [WAdapter 2, WEvent 1]) = (Ok (), d, s')" "wa_state d"
    using t by auto
  then have "config (windows_ops dev_demo) builder_new (t, dm_has [WAdapter 2, WEvent 1]) = (Ok (), t\<lparr>td_adapter := d\<rparr>, s')"
    by (simp add: config_def builder_new_def with_enable_def builder_default_def io_simps windows_ops_def windev_enabled_def
        wtun_enabled_def on_adapter_def)
  then show ?thesis using w c \<open>wa_state d\<close> by (simp add: win_build_async_def win_build_sync_def)
qed

theorem win_build_account_witness:
  "\<exists>t s'. win_build_async dev_demo builder_new dm_start = Some (Ok t, s') \<and> wa_state (td_adapter t)
    \<and> set (dm_held s') = device_parts (td_adapter t) \<and> wa_session (td_adapter t) \<noteq> None"
proof -
  obtain t s' where b: "win_build_async dev_demo builder_new dm_start = Some (Ok t, s')" "wa_state (td_adapter t)"
    using dev_demo_build by blast
  have "dm_held dm_start = []" by (simp add: dm_start_def)
  then show ?thesis using win_build_account [OF dev_demo_accounts b(1)] b by simp
qed

end
