(* ===== verification/WinAsync.thy ===== *)
theory WinAsync
  imports WinTunSpec AsyncUnix
begin

text \<open>
  The async device of Windows (\<open>src/async_device/windows/mod.rs\<close>, \<open>src/platform/windows/interrupt.rs\<close>).  An operation that
  would block runs on a thread of the crate \<open>blocking\<close>, whose \<open>unblock\<close> and \<open>Task\<close> are the fields of \<open>executor\<close>.
\<close>

section \<open>Tasks\<close>

text \<open>
  \<open>ex_unblock\<close> hands an operation to a thread and gives its task; polling a task says \<open>Pending\<close> until the operation's
  result is there.
\<close>

record ('s, 'a) executor =
  ex_unblock :: "('s \<Rightarrow> ('a res \<times> 's) option) \<Rightarrow> 's \<Rightarrow> nat \<times> 's"
  ex_poll :: "nat \<Rightarrow> 's \<Rightarrow> 'a res poll \<times> 's"

section \<open>Polling\<close>

text \<open>The slot holds the task under way.  A poll gives what it returns, the slot and the state.\<close>

definition poll_task :: "('s, 'a) executor \<Rightarrow> ('a res \<Rightarrow> 'b res) \<Rightarrow> nat \<Rightarrow> 's \<Rightarrow> 'b res poll \<times> nat option \<times> 's" where
  "poll_task E finish task s = (case ex_poll E task s of
     (Ready r, s) \<Rightarrow> (Ready (finish r), None, s)
   | (Pending, s) \<Rightarrow> (Pending, Some task, s))"

text \<open>The packet of a task, which may not fit into the buffer of this poll.\<close>

definition take_packet :: "byte list \<Rightarrow> (byte list \<times> nat) res \<Rightarrow> (nat \<times> byte list) res" where
  "take_packet buf r = bind_res r (\<lambda>(packet, n).
     if n > length buf then invalid_input ''receive buffer too small''
     else ensure (n \<le> length packet) (Ok (n, take n packet @ drop n buf)))"

definition swap_result :: "((nat \<times> byte list) res \<times> 's) option \<Rightarrow> ((byte list \<times> nat) res \<times> 's) option" where
  "swap_result q = map_option (\<lambda>(r, s). (bind_res r (\<lambda>(n, b). Ok (b, n)), s)) q"

definition win_poll_recv :: "('s, byte list \<times> nat) executor \<Rightarrow> ('s, 'x) wintun_scheme \<Rightarrow> TunDevice \<Rightarrow> nat option \<Rightarrow> byte list
    \<Rightarrow> 's \<Rightarrow> (nat \<times> byte list) res poll \<times> nat option \<times> 's" where
  "win_poll_recv E W t slot buf s = (case slot of
     Some task \<Rightarrow> poll_task E (take_packet buf) task s
   | None \<Rightarrow> (case wtun_try_recv W t buf s of
         (Err e, s) \<Rightarrow>
           if win_would_block e then
             (case ex_unblock E (\<lambda>s. swap_result (wtun_recv W t (replicate (length buf) 0) s)) s of
                (task, s) \<Rightarrow> poll_task E (take_packet buf) task s)
           else (Ready (Err e), None, s)
       | (r, s) \<Rightarrow> (Ready r, None, s)))"

definition win_poll_send :: "('s, nat) executor \<Rightarrow> ('s, 'x) wintun_scheme \<Rightarrow> ('s \<Rightarrow> bool) \<Rightarrow> TunDevice \<Rightarrow> nat option \<Rightarrow> byte list
    \<Rightarrow> 's \<Rightarrow> nat res poll \<times> nat option \<times> 's" where
  "win_poll_send E W load t slot src s = (case slot of
     Some task \<Rightarrow> poll_task E (\<lambda>r. r) task s
   | None \<Rightarrow> (case wtun_try_send W t src s of
         (Err e, s) \<Rightarrow>
           if win_would_block e then
             (case ex_unblock E (wtun_send W load t src) s of (task, s) \<Rightarrow> poll_task E (\<lambda>r. r) task s)
           else (Ready (Err e), None, s)
       | (r, s) \<Rightarrow> (Ready r, None, s)))"

section \<open>Cancellation\<close>

text \<open>Two events: one is set when the operation is over, the other asks it to stop.\<close>

record canceller =
  ca_exit :: handle
  ca_cancel :: handle

definition interrupt_new :: "('s, 'x) win_sys_scheme \<Rightarrow> ('s, handle) io" where
  "interrupt_new W = create_event W"

definition interrupt_trigger :: "('s, 'x) win_sys_scheme \<Rightarrow> handle \<Rightarrow> ('s, unit) io" where
  "interrupt_trigger W h = set_event W h"

definition new_cancelable :: "('s, 'x) win_sys_scheme \<Rightarrow> ('s, canceller) io" where
  "new_cancelable W = io_bind (create_event W) (\<lambda>exit.
     io_unless (io_map (\<lambda>cancel. \<lparr>ca_exit = exit, ca_cancel = cancel\<rparr>) (interrupt_new W)) (wi_CloseHandle W exit))"

definition canceller_drop :: "('s, 'x) win_sys_scheme \<Rightarrow> canceller \<Rightarrow> 's \<Rightarrow> 's" where
  "canceller_drop W c s = wi_CloseHandle W (ca_cancel c) (wi_CloseHandle W (ca_exit c) s)"

text \<open>The guard of the waiting future, dropped when it is cancelled or fails, and that of the operation.\<close>

definition cancel_wait_guard_drop :: "('s, 'x) win_sys_scheme \<Rightarrow> canceller \<Rightarrow> 's \<Rightarrow> 's" where
  "cancel_wait_guard_drop W c s =
     snd (wait_for_single_object W (ca_exit c) 10 (snd (interrupt_trigger W (ca_cancel c) s)))"

definition exit_signal_guard_drop :: "('s, 'x) win_sys_scheme \<Rightarrow> canceller \<Rightarrow> 's \<Rightarrow> 's" where
  "exit_signal_guard_drop W c s = snd (set_event W (ca_exit c) s)"

text \<open>The operation with its guard, run to its end.\<close>

definition guarded :: "('s, 'x) win_sys_scheme \<Rightarrow> canceller \<Rightarrow> (handle \<Rightarrow> 's \<Rightarrow> ('a res \<times> 's) option) \<Rightarrow> 's \<Rightarrow> ('a res \<times> 's) option" where
  "guarded W c f s = map_option (\<lambda>(r, s). (r, exit_signal_guard_drop W c s)) (f (ca_cancel c) s)"

definition win_readable :: "('s, 'x) wintun_scheme \<Rightarrow> TunDevice \<Rightarrow> ('s, unit) io" where
  "win_readable W t = io_bind (new_cancelable W) (\<lambda>c.
     io_scope (\<lambda>s. case guarded W c (\<lambda>cancel s. Some (wtun_wait_readable_interruptible W t cancel None s)) s of
         Some (Ok u, s) \<Rightarrow> (Ok u, s)
       | Some (r, s) \<Rightarrow> (r, cancel_wait_guard_drop W c s)
       | None \<Rightarrow> (Panic, s)) (canceller_drop W c))"

partial_function (option) win_async_recv :: "('s, 'x) wintun_scheme \<Rightarrow> TunDevice \<Rightarrow> byte list \<Rightarrow> 's \<Rightarrow> ((nat \<times> byte list) res \<times> 's) option" where
  "win_async_recv W t buf s = (case wtun_try_recv W t buf s of
     (Err e, s) \<Rightarrow>
       if \<not> win_would_block e then Some (Err e, s)
       else (case win_readable W t s of
           (Ok _, s) \<Rightarrow> win_async_recv W t buf s
         | (Err e, s) \<Rightarrow> Some (Err e, s)
         | (Panic, s) \<Rightarrow> Some (Panic, s))
   | (r, s) \<Rightarrow> Some (r, s))"

definition win_async_send :: "('s, 'x) wintun_scheme \<Rightarrow> ('s \<Rightarrow> bool) \<Rightarrow> TunDevice \<Rightarrow> byte list \<Rightarrow> 's \<Rightarrow> (nat res \<times> 's) option" where
  "win_async_send W load t buf s = (case wtun_try_send W t buf s of
     (Err e, s) \<Rightarrow>
       if \<not> win_would_block e then Some (Err e, s)
       else (case new_cancelable W s of
           (Ok c, s) \<Rightarrow> map_option (\<lambda>(r, s). (r, canceller_drop W c s)) (guarded W c (\<lambda>cancel. wtun_send_interruptible W load t buf cancel) s)
         | (Err e, s) \<Rightarrow> Some (Err e, s)
         | (Panic, s) \<Rightarrow> Some (Panic, s))
   | (r, s) \<Rightarrow> Some (r, s))"

definition win_async_try_recv :: "('s, 'x) wintun_scheme \<Rightarrow> TunDevice \<Rightarrow> byte list \<Rightarrow> ('s, nat \<times> byte list) io" where
  "win_async_try_recv W t = wtun_try_recv W t"

definition win_async_try_send :: "('s, 'x) wintun_scheme \<Rightarrow> TunDevice \<Rightarrow> byte list \<Rightarrow> ('s, nat) io" where
  "win_async_try_send W t = wtun_try_send W t"

definition win_async_drop :: "('s, 'x) wintun_scheme \<Rightarrow> TunDevice \<Rightarrow> 's \<Rightarrow> TunDevice \<times> 's" where
  "win_async_drop W t s = snd (wtun_shutdown W t s)"

section \<open>Properties\<close>

lemma create_event_held:
  assumes W: "wintun_accounts W held" and c: "create_event W s = (r, s')"
  shows "(\<exists>h. r = Ok h \<and> WEvent h \<notin> held s \<and> held s' = insert (WEvent h) (held s)) \<or> (\<exists>e. r = Err e) \<and> held s' = held s"
proof -
  obtain h s1 where h: "wi_CreateEvent W True False s = (h, s1)" by force
  show ?thesis
  proof (cases "h = 0")
    case True
    then show ?thesis using c h win_acquire(2) [OF W, where s = s and s' = s1] by (auto simp: create_event_def win_last_os_error_def)
  next
    case False
    then show ?thesis using c h win_acquire(1) [OF W h False] by (auto simp: create_event_def)
  qed
qed

lemma new_cancelable_held:
  assumes W: "wintun_accounts W held" and c: "new_cancelable W s = (r, s')"
  shows "(\<exists>c. r = Ok c \<and> held (canceller_drop W c s') = held s \<and> WEvent (ca_exit c) \<notin> held s \<and> WEvent (ca_cancel c) \<notin> held s
      \<and> held s' = {WEvent (ca_exit c), WEvent (ca_cancel c)} \<union> held s) \<or> (\<exists>e. r = Err e) \<and> held s' = held s"
proof -
  obtain q s1 where q: "create_event W s = (q, s1)" by force
  obtain p s2 where p: "create_event W s1 = (p, s2)" by force
  from create_event_held [OF W q] show ?thesis
  proof (elim disjE exE conjE)
    fix x assume x: "q = Ok x" "WEvent x \<notin> held s" "held s1 = insert (WEvent x) (held s)"
    from create_event_held [OF W p] show ?thesis
    proof (elim disjE exE conjE)
      fix y assume y: "p = Ok y" "WEvent y \<notin> held s1" "held s2 = insert (WEvent y) (held s1)"
      then have "r = Ok \<lparr>ca_exit = x, ca_cancel = y\<rparr>" "s' = s2"
        using c q p x by (simp_all add: new_cancelable_def interrupt_new_def io_map_def io_simps)
      then show ?thesis using x y by (auto simp: canceller_drop_def win_release [OF W])
    next
      fix e assume e: "p = Err e" "held s2 = held s1"
      then have "r = Err e" "s' = wi_CloseHandle W x s2"
        using c q p x by (simp_all add: new_cancelable_def interrupt_new_def io_map_def io_unless_def io_simps)
      then show ?thesis using x e by (auto simp: win_release [OF W])
    qed
  next
    fix e assume e: "q = Err e" "held s1 = held s"
    then show ?thesis using c q by (auto simp: new_cancelable_def io_simps)
  qed
qed

lemma guard_drops_held:
  assumes W: "wintun_accounts W held"
  shows "held (exit_signal_guard_drop W c s) = held s" "held (cancel_wait_guard_drop W c s) = held s"
  using wait_held(3,4) [OF W] by (simp_all add: exit_signal_guard_drop_def cancel_wait_guard_drop_def interrupt_trigger_def io_preserves_def)

lemma canceller_drop_held:
  "wintun_accounts W held \<Longrightarrow> held s' = held s1 \<Longrightarrow> held (canceller_drop W c s1) = b \<Longrightarrow> held (canceller_drop W c s') = b"
  by (simp add: canceller_drop_def win_release)

lemma readable_held:
  assumes W: "wintun_accounts W held" shows "held (snd (win_readable W t s)) = held s"
proof -
  obtain r s1 where r: "new_cancelable W s = (r, s1)" by force
  from new_cancelable_held [OF W r] show ?thesis
  proof (elim disjE exE conjE)
    fix c assume c: "r = Ok c" "held (canceller_drop W c s1) = held s"
    obtain q s2 where q: "wtun_wait_readable_interruptible W t (ca_cancel c) None s1 = (q, s2)" by force
    have s2: "held s2 = held s1"
      using packets_held(3) [OF W, of "td_adapter t" "ca_cancel c" None s1] q by (simp add: wtun_wait_readable_interruptible_def)
    show ?thesis
      using r c q s2 guard_drops_held [OF W] canceller_drop_held [OF W _ c(2)]
      by (cases q) (simp_all add: win_readable_def io_simps io_scope_def guarded_def)
  next
    fix e assume "r = Err e" "held s1 = held s"
    then show ?thesis using r by (simp add: win_readable_def io_simps)
  qed
qed

lemma async_recv_held:
  assumes "wintun_accounts W held" "win_async_recv W t buf s = Some q"
  shows "held (snd q) = held s"
proof -
  have "wintun_accounts W held \<longrightarrow> held (snd q) = held s"
  proof (induction rule: win_async_recv.raw_induct [OF _ assms(2)])
    case (1 self W t buf s q)
    show ?case
    proof
      assume W: "wintun_accounts W held"
      obtain r s1 where r: "wtun_try_recv W t buf s = (r, s1)" by force
      obtain w s2 where w: "win_readable W t s1 = (w, s2)" by force
      have "held s1 = held s" "held s2 = held s1"
        using packets_held(2) [OF W, of "td_adapter t" buf s] readable_held [OF W, of t s1] r w by (simp_all add: wtun_try_recv_def)
      note h = this
      show "held (snd q) = held s"
      proof (cases "\<exists>e. r = Err e \<and> win_would_block e")
        case True
        then show ?thesis using 1 r w W h by (cases w; cases q) auto
      next
        case False
        then have "q = (r, s1)" using 1(2) r by (cases r) simp_all
        then show ?thesis using h by simp
      qed
    qed
  qed
  then show ?thesis using assms(1) by blast
qed

lemma async_send_held:
  assumes W: "wintun_accounts W held" and q: "win_async_send W load t buf s = Some q"
  shows "held (snd q) = held s"
proof -
  obtain r s1 where r: "wtun_try_send W t buf s = (r, s1)" by force
  have s1: "held s1 = held s" using packets_held(1) [OF W, of "td_adapter t" buf s] r by (simp add: wtun_try_send_def)
  show ?thesis
  proof (cases "\<exists>e. r = Err e \<and> win_would_block e")
    case True
    then obtain e where e: "r = Err e" "win_would_block e" by blast
    obtain n s2 where n: "new_cancelable W s1 = (n, s2)" by force
    from new_cancelable_held [OF W n] show ?thesis
    proof (elim disjE exE conjE)
      fix c assume c: "n = Ok c" "held (canceller_drop W c s2) = held s1"
      have g: "map_option (\<lambda>(r, s). (r, canceller_drop W c s))
          (guarded W c (\<lambda>cancel. wtun_send_interruptible W load t buf cancel) s2) = Some q"
        using q r e n c(1) by (simp add: win_async_send_def)
      then obtain a s3 where p: "adapter_send W load (td_adapter t) buf (Some (ca_cancel c)) s2 = Some (a, s3)"
          "q = (a, canceller_drop W c (exit_signal_guard_drop W c s3))"
        by (auto simp: guarded_def wtun_send_interruptible_def)
      have "held (exit_signal_guard_drop W c s3) = held s2" using packets_held(4) [OF W p(1)] guard_drops_held [OF W] by simp
      then show ?thesis using canceller_drop_held [OF W _ c(2)] p(2) s1 by simp
    next
      fix x assume "n = Err x" "held s2 = held s1"
      then show ?thesis using q r e n s1 by (auto simp: win_async_send_def)
    qed
  next
    case False
    then have "q = (r, s1)" using q r by (cases r) (simp_all add: win_async_send_def)
    then show ?thesis using s1 by simp
  qed
qed

text \<open>
  The async operations leave nothing behind: waiting for readiness, receiving and sending, to whatever end,
  close both events they make and give every packet back.
\<close>

theorem win_async_account:
  assumes "wintun_accounts W held"
  shows "held (snd (win_readable W t s)) = held s
    \<and> (\<forall>q. win_async_recv W t buf s = Some q \<longrightarrow> held (snd q) = held s)
    \<and> (\<forall>q. win_async_send W load t buf s = Some q \<longrightarrow> held (snd q) = held s)"
  using readable_held [OF assms] async_recv_held [OF assms] async_send_held [OF assms] by blast

text \<open>
  What is relied on of the executor for one operation: the task \<open>k\<close> is \<open>pending\<close> from \<open>unblock\<close> until a poll answers with the
  operation's result; meanwhile nothing else happens to what \<open>out\<close> looks at.
\<close>

definition runs_op :: "('s, 'a) executor \<Rightarrow> ('s \<Rightarrow> ('a res \<times> 's) option) \<Rightarrow> ('s \<Rightarrow> nat \<Rightarrow> bool) \<Rightarrow> ('s \<Rightarrow> 'v) \<Rightarrow> bool" where
  "runs_op E f pending out \<longleftrightarrow>
     (\<forall>s. let (k, s') = ex_unblock E f s in pending s' k \<and> out s' = out s)
   \<and> (\<forall>k s. pending s k \<longrightarrow> (case ex_poll E k s of
         (Pending, s') \<Rightarrow> pending s' k \<and> out s' = out s
       | (Ready r, s') \<Rightarrow> \<exists>s1 s2. out s1 = out s \<and> f s1 = Some (r, s2) \<and> out s' = out s2))"

text \<open>Polling a send again until it is ready.\<close>

fun send_polls :: "('s, nat) executor \<Rightarrow> ('s, 'x) wintun_scheme \<Rightarrow> ('s \<Rightarrow> bool) \<Rightarrow> TunDevice \<Rightarrow> byte list \<Rightarrow> nat \<Rightarrow> nat option
    \<Rightarrow> 's \<Rightarrow> nat res poll \<times> nat option \<times> 's" where
  "send_polls E W load t src 0 slot s = (Pending, slot, s)"
| "send_polls E W load t src (Suc n) slot s = (case win_poll_send E W load t slot src s of
      (Ready r, slot, s) \<Rightarrow> (Ready r, slot, s)
    | (Pending, slot, s) \<Rightarrow> send_polls E W load t src n slot s)"

definition sent_once :: "('s \<Rightarrow> byte list list) \<Rightarrow> ('s \<Rightarrow> nat \<Rightarrow> bool) \<Rightarrow> byte list \<Rightarrow> 's \<Rightarrow> nat res poll \<times> nat option \<times> 's \<Rightarrow> bool" where
  "sent_once out pending src s q \<longleftrightarrow> (case q of
     (Ready r, slot, s') \<Rightarrow> slot = None \<and> wrote out src s (r, s')
   | (Pending, slot, s') \<Rightarrow> (\<exists>k. slot = Some k \<and> pending s' k) \<and> out s' = out s)"

lemma wrote_cong: "out s1 = out s \<Longrightarrow> out s2' = out s2 \<Longrightarrow> wrote out b s1 (r, s2) \<longleftrightarrow> wrote out b s (r, s2')"
  by (cases r) (simp_all add: wrote_def)

lemma poll_task_once:
  assumes R: "ring_documented W inn out" "runs_op E (wtun_send W load t src) pending out" and k: "pending s k"
  shows "sent_once out pending src s (poll_task E (\<lambda>r. r) k s)"
proof -
  obtain p s' where p: "ex_poll E k s = (p, s')" by force
  note law = R(2) [unfolded runs_op_def, THEN conjunct2, rule_format, OF k, unfolded p]
  show ?thesis
  proof (cases p)
    case (Ready r)
    then obtain s1 s2 where o: "out s1 = out s" "wtun_send W load t src s1 = Some (r, s2)" "out s' = out s2" using law by auto
    have "wrote out src s1 (r, s2)" using adapter_send_wrote(1) [OF R(1)] o(2) by (simp add: wtun_send_def)
    then show ?thesis using p Ready wrote_cong [of out, OF o(1,3)] by (simp add: poll_task_def sent_once_def)
  qed (use law p in \<open>simp add: poll_task_def sent_once_def\<close>)
qed

lemma poll_send_once:
  assumes R: "ring_documented W inn out" "runs_op E (wtun_send W load t src) pending out"
  shows "(\<forall>k. slot = Some k \<longrightarrow> pending s k) \<Longrightarrow> sent_once out pending src s (win_poll_send E W load t slot src s)"
proof (cases slot)
  case None
  obtain r s1 where r: "wtun_try_send W t src s = (r, s1)" by force
  have w: "wrote out src s (r, s1)"
  proof (cases "wa_session (td_adapter t)")
    case (Some ses)
    then have "session_try_send W ses src s = (r, s1)" using r by (simp add: wtun_try_send_def adapter_try_send_def)
    then show ?thesis using try_send_ring [OF R(1), of src s ses] by simp
  qed (use r in \<open>auto simp: wtun_try_send_def adapter_try_send_def io_fail_def wrote_def\<close>)
  obtain k s2 where k: "ex_unblock E (wtun_send W load t src) s1 = (k, s2)" by force
  have k2: "pending s2 k" "out s2 = out s1" using R(2) [unfolded runs_op_def, THEN conjunct1, rule_format, of s1] k by simp_all
  show ?thesis
  proof (cases "\<exists>e. r = Err e \<and> win_would_block e")
    case True
    then have "out s1 = out s" using w by (auto simp: wrote_def)
    moreover have "win_poll_send E W load t slot src s = poll_task E (\<lambda>r. r) k s2"
      using None r True k by (auto simp: win_poll_send_def)
    ultimately show ?thesis using poll_task_once [OF R k2(1)] k2(2)
      by (simp add: sent_once_def wrote_def split: prod.splits poll.splits res.splits)
  next
    case False
    then have "win_poll_send E W load t slot src s = (Ready r, None, s1)"
      using None r by (cases r) (auto simp: win_poll_send_def)
    then show ?thesis using w by (simp add: sent_once_def)
  qed
qed (use poll_task_once [OF R] in \<open>simp add: win_poll_send_def\<close>)

lemma send_polls_once:
  assumes R: "ring_documented W inn out" "runs_op E (wtun_send W load t src) pending out"
  shows "(\<forall>k. slot = Some k \<longrightarrow> pending s k) \<Longrightarrow>
    case send_polls E W load t src n slot s of (Ready r, slot', s') \<Rightarrow> slot' = None \<and> wrote out src s (r, s') | (Pending, slot', s') \<Rightarrow> out s' = out s"
proof (induction n arbitrary: slot s)
  case (Suc n)
  obtain p slot1 s1 where q: "win_poll_send E W load t slot src s = (p, slot1, s1)" by (metis surj_pair)
  have o: "sent_once out pending src s (p, slot1, s1)" using poll_send_once [OF R Suc.prems] q by simp
  show ?case
  proof (cases p)
    case Pending
    then have p1: "\<forall>k. slot1 = Some k \<longrightarrow> pending s1 k" "out s1 = out s" using o by (auto simp: sent_once_def)
    then show ?thesis using Suc.IH [OF p1(1)] q Pending by (simp add: wrote_def split: prod.splits poll.splits res.splits)
  qed (use q o in \<open>simp add: sent_once_def\<close>)
qed simp

text \<open>
  Polling a send until it is ready writes its packet once: however often the polls are pending, the packet is
  written whole when the outcome is \<open>Ok\<close> and not at all when it is an error or still pending, and a completed poll
  leaves no task behind.
\<close>

theorem win_poll_send_once:
  assumes "ring_documented W inn out" "runs_op E (wtun_send W load t src) pending out"
  shows "case send_polls E W load t src n None s of
      (Ready (Ok len), slot, s') \<Rightarrow> slot = None \<and> len = length src \<and> out s' = out s @ [src]
    | (_, slot, s') \<Rightarrow> out s' = out s"
proof -
  have "\<forall>k. None = Some k \<longrightarrow> pending s k" by simp
  from send_polls_once [OF assms this, of n] show ?thesis by (auto simp: wrote_def split: prod.splits poll.splits res.splits)
qed

text \<open>While a send is under way, a poll with another packet reports the first one's outcome and drops its own.\<close>

theorem win_poll_send_ignores_packet: "win_poll_send E W load t (Some k) src s = win_poll_send E W load t (Some k) src' s"
  by (simp add: win_poll_send_def)

text \<open>An executor that runs its one operation when it is polled, from the second poll on.\<close>

definition lazy_executor :: "(wdemo \<Rightarrow> (nat res \<times> wdemo) option) \<Rightarrow> (wdemo, nat) executor" where
  "lazy_executor f = \<lparr>ex_unblock = (\<lambda>_ s. (0, s)),
     ex_poll = (\<lambda>_ s. if dm_clock s = 0 then (Pending, s\<lparr>dm_clock := 1, dm_room := 1\<rparr>)
       else (case f s of Some (r, s') \<Rightarrow> (Ready r, s') | None \<Rightarrow> (Pending, s)))\<rparr>"

lemma lazy_runs: "runs_op (lazy_executor f) f (\<lambda>_ _. True) dm_out"
  by (auto simp: runs_op_def lazy_executor_def split: option.splits)

definition demo_tun :: TunDevice where
  "demo_tun = \<lparr>td_index = 3, td_luid = 7,
     td_adapter = (adapter_new 2 1 0x20000 False)\<lparr>wa_session := Some \<lparr>ws_handle = 3, ws_read_event = 4\<rparr>\<rparr>\<rparr>"

lemma demo_polls: "fst (send_polls (lazy_executor (wtun_send win_demo (\<lambda>_. True) demo_tun [5, 6])) win_demo (\<lambda>_. True) demo_tun [5, 6]
    2 None (dm_start\<lparr>dm_room := 0\<rparr>)) = Ready (Ok 2)"
  apply (simp add: numeral_2_eq_2 win_poll_send_def demo_tun_def lazy_executor_def wtun_try_send_def adapter_try_send_def
      session_try_send_def poll_task_def win_demo_simps dm_allocate_def dm_start_def ERROR_BUFFER_OVERFLOW_def ERROR_HANDLE_EOF_def
      win_would_block_def wtun_send_def adapter_send_def with_session_def session_send_def)
  apply (subst send_loop.simps)
  apply (simp add: session_try_send_def win_demo_simps dm_allocate_def dm_new_def fresh_id_def)
  done

theorem win_poll_send_once_witness:
  "\<exists>slot s'. send_polls (lazy_executor (wtun_send win_demo (\<lambda>_. True) demo_tun [5, 6])) win_demo (\<lambda>_. True) demo_tun [5, 6]
    2 None (dm_start\<lparr>dm_room := 0\<rparr>) = (Ready (Ok 2), slot, s') \<and> slot = None \<and> dm_out s' = [[5, 6]]"
proof -
  obtain slot s' where q: "send_polls (lazy_executor (wtun_send win_demo (\<lambda>_. True) demo_tun [5, 6])) win_demo (\<lambda>_. True) demo_tun [5, 6]
    2 None (dm_start\<lparr>dm_room := 0\<rparr>) = (Ready (Ok 2), slot, s')"
    using demo_polls by (metis prod.collapse)
  have "dm_out (dm_start\<lparr>dm_room := 0\<rparr>) = []" by (simp add: dm_start_def)
  then show ?thesis
    using win_poll_send_once [OF win_demo_ring lazy_runs, where load = "\<lambda>_. True" and t = demo_tun and src = "[5, 6]" and n = 2
        and s = "dm_start\<lparr>dm_room := 0\<rparr>"] q by simp
qed

theorem win_async_account_witness:
  "set (dm_held (snd (win_readable win_demo demo_tun dm_start))) = {}"
proof -
  have "dm_held dm_start = []" by (simp add: dm_start_def)
  then show ?thesis using win_async_account [OF win_demo_accounts, where t = demo_tun and s = dm_start] by simp
qed

end
