(* ===== verification/WinDisable.thy ===== *)
theory WinDisable
  imports Base
begin

text \<open>
  Disabling a wintun adapter while other threads receive and send on it (\<open>src/platform/windows/tun/mod.rs\<close>).  Each
  thread makes a list of calls; a call is cut into the steps another thread may come between: taking and giving
  back the lock of the session and the mutex of the state, the flag, the event, one attempt on the ring, a wait.
  The step relation is the rules of \<open>tstep\<close>, one for each of these steps of the code.
\<close>

section \<open>Threads\<close>

datatype thread_call = CallRecv | CallSend | CallDisable | CallEnable

datatype pc = Idle
  | RecvLock | RecvTry nat | RecvWait
  | SendLock | SendTry | SendCheck
  | DisMutex | DisCheck | DisSet | DisLock | DisTake | DisReset
  | EnMutex | EnCheck | EnStart | EnFlag

text \<open>
  The flag and the mutex of \<open>State\<close>, the event, whether there is a session, the writer of its lock, the packets
  to be read and the room for packets to be sent.
\<close>

record wsys =
  w_flag :: bool
  w_event :: bool
  w_session :: bool
  w_mutex :: "nat option"
  w_writer :: "nat option"
  w_pkts :: nat
  w_room :: nat
  w_threads :: "(pc \<times> thread_call list) list"

fun first_pc :: "thread_call \<Rightarrow> pc" where
  "first_pc CallRecv = RecvLock"
| "first_pc CallSend = SendLock"
| "first_pc CallDisable = DisMutex"
| "first_pc CallEnable = EnMutex"

definition at_pc :: "wsys \<Rightarrow> nat \<Rightarrow> pc \<Rightarrow> thread_call list \<Rightarrow> bool" where
  "at_pc s i p cs \<longleftrightarrow> i < length (w_threads s) \<and> w_threads s ! i = (p, cs)"

definition go :: "nat \<Rightarrow> pc \<Rightarrow> thread_call list \<Rightarrow> wsys \<Rightarrow> wsys" where
  "go i p cs s = s\<lparr>w_threads := (w_threads s)[i := (p, cs)]\<rparr>"

text \<open>Who holds the session's lock for reading.\<close>

fun reading :: "pc \<Rightarrow> bool" where
  "reading (RecvTry k) = True"
| "reading RecvWait = True"
| "reading SendTry = True"
| "reading SendCheck = True"
| "reading _ = False"

definition lock_free :: "wsys \<Rightarrow> bool" where
  "lock_free s \<longleftrightarrow> w_writer s = None \<and> (\<forall>q \<in> set (w_threads s). \<not> reading (fst q))"

section \<open>Steps\<close>

inductive tstep :: "nat \<Rightarrow> wsys \<Rightarrow> wsys \<Rightarrow> bool" where
  begin_call: "at_pc s i Idle (c # cs) \<Longrightarrow> tstep i s (go i (first_pc c) cs s)"
| recv_lock: "at_pc s i RecvLock cs \<Longrightarrow> w_writer s = None \<Longrightarrow> tstep i s (go i (if w_session s then RecvTry 0 else Idle) cs s)"
| recv_packet: "at_pc s i (RecvTry k) cs \<Longrightarrow> w_pkts s = Suc n \<Longrightarrow> tstep i s (go i Idle cs (s\<lparr>w_pkts := n\<rparr>))"
| recv_failed: "at_pc s i (RecvTry k) cs \<Longrightarrow> tstep i s (go i Idle cs s)"
| recv_empty: "at_pc s i (RecvTry k) cs \<Longrightarrow> w_pkts s = 0 \<Longrightarrow> tstep i s (go i (if k < 15 then RecvTry (Suc k) else RecvWait) cs s)"
| wait_ready: "at_pc s i RecvWait cs \<Longrightarrow> w_pkts s > 0 \<Longrightarrow> tstep i s (go i (RecvTry 0) cs s)"
| wait_disabled: "at_pc s i RecvWait cs \<Longrightarrow> w_pkts s = 0 \<Longrightarrow> w_event s \<Longrightarrow> tstep i s (go i Idle cs s)"
| wait_failed: "at_pc s i RecvWait cs \<Longrightarrow> tstep i s (go i Idle cs s)"
| send_lock: "at_pc s i SendLock cs \<Longrightarrow> w_writer s = None \<Longrightarrow> tstep i s (go i (if w_session s then SendTry else Idle) cs s)"
| send_packet: "at_pc s i SendTry cs \<Longrightarrow> w_room s = Suc n \<Longrightarrow> tstep i s (go i Idle cs (s\<lparr>w_room := n\<rparr>))"
| send_failed: "at_pc s i SendTry cs \<Longrightarrow> tstep i s (go i Idle cs s)"
| send_full: "at_pc s i SendTry cs \<Longrightarrow> w_room s = 0 \<Longrightarrow> tstep i s (go i SendCheck cs s)"
| send_disabled: "at_pc s i SendCheck cs \<Longrightarrow> \<not> w_flag s \<Longrightarrow> tstep i s (go i Idle cs s)"
| send_over: "at_pc s i SendCheck cs \<Longrightarrow> w_flag s \<Longrightarrow> tstep i s (go i Idle cs s)"
| send_again: "at_pc s i SendCheck cs \<Longrightarrow> w_flag s \<Longrightarrow> tstep i s (go i SendTry cs s)"
| dis_mutex: "at_pc s i DisMutex cs \<Longrightarrow> w_mutex s = None \<Longrightarrow> tstep i s (go i DisCheck cs (s\<lparr>w_mutex := Some i\<rparr>))"
| dis_noop: "at_pc s i DisCheck cs \<Longrightarrow> \<not> w_flag s \<Longrightarrow> tstep i s (go i Idle cs (s\<lparr>w_mutex := None\<rparr>))"
| dis_flag: "at_pc s i DisCheck cs \<Longrightarrow> w_flag s \<Longrightarrow> tstep i s (go i DisSet cs (s\<lparr>w_flag := False\<rparr>))"
| dis_set: "at_pc s i DisSet cs \<Longrightarrow> tstep i s (go i DisLock cs (s\<lparr>w_event := True\<rparr>))"
| dis_set_failed: "at_pc s i DisSet cs \<Longrightarrow> tstep i s (go i Idle cs (s\<lparr>w_flag := True, w_mutex := None\<rparr>))"
| dis_lock: "at_pc s i DisLock cs \<Longrightarrow> lock_free s \<Longrightarrow> tstep i s (go i DisTake cs (s\<lparr>w_writer := Some i\<rparr>))"
| dis_take: "at_pc s i DisTake cs \<Longrightarrow> tstep i s (go i DisReset cs (s\<lparr>w_session := False, w_writer := None\<rparr>))"
| dis_reset: "at_pc s i DisReset cs \<Longrightarrow> tstep i s (go i Idle cs (s\<lparr>w_event := e, w_mutex := None\<rparr>))"
| en_mutex: "at_pc s i EnMutex cs \<Longrightarrow> w_mutex s = None \<Longrightarrow> tstep i s (go i EnCheck cs (s\<lparr>w_mutex := Some i\<rparr>))"
| en_noop: "at_pc s i EnCheck cs \<Longrightarrow> w_flag s \<Longrightarrow> tstep i s (go i Idle cs (s\<lparr>w_mutex := None\<rparr>))"
| en_lock: "at_pc s i EnCheck cs \<Longrightarrow> \<not> w_flag s \<Longrightarrow> lock_free s \<Longrightarrow> tstep i s (go i EnStart cs (s\<lparr>w_writer := Some i\<rparr>))"
| en_start: "at_pc s i EnStart cs \<Longrightarrow> tstep i s (go i EnFlag cs (s\<lparr>w_session := True, w_pkts := n, w_room := m\<rparr>))"
| en_failed: "at_pc s i EnStart cs \<Longrightarrow> tstep i s (go i Idle cs (s\<lparr>w_writer := None, w_mutex := None\<rparr>))"
| en_flag: "at_pc s i EnFlag cs \<Longrightarrow> tstep i s (go i Idle cs (s\<lparr>w_flag := True, w_writer := None, w_mutex := None\<rparr>))"

text \<open>What the other side of the ring does: packets arrive, and make room.\<close>

inductive env_step :: "wsys \<Rightarrow> wsys \<Rightarrow> bool" where
  arrive: "env_step s (s\<lparr>w_pkts := Suc (w_pkts s)\<rparr>)"
| drain: "env_step s (s\<lparr>w_room := Suc (w_room s)\<rparr>)"

definition initial :: "wsys \<Rightarrow> bool" where
  "initial s \<longleftrightarrow> w_flag s = w_session s \<and> w_mutex s = None \<and> w_writer s = None \<and> (\<forall>q \<in> set (w_threads s). fst q = Idle)"

inductive reachable :: "wsys \<Rightarrow> bool" where
  reach_initial: "initial s \<Longrightarrow> reachable s"
| reach_step: "reachable s \<Longrightarrow> tstep i s t \<Longrightarrow> reachable t"
| reach_env: "reachable s \<Longrightarrow> env_step s t \<Longrightarrow> reachable t"

inductive_cases tstepE: "tstep i s t"
inductive_cases env_stepE: "env_step s t"

section \<open>The invariant\<close>

fun owns_mutex :: "pc \<Rightarrow> bool" where
  "owns_mutex DisCheck = True" | "owns_mutex DisSet = True" | "owns_mutex DisLock = True" | "owns_mutex DisTake = True"
| "owns_mutex DisReset = True" | "owns_mutex EnCheck = True" | "owns_mutex EnStart = True" | "owns_mutex EnFlag = True"
| "owns_mutex _ = False"

fun writing :: "pc \<Rightarrow> bool" where
  "writing DisTake = True" | "writing EnStart = True" | "writing EnFlag = True" | "writing _ = False"

fun phase_ok :: "pc \<Rightarrow> wsys \<Rightarrow> bool" where
  "phase_ok DisCheck s = (w_flag s = w_session s)"
| "phase_ok EnCheck s = (w_flag s = w_session s)"
| "phase_ok DisSet s = (\<not> w_flag s \<and> w_session s)"
| "phase_ok DisLock s = (\<not> w_flag s \<and> w_session s \<and> w_event s)"
| "phase_ok DisTake s = (\<not> w_flag s \<and> w_session s \<and> w_event s)"
| "phase_ok DisReset s = (\<not> w_flag s \<and> \<not> w_session s)"
| "phase_ok EnStart s = (\<not> w_flag s \<and> \<not> w_session s)"
| "phase_ok EnFlag s = (\<not> w_flag s \<and> w_session s)"
| "phase_ok _ s = True"

definition thread_ok :: "wsys \<Rightarrow> nat \<Rightarrow> pc \<Rightarrow> bool" where
  "thread_ok s i p \<longleftrightarrow> (owns_mutex p \<longleftrightarrow> w_mutex s = Some i) \<and> (writing p \<longleftrightarrow> w_writer s = Some i)
     \<and> (reading p \<longrightarrow> w_session s \<and> w_writer s = None) \<and> phase_ok p s"

definition winv :: "wsys \<Rightarrow> bool" where
  "winv s \<longleftrightarrow> (\<forall>i < length (w_threads s). thread_ok s i (fst (w_threads s ! i)))
     \<and> (w_mutex s = None \<longrightarrow> w_flag s = w_session s)
     \<and> (\<forall>i. w_mutex s = Some i \<or> w_writer s = Some i \<longrightarrow> i < length (w_threads s))"

lemma phase_free: "\<not> owns_mutex p \<Longrightarrow> phase_ok p s"
  by (cases p) simp_all

lemma writing_owns: "writing p \<Longrightarrow> owns_mutex p"
  by (cases p) simp_all

lemma go_simps [simp]:
  "w_flag (go i p cs s) = w_flag s" "w_event (go i p cs s) = w_event s" "w_session (go i p cs s) = w_session s"
  "w_mutex (go i p cs s) = w_mutex s" "w_writer (go i p cs s) = w_writer s" "w_pkts (go i p cs s) = w_pkts s"
  "w_room (go i p cs s) = w_room s" "w_threads (go i p cs s) = (w_threads s)[i := (p, cs)]"
  by (simp_all add: go_def)

lemma phase_cong: "w_flag t = w_flag s \<Longrightarrow> w_event t = w_event s \<Longrightarrow> w_session t = w_session s \<Longrightarrow> phase_ok p t = phase_ok p s"
  by (cases p) simp_all

lemma thread_ok_cong: "w_flag t = w_flag s \<Longrightarrow> w_event t = w_event s \<Longrightarrow> w_session t = w_session s \<Longrightarrow> w_mutex t = w_mutex s
    \<Longrightarrow> w_writer t = w_writer s \<Longrightarrow> thread_ok t j p = thread_ok s j p"
  using phase_cong [of t s p] by (simp add: thread_ok_def)

text \<open>A step of one thread: its own part, that of the others, and the shared state.\<close>

lemma winv_go:
  assumes "winv s" "at_pc s i p cs" "w_threads s' = w_threads s"
    and own: "thread_ok s i p \<Longrightarrow> thread_ok s' i p'"
    and others: "\<And>j q. j \<noteq> i \<Longrightarrow> j < length (w_threads s) \<Longrightarrow> fst (w_threads s ! j) = q \<Longrightarrow> thread_ok s i p \<Longrightarrow> thread_ok s j q \<Longrightarrow> thread_ok s' j q"
    and shared: "thread_ok s i p \<Longrightarrow> w_mutex s' = None \<longrightarrow> w_flag s' = w_session s'"
    and owners: "\<And>j. thread_ok s i p \<Longrightarrow> w_mutex s' = Some j \<or> w_writer s' = Some j \<Longrightarrow> j = i \<or> w_mutex s = Some j \<or> w_writer s = Some j"
  shows "winv (go i p' cs' s')"
proof -
  have i: "i < length (w_threads s)" "w_threads s ! i = (p, cs)" using assms(2) by (auto simp: at_pc_def)
  have t: "thread_ok s j (fst (w_threads s ! j))" if "j < length (w_threads s)" for j using assms(1) that by (simp add: winv_def)
  have ti: "thread_ok s i p" using t [OF i(1)] i(2) by simp
  have g: "thread_ok (go i p' cs' s') j q = thread_ok s' j q" for j q by (rule thread_ok_cong) simp_all
  have "thread_ok (go i p' cs' s') j (fst (w_threads (go i p' cs' s') ! j))" if j: "j < length (w_threads s)" for j
  proof (cases "j = i")
    case True
    then show ?thesis using own [OF ti] i g assms(3) by simp
  next
    case False
    then show ?thesis using others [OF False j refl ti t [OF j]] g assms(3) by simp
  qed
  moreover have "j < length (w_threads s)" if "w_mutex s' = Some j \<or> w_writer s' = Some j" for j
    using owners [OF ti that] assms(1) i(1) by (auto simp: winv_def)
  ultimately show ?thesis using shared [OF ti] assms(3) by (simp add: winv_def)
qed

lemma other_thread:
  assumes "thread_ok s i p" "thread_ok s j q" "j \<noteq> i" "owns_mutex p"
  shows "\<not> owns_mutex q" "\<not> writing q" "phase_ok q s'"
  using assms writing_owns [of q] phase_free [of q] by (auto simp: thread_ok_def)

text \<open>A step that leaves the flag, the event, the session, the mutex and the lock as they are.\<close>

lemma winv_local:
  assumes "winv s" "at_pc s i p cs" "thread_ok s i p \<Longrightarrow> thread_ok s i p'"
    and "w_flag s' = w_flag s" "w_event s' = w_event s" "w_session s' = w_session s" "w_mutex s' = w_mutex s"
      "w_writer s' = w_writer s" "w_threads s' = w_threads s"
  shows "winv (go i p' cs' s')"
proof (rule winv_go [OF assms(1,2,9)])
  show "thread_ok s i p \<Longrightarrow> thread_ok s' i p'" using assms(3) thread_ok_cong [OF assms(4-8)] by simp
  show "thread_ok s j q \<Longrightarrow> thread_ok s' j q" for j q using thread_ok_cong [OF assms(4-8)] by simp
qed (use assms in \<open>auto simp: winv_def\<close>)

text \<open>A step of the thread that holds the mutex.\<close>

lemma winv_owner:
  assumes "winv s" "at_pc s i p cs" "owns_mutex p" "w_threads s' = w_threads s"
    and "thread_ok s i p \<Longrightarrow> thread_ok s' i p'"
    and "w_mutex s' = Some i \<or> w_mutex s' = None \<and> w_flag s' = w_session s'"
    and "w_writer s' = Some i \<or> w_writer s' = None"
    and "\<And>q. q \<in> set (w_threads s) \<Longrightarrow> reading (fst q) \<Longrightarrow> w_session s' \<and> w_writer s' = None"
  shows "winv (go i p' cs' s')"
proof (rule winv_go [OF assms(1,2,4,5)])
  fix j q
  assume j: "j \<noteq> i" "j < length (w_threads s)" "fst (w_threads s ! j) = q" "thread_ok s i p" "thread_ok s j q"
  note o = other_thread [OF j(4,5,1) assms(3)]
  have "reading q \<Longrightarrow> w_session s' \<and> w_writer s' = None" using assms(8) [of "w_threads s ! j"] j by simp
  then show "thread_ok s' j q" using o j(1) assms(6,7) by (auto simp: thread_ok_def)
qed (use assms(6,7) in auto)

lemma not_writer: "thread_ok s i p \<Longrightarrow> reading p \<Longrightarrow> w_session s \<and> w_writer s = None"
  by (simp add: thread_ok_def)

lemma readers_ok: "winv s \<Longrightarrow> q \<in> set (w_threads s) \<Longrightarrow> reading (fst q) \<Longrightarrow> w_session s \<and> w_writer s = None"
  by (auto simp: winv_def in_set_conv_nth thread_ok_def)

lemma winv_acquire:
  assumes "winv s" "at_pc s i p cs" "w_mutex s = None" "p = DisMutex \<and> p' = DisCheck \<or> p = EnMutex \<and> p' = EnCheck"
  shows "winv (go i p' cs (s\<lparr>w_mutex := Some i\<rparr>))"
proof -
  have f: "w_flag s = w_session s" using assms(1,3) by (simp add: winv_def)
  show ?thesis
  proof (rule winv_go [OF assms(1,2)])
    fix j q assume j: "j \<noteq> i" "thread_ok s j q"
    then have "\<not> owns_mutex q" using assms(3) by (simp add: thread_ok_def)
    then show "thread_ok (s\<lparr>w_mutex := Some i\<rparr>) j q" using j phase_free by (auto simp: thread_ok_def)
  qed (use assms(3,4) f in \<open>auto simp: thread_ok_def\<close>)
qed

lemma owner_writer:
  assumes "winv s" "at_pc s i p cs" "owns_mutex p"
  shows "w_mutex s = Some i" "w_writer s = Some i \<or> w_writer s = None" "phase_ok p s" "writing p \<longleftrightarrow> w_writer s = Some i"
proof -
  have n: "thread_ok s j (fst (w_threads s ! j))" if "j < length (w_threads s)" for j using assms(1) that by (simp add: winv_def)
  have i: "thread_ok s i p" "i < length (w_threads s)" using n [of i] assms(2) by (auto simp: at_pc_def)
  then show m: "w_mutex s = Some i" "phase_ok p s" "writing p \<longleftrightarrow> w_writer s = Some i" using assms(3) by (auto simp: thread_ok_def)
  show "w_writer s = Some i \<or> w_writer s = None"
  proof (cases "w_writer s")
    case (Some j)
    then have "j < length (w_threads s)" using assms(1) by (auto simp: winv_def)
    then have "w_mutex s = Some j" using n [of j] Some writing_owns by (auto simp: thread_ok_def)
    then show ?thesis using m Some by simp
  qed simp
qed

lemma winv_step: "winv s \<Longrightarrow> tstep i s t \<Longrightarrow> winv t"
proof (erule tstepE, goal_cases)
  case (1 c cs)
  then show ?case by (cases c) (auto intro!: winv_local simp: thread_ok_def)
next
  case (16 cs) then show ?case using winv_acquire by auto
next
  case (24 cs) then show ?case using winv_acquire by auto
next
  case (17 cs)
  then show ?case using owner_writer [of s i DisCheck cs] readers_ok [of s] by (auto intro!: winv_owner [of s i DisCheck cs] simp: thread_ok_def)
next
  case (18 cs)
  then show ?case using owner_writer [of s i DisCheck cs] readers_ok [of s] by (auto intro!: winv_owner [of s i DisCheck cs] simp: thread_ok_def)
next
  case (19 cs)
  then show ?case using owner_writer [of s i DisSet cs] readers_ok [of s] by (auto intro!: winv_owner [of s i DisSet cs] simp: thread_ok_def)
next
  case (20 cs)
  then show ?case using owner_writer [of s i DisSet cs] readers_ok [of s] by (auto intro!: winv_owner [of s i DisSet cs] simp: thread_ok_def)
next
  case (21 cs)
  then show ?case using owner_writer [of s i DisLock cs] by (auto intro!: winv_owner [of s i DisLock cs] simp: thread_ok_def lock_free_def)
next
  case (22 cs)
  then show ?case using owner_writer [of s i DisTake cs] readers_ok [of s] by (auto intro!: winv_owner [of s i DisTake cs] simp: thread_ok_def)
next
  case (23 cs e)
  then show ?case using owner_writer [of s i DisReset cs] readers_ok [of s] by (auto intro!: winv_owner [of s i DisReset cs] simp: thread_ok_def)
next
  case (25 cs)
  then show ?case using owner_writer [of s i EnCheck cs] readers_ok [of s] by (auto intro!: winv_owner [of s i EnCheck cs] simp: thread_ok_def)
next
  case (26 cs)
  then show ?case using owner_writer [of s i EnCheck cs] by (auto intro!: winv_owner [of s i EnCheck cs] simp: thread_ok_def lock_free_def)
next
  case (27 cs n m)
  then show ?case using owner_writer [of s i EnStart cs] readers_ok [of s] by (auto intro!: winv_owner [of s i EnStart cs] simp: thread_ok_def)
next
  case (28 cs)
  then show ?case using owner_writer [of s i EnStart cs] readers_ok [of s] by (auto intro!: winv_owner [of s i EnStart cs] simp: thread_ok_def)
next
  case (29 cs)
  then show ?case using owner_writer [of s i EnFlag cs] readers_ok [of s] by (auto intro!: winv_owner [of s i EnFlag cs] simp: thread_ok_def)
qed (auto intro!: winv_local simp: thread_ok_def)

lemma winv_env: "winv s \<Longrightarrow> env_step s t \<Longrightarrow> winv t"
  by (erule env_stepE) (auto simp: winv_def thread_ok_def phase_cong [of "s\<lparr>w_pkts := Suc (w_pkts s)\<rparr>" s]
      phase_cong [of "s\<lparr>w_room := Suc (w_room s)\<rparr>" s])

lemma winv_initial: "initial s \<Longrightarrow> winv s"
  by (auto simp: initial_def winv_def thread_ok_def)

lemma reachable_winv: "reachable s \<Longrightarrow> winv s"
  by (induction rule: reachable.induct) (auto intro: winv_initial winv_step winv_env)

text \<open>
  C27. While a thread uses the session, taking packets from it or waiting on its event, the session has not been
  ended and no other thread is in the step that ends or replaces it; and outside \<open>enable\<close> and \<open>disable\<close> the
  flag says whether there is a session.
\<close>

theorem session_in_use:
  assumes "reachable s"
  shows "(\<forall>i p cs. at_pc s i p cs \<and> reading p \<longrightarrow> w_session s \<and> (\<forall>j q ds. at_pc s j q ds \<longrightarrow> \<not> writing q))
    \<and> (w_mutex s = None \<longrightarrow> w_flag s = w_session s)"
proof -
  have v: "winv s" using reachable_winv [OF assms] .
  have t: "thread_ok s i p" if "at_pc s i p cs" for i p cs using v that by (auto simp: winv_def at_pc_def)
  have "w_session s \<and> \<not> writing q" if "at_pc s i p cs" "reading p" "at_pc s j q ds" for i p cs j q ds
    using t [OF that(1)] t [OF that(3)] that(2) by (auto simp: thread_ok_def)
  then show ?thesis using v by (auto simp: winv_def)
qed

section \<open>Disabling completes\<close>

text \<open>
  \<open>inevitably P\<close>: on every schedule, whatever arrives between the threads' steps, a state with \<open>P\<close> is reached,
  and until then some thread can make a step.
\<close>

definition move :: "wsys \<Rightarrow> wsys \<Rightarrow> bool" where
  "move s t \<longleftrightarrow> (\<exists>i u. env_step\<^sup>*\<^sup>* s u \<and> tstep i u t)"

inductive inevitably :: "(wsys \<Rightarrow> bool) \<Rightarrow> wsys \<Rightarrow> bool" for P where
  now: "P s \<Longrightarrow> inevitably P s"
| later: "\<exists>i t. tstep i s t \<Longrightarrow> (\<And>t. move s t \<Longrightarrow> inevitably P t) \<Longrightarrow> inevitably P s"

text \<open>A disabling thread that has cleared the flag.\<close>

fun disabling :: "pc \<Rightarrow> bool" where
  "disabling DisSet = True" | "disabling DisLock = True" | "disabling DisTake = True" | "disabling DisReset = True"
| "disabling _ = False"

text \<open>
  What is left to do: the calls, which a step never adds to; whether the ring is empty; where the calls
  under way stand, a waiting receiver being behind one that tries exactly when there are packets.
\<close>

fun pc_rank :: "bool \<Rightarrow> pc \<Rightarrow> nat" where
  "pc_rank full RecvLock = 18" | "pc_rank full (RecvTry k) = (if full then 1 else 2 + (15 - k))" | "pc_rank full RecvWait = (if full then 2 else 1)"
| "pc_rank full SendLock = 3" | "pc_rank full SendTry = 2" | "pc_rank full SendCheck = 1"
| "pc_rank full DisSet = 4" | "pc_rank full DisLock = 3" | "pc_rank full DisTake = 2" | "pc_rank full DisReset = 1"
| "pc_rank full _ = 0"

definition calls_left :: "wsys \<Rightarrow> nat" where
  "calls_left s = sum_list (map (\<lambda>(p, cs). (if p = Idle then 0 else 1) + 2 * length cs) (w_threads s))"

definition rank_left :: "wsys \<Rightarrow> nat" where
  "rank_left s = sum_list (map (\<lambda>(p, cs). pc_rank (w_pkts s > 0) p) (w_threads s))"

definition progress :: "(wsys \<times> wsys) set" where
  "progress = inv_image (less_than <*lex*> less_than <*lex*> less_than)
     (\<lambda>s. (calls_left s, if w_pkts s = 0 then 1 else 0 :: nat, rank_left s))"

lemma wf_progress: "wf progress"
  by (simp add: progress_def wf_lex_prod)

lemma progress_iff: "(t, s) \<in> progress \<longleftrightarrow> calls_left t < calls_left s \<or> calls_left t = calls_left s \<and>
    (w_pkts s = 0 \<and> 0 < w_pkts t \<or> (w_pkts s = 0) = (w_pkts t = 0) \<and> rank_left t < rank_left s)"
  by (auto simp: progress_def)

lemma sum_list_update_less:
  fixes f :: "'a \<Rightarrow> nat"
  shows "i < length xs \<Longrightarrow> f y < f (xs ! i) \<Longrightarrow> sum_list (map f (xs[i := y])) < sum_list (map f xs)"
    and "i < length xs \<Longrightarrow> f y = f (xs ! i) \<Longrightarrow> sum_list (map f (xs[i := y])) = sum_list (map f xs)"
  by (induction xs arbitrary: i; case_tac i; simp add: add_le_less_mono)+

text \<open>A call that ends, and a call that goes on.\<close>

lemma progress_done:
  assumes "at_pc s i p cs" "p \<noteq> Idle" "w_threads s' = w_threads s" shows "(go i Idle cs s', s) \<in> progress"
proof -
  have "calls_left (go i Idle cs s') < calls_left s"
    using assms sum_list_update_less(1) [of i "w_threads s" "\<lambda>(p, cs). (if p = Idle then 0 else 1) + 2 * length cs" "(Idle, cs)"]
    by (simp add: calls_left_def at_pc_def)
  then show ?thesis by (simp add: progress_iff)
qed

lemma progress_start:
  assumes "at_pc s i Idle (c # cs)" shows "(go i p cs s, s) \<in> progress"
proof -
  have "calls_left (go i p cs s) < calls_left s"
    using assms sum_list_update_less(1) [of i "w_threads s" "\<lambda>(p, cs). (if p = Idle then 0 else 1) + 2 * length cs" "(p, cs)"]
    by (simp add: calls_left_def at_pc_def)
  then show ?thesis by (simp add: progress_iff)
qed

lemma progress_next:
  assumes "at_pc s i p cs" "p \<noteq> Idle" "p' \<noteq> Idle" "w_threads s' = w_threads s" "w_pkts s' = w_pkts s"
    and "pc_rank (w_pkts s > 0) p' < pc_rank (w_pkts s > 0) p"
  shows "(go i p' cs s', s) \<in> progress"
proof -
  have "calls_left (go i p' cs s') = calls_left s"
    using assms sum_list_update_less(2) [of i "w_threads s" "\<lambda>(p, cs). (if p = Idle then 0 else 1) + 2 * length cs" "(p', cs)"]
    by (simp add: calls_left_def at_pc_def)
  moreover have "rank_left (go i p' cs s') < rank_left s"
    using assms sum_list_update_less(1) [of i "w_threads s" "\<lambda>(p, cs). pc_rank (w_pkts s > 0) p" "(p', cs)"]
    by (simp add: rank_left_def at_pc_def)
  ultimately show ?thesis using assms(5) by (simp add: progress_iff)
qed

lemma env_progress: "env_step\<^sup>*\<^sup>* s u \<Longrightarrow> (t, u) \<in> progress \<Longrightarrow> (t, s) \<in> progress"
proof (induction rule: converse_rtranclp_induct)
  case (step s v)
  have "(t, v) \<in> progress" using step by simp
  moreover have "v = s\<lparr>w_pkts := Suc (w_pkts s)\<rparr> \<or> v = s\<lparr>w_room := Suc (w_room s)\<rparr>" using step(1) by (auto elim: env_stepE)
  moreover have "calls_left (s\<lparr>w_pkts := n\<rparr>) = calls_left s" "calls_left (s\<lparr>w_room := n\<rparr>) = calls_left s"
      "rank_left (s\<lparr>w_room := n\<rparr>) = rank_left s" "0 < w_pkts s \<Longrightarrow> 0 < n \<Longrightarrow> rank_left (s\<lparr>w_pkts := n\<rparr>) = rank_left s" for n
    by (simp_all add: calls_left_def rank_left_def)
  ultimately show ?case by (cases "w_pkts s = 0") (auto simp: progress_iff)
qed

text \<open>While the flag is cleared and the mutex held, every step of a thread makes progress.\<close>

lemma step_progress:
  assumes v: "winv s" and d: "at_pc s d p ds" "disabling p" and t: "tstep i s t"
  shows "(t, s) \<in> progress"
proof -
  have own: "owns_mutex p" using d(2) by (cases p) simp_all
  have m: "w_mutex s = Some d" "\<not> w_flag s"
    using owner_writer(1,3) [OF v d(1) own] d(2) by (cases p; simp)+
  have o: "owns_mutex q \<Longrightarrow> i = d \<and> q = p" if "at_pc s i q cs" for q cs
    using owner_writer(1) [OF v that] m(1) that d(1) by (auto simp: at_pc_def)
  show ?thesis
  proof (rule tstepE [OF t], goal_cases)
    case (17 cs) then show ?thesis using o [of DisCheck cs] d(2) by auto
  next
    case (18 cs) then show ?thesis using o [of DisCheck cs] d(2) by auto
  next
    case (25 cs) then show ?thesis using o [of EnCheck cs] d(2) by auto
  next
    case (26 cs) then show ?thesis using o [of EnCheck cs] d(2) by auto
  next
    case (27 cs n k) then show ?thesis using o [of EnStart cs] d(2) by auto
  next
    case (28 cs) then show ?thesis using o [of EnStart cs] d(2) by auto
  next
    case (29 cs) then show ?thesis using o [of EnFlag cs] d(2) by auto
  qed (use m in \<open>auto intro: progress_start progress_done progress_next\<close>)
qed

lemma disabling_can_step:
  assumes v: "winv s" and d: "at_pc s d p ds" "disabling p"
  shows "\<exists>i t. tstep i s t"
proof (cases "p = DisLock \<and> \<not> lock_free s")
  case False
  then show ?thesis using d by (cases p) (auto intro: dis_set dis_lock dis_take dis_reset)
next
  case True
  then have p: "owns_mutex p" "\<not> writing p" by auto
  have f: "\<not> w_flag s" "w_event s" "w_writer s = None"
    using owner_writer [OF v d(1) p(1)] p(2) True by auto
  then obtain q where "q \<in> set (w_threads s)" "reading (fst q)" using True by (auto simp: lock_free_def)
  then obtain i where "i < length (w_threads s)" "reading (fst (w_threads s ! i))" by (auto simp: in_set_conv_nth)
  then obtain r cs where i: "at_pc s i r cs" "reading r" unfolding at_pc_def by (metis prod.collapse)
  have "\<exists>t. tstep i s t"
  proof (cases r)
    case (RecvTry k) then show ?thesis using i recv_failed by blast
  next
    case RecvWait then show ?thesis using i f wait_ready wait_disabled by (cases "w_pkts s = 0") blast+
  next
    case SendTry then show ?thesis using i send_failed by blast
  next
    case SendCheck then show ?thesis using i f send_disabled by blast
  qed (use i(2) in simp_all)
  then show ?thesis by blast
qed

lemma at_go: "at_pc (go i p' cs' s') d q ds \<longleftrightarrow> d < length (w_threads s') \<and> (if d = i then q = p' \<and> ds = cs' else w_threads s' ! d = (q, ds))"
  by (auto simp: at_pc_def)

lemma step_keeps:
  assumes d: "at_pc s d p ds" "disabling p" and t: "tstep i s t"
  shows "(\<exists>p'. at_pc t d p' ds \<and> disabling p') \<or> at_pc t d Idle ds \<and> w_mutex t = None"
proof (cases "i = d")
  case False
  have "at_pc t d p ds" by (rule tstepE [OF t]) (use d False in \<open>simp_all add: at_go at_pc_def\<close>)
  then show ?thesis using d(2) by blast
next
  case True
  show ?thesis by (rule tstepE [OF t]) (use d True in \<open>auto simp: at_go at_pc_def\<close>)
qed

lemma env_keeps: "env_step\<^sup>*\<^sup>* s u \<Longrightarrow> winv s \<and> at_pc s d p ds \<Longrightarrow> winv u \<and> at_pc u d p ds"
proof (induction rule: rtranclp_induct)
  case (step u v)
  have "w_threads v = w_threads u" using step(2) by (auto elim: env_stepE)
  then show ?case using step winv_env by (auto simp: at_pc_def)
qed simp

lemma disabling_ends:
  "winv s \<Longrightarrow> at_pc s d p ds \<Longrightarrow> disabling p \<Longrightarrow> inevitably (\<lambda>t. at_pc t d Idle ds \<and> w_flag t = w_session t) s"
proof (induction s arbitrary: p rule: wf_induct_rule [OF wf_progress])
  case (1 s)
  show ?case
  proof (rule later)
    show "\<exists>i t. tstep i s t" using disabling_can_step 1(2-4) .
    fix t assume "move s t"
    then obtain i u where u: "env_step\<^sup>*\<^sup>* s u" "tstep i u t" by (auto simp: move_def)
    have wu: "winv u" "at_pc u d p ds" using env_keeps [OF u(1)] 1(2,3) by blast+
    have less: "(t, s) \<in> progress" using env_progress [OF u(1)] step_progress [OF wu 1(4) u(2)] by blast
    have wt: "winv t" using winv_step [OF wu(1) u(2)] .
    from step_keeps [OF wu(2) 1(4) u(2)] show "inevitably (\<lambda>t. at_pc t d Idle ds \<and> w_flag t = w_session t) t"
    proof (elim disjE exE conjE)
      fix p' assume "at_pc t d p' ds" "disabling p'"
      then show ?thesis using 1(1) less wt by blast
    next
      assume "at_pc t d Idle ds" "w_mutex t = None"
      then show ?thesis using wt by (intro now) (simp add: winv_def)
    qed
  qed
qed


definition wd_state :: "bool \<Rightarrow> nat option \<Rightarrow> (pc \<times> thread_call list) list \<Rightarrow> wsys" where
  "wd_state flag mutex threads = \<lparr>w_flag = flag, w_event = False, w_session = True, w_mutex = mutex, w_writer = None,
     w_pkts = 0, w_room = 0, w_threads = threads\<rparr>"

lemma wd_state_simps [simp]:
  "at_pc (wd_state f m ts) i p cs \<longleftrightarrow> i < length ts \<and> ts ! i = (p, cs)"
  "go i p cs (wd_state f m ts) = wd_state f m (ts[i := (p, cs)])"
  "w_flag (wd_state f m ts) = f" "w_session (wd_state f m ts)" "w_writer (wd_state f m ts) = None"
  "w_pkts (wd_state f m ts) = 0" "w_room (wd_state f m ts) = 0" "w_mutex (wd_state f m ts) = m"
  "(wd_state f m ts)\<lparr>w_flag := f'\<rparr> = wd_state f' m ts" "(wd_state f m ts)\<lparr>w_mutex := m'\<rparr> = wd_state f m' ts"
  by (simp_all add: wd_state_def at_pc_def go_def)

text \<open>A receiver waits on its event, a sender for room, and a third thread has cleared the flag.\<close>

lemma wd_reachable: "reachable (wd_state False (Some 2) [(RecvWait, []), (SendCheck, []), (DisSet, [])])"
proof -
  have "reachable (wd_state True None [(Idle, [CallRecv]), (Idle, [CallSend]), (Idle, [CallDisable])])"
    by (rule reach_initial) (simp add: initial_def, simp add: wd_state_def)
  from reach_step [OF this begin_call [of _ 0 CallRecv "[]"]]
  have "reachable (wd_state True None [(RecvLock, []), (Idle, [CallSend]), (Idle, [CallDisable])])" by simp
  from reach_step [OF this recv_lock [of _ 0 "[]"]]
  have "reachable (wd_state True None [(RecvTry 0, []), (Idle, [CallSend]), (Idle, [CallDisable])])" by simp
  then have "reachable (wd_state True None [(RecvTry k, []), (Idle, [CallSend]), (Idle, [CallDisable])])" if "k \<le> 15" for k
    using that
  proof (induction k)
    case (Suc k)
    from reach_step [OF Suc.IH recv_empty [of _ 0 k "[]"]] show ?case using Suc.prems by simp
  qed simp
  from reach_step [OF this [of 15] recv_empty [of _ 0 15 "[]"]]
  have "reachable (wd_state True None [(RecvWait, []), (Idle, [CallSend]), (Idle, [CallDisable])])" by simp
  from reach_step [OF this begin_call [of _ 1 CallSend "[]"]]
  have "reachable (wd_state True None [(RecvWait, []), (SendLock, []), (Idle, [CallDisable])])" by simp
  from reach_step [OF this send_lock [of _ 1 "[]"]]
  have "reachable (wd_state True None [(RecvWait, []), (SendTry, []), (Idle, [CallDisable])])" by simp
  from reach_step [OF this send_full [of _ 1 "[]"]]
  have "reachable (wd_state True None [(RecvWait, []), (SendCheck, []), (Idle, [CallDisable])])" by simp
  from reach_step [OF this begin_call [of _ 2 CallDisable "[]"]]
  have "reachable (wd_state True None [(RecvWait, []), (SendCheck, []), (DisMutex, [])])" by (simp add: numeral_2_eq_2)
  from reach_step [OF this dis_mutex [of _ 2 "[]"]]
  have "reachable (wd_state True (Some 2) [(RecvWait, []), (SendCheck, []), (DisCheck, [])])" by (simp add: numeral_2_eq_2)
  from reach_step [OF this dis_flag [of _ 2 "[]"]]
  show ?thesis by (simp add: numeral_2_eq_2)
qed


theorem session_in_use_witness:
  "w_session (wd_state False (Some 2) [(RecvWait, []), (SendCheck, []), (DisSet, [])])
    \<and> \<not> (\<exists>j q ds. at_pc (wd_state False (Some 2) [(RecvWait, []), (SendCheck, []), (DisSet, [])]) j q ds \<and> writing q)"
proof -
  let ?s = "wd_state False (Some 2) [(RecvWait, []), (SendCheck, []), (DisSet, [])]"
  have a: "at_pc ?s 0 RecvWait []" by simp
  have "w_session ?s \<and> (\<forall>j q ds. at_pc ?s j q ds \<longrightarrow> \<not> writing q)"
    by (rule session_in_use [OF wd_reachable, THEN conjunct1, rule_format, OF conjI [OF a]]) simp
  then show ?thesis by blast
qed

end
