(* ===== verification/BsdNet.thy ===== *)
theory BsdNet
  imports LinuxConfig
begin

text \<open>
  What the devices of macOS and FreeBSD share (\<open>src/platform/unix/device.rs\<close>, \<open>src/platform/macos/sys.rs\<close>,
  \<open>src/platform/freebsd/sys.rs\<close>): control sockets, the requests with their structures on a 64-bit
  little-endian machine, names of interfaces.  The kernel and the crates \<open>getifaddrs\<close> and \<open>ipnet\<close> are the record \<open>bsd_sys\<close>.
\<close>

section \<open>The system\<close>

text \<open>
  The third argument of \<open>ioctl\<close>: a structure, or an \<open>ifreq\<close> with a name and a pointer to some bytes.
\<close>

datatype bsd_arg = Struct "byte list" | NameTo "byte list" "byte list"

text \<open>
  An \<open>IpNet\<close> is an address with a prefix length; \<open>ipnet::IpNet\<close>'s \<open>new\<close>, \<open>with_netmask\<close>, \<open>network\<close>, \<open>broadcast\<close> and
  \<open>netmask\<close>, and \<open>ip_mask_to_prefix\<close>, are fields.
\<close>

record 's bsd_sys = "'s fd_sys" +
  bk_socket :: "nat \<Rightarrow> nat \<Rightarrow> nat \<Rightarrow> 's \<Rightarrow> int \<times> 's"
  bk_ioctl :: "int \<Rightarrow> nat \<Rightarrow> bsd_arg \<Rightarrow> 's \<Rightarrow> (int \<times> byte list) \<times> 's"
  bk_fcntl :: "int \<Rightarrow> nat \<Rightarrow> u32 \<Rightarrow> 's \<Rightarrow> int \<times> 's"
  bk_if_nametoindex :: "byte list \<Rightarrow> 's \<Rightarrow> u32 \<times> 's"
  bk_getifaddrs :: "('s, if_entry list) io"
  bk_ip_mask_to_prefix :: "IpAddr \<Rightarrow> byte option"
  bk_ipnet_new :: "IpAddr \<Rightarrow> byte \<Rightarrow> IpNet option"
  bk_ipnet_with_netmask :: "IpAddr \<Rightarrow> IpAddr \<Rightarrow> IpNet option"
  bk_network :: "IpNet \<Rightarrow> IpAddr"
  bk_broadcast :: "IpNet \<Rightarrow> IpAddr"
  bk_netmask :: "IpNet \<Rightarrow> IpAddr"

section \<open>Descriptors with a scope\<close>

definition open_fd :: "'s fd_sys \<Rightarrow> ('s \<Rightarrow> int \<times> 's) \<Rightarrow> ('s, Fd) io" where
  "open_fd F call = (\<lambda>s. let (v, s) = call s in Fd_new F v s)"

definition close_fd :: "'s fd_sys \<Rightarrow> Fd \<Rightarrow> 's \<Rightarrow> 's" where
  "close_fd F fd s = snd (Fd_drop F fd s)"

definition with_fd :: "'s fd_sys \<Rightarrow> ('s \<Rightarrow> int \<times> 's) \<Rightarrow> (Fd \<Rightarrow> ('s, 'a) io) \<Rightarrow> ('s, 'a) io" where
  "with_fd F call body = io_bind (open_fd F call) (\<lambda>fd. io_scope (body fd) (close_fd F fd))"

abbreviation bsd_fds :: "('s, 'x) bsd_sys_scheme \<Rightarrow> 's fd_sys" where
  "bsd_fds K \<equiv> fd_sys.truncate K"

text \<open>\<open>_ = m\<close>: an error is thrown away.\<close>

definition io_ignore :: "('s, 'a) io \<Rightarrow> ('s, unit) io" where
  "io_ignore m = io_match m (\<lambda>_. io_return ()) (\<lambda>_. io_return ())"

definition F_GETFD :: nat where "F_GETFD = 1"
definition F_SETFD :: nat where "F_SETFD = 2"
definition FD_CLOEXEC :: u32 where "FD_CLOEXEC = 1"

definition set_cloexec :: "('s, 'x) bsd_sys_scheme \<Rightarrow> Fd \<Rightarrow> ('s, unit) io" where
  "set_cloexec K fd = (\<lambda>s.
     let (flags, s) = bk_fcntl K (fd_inner fd) F_GETFD 0 s
     in if flags < 0 then last_os_error (bsd_fds K) s
        else let (r, s) = bk_fcntl K (fd_inner fd) F_SETFD (of_int flags OR FD_CLOEXEC) s
          in if r < 0 then last_os_error (bsd_fds K) s else (Ok (), s))"

section \<open>Requests\<close>

text \<open>
  \<open>ioctl_write_ptr!\<close> and \<open>ioctl_readwrite!\<close> encode direction, size, group and number.
\<close>

definition iow_request :: "nat \<Rightarrow> nat \<Rightarrow> nat \<Rightarrow> nat" where
  "iow_request grp num sz = 0x80000000 + sz * 0x10000 + grp * 0x100 + num"

definition iowr_request :: "nat \<Rightarrow> nat \<Rightarrow> nat \<Rightarrow> nat" where
  "iowr_request grp num sz = 0xC0000000 + sz * 0x10000 + grp * 0x100 + num"

definition BSD_SIOCSIFFLAGS :: nat where "BSD_SIOCSIFFLAGS = iow_request 0x69 16 32"
definition BSD_SIOCGIFFLAGS :: nat where "BSD_SIOCGIFFLAGS = iowr_request 0x69 17 32"
definition BSD_SIOCSIFMTU :: nat where "BSD_SIOCSIFMTU = iow_request 0x69 52 32"
definition BSD_SIOCGIFMTU :: nat where "BSD_SIOCGIFMTU = iowr_request 0x69 51 32"
definition BSD_SIOCDIFADDR :: nat where "BSD_SIOCDIFADDR = iow_request 0x69 25 32"
definition BSD_SIOCDIFADDR_IN6 :: nat where "BSD_SIOCDIFADDR_IN6 = iow_request 0x69 25 288"

text \<open>The calls of \<open>nix\<close>'s macros: \<open>-1\<close> is turned into the error number.\<close>

definition bsd_ioctl :: "('s, 'x) bsd_sys_scheme \<Rightarrow> nat \<Rightarrow> bsd_arg \<Rightarrow> int \<Rightarrow> ('s, byte list) io" where
  "bsd_ioctl K req arg fd = (\<lambda>s.
     let ((r, out), s) = bk_ioctl K fd req arg s
     in if r = -1 then (Err (OsError (sys_errno K s)), s) else (Ok out, s))"

definition bsd_call :: "('s, 'x) bsd_sys_scheme \<Rightarrow> nat \<Rightarrow> bsd_arg \<Rightarrow> int \<Rightarrow> ('s, unit) io" where
  "bsd_call K req arg fd = io_map (\<lambda>_. ()) (bsd_ioctl K req arg fd)"

text \<open>
  The name of the interface in its 16 bytes: \<open>ptr::copy_nonoverlapping\<close> copies all of it, which
  past the end is undefined and shows as \<open>Panic\<close>; \<open>copy_device_name\<close> copies 15 bytes at most.
\<close>

definition name_field :: "byte list \<Rightarrow> byte list res" where
  "name_field n = ensure (length n \<le> IFNAMSIZ) (Ok (blit (replicate IFNAMSIZ 0) 0 n))"

definition copy_device_name :: "byte list \<Rightarrow> byte list" where
  "copy_device_name n = blit (replicate IFNAMSIZ 0) 0 (take (IFNAMSIZ - 1) n)"

text \<open>A C structure of a size, zeroed, with some bytes written at its offsets.\<close>

definition struct_with :: "nat \<Rightarrow> (nat \<times> byte list) list \<Rightarrow> byte list" where
  "struct_with sz fs = foldl (\<lambda>bs (at, v). blit bs at v) (replicate sz 0) fs"

definition bsd_ifreq :: "byte list \<Rightarrow> byte list \<Rightarrow> byte list" where
  "bsd_ifreq field u = struct_with 32 [(0, field), (16, u)]"

text \<open>The leading bytes of \<open>sockaddr_union\<close>: a \<open>sockaddr\<close> has 16, a \<open>sockaddr_in6\<close> 28.\<close>

definition sa_addr :: "sa_layout \<Rightarrow> IpAddr \<Rightarrow> byte list" where
  "sa_addr L ip = take 16 (rs_addr_to_sockaddr L (socket_addr_new ip 0))"

definition sa_addr6 :: "sa_layout \<Rightarrow> IpAddr \<Rightarrow> byte list" where
  "sa_addr6 L ip = take 28 (rs_addr_to_sockaddr L (socket_addr_new ip 0))"

text \<open>The MTU is an \<open>i32\<close> in the union; \<open>try_into\<close> to \<open>u16\<close>.\<close>

definition mtu_of :: "byte list \<Rightarrow> u16 res" where
  "mtu_of req = (let v = sint (get_le32 (drop 16 req))
     in if 0 \<le> v \<and> v \<le> 65535 then Ok (of_int v) else err_other ''TryFromIntError'')"

definition flags_of :: "byte list \<Rightarrow> u16" where
  "flags_of req = get_le16 (drop 16 req)"

section \<open>Interfaces\<close>

definition bsd_if_index :: "('s, 'x) bsd_sys_scheme \<Rightarrow> ('s, byte list) io \<Rightarrow> ('s, u32) io" where
  "bsd_if_index K get_name =
     io_bind get_name (\<lambda>n. io_bind (io_res (cstring_new n)) (\<lambda>n s. let (i, s) = bk_if_nametoindex K n s in (Ok i, s)))"

definition bsd_if_addrs :: "('s, 'x) bsd_sys_scheme \<Rightarrow> byte list \<Rightarrow> ('s, if_entry list) io" where
  "bsd_if_addrs K n = io_map (filter (\<lambda>v. ife_name v = n)) (bk_getifaddrs K)"

definition bsd_addresses :: "('s, 'x) bsd_sys_scheme \<Rightarrow> ('s, byte list) io \<Rightarrow> ('s, IpAddr list) io" where
  "bsd_addresses K get_name = io_bind get_name (\<lambda>n. io_map (List.map_filter ife_addr) (bsd_if_addrs K n))"

definition calc_dest_addr :: "('s, 'x) bsd_sys_scheme \<Rightarrow> IpAddr \<Rightarrow> IpAddr \<Rightarrow> IpAddr res" where
  "calc_dest_addr K addr msk = (case bk_ip_mask_to_prefix K msk of
     None \<Rightarrow> invalid_input ''''
   | Some len \<Rightarrow> (case bk_ipnet_new K addr len of None \<Rightarrow> invalid_input '''' | Some net \<Rightarrow> Ok (bk_broadcast K net)))"

section \<open>Numbers in names\<close>

text \<open>\<open>str::parse::<u32>\<close>: an optional plus sign, then at least one digit, and no overflow.\<close>

definition is_digit :: "byte \<Rightarrow> bool" where
  "is_digit b \<longleftrightarrow> 0x30 \<le> b \<and> b \<le> 0x39"

definition digits_value :: "byte list \<Rightarrow> nat" where
  "digits_value ds = foldl (\<lambda>v d. 10 * v + (unat d - 0x30)) 0 ds"

definition parse_u32 :: "byte list \<Rightarrow> u32 option" where
  "parse_u32 str = (let ds = (case str of b # bs \<Rightarrow> if b = 0x2B then bs else str | [] \<Rightarrow> [])
     in if ds \<noteq> [] \<and> list_all is_digit ds \<and> digits_value ds < 2 ^ 32 then Some (of_nat (digits_value ds)) else None)"

text \<open>The decimal digits of a number, as \<open>format!\<close> writes it.\<close>

fun decimal_bytes :: "nat \<Rightarrow> byte list" where
  "decimal_bytes n = (if n < 10 then [of_nat (0x30 + n)] else decimal_bytes (n div 10) @ [of_nat (0x30 + n mod 10)])"

declare decimal_bytes.simps [simp del]

text \<open>The unit that a name with a prefix asks for.\<close>

definition unit_of_name :: "byte list \<Rightarrow> byte list \<Rightarrow> u32 res" where
  "unit_of_name pre n =
     (if length n > IFNAMSIZ then invalid_input ''device name too long''
      else if take (length pre) n \<noteq> pre then invalid_input ''device name must start with''
      else case parse_u32 (drop (length pre) n) of Some v \<Rightarrow> Ok v | None \<Rightarrow> invalid_input '''')"

end
