(* ===== verification/FreeBsd.thy ===== *)
theory FreeBsd
  imports BsdNet
begin

text \<open>
  The FreeBSD device (\<open>src/platform/freebsd/device.rs\<close>).  As on Linux every public operation holds \<open>op_lock\<close>
  throughout, and the lock is not in the model.
\<close>

section \<open>The device\<close>

text \<open>
  Opening a path; \<open>fcntl(F_KINFO)\<close>, which writes the path of a descriptor; running
  \<open>/sbin/route add -net <network> -interface <name>\<close>, which says whether the command succeeded; and the
  text of the truncated network.
\<close>

record 's fbsd_sys = "'s bsd_sys" +
  fk_open :: "byte list \<Rightarrow> 's \<Rightarrow> int \<times> 's"
  fk_kinfo_path :: "int \<Rightarrow> 's \<Rightarrow> (int \<times> byte list) \<times> 's"
  fk_route_add :: "byte list \<Rightarrow> byte list \<Rightarrow> ('s, bool) io"
  fk_trunc_string :: "IpNet \<Rightarrow> byte list"

record FreeBsdDevice =
  fb_tun :: Tun
  fb_associate_route :: bool

definition fb_fd :: "FreeBsdDevice \<Rightarrow> Fd" where
  "fb_fd d = tun_fd (fb_tun d)"

definition freebsd_layout :: sa_layout where
  "freebsd_layout = \<lparr>sa_has_len = True, sa_inet6 = 28\<rparr>"

definition FB_EBUSY :: nat where "FB_EBUSY = 16"
definition FB_EADDRNOTAVAIL :: nat where "FB_EADDRNOTAVAIL = 49"
definition FB_AF_INET :: nat where "FB_AF_INET = 2"
definition FB_AF_INET6 :: nat where "FB_AF_INET6 = 28"
definition FB_SOCK_DGRAM_CLOEXEC :: nat where "FB_SOCK_DGRAM_CLOEXEC = 0x10000002"
definition FB_IN6_IFF_NODAD :: u32 where "FB_IN6_IFF_NODAD = 0x100"
definition ND6_IFF_AUTO_LINKLOCAL :: u32 where "ND6_IFF_AUTO_LINKLOCAL = 0x20"

definition FB_SIOCAIFADDR :: nat where "FB_SIOCAIFADDR = iow_request 0x69 43 68"
definition FB_SIOCAIFADDR_IN6 :: nat where "FB_SIOCAIFADDR_IN6 = iow_request 0x69 27 136"
definition FB_SIOCSIFNAME :: nat where "FB_SIOCSIFNAME = iow_request 0x69 40 32"
definition FB_SIOCIFDESTROY :: nat where "FB_SIOCIFDESTROY = iow_request 0x69 121 32"
definition FB_TUNSIFHEAD :: nat where "FB_TUNSIFHEAD = iow_request 0x74 96 4"
definition FB_SIOCSIFINFO_IN6 :: nat where "FB_SIOCSIFINFO_IN6 = iowr_request 0x69 109 72"

definition fbsd_ctl :: "('s, 'x) fbsd_sys_scheme \<Rightarrow> (Fd \<Rightarrow> ('s, 'a) io) \<Rightarrow> ('s, 'a) io" where
  "fbsd_ctl K = with_fd (bsd_fds K) (bk_socket K FB_AF_INET FB_SOCK_DGRAM_CLOEXEC 0)"

definition fbsd_ctl_v6 :: "('s, 'x) fbsd_sys_scheme \<Rightarrow> (Fd \<Rightarrow> ('s, 'a) io) \<Rightarrow> ('s, 'a) io" where
  "fbsd_ctl_v6 K = with_fd (bsd_fds K) (bk_socket K FB_AF_INET6 FB_SOCK_DGRAM_CLOEXEC 0)"

section \<open>The name\<close>

text \<open>\<open>Path::file_name\<close>: the last component that is not \<open>.\<close>, unless it is \<open>..\<close>.\<close>

fun split_path :: "byte list \<Rightarrow> byte list \<Rightarrow> byte list list" where
  "split_path acc [] = [acc]"
| "split_path acc (b # bs) = (if b = 0x2F then acc # split_path [] bs else split_path (acc @ [b]) bs)"

definition path_file_name :: "byte list \<Rightarrow> byte list option" where
  "path_file_name path = (let parts = filter (\<lambda>p. p \<noteq> [] \<and> p \<noteq> [0x2E]) (split_path [] path)
     in if parts = [] \<or> last parts = [0x2E, 0x2E] then None else Some (last parts))"

definition name_of_fd :: "('s, 'x) fbsd_sys_scheme \<Rightarrow> int \<Rightarrow> ('s, byte list) io" where
  "name_of_fd K fd = (\<lambda>s.
     let ((r, path), s) = fk_kinfo_path K fd s
     in if r < 0 then last_os_error (bsd_fds K) s
        else (case path_file_name (utf8_lossy (takeWhile (\<lambda>b. b \<noteq> 0) path)) of
            None \<Rightarrow> invalid_input ''invalid device name''
          | Some n \<Rightarrow> Ok (utf8_lossy n), s))"

definition fbsd_name :: "('s, 'x) fbsd_sys_scheme \<Rightarrow> FreeBsdDevice \<Rightarrow> ('s, byte list) io" where
  "fbsd_name K d = name_of_fd K (fd_inner (fb_fd d))"

definition fbsd_request :: "('s, 'x) fbsd_sys_scheme \<Rightarrow> FreeBsdDevice \<Rightarrow> ('s, byte list) io" where
  "fbsd_request K d = io_map (\<lambda>n. bsd_ifreq (copy_device_name n) []) (fbsd_name K d)"

text \<open>\<open>in6_ifreq\<close>: the flags are at the start of its union.\<close>

definition fbsd_request_v6 :: "('s, 'x) fbsd_sys_scheme \<Rightarrow> FreeBsdDevice \<Rightarrow> ('s, byte list) io" where
  "fbsd_request_v6 K d =
     io_map (\<lambda>n. struct_with 288 [(0, copy_device_name n), (16, to_le32 FB_IN6_IFF_NODAD)]) (fbsd_name K d)"

section \<open>Creation and the end\<close>

definition enable_tunsifhead_impl :: "('s, 'x) fbsd_sys_scheme \<Rightarrow> Fd \<Rightarrow> ('s, unit) io" where
  "enable_tunsifhead_impl K fd = bsd_call K FB_TUNSIFHEAD (Struct (to_le32 1)) (fd_inner fd)"

text \<open>
  \<open>in6_ndireq\<close>: the flags are at offset 36 of its 72 bytes.  The structure is not read from the kernel before.
\<close>

definition disable_local_ipv6 :: "('s, 'x) fbsd_sys_scheme \<Rightarrow> FreeBsdDevice \<Rightarrow> ('s, unit) io" where
  "disable_local_ipv6 K d = io_bind (fbsd_name K d) (\<lambda>n.
     let req = struct_with 72 [(0, copy_device_name n)];
         req = blit req 36 (to_le32 (get_le32 (drop 36 req) AND NOT ND6_IFF_AUTO_LINKLOCAL))
     in fbsd_ctl_v6 K (\<lambda>fd. bsd_call K FB_SIOCSIFINFO_IN6 (Struct req) (fd_inner fd)))"

definition fbsd_dev_path :: "nat \<Rightarrow> byte list" where
  "fbsd_dev_path i = map (of_char :: char \<Rightarrow> byte) ''/dev/tun'' @ decimal_bytes i"

definition fbsd_dev_index :: "DeviceConfig \<Rightarrow> u32 option res" where
  "fbsd_dev_index cfg = (case cfg_dev_name cfg of
     None \<Rightarrow> Ok None
   | Some n \<Rightarrow> bind_res (unit_of_name (map of_char ''tun'') n) (\<lambda>i. Ok (Some i)))"

text \<open>Without a name the first device that is not busy, among 256.\<close>

fun fbsd_open_free :: "('s, 'x) fbsd_sys_scheme \<Rightarrow> nat list \<Rightarrow> ('s, Fd) io" where
  "fbsd_open_free K [] = io_fail (Custom AlreadyExists ''no available file descriptor'')"
| "fbsd_open_free K (i # rest) = io_match (open_fd (bsd_fds K) (fk_open K (fbsd_dev_path i))) io_return
     (\<lambda>e. if raw_os_error e \<noteq> Some FB_EBUSY then io_fail e else fbsd_open_free K rest)"

definition fbsd_open :: "('s, 'x) fbsd_sys_scheme \<Rightarrow> u32 option \<Rightarrow> ('s, Fd) io" where
  "fbsd_open K index = (case index of
     Some i \<Rightarrow> open_fd (bsd_fds K) (fk_open K (fbsd_dev_path (unat i)))
   | None \<Rightarrow> fbsd_open_free K [0..<256])"

text \<open>
  Dropping a device: its field is set to -1 first; then the interface is to be destroyed by its name, with the control
  socket and the name asked for both before either is looked at; then the descriptor is closed.
\<close>

definition fbsd_destroy :: "('s, 'x) fbsd_sys_scheme \<Rightarrow> FreeBsdDevice \<Rightarrow> 's \<Rightarrow> 's" where
  "fbsd_destroy K d s =
     (let (ctl, s) = open_fd (bsd_fds K) (bk_socket K FB_AF_INET FB_SOCK_DGRAM_CLOEXEC 0) s; (req, s) = fbsd_request K d s
      in case ctl of
           Ok fd \<Rightarrow> close_fd (bsd_fds K) fd (case req of
               Ok req \<Rightarrow> snd (bsd_call K FB_SIOCIFDESTROY (Struct req) (fd_inner fd) s)
             | _ \<Rightarrow> s)
         | _ \<Rightarrow> s)"

definition fbsd_drop :: "('s, 'x) fbsd_sys_scheme \<Rightarrow> FreeBsdDevice \<Rightarrow> 's \<Rightarrow> 's" where
  "fbsd_drop K d s =
     (if fd_inner (fb_fd d) < 0 then s
      else let fd = fd_inner (fb_fd d); d = d\<lparr>fb_tun := (fb_tun d)\<lparr>tun_fd := (fb_fd d)\<lparr>fd_inner := -1\<rparr>\<rparr>\<rparr>
        in close_fd (bsd_fds K) (fb_fd d) (sys_close K fd (fbsd_destroy K d s)))"

text \<open>\<open>into_raw_fd\<close>: the device that is dropped behind it has no descriptor.\<close>

definition fbsd_into_raw_fd :: "FreeBsdDevice \<Rightarrow> int \<times> FreeBsdDevice" where
  "fbsd_into_raw_fd d = (fd_inner (fb_fd d), d\<lparr>fb_tun := (fb_tun d)\<lparr>tun_fd := (fb_fd d)\<lparr>fd_inner := -1\<rparr>\<rparr>\<rparr>)"

definition fbsd_device :: "Fd \<Rightarrow> bool \<Rightarrow> FreeBsdDevice" where
  "fbsd_device fd ignore = \<lparr>fb_tun = set_ignore_packet_info ignore (Tun_new fd), fb_associate_route = True\<rparr>"

definition fbsd_new :: "('s, 'x) fbsd_sys_scheme \<Rightarrow> DeviceConfig \<Rightarrow> ('s, FreeBsdDevice) io" where
  "fbsd_new K cfg =
     io_bind (io_res (fbsd_dev_index cfg)) (\<lambda>index.
     io_bind (fbsd_open K index) (\<lambda>fd.
     io_then (io_unless (enable_tunsifhead_impl K fd) (close_fd (bsd_fds K) fd))
       (let d = fbsd_device fd (\<not> opt_or (cfg_packet_information cfg) False)
        in io_unless (io_then (disable_local_ipv6 K d) (io_return d)) (fbsd_drop K d))))"

definition fbsd_from_tun :: "('s, 'x) fbsd_sys_scheme \<Rightarrow> Fd \<Rightarrow> ('s, FreeBsdDevice) io" where
  "fbsd_from_tun K fd = io_then (io_unless (enable_tunsifhead_impl K fd) (close_fd (bsd_fds K) fd)) (io_return (fbsd_device fd True))"

text \<open>\<open>from_fd\<close>, and \<open>from_raw_fd\<close>, which expects it to succeed.\<close>

definition fbsd_from_fd :: "('s, 'x) fbsd_sys_scheme \<Rightarrow> int \<Rightarrow> ('s, FreeBsdDevice) io" where
  "fbsd_from_fd K v = fbsd_from_tun K (Fd_new_unchecked v)"

definition fbsd_from_raw_fd :: "('s, 'x) fbsd_sys_scheme \<Rightarrow> int \<Rightarrow> ('s, FreeBsdDevice) io" where
  "fbsd_from_raw_fd K v = io_unwrap (fbsd_from_fd K v)"

definition fbsd_enable_tunsifhead :: "('s, 'x) fbsd_sys_scheme \<Rightarrow> FreeBsdDevice \<Rightarrow> ('s, unit) io" where
  "fbsd_enable_tunsifhead K d = enable_tunsifhead_impl K (fb_fd d)"

section \<open>Addresses and routes\<close>

definition fbsd_add_route :: "('s, 'x) fbsd_sys_scheme \<Rightarrow> FreeBsdDevice \<Rightarrow> IpAddr \<Rightarrow> IpAddr \<Rightarrow> bool \<Rightarrow> ('s, unit) io" where
  "fbsd_add_route K d addr msk associate_route =
     (if \<not> associate_route then io_return ()
      else case bk_ipnet_with_netmask K addr msk of
          None \<Rightarrow> io_res (invalid_input '''')
        | Some network \<Rightarrow> io_bind (fbsd_name K d) (\<lambda>interface.
            io_bind (fk_route_add K (fk_trunc_string K network) interface) (\<lambda>success.
              if success then io_return () else io_res (err_other ''route add failed''))))"

text \<open>
  \<open>ifaliasreq\<close>: name, address, destination and mask in 16 bytes each.  \<open>in6_ifaliasreq\<close>: name, address,
  destination and mask in 28 bytes each, the flags at 100, the two lifetimes at 120 and 124.
\<close>

definition fbsd_ifaliasreq :: "byte list \<Rightarrow> IpAddr \<Rightarrow> IpAddr \<Rightarrow> IpAddr option \<Rightarrow> byte list" where
  "fbsd_ifaliasreq field addr msk dest = struct_with 68 ([(0, field), (16, sa_addr freebsd_layout addr)]
     @ (case dest of None \<Rightarrow> [] | Some dest \<Rightarrow> [(32, sa_addr freebsd_layout dest)]) @ [(48, sa_addr freebsd_layout msk)])"

definition fbsd_in6_ifaliasreq :: "byte list \<Rightarrow> IpAddr \<Rightarrow> IpAddr \<Rightarrow> byte list" where
  "fbsd_in6_ifaliasreq field addr msk = struct_with 136 [(0, field), (16, sa_addr6 freebsd_layout addr),
     (72, sa_addr6 freebsd_layout msk), (120, to_le32 0xFFFFFFFF), (124, to_le32 0xFFFFFFFF), (100, to_le32 FB_IN6_IFF_NODAD)]"

definition fbsd_add_address :: "('s, 'x) fbsd_sys_scheme \<Rightarrow> FreeBsdDevice \<Rightarrow> IpAddr \<Rightarrow> IpAddr \<Rightarrow> IpAddr option \<Rightarrow> bool
    \<Rightarrow> ('s, unit) io" where
  "fbsd_add_address K d addr msk dest associate_route =
     (if is_ipv4 addr then
        fbsd_ctl K (\<lambda>fd.
          io_bind (fbsd_name K d) (\<lambda>n.
          io_bind (io_res (name_field n)) (\<lambda>field.
          io_then (bsd_call K FB_SIOCAIFADDR (Struct (fbsd_ifaliasreq field addr msk dest)) (fd_inner fd))
            (io_ignore (fbsd_add_route K d addr msk associate_route)))))
      else if is_ipv4 msk then io_res (invalid_input '''')
      else
        io_bind (fbsd_name K d) (\<lambda>n.
        io_bind (io_res (name_field n)) (\<lambda>field.
        fbsd_ctl_v6 K (\<lambda>fd. bsd_call K FB_SIOCAIFADDR_IN6 (Struct (fbsd_in6_ifaliasreq field addr msk)) (fd_inner fd)))))"

text \<open>
  All IPv4 addresses go: the request without an address is repeated until the kernel says there is none.  A kernel
  that never says so keeps it there: then the value is \<open>None\<close>.
\<close>

definition fbsd_delete_any :: "('s, 'x) fbsd_sys_scheme \<Rightarrow> byte list \<Rightarrow> ('s, bool) io" where
  "fbsd_delete_any K req = fbsd_ctl K (\<lambda>fd. io_match (bsd_call K BSD_SIOCDIFADDR (Struct req) (fd_inner fd))
     (\<lambda>_. io_return True) (\<lambda>e. if e = OsError FB_EADDRNOTAVAIL then io_return False else io_fail e))"

partial_function (option) fbsd_delete_all :: "('s, 'x) fbsd_sys_scheme \<Rightarrow> byte list \<Rightarrow> 's \<Rightarrow> (unit res \<times> 's) option" where
  "fbsd_delete_all K req s = (case fbsd_delete_any K req s of
     (Ok again, s) \<Rightarrow> if again then fbsd_delete_all K req s else Some (Ok (), s)
   | (Err e, s) \<Rightarrow> Some (Err e, s)
   | (Panic, s) \<Rightarrow> Some (Panic, s))"

definition fbsd_remove_all_address_v4 :: "('s, 'x) fbsd_sys_scheme \<Rightarrow> FreeBsdDevice \<Rightarrow> 's \<Rightarrow> (unit res \<times> 's) option" where
  "fbsd_remove_all_address_v4 K d s = (case fbsd_request K d s of
     (Ok req, s) \<Rightarrow> fbsd_delete_all K req s
   | (Err e, s) \<Rightarrow> Some (Err e, s)
   | (Panic, s) \<Rightarrow> Some (Panic, s))"

text \<open>The arguments of \<open>set_network_address\<close>: address, mask, and the destination or the broadcast address.\<close>

definition fbsd_network_args :: "('s, 'x) fbsd_sys_scheme \<Rightarrow> (string \<Rightarrow> Ipv4Addr option) \<Rightarrow> addr4_arg \<Rightarrow> Ipv4Addr mask_arg
    \<Rightarrow> addr4_arg option \<Rightarrow> (IpAddr \<times> IpAddr \<times> IpAddr) res" where
  "fbsd_network_args K parse address netmask destination =
     bind_res (ipv4 parse address) (\<lambda>addr.
     bind_res (netmask4 parse netmask) (\<lambda>msk.
     bind_res (calc_dest_addr K (V4 addr) (V4 msk)) (\<lambda>default_dest.
     bind_res (case destination of None \<Rightarrow> Ok default_dest | Some dest \<Rightarrow> bind_res (ipv4 parse dest) (\<lambda>a. Ok (V4 a))) (\<lambda>dest.
     Ok (V4 addr, V4 msk, dest)))))"

definition fbsd_set_network_address :: "('s, 'x) fbsd_sys_scheme \<Rightarrow> (string \<Rightarrow> Ipv4Addr option) \<Rightarrow> FreeBsdDevice
    \<Rightarrow> addr4_arg \<Rightarrow> Ipv4Addr mask_arg \<Rightarrow> addr4_arg option \<Rightarrow> 's \<Rightarrow> (unit res \<times> 's) option" where
  "fbsd_set_network_address K parse d address netmask destination s =
     (case fbsd_network_args K parse address netmask destination of
        Ok (addr, msk, dest) \<Rightarrow> (case fbsd_remove_all_address_v4 K d s of
            Some (Ok _, s) \<Rightarrow> Some (fbsd_add_address K d addr msk (Some dest) (fb_associate_route d) s)
          | q \<Rightarrow> q)
      | Err e \<Rightarrow> Some (Err e, s)
      | Panic \<Rightarrow> Some (Panic, s))"

definition fbsd_add_address_v4 :: "('s, 'x) fbsd_sys_scheme \<Rightarrow> (string \<Rightarrow> Ipv4Addr option) \<Rightarrow> FreeBsdDevice
    \<Rightarrow> addr4_arg \<Rightarrow> Ipv4Addr mask_arg \<Rightarrow> ('s, unit) io" where
  "fbsd_add_address_v4 K parse d address netmask =
     io_bind (io_res (fbsd_network_args K parse address netmask None)) (\<lambda>(addr, msk, dest).
       fbsd_add_address K d addr msk (Some dest) (fb_associate_route d))"

definition fbsd_add_address_v6 :: "('s, 'x) fbsd_sys_scheme \<Rightarrow> (string \<Rightarrow> Ipv6Addr option) \<Rightarrow> FreeBsdDevice
    \<Rightarrow> addr6_arg \<Rightarrow> Ipv6Addr mask_arg \<Rightarrow> ('s, unit) io" where
  "fbsd_add_address_v6 K parse d addr netmask =
     io_bind (io_res (ipv6 parse addr)) (\<lambda>a.
     io_bind (io_res (netmask6 parse netmask)) (\<lambda>msk.
     fbsd_add_address K d (V6 a) (V6 msk) None (fb_associate_route d)))"

definition fbsd_remove_address :: "('s, 'x) fbsd_sys_scheme \<Rightarrow> FreeBsdDevice \<Rightarrow> IpAddr \<Rightarrow> ('s, unit) io" where
  "fbsd_remove_address K d addr =
     (if is_ipv4 addr then
        io_bind (fbsd_request K d) (\<lambda>req. fbsd_ctl K (\<lambda>fd.
          bsd_call K BSD_SIOCDIFADDR (Struct (blit req 16 (sa_addr freebsd_layout addr))) (fd_inner fd)))
      else
        io_bind (fbsd_request_v6 K d) (\<lambda>req. fbsd_ctl_v6 K (\<lambda>fd.
          bsd_call K BSD_SIOCDIFADDR_IN6 (Struct (blit req 16 (sa_addr6 freebsd_layout addr))) (fd_inner fd))))"

section \<open>Name, flags, MTU\<close>

definition fbsd_set_name :: "('s, 'x) fbsd_sys_scheme \<Rightarrow> FreeBsdDevice \<Rightarrow> byte list \<Rightarrow> ('s, unit) io" where
  "fbsd_set_name K d value =
     (if length value > IFNAMSIZ then io_res (invalid_input ''device name too long'')
      else io_bind (fbsd_request K d) (\<lambda>req.
        io_bind (io_res (cstring_new value)) (\<lambda>n.
        fbsd_ctl K (\<lambda>fd. bsd_call K FB_SIOCSIFNAME (NameTo (take 16 req) (n @ [0])) (fd_inner fd)))))"

definition fbsd_set_associate_route :: "bool \<Rightarrow> FreeBsdDevice \<Rightarrow> FreeBsdDevice" where
  "fbsd_set_associate_route associate_route d = d\<lparr>fb_associate_route := associate_route\<rparr>"

definition fbsd_associate_route :: "FreeBsdDevice \<Rightarrow> bool" where
  "fbsd_associate_route d = fb_associate_route d"

definition fbsd_ignore_packet_info :: "FreeBsdDevice \<Rightarrow> bool" where
  "fbsd_ignore_packet_info d = tun_ignore_packet_information (fb_tun d)"

definition fbsd_set_ignore_packet_info :: "bool \<Rightarrow> FreeBsdDevice \<Rightarrow> FreeBsdDevice" where
  "fbsd_set_ignore_packet_info ign d = d\<lparr>fb_tun := set_ignore_packet_info ign (fb_tun d)\<rparr>"

definition fbsd_enabled :: "('s, 'x) fbsd_sys_scheme \<Rightarrow> FreeBsdDevice \<Rightarrow> bool \<Rightarrow> ('s, unit) io" where
  "fbsd_enabled K d value = io_bind (fbsd_request K d) (\<lambda>req. fbsd_ctl K (\<lambda>fd.
     io_bind (bsd_ioctl K BSD_SIOCGIFFLAGS (Struct req) (fd_inner fd)) (\<lambda>req.
     bsd_call K BSD_SIOCSIFFLAGS (Struct (blit req 16 (to_le16 (enabled_flags value (flags_of req))))) (fd_inner fd))))"

definition fbsd_mtu :: "('s, 'x) fbsd_sys_scheme \<Rightarrow> FreeBsdDevice \<Rightarrow> ('s, u16) io" where
  "fbsd_mtu K d = io_bind (fbsd_request K d) (\<lambda>req.
     io_bind (fbsd_ctl K (\<lambda>fd. bsd_ioctl K BSD_SIOCGIFMTU (Struct req) (fd_inner fd))) (\<lambda>req. io_res (mtu_of req)))"

definition fbsd_set_mtu :: "('s, 'x) fbsd_sys_scheme \<Rightarrow> FreeBsdDevice \<Rightarrow> u16 \<Rightarrow> ('s, unit) io" where
  "fbsd_set_mtu K d value = io_bind (fbsd_request K d) (\<lambda>req. fbsd_ctl K (\<lambda>fd.
     bsd_call K BSD_SIOCSIFMTU (Struct (blit req 16 (to_le32 (ucast value)))) (fd_inner fd)))"

definition fbsd_if_index :: "('s, 'x) fbsd_sys_scheme \<Rightarrow> FreeBsdDevice \<Rightarrow> ('s, u32) io" where
  "fbsd_if_index K d = bsd_if_index K (fbsd_name K d)"

definition fbsd_addresses :: "('s, 'x) fbsd_sys_scheme \<Rightarrow> FreeBsdDevice \<Rightarrow> ('s, IpAddr list) io" where
  "fbsd_addresses K d = bsd_addresses K (fbsd_name K d)"

end
