(* ===== verification/MacOs.thy ===== *)
theory MacOs
  imports BsdNet Builder
begin

text \<open>
  The macOS device (\<open>src/platform/macos/device.rs\<close>, \<open>src/platform/macos/tuntap.rs\<close>): a kernel control socket
  whose peer is an \<open>utun\<close> interface.  As on Linux every public operation holds \<open>op_lock\<close> throughout, and
  the lock is not in the model.
\<close>

section \<open>The system\<close>

text \<open>
  \<open>connect\<close>, and \<open>getsockopt(UTUN_OPT_IFNAME)\<close>, which says what it writes into the buffer.  The crate
  \<open>route_manager\<close> is a handle that is made, used and dropped; a \<open>Route\<close> is what it was made with.
\<close>

record mac_route =
  mr_network :: IpAddr
  mr_prefix :: byte
  mr_gateway :: IpAddr
  mr_if_index :: u32

record 's mac_sys = "'s bsd_sys" +
  mk_connect :: "int \<Rightarrow> byte list \<Rightarrow> 's \<Rightarrow> int \<times> 's"
  mk_ifname :: "int \<Rightarrow> nat \<Rightarrow> 's \<Rightarrow> (int \<times> byte list) \<times> 's"
  mk_route_new :: "('s, nat) io"
  mk_route_add :: "nat \<Rightarrow> mac_route \<Rightarrow> ('s, unit) io"
  mk_route_delete :: "nat \<Rightarrow> mac_route \<Rightarrow> ('s, unit) io"
  mk_route_drop :: "nat \<Rightarrow> 's \<Rightarrow> 's"

record MacConfig = DeviceConfig +
  cfg_associate_route :: "bool option"

record MacDevice =
  mc_tun :: Tun
  mc_associate_route :: bool

definition mac_layout :: sa_layout where
  "mac_layout = \<lparr>sa_has_len = True, sa_inet6 = 30\<rparr>"

definition MC_AF_INET :: nat where "MC_AF_INET = 2"
definition MC_AF_INET6 :: nat where "MC_AF_INET6 = 30"
definition MC_SOCK_DGRAM :: nat where "MC_SOCK_DGRAM = 2"
definition MC_PF_SYSTEM :: nat where "MC_PF_SYSTEM = 32"
definition MC_SYSPROTO_CONTROL :: nat where "MC_SYSPROTO_CONTROL = 2"
definition MC_AF_SYS_CONTROL :: u16 where "MC_AF_SYS_CONTROL = 2"
definition MC_IN6_IFF_NODAD :: u32 where "MC_IN6_IFF_NODAD = 0x20"

definition MC_CTLIOCGINFO :: nat where "MC_CTLIOCGINFO = iowr_request 0x4E 3 100"
definition MC_SIOCAIFADDR :: nat where "MC_SIOCAIFADDR = iow_request 0x69 26 64"
definition MC_SIOCAIFADDR_IN6 :: nat where "MC_SIOCAIFADDR_IN6 = iow_request 0x69 26 128"

text \<open>The control sockets; that \<open>set_cloexec\<close> failed is ignored.\<close>

definition mac_ctl :: "('s, 'x) mac_sys_scheme \<Rightarrow> (Fd \<Rightarrow> ('s, 'a) io) \<Rightarrow> ('s, 'a) io" where
  "mac_ctl K body = with_fd (bsd_fds K) (bk_socket K MC_AF_INET MC_SOCK_DGRAM 0)
     (\<lambda>fd. io_then (io_ignore (set_cloexec K fd)) (body fd))"

definition mac_ctl_v6 :: "('s, 'x) mac_sys_scheme \<Rightarrow> (Fd \<Rightarrow> ('s, 'a) io) \<Rightarrow> ('s, 'a) io" where
  "mac_ctl_v6 K body = with_fd (bsd_fds K) (bk_socket K MC_AF_INET6 MC_SOCK_DGRAM 0)
     (\<lambda>fd. io_then (io_ignore (set_cloexec K fd)) (body fd))"

section \<open>Creation\<close>

text \<open>
  \<open>utun<n>\<close> asks for unit \<open>n + 1\<close>, no name for unit 0, the next free one.  The addition is on \<open>u32\<close>, where
  the release profile wraps.
\<close>

definition mac_unit :: "byte list option \<Rightarrow> u32 res" where
  "mac_unit nm = (case nm of None \<Rightarrow> Ok 0
     | Some n \<Rightarrow> bind_res (unit_of_name (map of_char ''utun'') n) (\<lambda>v. Ok (v + 1)))"

definition utun_control_name :: "byte list" where
  "utun_control_name = map of_char ''com.apple.net.utun_control''"

definition ctl_info_bytes :: "byte list" where
  "ctl_info_bytes = struct_with 100 [(4, utun_control_name)]"

text \<open>\<open>sockaddr_ctl\<close>: length, family, kind, the control's id, the unit, five words of zeroes.\<close>

definition sockaddr_ctl :: "u32 \<Rightarrow> u32 \<Rightarrow> byte list" where
  "sockaddr_ctl ctl_id u = [32, of_nat MC_PF_SYSTEM] @ to_le16 MC_AF_SYS_CONTROL @ to_le32 ctl_id @ to_le32 u @ replicate 20 0"

definition mac_ifname :: "('s, 'x) mac_sys_scheme \<Rightarrow> int \<Rightarrow> ('s, byte list) io" where
  "mac_ifname K fd = (\<lambda>s. let ((r, out), s) = mk_ifname K fd 64 s
     in if r < 0 then last_os_error (bsd_fds K) s else (Ok (filled (replicate 64 0) out), s))"

definition tuntap_connect :: "('s, 'x) mac_sys_scheme \<Rightarrow> u32 \<Rightarrow> Fd \<Rightarrow> ('s, unit) io" where
  "tuntap_connect K u fd =
     io_bind (bsd_ioctl K MC_CTLIOCGINFO (Struct ctl_info_bytes) (fd_inner fd)) (\<lambda>info s.
       let (r, s) = mk_connect K (fd_inner fd) (sockaddr_ctl (get_le32 info) u) s
       in if r < 0 then last_os_error (bsd_fds K) s else (Ok (), s))"

definition tuntap_new :: "('s, 'x) mac_sys_scheme \<Rightarrow> ('c) DeviceConfig_scheme \<Rightarrow> ('s, Tun) io" where
  "tuntap_new K cfg =
     io_bind (io_res (mac_unit (cfg_dev_name cfg))) (\<lambda>u.
     io_bind (open_fd (bsd_fds K) (bk_socket K MC_PF_SYSTEM MC_SOCK_DGRAM MC_SYSPROTO_CONTROL)) (\<lambda>fd.
     io_unless
       (io_then (io_ignore (set_cloexec K fd))
       (io_then (tuntap_connect K u fd)
       (io_then (mac_ifname K (fd_inner fd))
       (io_return (set_ignore_packet_info (\<not> opt_or (cfg_packet_information cfg) False) (Tun_new fd))))))
       (close_fd (bsd_fds K) fd)))"

definition mac_new :: "('s, 'x) mac_sys_scheme \<Rightarrow> MacConfig \<Rightarrow> ('s, MacDevice) io" where
  "mac_new K cfg = io_map (\<lambda>t. \<lparr>mc_tun = t, mc_associate_route = opt_or (cfg_associate_route cfg) True\<rparr>) (tuntap_new K cfg)"

definition mac_from_tun :: "Tun \<Rightarrow> MacDevice res" where
  "mac_from_tun t = Ok \<lparr>mc_tun = t, mc_associate_route = True\<rparr>"

definition mac_from_fd :: "int \<Rightarrow> MacDevice res" where
  "mac_from_fd v = mac_from_tun (Tun_new (Fd_new_unchecked v))"

definition mac_into_raw_fd :: "MacDevice \<Rightarrow> int" where
  "mac_into_raw_fd d = fst (Fd_into_raw_fd (tun_fd (mc_tun d)))"

definition mac_fd :: "MacDevice \<Rightarrow> Fd" where
  "mac_fd d = tun_fd (mc_tun d)"

definition mac_drop :: "('s, 'x) mac_sys_scheme \<Rightarrow> MacDevice \<Rightarrow> 's \<Rightarrow> 's" where
  "mac_drop K d = close_fd (bsd_fds K) (mac_fd d)"

section \<open>Name and requests\<close>

text \<open>The name is what precedes the NUL; without one in the buffer \<open>CStr::from_ptr\<close> reads past its end.\<close>

definition mac_name :: "('s, 'x) mac_sys_scheme \<Rightarrow> MacDevice \<Rightarrow> ('s, byte list) io" where
  "mac_name K d = io_bind (mac_ifname K (fd_inner (mac_fd d)))
     (\<lambda>buf. io_res (ensure (0 \<in> set buf) (Ok (utf8_lossy (takeWhile (\<lambda>b. b \<noteq> 0) buf)))))"

definition mac_name_field :: "('s, 'x) mac_sys_scheme \<Rightarrow> MacDevice \<Rightarrow> ('s, byte list) io" where
  "mac_name_field K d = io_bind (mac_name K d) (\<lambda>n. io_res (name_field n))"

definition mac_request :: "('s, 'x) mac_sys_scheme \<Rightarrow> MacDevice \<Rightarrow> ('s, byte list) io" where
  "mac_request K d = io_map (\<lambda>field. bsd_ifreq field []) (mac_name_field K d)"

text \<open>The flags of \<open>in6_ifreq\<close> are a \<open>c_short\<close>.\<close>

definition mac_request_v6 :: "('s, 'x) mac_sys_scheme \<Rightarrow> MacDevice \<Rightarrow> ('s, byte list) io" where
  "mac_request_v6 K d = io_map (\<lambda>field. struct_with 288 [(0, field), (16, to_le16 (ucast MC_IN6_IFF_NODAD))]) (mac_name_field K d)"

definition mac_if_index :: "('s, 'x) mac_sys_scheme \<Rightarrow> MacDevice \<Rightarrow> ('s, u32) io" where
  "mac_if_index K d = bsd_if_index K (mac_name K d)"

definition mac_addresses :: "('s, 'x) mac_sys_scheme \<Rightarrow> MacDevice \<Rightarrow> ('s, IpAddr list) io" where
  "mac_addresses K d = bsd_addresses K (mac_name K d)"

section \<open>Routes\<close>

definition mac_route_of :: "IpNet \<Rightarrow> ('s, 'x) mac_sys_scheme \<Rightarrow> IpAddr \<Rightarrow> u32 \<Rightarrow> mac_route" where
  "mac_route_of net K addr i = \<lparr>mr_network = bk_network K net, mr_prefix = snd net, mr_gateway = addr, mr_if_index = i\<rparr>"

definition mac_with_route :: "('s, 'x) mac_sys_scheme \<Rightarrow> (nat \<Rightarrow> mac_route \<Rightarrow> ('s, unit) io) \<Rightarrow> MacDevice \<Rightarrow> IpAddr \<Rightarrow> IpAddr
    \<Rightarrow> bool \<Rightarrow> ('s, unit) io" where
  "mac_with_route K act d addr netmask associate_route =
     (if \<not> associate_route then io_return ()
      else io_bind (mac_if_index K d) (\<lambda>i.
        io_bind (mk_route_new K) (\<lambda>manager. io_scope
          (case bk_ipnet_with_netmask K addr netmask of
             None \<Rightarrow> io_res (invalid_input '''')
           | Some net \<Rightarrow> act manager (mac_route_of net K addr i))
          (mk_route_drop K manager))))"

definition mac_remove_route :: "('s, 'x) mac_sys_scheme \<Rightarrow> MacDevice \<Rightarrow> IpAddr \<Rightarrow> IpAddr \<Rightarrow> bool \<Rightarrow> ('s, unit) io" where
  "mac_remove_route K = mac_with_route K (mk_route_delete K)"

definition mac_add_route :: "('s, 'x) mac_sys_scheme \<Rightarrow> MacDevice \<Rightarrow> IpAddr \<Rightarrow> IpAddr \<Rightarrow> bool \<Rightarrow> ('s, unit) io" where
  "mac_add_route K = mac_with_route K (mk_route_add K)"

section \<open>Addresses\<close>

text \<open>\<open>ifaliasreq\<close>: name, address, broadcast address and mask in 16 bytes each.\<close>

definition mac_ifaliasreq :: "byte list \<Rightarrow> IpAddr \<Rightarrow> IpAddr \<Rightarrow> IpAddr \<Rightarrow> byte list" where
  "mac_ifaliasreq field addr dest msk = struct_with 64
     [(0, field), (16, sa_addr mac_layout addr), (32, sa_addr mac_layout dest), (48, sa_addr mac_layout msk)]"

definition mac_add_address :: "('s, 'x) mac_sys_scheme \<Rightarrow> MacDevice \<Rightarrow> Ipv4Addr \<Rightarrow> Ipv4Addr \<Rightarrow> Ipv4Addr \<Rightarrow> bool \<Rightarrow> ('s, unit) io" where
  "mac_add_address K d addr dest msk associate_route =
     io_bind (mac_name_field K d) (\<lambda>field.
     io_then (mac_ctl K (\<lambda>fd. bsd_call K MC_SIOCAIFADDR (Struct (mac_ifaliasreq field (V4 addr) (V4 dest) (V4 msk))) (fd_inner fd)))
       (io_ignore (mac_add_route K d (V4 addr) (V4 msk) associate_route)))"

text \<open>Deleting one address of the list, with its route.\<close>

definition mac_delete_entry :: "('s, 'x) mac_sys_scheme \<Rightarrow> MacDevice \<Rightarrow> byte list \<Rightarrow> bool \<Rightarrow> if_entry \<Rightarrow> ('s, unit) io" where
  "mac_delete_entry K d req associate_route v = (case (ife_addr v, ife_netmask v) of
     (Some addr, Some netmask) \<Rightarrow>
       if \<not> is_ipv4 addr \<or> \<not> is_ipv4 netmask then io_return ()
       else io_then
         (mac_ctl K (\<lambda>fd. bsd_call K BSD_SIOCDIFADDR (Struct (blit req 16 (sa_addr mac_layout addr))) (fd_inner fd)))
         (io_ignore (mac_remove_route K d addr netmask associate_route))
   | _ \<Rightarrow> io_return ())"

definition mac_remove_all_address_v4 :: "('s, 'x) mac_sys_scheme \<Rightarrow> MacDevice \<Rightarrow> bool \<Rightarrow> ('s, unit) io" where
  "mac_remove_all_address_v4 K d associate_route =
     io_bind (mac_request K d) (\<lambda>req.
     io_bind (mac_name K d) (\<lambda>n.
     io_match (bsd_if_addrs K n) (io_each (mac_delete_entry K d req associate_route)) (\<lambda>_. io_return ())))"

text \<open>Mask, address and the default destination; the mask is converted first.\<close>

definition mac_network_args :: "('s, 'x) mac_sys_scheme \<Rightarrow> (string \<Rightarrow> Ipv4Addr option) \<Rightarrow> addr4_arg \<Rightarrow> Ipv4Addr mask_arg
    \<Rightarrow> (Ipv4Addr \<times> Ipv4Addr \<times> Ipv4Addr) res" where
  "mac_network_args K parse address netmask =
     bind_res (netmask4 parse netmask) (\<lambda>msk.
     bind_res (ipv4 parse address) (\<lambda>addr.
     bind_res (calc_dest_addr K (V4 addr) (V4 msk)) (\<lambda>dest. case dest of
         V4 dest \<Rightarrow> Ok (addr, dest, msk)
       | V6 _ \<Rightarrow> invalid_input ''invalid destination for address/netmask'')))"

definition mac_set_network_address :: "('s, 'x) mac_sys_scheme \<Rightarrow> (string \<Rightarrow> Ipv4Addr option) \<Rightarrow> MacDevice
    \<Rightarrow> addr4_arg \<Rightarrow> Ipv4Addr mask_arg \<Rightarrow> addr4_arg option \<Rightarrow> ('s, unit) io" where
  "mac_set_network_address K parse d address netmask destination =
     io_bind (io_res (mac_network_args K parse address netmask)) (\<lambda>(addr, default_dest, msk).
     io_bind (io_res (case destination of None \<Rightarrow> Ok default_dest | Some v \<Rightarrow> ipv4 parse v)) (\<lambda>dest.
     io_then (mac_remove_all_address_v4 K d (mc_associate_route d))
       (mac_add_address K d addr dest msk (mc_associate_route d))))"

definition mac_add_address_v4 :: "('s, 'x) mac_sys_scheme \<Rightarrow> (string \<Rightarrow> Ipv4Addr option) \<Rightarrow> MacDevice
    \<Rightarrow> addr4_arg \<Rightarrow> Ipv4Addr mask_arg \<Rightarrow> ('s, unit) io" where
  "mac_add_address_v4 K parse d address netmask =
     io_bind (io_res (mac_network_args K parse address netmask)) (\<lambda>(addr, default_dest, msk).
     mac_add_address K d addr default_dest msk (mc_associate_route d))"

text \<open>The address is deleted first; the mask of its route is then looked up among the addresses there are.\<close>

definition mac_remove_address :: "('s, 'x) mac_sys_scheme \<Rightarrow> MacDevice \<Rightarrow> IpAddr \<Rightarrow> ('s, unit) io" where
  "mac_remove_address K d addr =
     (if is_ipv4 addr then
        io_bind (mac_request K d) (\<lambda>req.
        io_then (mac_ctl K (\<lambda>fd. bsd_call K BSD_SIOCDIFADDR (Struct (blit req 16 (sa_addr mac_layout addr))) (fd_inner fd)))
        (io_bind (mac_name K d) (\<lambda>n.
         io_match (bsd_if_addrs K n)
           (\<lambda>addrs. io_each (\<lambda>v. case ife_netmask v of
                Some netmask \<Rightarrow> io_ignore (mac_remove_route K d addr netmask (mc_associate_route d))
              | None \<Rightarrow> io_return ()) (filter (\<lambda>v. ife_addr v = Some addr) addrs))
           (\<lambda>_. io_return ()))))
      else
        io_bind (mac_request_v6 K d) (\<lambda>req.
        mac_ctl_v6 K (\<lambda>fd. bsd_call K BSD_SIOCDIFADDR_IN6 (Struct (blit req 16 (sa_addr6 mac_layout addr))) (fd_inner fd))))"

text \<open>
  \<open>in6_ifaliasreq\<close>: name, address, destination and mask in 28 bytes each, the flags at 100, the two lifetimes
  at 120 and 124.
\<close>

definition mac_in6_ifaliasreq :: "byte list \<Rightarrow> IpAddr \<Rightarrow> IpAddr \<Rightarrow> byte list" where
  "mac_in6_ifaliasreq field addr msk = struct_with 128 [(0, field), (16, sa_addr6 mac_layout addr), (72, sa_addr6 mac_layout msk),
     (120, to_le32 0xFFFFFFFF), (124, to_le32 0xFFFFFFFF), (100, to_le32 MC_IN6_IFF_NODAD)]"

definition mac_add_address_v6 :: "('s, 'x) mac_sys_scheme \<Rightarrow> (string \<Rightarrow> Ipv6Addr option) \<Rightarrow> MacDevice
    \<Rightarrow> addr6_arg \<Rightarrow> Ipv6Addr mask_arg \<Rightarrow> ('s, unit) io" where
  "mac_add_address_v6 K parse d address netmask =
     io_bind (io_res (ipv6 parse address)) (\<lambda>addr.
     io_bind (mac_name_field K d) (\<lambda>field.
     io_bind (io_res (prefix6 parse netmask)) (\<lambda>prefix.
     case bk_ipnet_new K (V6 addr) prefix of
       None \<Rightarrow> io_res (invalid_input '''')
     | Some net \<Rightarrow> mac_ctl_v6 K (\<lambda>fd.
         bsd_call K MC_SIOCAIFADDR_IN6 (Struct (mac_in6_ifaliasreq field (V6 addr) (bk_netmask K net))) (fd_inner fd)))))"

section \<open>Flags, MTU\<close>

definition mac_enabled :: "('s, 'x) mac_sys_scheme \<Rightarrow> MacDevice \<Rightarrow> bool \<Rightarrow> ('s, unit) io" where
  "mac_enabled K d value = mac_ctl K (\<lambda>fd. io_bind (mac_request K d) (\<lambda>req.
     io_bind (bsd_ioctl K BSD_SIOCGIFFLAGS (Struct req) (fd_inner fd)) (\<lambda>req.
     bsd_call K BSD_SIOCSIFFLAGS (Struct (blit req 16 (to_le16 (enabled_flags value (flags_of req))))) (fd_inner fd))))"

definition mac_mtu :: "('s, 'x) mac_sys_scheme \<Rightarrow> MacDevice \<Rightarrow> ('s, u16) io" where
  "mac_mtu K d = mac_ctl K (\<lambda>fd. io_bind (mac_request K d) (\<lambda>req.
     io_bind (bsd_ioctl K BSD_SIOCGIFMTU (Struct req) (fd_inner fd)) (\<lambda>req. io_res (mtu_of req))))"

definition mac_set_mtu :: "('s, 'x) mac_sys_scheme \<Rightarrow> MacDevice \<Rightarrow> u16 \<Rightarrow> ('s, unit) io" where
  "mac_set_mtu K d value = mac_ctl K (\<lambda>fd. io_bind (mac_request K d) (\<lambda>req.
     bsd_call K BSD_SIOCSIFMTU (Struct (blit req 16 (to_le32 (ucast value)))) (fd_inner fd)))"

definition mac_set_associate_route :: "bool \<Rightarrow> MacDevice \<Rightarrow> MacDevice" where
  "mac_set_associate_route associate_route d = d\<lparr>mc_associate_route := associate_route\<rparr>"

definition mac_associate_route :: "MacDevice \<Rightarrow> bool" where
  "mac_associate_route d = mc_associate_route d"

definition mac_ignore_packet_info :: "MacDevice \<Rightarrow> bool" where
  "mac_ignore_packet_info d = tun_ignore_packet_information (mc_tun d)"

definition mac_set_ignore_packet_info :: "bool \<Rightarrow> MacDevice \<Rightarrow> MacDevice" where
  "mac_set_ignore_packet_info ign d = d\<lparr>mc_tun := set_ignore_packet_info ign (mc_tun d)\<rparr>"

section \<open>Building\<close>

text \<open>\<open>build_async\<close> of the builder with the fields it has on macOS.\<close>

record MacBuilder = DeviceBuilder +
  b_associate_route :: "bool option"

definition mac_ops :: "('s, 'x) mac_sys_scheme \<Rightarrow> MacDevice \<Rightarrow> 's device_ops" where
  "mac_ops K d = \<lparr>op_set_mtu = mac_set_mtu K d,
     op_set_network_address = (\<lambda>a p dst. mac_set_network_address K (\<lambda>_. None) d (Ipv4Arg a) (PrefixArg p) (map_option Ipv4Arg dst)),
     op_add_address_v6 = (\<lambda>a p. mac_add_address_v6 K (\<lambda>_. None) d (Ipv6Arg a) (PrefixArg p)),
     op_enabled = mac_enabled K d\<rparr>"

definition mac_build_config :: "MacBuilder \<Rightarrow> MacConfig \<times> DeviceBuilder" where
  "mac_build_config b = (case build_config (DeviceBuilder.truncate b) of
     (cfg, c) \<Rightarrow> (DeviceConfig.extend cfg \<lparr>cfg_associate_route = b_associate_route b\<rparr>, c))"

definition mac_build_sync :: "('s, 'x) mac_sys_scheme \<Rightarrow> MacBuilder \<Rightarrow> ('s, MacDevice) io" where
  "mac_build_sync K b = (case mac_build_config b of (cfg, c) \<Rightarrow>
     io_bind (mac_new K cfg) (\<lambda>d. io_unless (io_then (config (mac_ops K d) c) (io_return d)) (mac_drop K d)))"

definition mac_build_async :: "('s, 'x) mac_sys_scheme \<Rightarrow> (Fd \<Rightarrow> ('s, unit) io) \<Rightarrow> MacBuilder \<Rightarrow> ('s, MacDevice) io" where
  "mac_build_async K register b = io_bind (mac_build_sync K b) (\<lambda>d. io_map (\<lambda>_. d) (new_dev (bsd_fds K) register (mac_fd d)))"

end
