(* ===== verification/BsdSpec.thy ===== *)
theory BsdSpec
  imports FreeBsd MacOs
begin

text \<open>
  Properties of the FreeBSD and macOS devices: what their operations leave alone, that no descriptor is leaked, names
  and their numbers, what replacing an address and dropping a device do.
\<close>

section \<open>What is left alone\<close>

text \<open>
  \<open>f\<close> reads some part of the state.  A call that \<open>keeps\<close> it leaves it; a scoped one may change it, but closing what it
  opened undoes that.
\<close>

definition scoped_fd :: "('s, 'x) bsd_sys_scheme \<Rightarrow> ('s \<Rightarrow> 'v) \<Rightarrow> ('s \<Rightarrow> int \<times> 's) \<Rightarrow> bool" where
  "scoped_fd K f call \<longleftrightarrow> (\<forall>s. case call s of (v, s1) \<Rightarrow>
     if v < 0 then f s1 = f s else \<forall>s2. f s2 = f s1 \<longrightarrow> f (sys_close K v s2) = f s)"

definition bsd_quiet :: "('s, 'x) bsd_sys_scheme \<Rightarrow> ('s \<Rightarrow> 'v) \<Rightarrow> bool" where
  "bsd_quiet K f \<longleftrightarrow> (\<forall>dom kind proto. scoped_fd K f (bk_socket K dom kind proto))
     \<and> (\<forall>fd r a. keeps f (bk_ioctl K fd r a)) \<and> (\<forall>fd c a. keeps f (bk_fcntl K fd c a))
     \<and> (\<forall>n. keeps f (bk_if_nametoindex K n)) \<and> io_preserves f (bk_getifaddrs K)"

lemma bsd_fds_simps [simp]: "sys_close (bsd_fds K) = sys_close K" "sys_errno (bsd_fds K) = sys_errno K"
  by (simp_all add: fd_sys.truncate_def)

lemma last_os_error_preserves [io_pres]: "io_preserves f (last_os_error K)"
  by (simp add: io_preserves_def last_os_error_def)

lemma io_preserves_ignore [io_pres]: "io_preserves f m \<Longrightarrow> io_preserves f (io_ignore m)"
  by (simp add: io_ignore_def io_preserves_match)

lemma io_preserves_prod [io_pres]: "(\<And>a b. io_preserves f (g a b)) \<Longrightarrow> io_preserves f (case x of (a, b) \<Rightarrow> g a b)"
  by (cases x) simp

lemma open_fd_cases:
  assumes "call s = (v, s1)"
  shows "open_fd (bsd_fds K) call s =
    (if v < 0 then (Err (OsError (sys_errno K s1)), s1) else (Ok \<lparr>fd_inner = v, fd_borrow = False\<rparr>, s1))"
  using assms by (simp add: open_fd_def Fd_new_def last_os_error_def io_return_def Fd_new_unchecked_def Fd_new_unchecked_with_borrow_def)

lemma close_fd_owned: "0 \<le> v \<Longrightarrow> close_fd (bsd_fds K) \<lparr>fd_inner = v, fd_borrow = False\<rparr> s = sys_close K v s"
  by (simp add: close_fd_def Fd_drop_def)

lemma scoped_fd_preserves:
  assumes "scoped_fd K f call" "\<And>fd. io_preserves f (body fd)"
  shows "io_preserves f (with_fd (bsd_fds K) call body)"
proof -
  have "f (snd (with_fd (bsd_fds K) call body s)) = f s" for s
  proof -
    obtain v s1 where c: "call s = (v, s1)" by force
    let ?fd = "\<lparr>fd_inner = v, fd_borrow = False\<rparr>"
    obtain r s2 where b: "body ?fd s1 = (r, s2)" by force
    have "f s2 = f s1" by (rule io_preservesD [OF assms(2) b])
    moreover have "if v < 0 then f s1 = f s else \<forall>s2. f s2 = f s1 \<longrightarrow> f (sys_close K v s2) = f s"
      using assms(1) c unfolding scoped_fd_def by (auto dest!: spec [of _ s])
    ultimately show ?thesis using b
      by (auto simp: with_fd_def io_bind_def io_scope_def open_fd_cases [of call, OF c] close_fd_owned split: if_splits)
  qed
  then show ?thesis by (simp add: io_preserves_def)
qed

lemma bsd_ioctl_preserves:
  assumes "bsd_quiet K f"
  shows "io_preserves f (bsd_ioctl K r a fd)" "io_preserves f (bsd_call K r a fd)"
proof -
  have q: "keeps f (bk_ioctl K fd r a)" using assms by (simp add: bsd_quiet_def)
  show "io_preserves f (bsd_ioctl K r a fd)"
    by (auto simp: io_preserves_def bsd_ioctl_def split: prod.splits dest!: keepsD [OF q])
  then show "io_preserves f (bsd_call K r a fd)" by (simp add: bsd_call_def io_pres)
qed

lemma bsd_misc_preserves:
  assumes "bsd_quiet K f"
  shows "io_preserves f (set_cloexec K fd)" "io_preserves f (bk_getifaddrs K)" "io_preserves f (bsd_if_addrs K n)"
    "io_preserves f (\<lambda>s. let (i, s) = bk_if_nametoindex K n s in (Ok i, s))"
proof -
  have q: "keeps f (bk_fcntl K v c x)" "keeps f (bk_if_nametoindex K m)" for v c x m
    using assms by (simp_all add: bsd_quiet_def)
  show "io_preserves f (set_cloexec K fd)"
    by (auto simp: io_preserves_def set_cloexec_def last_os_error_def Let_def split: prod.splits dest!: keepsD [OF q(1)])
  show "io_preserves f (bk_getifaddrs K)" using assms by (simp add: bsd_quiet_def)
  then show "io_preserves f (bsd_if_addrs K n)" by (simp add: bsd_if_addrs_def io_pres)
  show "io_preserves f (\<lambda>s. let (i, s) = bk_if_nametoindex K n s in (Ok i, s))"
    by (auto simp: io_preserves_def split: prod.splits dest!: keepsD [OF q(2)])
qed

lemma bsd_if_preserves:
  assumes "bsd_quiet K f" "io_preserves f nm"
  shows "io_preserves f (bsd_if_index K nm)" "io_preserves f (bsd_addresses K nm)"
  unfolding bsd_if_index_def bsd_addresses_def by (intro io_pres bsd_misc_preserves assms)+

text \<open>A call that opens, in the account of open descriptors, is scoped.\<close>

lemma opens_new_scoped:
  assumes "opens_new opens call" "\<And>v s. opens (sys_close K v s) = opens s - {v}"
  shows "scoped_fd K opens call"
  using assms(1) unfolding scoped_fd_def opens_new_def by (auto simp: assms(2) split: prod.splits if_splits)

section \<open>FreeBSD\<close>

definition fbsd_quiet :: "('s, 'x) fbsd_sys_scheme \<Rightarrow> ('s \<Rightarrow> 'v) \<Rightarrow> bool" where
  "fbsd_quiet K f \<longleftrightarrow> bsd_quiet K f \<and> (\<forall>fd. keeps f (fk_kinfo_path K fd))
     \<and> (\<forall>net n. io_preserves f (fk_route_add K net n))"

lemma fbsd_quiet_bsd: "fbsd_quiet K f \<Longrightarrow> bsd_quiet K f"
  by (simp add: fbsd_quiet_def)

lemma fbsd_ctl_preserves:
  assumes "fbsd_quiet K f" "\<And>fd. io_preserves f (body fd)"
  shows "io_preserves f (fbsd_ctl K body)" "io_preserves f (fbsd_ctl_v6 K body)"
  using assms by (auto simp: fbsd_ctl_def fbsd_ctl_v6_def fbsd_quiet_def bsd_quiet_def intro!: scoped_fd_preserves)

lemma fbsd_name_preserves:
  assumes "fbsd_quiet K f"
  shows "io_preserves f (fbsd_name K d)" "io_preserves f (fbsd_request K d)" "io_preserves f (fbsd_request_v6 K d)"
proof -
  have k: "keeps f (fk_kinfo_path K v)" for v using assms by (simp add: fbsd_quiet_def)
  show "io_preserves f (fbsd_name K d)"
    by (auto simp: io_preserves_def fbsd_name_def name_of_fd_def last_os_error_def split: prod.splits dest!: keepsD [OF k])
  then show "io_preserves f (fbsd_request K d)" "io_preserves f (fbsd_request_v6 K d)"
    by (simp_all add: fbsd_request_def fbsd_request_v6_def io_pres)
qed

lemma fbsd_route_preserves:
  assumes "fbsd_quiet K f"
  shows "io_preserves f (fbsd_add_route K d addr msk r)"
proof -
  have "io_preserves f (fk_route_add K net n)" for net n using assms by (simp add: fbsd_quiet_def)
  then show ?thesis unfolding fbsd_add_route_def by (intro io_pres fbsd_name_preserves assms)
qed

lemmas fbsd_preserve_rules = fbsd_ctl_preserves fbsd_name_preserves fbsd_route_preserves
  bsd_ioctl_preserves [OF fbsd_quiet_bsd] bsd_misc_preserves [OF fbsd_quiet_bsd] bsd_if_preserves [OF fbsd_quiet_bsd]

lemma fbsd_io_preserves:
  assumes "fbsd_quiet K f"
  shows "io_preserves f (fbsd_add_address K d addr msk dest r)" "io_preserves f (fbsd_delete_any K req)"
    "io_preserves f (fbsd_add_address_v4 K parse d a m)" "io_preserves f (fbsd_add_address_v6 K parse6 d a6 m6)"
    "io_preserves f (fbsd_remove_address K d addr)" "io_preserves f (fbsd_set_name K d n)"
    "io_preserves f (fbsd_enabled K d b)" "io_preserves f (fbsd_mtu K d)" "io_preserves f (fbsd_set_mtu K d v)"
    "io_preserves f (fbsd_if_index K d)" "io_preserves f (fbsd_addresses K d)" "io_preserves f (fbsd_enable_tunsifhead K d)"
    "io_preserves f (enable_tunsifhead_impl K fd)" "io_preserves f (disable_local_ipv6 K d)"
  by (auto simp: fbsd_add_address_def fbsd_delete_any_def fbsd_add_address_v4_def fbsd_add_address_v6_def fbsd_remove_address_def
      fbsd_set_name_def fbsd_enabled_def fbsd_mtu_def fbsd_set_mtu_def fbsd_if_index_def fbsd_addresses_def
      fbsd_enable_tunsifhead_def enable_tunsifhead_impl_def disable_local_ipv6_def Let_def
      intro!: io_pres fbsd_preserve_rules [OF assms])

lemma fbsd_delete_all_keeps_raw:
  assumes "fbsd_quiet K f" "fbsd_delete_all K req s = Some x"
  shows "f (snd x) = f s"
proof -
  have "fbsd_quiet K f \<longrightarrow> f (snd x) = f s"
  proof (induction rule: fbsd_delete_all.raw_induct [OF _ assms(2)])
    case (1 self K req s x)
    show ?case
    proof
      assume q: "fbsd_quiet K f"
      obtain a s1 where a: "fbsd_delete_any K req s = (a, s1)" by force
      have "f s1 = f s" by (rule io_preservesD [OF fbsd_io_preserves(2) [OF q] a])
      then show "f (snd x) = f s" using 1(2) [unfolded a] 1(1) [of K req s1 x] q by (auto split: res.splits if_splits)
    qed
  qed
  then show ?thesis using assms(1) by simp
qed

lemma fbsd_delete_all_keeps: "fbsd_quiet K f \<Longrightarrow> fbsd_delete_all K req s = Some (r, s') \<Longrightarrow> f s' = f s"
  using fbsd_delete_all_keeps_raw by fastforce

lemma fbsd_set_network_keeps:
  assumes q: "fbsd_quiet K f" and r: "fbsd_set_network_address K parse d a m dst s = Some (r, s')"
  shows "f s' = f s"
proof -
  have *: "f t' = f t" if "fbsd_remove_all_address_v4 K d t = Some (x, t')" for t x t'
  proof -
    obtain y u where y: "fbsd_request K d t = (y, u)" by force
    have "f u = f t" by (rule io_preservesD [OF fbsd_name_preserves(2) [OF q] y])
    then show ?thesis using that y fbsd_delete_all_keeps [OF q, of _ u x t']
      by (auto simp: fbsd_remove_all_address_v4_def split: res.splits)
  qed
  show ?thesis
  proof (cases "fbsd_network_args K parse a m dst")
    case (Ok args)
    obtain addr msk dest where args: "args = (addr, msk, dest)" by (cases args)
    obtain x t where x: "fbsd_remove_all_address_v4 K d s = Some (x, t)"
      using r Ok by (auto simp: fbsd_set_network_address_def split: option.splits prod.splits)
    show ?thesis
      using r x Ok args * [OF x] io_preservesD [OF fbsd_io_preserves(1) [OF q, of d addr msk "Some dest" "fb_associate_route d"], of t r s']
      by (auto simp: fbsd_set_network_address_def split: res.splits)
  qed (use r in \<open>auto simp: fbsd_set_network_address_def\<close>)
qed

text \<open>
  The public operations and their sequences; a caller may go on after an error.  One of them may not return.
\<close>

datatype bsd_op =
    SetNetworkTo addr4_arg "Ipv4Addr mask_arg" "addr4_arg option" | AddV4Addr addr4_arg "Ipv4Addr mask_arg"
  | AddV6Addr addr6_arg "Ipv6Addr mask_arg" | RemoveAddr IpAddr | GetName | GetIfIndex | GetAddresses
  | SetEnabledTo bool | SetMtuOf u16 | GetMtu | SetAssociateRoute bool | SetIgnorePi bool

datatype fbsd_op = Common bsd_op | SetNameTo "byte list" | Tunsifhead

fun fbsd_common :: "('s, 'x) fbsd_sys_scheme \<Rightarrow> parsers \<Rightarrow> bsd_op \<Rightarrow> FreeBsdDevice \<times> 's \<Rightarrow> (FreeBsdDevice \<times> 's) option" where
  "fbsd_common K P (SetNetworkTo a m dst) (d, s) = map_option (\<lambda>(_, s). (d, s)) (fbsd_set_network_address K (fst P) d a m dst s)"
| "fbsd_common K P (AddV4Addr a m) (d, s) = Some (d, snd (fbsd_add_address_v4 K (fst P) d a m s))"
| "fbsd_common K P (AddV6Addr a m) (d, s) = Some (d, snd (fbsd_add_address_v6 K (snd P) d a m s))"
| "fbsd_common K P (RemoveAddr ip) (d, s) = Some (d, snd (fbsd_remove_address K d ip s))"
| "fbsd_common K P GetName (d, s) = Some (d, snd (fbsd_name K d s))"
| "fbsd_common K P GetIfIndex (d, s) = Some (d, snd (fbsd_if_index K d s))"
| "fbsd_common K P GetAddresses (d, s) = Some (d, snd (fbsd_addresses K d s))"
| "fbsd_common K P (SetEnabledTo b) (d, s) = Some (d, snd (fbsd_enabled K d b s))"
| "fbsd_common K P (SetMtuOf v) (d, s) = Some (d, snd (fbsd_set_mtu K d v s))"
| "fbsd_common K P GetMtu (d, s) = Some (d, snd (fbsd_mtu K d s))"
| "fbsd_common K P (SetAssociateRoute b) (d, s) = Some (fbsd_set_associate_route b d, s)"
| "fbsd_common K P (SetIgnorePi b) (d, s) = Some (fbsd_set_ignore_packet_info b d, s)"

fun fbsd_run :: "('s, 'x) fbsd_sys_scheme \<Rightarrow> parsers \<Rightarrow> fbsd_op \<Rightarrow> FreeBsdDevice \<times> 's \<Rightarrow> (FreeBsdDevice \<times> 's) option" where
  "fbsd_run K P (Common op) x = fbsd_common K P op x"
| "fbsd_run K P (SetNameTo n) (d, s) = Some (d, snd (fbsd_set_name K d n s))"
| "fbsd_run K P Tunsifhead (d, s) = Some (d, snd (fbsd_enable_tunsifhead K d s))"

fun fbsd_runs :: "('s, 'x) fbsd_sys_scheme \<Rightarrow> parsers \<Rightarrow> fbsd_op list \<Rightarrow> FreeBsdDevice \<times> 's \<Rightarrow> (FreeBsdDevice \<times> 's) option" where
  "fbsd_runs K P [] x = Some x"
| "fbsd_runs K P (op # ops) x = Option.bind (fbsd_run K P op x) (fbsd_runs K P ops)"

lemma io_preserves_snd: "io_preserves f m \<Longrightarrow> f (snd (m s)) = f s"
  by (simp add: io_preserves_def)

lemmas fbsd_io_keeps = io_preserves_snd [OF fbsd_io_preserves(3)] io_preserves_snd [OF fbsd_io_preserves(4)]
  io_preserves_snd [OF fbsd_io_preserves(5)] io_preserves_snd [OF fbsd_io_preserves(6)] io_preserves_snd [OF fbsd_io_preserves(7)]
  io_preserves_snd [OF fbsd_io_preserves(8)] io_preserves_snd [OF fbsd_io_preserves(9)] io_preserves_snd [OF fbsd_io_preserves(10)]
  io_preserves_snd [OF fbsd_io_preserves(11)] io_preserves_snd [OF fbsd_io_preserves(12)] io_preserves_snd [OF fbsd_name_preserves(1)]

lemma fbsd_common_keeps:
  assumes q: "fbsd_quiet K f" and r: "fbsd_common K P op (d, s) = Some (d', s')"
  shows "fb_fd d' = fb_fd d \<and> f s' = f s"
proof (cases op)
  case (SetNetworkTo a m dst)
  then show ?thesis using r fbsd_set_network_keeps [OF q, of "fst P" d a m dst s _ s'] by auto
qed (use r in \<open>auto simp: fbsd_set_associate_route_def fbsd_set_ignore_packet_info_def fb_fd_def set_ignore_packet_info_def fbsd_io_keeps [OF q]\<close>)

lemma fbsd_run_keeps:
  assumes q: "fbsd_quiet K f" and r: "fbsd_run K P op (d, s) = Some (d', s')"
  shows "fb_fd d' = fb_fd d \<and> f s' = f s"
  using r fbsd_common_keeps [OF q] by (cases op) (auto simp: fbsd_io_keeps [OF q])

lemma fbsd_runs_keeps:
  assumes q: "fbsd_quiet K f"
  shows "fbsd_runs K P ops (d, s) = Some (d', s') \<Longrightarrow> fb_fd d' = fb_fd d \<and> f s' = f s"
proof (induction ops arbitrary: d s)
  case (Cons op ops)
  then obtain d1 s1 where "fbsd_run K P op (d, s) = Some (d1, s1)" "fbsd_runs K P ops (d1, s1) = Some (d', s')"
    by (auto split: option.splits bind_splits)
  then show ?case using fbsd_run_keeps [OF q] Cons.IH by metis
qed simp

section \<open>The account of descriptors\<close>

text \<open>
  What is assumed of the systems: \<open>opens\<close> are the open descriptors; \<open>socket\<close> and \<open>open\<close> return a negative number
  and change nothing or add a new one, \<open>close\<close> takes one away, nothing else opens or closes any.
\<close>

definition bsd_account :: "('s, 'x) bsd_sys_scheme \<Rightarrow> ('s \<Rightarrow> int set) \<Rightarrow> bool" where
  "bsd_account K opens \<longleftrightarrow> (\<forall>dom kind proto. opens_new opens (bk_socket K dom kind proto))
     \<and> (\<forall>v s. opens (sys_close K v s) = opens s - {v})
     \<and> (\<forall>fd r a. keeps opens (bk_ioctl K fd r a)) \<and> (\<forall>fd c a. keeps opens (bk_fcntl K fd c a))
     \<and> (\<forall>n. keeps opens (bk_if_nametoindex K n)) \<and> io_preserves opens (bk_getifaddrs K)"

definition fbsd_account :: "('s, 'x) fbsd_sys_scheme \<Rightarrow> ('s \<Rightarrow> int set) \<Rightarrow> bool" where
  "fbsd_account K opens \<longleftrightarrow> bsd_account K opens \<and> (\<forall>p. opens_new opens (fk_open K p))
     \<and> (\<forall>fd. keeps opens (fk_kinfo_path K fd)) \<and> (\<forall>net n. io_preserves opens (fk_route_add K net n))"

lemma bsd_account_quiet: "bsd_account K opens \<Longrightarrow> bsd_quiet K opens"
  by (auto simp: bsd_account_def bsd_quiet_def intro: opens_new_scoped)

lemma bsd_account_close: "bsd_account K opens \<Longrightarrow> opens (sys_close K v s) = opens s - {v}"
  by (simp add: bsd_account_def)

lemma fbsd_account_quiet: "fbsd_account K opens \<Longrightarrow> fbsd_quiet K opens"
  by (simp add: fbsd_account_def fbsd_quiet_def bsd_account_quiet)

text \<open>What a step that opens a descriptor leaves: with \<open>p\<close> the new one of its result.\<close>

definition holds_fd :: "('s \<Rightarrow> int set) \<Rightarrow> ('d \<Rightarrow> Fd) \<Rightarrow> 's \<Rightarrow> 'd res \<times> 's \<Rightarrow> bool" where
  "holds_fd opens p s r \<longleftrightarrow> (case r of
      (Ok d, s') \<Rightarrow> fd_borrow (p d) = False \<and> 0 \<le> fd_inner (p d) \<and> fd_inner (p d) \<notin> opens s
        \<and> opens s' = insert (fd_inner (p d)) (opens s)
    | (_, s') \<Rightarrow> opens s' = opens s)"

lemma holds_open_fd:
  assumes "opens_new opens call"
  shows "holds_fd opens (\<lambda>fd. fd) s (open_fd (bsd_fds K) call s)"
proof -
  obtain v s1 where c: "call s = (v, s1)" by force
  have "case call s of (v, s') \<Rightarrow> if v < 0 then opens s' = opens s else v \<notin> opens s \<and> opens s' = insert v (opens s)"
    using assms unfolding opens_new_def by (rule spec)
  then show ?thesis by (simp add: c holds_fd_def open_fd_cases [of call, OF c])
qed

text \<open>A step that may fail, with what was opened closed on failure.\<close>

lemma holds_unless:
  assumes h: "holds_fd opens p s (m s)" and body: "\<And>d. io_preserves opens (body d)"
    and fd: "\<And>d t e t'. body d t = (Ok e, t') \<Longrightarrow> q e = p d"
    and drp: "\<And>d t. fd_borrow (p d) = False \<Longrightarrow> 0 \<le> fd_inner (p d) \<Longrightarrow> opens (drp d t) = opens t - {fd_inner (p d)}"
  shows "holds_fd opens q s (io_bind m (\<lambda>d. io_unless (body d) (drp d)) s)"
proof -
  obtain r s1 where m: "m s = (r, s1)" by force
  show ?thesis
  proof (cases r)
    case (Ok d)
    obtain x s2 where b: "body d s1 = (x, s2)" by force
    have "opens s2 = opens s1" by (rule io_preservesD [OF body b])
    then show ?thesis using h m Ok b fd [of d s1 _ s2] drp [of d s2]
      by (cases x) (auto simp: holds_fd_def io_bind_def io_unless_def)
  qed (use h m in \<open>auto simp: holds_fd_def io_bind_def\<close>)
qed

lemma holds_bind_pure:
  assumes "\<And>a. holds_fd opens q s (n a s)"
  shows "holds_fd opens q s (io_bind (io_res r) n s)"
  using assms by (cases r) (auto simp: holds_fd_def io_bind_def io_res_def)

lemma holds_open_free:
  assumes acc: "fbsd_account K opens"
  shows "holds_fd opens (\<lambda>fd. fd) s (fbsd_open_free K is s)"
proof (induction "is" arbitrary: s)
  case Nil
  then show ?case by (simp add: holds_fd_def io_fail_def)
next
  case (Cons i "is")
  have h: "holds_fd opens (\<lambda>fd. fd) s (open_fd (bsd_fds K) (fk_open K (fbsd_dev_path i)) s)"
    using acc by (intro holds_open_fd) (simp add: fbsd_account_def)
  obtain r s1 where r: "open_fd (bsd_fds K) (fk_open K (fbsd_dev_path i)) s = (r, s1)" by force
  have "r \<noteq> Panic" using r by (auto simp: open_fd_def Fd_new_def last_os_error_def io_return_def split: prod.splits if_splits)
  then show ?case using h r Cons [of s1]
    by (cases r) (auto simp: holds_fd_def io_match_def io_return_def io_fail_def split: res.splits prod.splits)
qed

lemma holds_open:
  assumes acc: "fbsd_account K opens"
  shows "holds_fd opens (\<lambda>fd. fd) s (fbsd_open K index s)"
proof (cases index)
  case (Some i)
  then show ?thesis using acc by (auto simp: fbsd_open_def fbsd_account_def intro: holds_open_fd)
qed (simp add: fbsd_open_def holds_open_free [OF acc])

lemma close_fd_opens: "bsd_account K opens \<Longrightarrow> fd_borrow fd = False \<Longrightarrow> 0 \<le> fd_inner fd
    \<Longrightarrow> opens (close_fd (bsd_fds K) fd t) = opens t - {fd_inner fd}"
  by (simp add: close_fd_def Fd_drop_def bsd_account_close)

text \<open>Dropping a FreeBSD device, with whatever \<open>f\<close> the calls on the way leave alone.\<close>

lemma fbsd_destroy_keeps:
  assumes q: "fbsd_quiet K f"
  shows "f (fbsd_destroy K d s) = f s"
proof -
  define act where "act = (\<lambda>(fd :: Fd) s. case fbsd_request K d s of
      (Ok req, s) \<Rightarrow> (Ok (), snd (bsd_call K FB_SIOCIFDESTROY (Struct req) (fd_inner fd) s)) | (_, s) \<Rightarrow> (Ok (), s))"
  have "io_preserves f (act fd)" for fd
    using io_preserves_snd [OF bsd_ioctl_preserves(2) [OF fbsd_quiet_bsd [OF q]]]
      io_preserves_snd [OF fbsd_name_preserves(2) [OF q, of d]]
    by (auto simp: io_preserves_def act_def split: prod.splits res.splits) (metis snd_conv)+
  then have w: "io_preserves f (with_fd (bsd_fds K) (bk_socket K FB_AF_INET FB_SOCK_DGRAM_CLOEXEC 0) act)"
    using q by (intro scoped_fd_preserves) (auto simp: fbsd_quiet_def bsd_quiet_def)
  obtain v s1 where c: "bk_socket K FB_AF_INET FB_SOCK_DGRAM_CLOEXEC 0 s = (v, s1)" by force
  note o = open_fd_cases [of "bk_socket K FB_AF_INET FB_SOCK_DGRAM_CLOEXEC 0", OF c]
  show ?thesis
  proof (cases "v < 0")
    case True
    have "f s1 = f s" using io_preserves_snd [OF w, of s] True by (simp add: with_fd_def io_bind_def o)
    then show ?thesis using True io_preserves_snd [OF fbsd_name_preserves(2) [OF q, of d], of s1]
      by (auto simp: fbsd_destroy_def o split: prod.splits)
  next
    case False
    then have "fbsd_destroy K d s = snd (with_fd (bsd_fds K) (bk_socket K FB_AF_INET FB_SOCK_DGRAM_CLOEXEC 0) act s)"
      by (auto simp: fbsd_destroy_def with_fd_def io_bind_def io_scope_def o act_def split: prod.splits res.splits)
    then show ?thesis using io_preserves_snd [OF w, of s] by simp
  qed
qed

lemma fbsd_drop_opens:
  assumes acc: "fbsd_account K opens" and "0 \<le> fd_inner (fb_fd d)"
  shows "opens (fbsd_drop K d s) = opens s - {fd_inner (fb_fd d)}"
  using assms fbsd_destroy_keeps [OF fbsd_account_quiet [OF acc]]
  by (simp add: fbsd_drop_def Let_def close_fd_def Fd_drop_def fb_fd_def bsd_account_close fbsd_account_def)

lemma io_then_unless: "io_then (io_unless m c) (n a) = io_bind (io_unless (io_then m (io_return a)) c) n"
  by (auto simp: io_then_def io_bind_def io_unless_def io_return_def fun_eq_iff split: prod.splits res.splits)

lemma fbsd_new_eq: "fbsd_new K cfg = io_bind (io_res (fbsd_dev_index cfg)) (\<lambda>index.
     io_bind (io_bind (fbsd_open K index) (\<lambda>fd. io_unless (io_then (enable_tunsifhead_impl K fd) (io_return fd)) (close_fd (bsd_fds K) fd)))
       (\<lambda>fd. let d = fbsd_device fd (\<not> opt_or (cfg_packet_information cfg) False)
        in io_unless (io_then (disable_local_ipv6 K d) (io_return d)) (fbsd_drop K d)))"
  by (simp only: fbsd_new_def io_bind_assoc io_then_unless [where n = "\<lambda>fd. let d = fbsd_device fd (\<not> opt_or (cfg_packet_information cfg) False)
    in io_unless (io_then (disable_local_ipv6 K d) (io_return d)) (fbsd_drop K d)"])

lemma io_then_return_result: "io_then m (io_return d) t = (Ok e, t') \<Longrightarrow> e = d"
  by (auto simp: io_then_def io_bind_def io_return_def split: prod.splits res.splits)

lemma fbsd_new_holds:
  assumes acc: "fbsd_account K opens"
  shows "holds_fd opens fb_fd s (fbsd_new K cfg s)"
proof -
  have q: "fbsd_quiet K opens" and b: "bsd_account K opens" using acc fbsd_account_quiet by (auto simp: fbsd_account_def)
  have 1: "holds_fd opens (\<lambda>fd. fd) s (io_bind (fbsd_open K index)
      (\<lambda>fd. io_unless (io_then (enable_tunsifhead_impl K fd) (io_return fd)) (close_fd (bsd_fds K) fd)) s)" for index
    by (rule holds_unless [where p = "\<lambda>fd. fd" and q = "\<lambda>fd. fd", OF holds_open [OF acc]])
      (auto intro!: io_pres fbsd_io_preserves [OF q] simp: close_fd_opens [OF b] dest: io_then_return_result)
  have fd: "fb_fd (fbsd_device fd ig) = fd" for fd ig by (simp add: fb_fd_def fbsd_device_def set_ignore_packet_info_def Tun_new_def)
  show ?thesis unfolding fbsd_new_eq Let_def
    by (rule holds_bind_pure, rule holds_unless [where p = "\<lambda>fd. fd" and q = fb_fd], rule 1)
      (auto intro!: io_pres fbsd_io_preserves [OF q] simp: fbsd_drop_opens [OF acc] fd dest!: io_then_return_result)
qed

text \<open>
  C33. A FreeBSD device leaks no descriptor: creation leaves its own one open in addition, or none when it fails at
  whatever step; no sequence of operations, in any order and whether they fail or not, changes that when it returns; and dropping the
  device closes it.
\<close>

theorem fbsd_lifecycle_closes:
  assumes "fbsd_account K opens"
  shows "case fbsd_new K cfg s of
      (Ok d, s') \<Rightarrow> fd_inner (fb_fd d) \<notin> opens s \<and> opens s' = insert (fd_inner (fb_fd d)) (opens s)
        \<and> (case fbsd_runs K P ops (d, s') of None \<Rightarrow> True
           | Some (d', t) \<Rightarrow> opens t = insert (fd_inner (fb_fd d)) (opens s) \<and> opens (fbsd_drop K d' t) = opens s)
    | (_, s') \<Rightarrow> opens s' = opens s"
proof -
  obtain r s' where r: "fbsd_new K cfg s = (r, s')" by force
  show ?thesis
  proof (cases r)
    case (Ok d)
    have h: "0 \<le> fd_inner (fb_fd d)" "fd_inner (fb_fd d) \<notin> opens s" "opens s' = insert (fd_inner (fb_fd d)) (opens s)"
      using fbsd_new_holds [OF assms, of s cfg] r Ok by (simp_all add: holds_fd_def)
    then show ?thesis using r Ok fbsd_runs_keeps [OF fbsd_account_quiet [OF assms], of P ops d s'] fbsd_drop_opens [OF assms]
      by (auto split: option.splits)
  qed (use fbsd_new_holds [OF assms, of s cfg] r in \<open>auto simp: holds_fd_def\<close>)
qed

section \<open>Replacing the addresses\<close>

text \<open>
  What is assumed of the FreeBSD kernel about the IPv4 addresses \<open>v4\<close> of an interface, each what follows the name in
  an \<open>ifaliasreq\<close>: \<open>SIOCDIFADDR\<close> without an address takes the first away and says \<open>EADDRNOTAVAIL\<close> only when
  there is none; \<open>SIOCAIFADDR\<close> adds one; a request that fails changes nothing, nothing else changes them.
\<close>

definition v4_addresses :: "('s, 'x) fbsd_sys_scheme \<Rightarrow> byte list \<Rightarrow> ('s \<Rightarrow> byte list list) \<Rightarrow> bool" where
  "v4_addresses K field v4 \<longleftrightarrow> (\<forall>dom kind proto. keeps v4 (bk_socket K dom kind proto))
     \<and> (\<forall>v s. v4 (sys_close K v s) = v4 s) \<and> (\<forall>fd. keeps v4 (fk_kinfo_path K fd))
     \<and> (\<forall>net n. io_preserves v4 (fk_route_add K net n))
     \<and> (\<forall>fd s. case bk_ioctl K fd BSD_SIOCDIFADDR (Struct (bsd_ifreq field [])) s of ((r, out), s') \<Rightarrow>
          if r = -1 then v4 s' = v4 s \<and> (sys_errno K s' = FB_EADDRNOTAVAIL \<longrightarrow> v4 s = [])
          else v4 s \<noteq> [] \<and> v4 s' = tl (v4 s))
     \<and> (\<forall>fd req s. take IFNAMSIZ req = field \<longrightarrow> (case bk_ioctl K fd FB_SIOCAIFADDR (Struct req) s of ((r, out), s') \<Rightarrow>
          v4 s' = (if r = -1 then v4 s else v4 s @ [drop IFNAMSIZ req])))"

lemma with_fd_cases:
  assumes v: "\<And>v s. f (sys_close K v s) = f s" and c: "keeps f call"
    and r: "with_fd (bsd_fds K) call body s = (r, s')"
  shows "(\<exists>fd s1 s2. f s1 = f s \<and> body fd s1 = (r, s2) \<and> f s' = f s2) \<or> (\<exists>e. r = Err e \<and> f s' = f s)"
proof -
  obtain v s1 where c1: "call s = (v, s1)" by force
  have f1: "f s1 = f s" using c c1 by (rule keepsD)
  obtain x s2 where b: "body \<lparr>fd_inner = v, fd_borrow = False\<rparr> s1 = (x, s2)" by force
  show ?thesis
  proof (cases "v < 0")
    case True
    then show ?thesis using r f1 by (auto simp: with_fd_def io_bind_def open_fd_cases [of call, OF c1])
  next
    case False
    then have "r = x" "s' = sys_close K v s2"
      using r b by (auto simp: with_fd_def io_bind_def io_scope_def open_fd_cases [of call, OF c1] close_fd_owned)
    then show ?thesis using b f1 v by blast
  qed
qed

lemma v4_addressesD:
  assumes "v4_addresses K field v4"
  shows "keeps v4 (bk_socket K c1 c2 c3)" "v4 (sys_close K v s) = v4 s" "keeps v4 (fk_kinfo_path K v)"
    "io_preserves v4 (fk_route_add K net n)"
    "bk_ioctl K v BSD_SIOCDIFADDR (Struct (bsd_ifreq field [])) s = ((r, out), s') \<Longrightarrow>
      if r = -1 then v4 s' = v4 s \<and> (sys_errno K s' = FB_EADDRNOTAVAIL \<longrightarrow> v4 s = []) else v4 s \<noteq> [] \<and> v4 s' = tl (v4 s)"
    "take IFNAMSIZ req = field \<Longrightarrow> bk_ioctl K v FB_SIOCAIFADDR (Struct req) s = ((r, out), s') \<Longrightarrow>
      v4 s' = (if r = -1 then v4 s else v4 s @ [drop IFNAMSIZ req])"
proof -
  note d = assms [unfolded v4_addresses_def]
  show "keeps v4 (bk_socket K c1 c2 c3)" "v4 (sys_close K v s) = v4 s" "keeps v4 (fk_kinfo_path K v)" "io_preserves v4 (fk_route_add K net n)"
    using d by blast+
  have "case bk_ioctl K v BSD_SIOCDIFADDR (Struct (bsd_ifreq field [])) s of ((r, out), s') \<Rightarrow>
      if r = -1 then v4 s' = v4 s \<and> (sys_errno K s' = FB_EADDRNOTAVAIL \<longrightarrow> v4 s = []) else v4 s \<noteq> [] \<and> v4 s' = tl (v4 s)"
    by (rule d [THEN conjunct2, THEN conjunct2, THEN conjunct2, THEN conjunct2, THEN conjunct1, THEN spec, THEN spec])
  then show "bk_ioctl K v BSD_SIOCDIFADDR (Struct (bsd_ifreq field [])) s = ((r, out), s') \<Longrightarrow>
      if r = -1 then v4 s' = v4 s \<and> (sys_errno K s' = FB_EADDRNOTAVAIL \<longrightarrow> v4 s = []) else v4 s \<noteq> [] \<and> v4 s' = tl (v4 s)"
    by simp
  have "take IFNAMSIZ req = field \<longrightarrow> (case bk_ioctl K v FB_SIOCAIFADDR (Struct req) s of ((r, out), s') \<Rightarrow>
      v4 s' = (if r = -1 then v4 s else v4 s @ [drop IFNAMSIZ req]))"
    by (rule d [THEN conjunct2, THEN conjunct2, THEN conjunct2, THEN conjunct2, THEN conjunct2, THEN spec, THEN spec, THEN spec])
  then show "take IFNAMSIZ req = field \<Longrightarrow> bk_ioctl K v FB_SIOCAIFADDR (Struct req) s = ((r, out), s') \<Longrightarrow>
      v4 s' = (if r = -1 then v4 s else v4 s @ [drop IFNAMSIZ req])"
    by simp
qed


lemma fbsd_name_keeps:
  assumes k: "\<And>fd. keeps f (fk_kinfo_path K fd)"
  shows "io_preserves f (fbsd_name K d)" "io_preserves f (fbsd_request K d)"
proof -
  show "io_preserves f (fbsd_name K d)"
    by (auto simp: io_preserves_def fbsd_name_def name_of_fd_def last_os_error_def split: prod.splits dest!: keepsD [OF k])
  then show "io_preserves f (fbsd_request K d)" by (simp add: fbsd_request_def io_pres)
qed

lemma fbsd_delete_any_v4:
  assumes v: "v4_addresses K field v4" and r: "fbsd_delete_any K (bsd_ifreq field []) s = (r, s')"
  shows "case r of Ok again \<Rightarrow> (if again then v4 s \<noteq> [] \<and> v4 s' = tl (v4 s) else v4 s = [] \<and> v4 s' = v4 s) | Err _ \<Rightarrow> v4 s' = v4 s
    | Panic \<Rightarrow> False"
proof -
  let ?body = "\<lambda>fd :: Fd. io_match (bsd_call K BSD_SIOCDIFADDR (Struct (bsd_ifreq field [])) (fd_inner fd))
     (\<lambda>_. io_return True) (\<lambda>e. if e = OsError FB_EADDRNOTAVAIL then io_return False else io_fail e)"
  note k = v4_addressesD [OF v]
  consider (open_body) fd s1 s2 where "v4 s1 = v4 s" "?body fd s1 = (r, s2)" "v4 s' = v4 s2" | (err) e where "r = Err e" "v4 s' = v4 s"
    using with_fd_cases [OF k(2) k(1) r [unfolded fbsd_delete_any_def fbsd_ctl_def]] by blast
  then show ?thesis
  proof cases
    case open_body
    obtain x out t where i: "bk_ioctl K (fd_inner fd) BSD_SIOCDIFADDR (Struct (bsd_ifreq field [])) s1 = ((x, out), t)"
      by (metis surj_pair)
    show ?thesis using k(5) [OF i] open_body i
      by (auto simp: bsd_call_def bsd_ioctl_def io_match_def io_map_def io_bind_def io_return_def io_fail_def split: if_splits)
  qed simp
qed

text \<open>Deleting comes to an end, with no address left unless a request failed.\<close>

lemma fbsd_delete_all_ends:
  assumes v: "v4_addresses K field v4"
  shows "\<exists>r s'. fbsd_delete_all K (bsd_ifreq field []) s = Some (r, s')
    \<and> (case r of Ok _ \<Rightarrow> v4 s' = [] | Err _ \<Rightarrow> \<exists>k. v4 s' = drop k (v4 s) | Panic \<Rightarrow> False)"
proof (induction "length (v4 s)" arbitrary: s rule: less_induct)
  case less
  obtain a s1 where a: "fbsd_delete_any K (bsd_ifreq field []) s = (a, s1)" by force
  note d = fbsd_delete_any_v4 [OF v a]
  show ?case
  proof (cases a)
    case (Ok again)
    show ?thesis
    proof (cases again)
      case True
      then have n: "v4 s \<noteq> []" "v4 s1 = drop 1 (v4 s)" using d Ok by (simp_all add: drop_Suc)
      then have "length (v4 s1) < length (v4 s)" by simp
      from less [OF this] obtain r s' where *: "fbsd_delete_all K (bsd_ifreq field []) s1 = Some (r, s')"
        "case r of Ok _ \<Rightarrow> v4 s' = [] | Err _ \<Rightarrow> \<exists>k. v4 s' = drop k (v4 s1) | Panic \<Rightarrow> False" by blast
      then have "case r of Ok _ \<Rightarrow> v4 s' = [] | Err _ \<Rightarrow> \<exists>k. v4 s' = drop k (v4 s) | Panic \<Rightarrow> False"
        using n(2) by (cases r) (auto simp: drop_drop)
      then show ?thesis using a Ok True * by (subst fbsd_delete_all.simps) simp
    next
      case False
      then show ?thesis using a Ok d by (subst fbsd_delete_all.simps) simp
    qed
  next
    case (Err e)
    have "v4 s1 = drop 0 (v4 s)" using d Err by simp
    then show ?thesis using a Err by (subst fbsd_delete_all.simps) (auto intro!: exI [of _ "0 :: nat"])
  qed (use d in simp)
qed

lemma length_sa_addr [simp]: "length (sa_addr L ip) = 16" "length (sa_addr6 L ip) = 28"
  by (cases ip; simp add: sa_addr_def sa_addr6_def socket_addr_new_def length_rs_addr_to_sockaddr)+

lemma name_field_copy: "length n < IFNAMSIZ \<Longrightarrow> name_field n = Ok (copy_device_name n)"
  by (simp add: name_field_def copy_device_name_def ensure_def)

lemma length_copy_device_name [simp]: "length (copy_device_name n) = IFNAMSIZ"
  by (simp add: copy_device_name_def blit_def IFNAMSIZ_def)

lemma ifaliasreq_field:
  "length field = IFNAMSIZ \<Longrightarrow> take IFNAMSIZ (fbsd_ifaliasreq field addr msk dest) = field"
  by (cases dest) (simp_all add: fbsd_ifaliasreq_def struct_with_def take_blit IFNAMSIZ_def, simp_all add: blit_def)

lemma fbsd_add_address_v4:
  assumes v: "v4_addresses K (copy_device_name n) v4" and n: "\<And>s. fst (fbsd_name K d s) = Ok n" "length n < IFNAMSIZ"
    and ip: "is_ipv4 addr" and r: "fbsd_add_address K d addr msk dest route s = (r, s')"
  shows "case r of Err _ \<Rightarrow> v4 s' = v4 s
    | _ \<Rightarrow> v4 s' = v4 s @ [drop IFNAMSIZ (fbsd_ifaliasreq (copy_device_name n) addr msk dest)]"
proof -
  note k = v4_addressesD [OF v]
  let ?req = "fbsd_ifaliasreq (copy_device_name n) addr msk dest"
  let ?body = "\<lambda>fd :: Fd. io_bind (fbsd_name K d) (\<lambda>n. io_bind (io_res (name_field n)) (\<lambda>field.
      io_then (bsd_call K FB_SIOCAIFADDR (Struct (fbsd_ifaliasreq field addr msk dest)) (fd_inner fd))
            (io_ignore (fbsd_add_route K d addr msk route))))"
  have "with_fd (bsd_fds K) (bk_socket K FB_AF_INET FB_SOCK_DGRAM_CLOEXEC 0) ?body s = (r, s')"
    using r ip by (simp add: fbsd_add_address_def fbsd_ctl_def)
  from with_fd_cases [OF k(2) k(1) this]
  consider (open_body) fd s1 s2 where "v4 s1 = v4 s" "?body fd s1 = (r, s2)" "v4 s' = v4 s2" | (err) e where "r = Err e" "v4 s' = v4 s"
    by blast
  then show ?thesis
  proof cases
    case open_body
    obtain t where t: "fbsd_name K d s1 = (Ok n, t)" using n(1) by (metis prod.collapse)
    have vt: "v4 t = v4 s" using io_preservesD [OF fbsd_name_keeps(1) [OF k(3)] t] open_body by simp
    obtain x out t2 where i: "bk_ioctl K (fd_inner fd) FB_SIOCAIFADDR (Struct ?req) t = ((x, out), t2)" by (metis surj_pair)
    have vi: "v4 t2 = (if x = -1 then v4 t else v4 t @ [drop IFNAMSIZ ?req])" by (rule k(6) [OF _ i]) (simp add: ifaliasreq_field)
    obtain y t3 where y: "io_ignore (fbsd_add_route K d addr msk route) t2 = (y, t3)" by force
    have "io_preserves v4 (fbsd_add_route K d addr msk route)"
      unfolding fbsd_add_route_def by (intro io_pres fbsd_name_keeps k(3) k(4))
    then have vy: "v4 t3 = v4 t2" by (rule io_preservesD [OF io_preserves_ignore y])
    have "y \<noteq> Err e" for e using y by (auto simp: io_ignore_def io_match_def io_return_def split: prod.splits res.splits)
    then show ?thesis using open_body t i vi y vy vt
      by (cases y) (auto simp: io_bind_def io_then_def io_res_def name_field_copy [OF n(2)] bsd_call_def bsd_ioctl_def io_map_def io_return_def
          split: if_splits)
  qed simp
qed

lemma is_ipv4_args: "fbsd_network_args K parse a m dst = Ok (addr, msk, dest) \<Longrightarrow> is_ipv4 addr"
  by (auto simp: fbsd_network_args_def is_ipv4_def bind_res_def split: res.splits option.splits)

text \<open>
  C35. Setting the network address on FreeBSD returns, however many addresses the interface had, and when it succeeds the
  interface has the one address with its mask and destination and no other; when it fails no address was added, and with
  arguments that are no address nothing was done at all.
\<close>

theorem fbsd_set_network_address_replaces:
  assumes "v4_addresses K (copy_device_name n) v4" "\<And>s. fst (fbsd_name K d s) = Ok n" "length n < IFNAMSIZ"
  shows "case fbsd_network_args K parse a m dst of
      Ok (addr, msk, dest) \<Rightarrow> (\<exists>r s'. fbsd_set_network_address K parse d a m dst s = Some (r, s') \<and> (case r of
          Err _ \<Rightarrow> \<exists>k. v4 s' = drop k (v4 s)
        | _ \<Rightarrow> v4 s' = [drop IFNAMSIZ (fbsd_ifaliasreq (copy_device_name n) addr msk (Some dest))]))
    | Err e \<Rightarrow> fbsd_set_network_address K parse d a m dst s = Some (Err e, s)
    | Panic \<Rightarrow> fbsd_set_network_address K parse d a m dst s = Some (Panic, s)"
proof (cases "fbsd_network_args K parse a m dst")
  case (Ok args)
  obtain addr msk dest where args: "args = (addr, msk, dest)" by (cases args)
  note k = v4_addressesD [OF assms(1)]
  obtain t where t: "fbsd_name K d s = (Ok n, t)" using assms(2) by (metis prod.collapse)
  have vt: "v4 t = v4 s" by (rule io_preservesD [OF fbsd_name_keeps(1) [OF k(3)] t])
  have req: "fbsd_request K d s = (Ok (bsd_ifreq (copy_device_name n) []), t)"
    using t by (simp add: fbsd_request_def io_map_def io_bind_def io_return_def)
  obtain r1 t1 where del: "fbsd_delete_all K (bsd_ifreq (copy_device_name n) []) t = Some (r1, t1)"
    "case r1 of Ok _ \<Rightarrow> v4 t1 = [] | Err _ \<Rightarrow> \<exists>k. v4 t1 = drop k (v4 t) | Panic \<Rightarrow> False"
    using fbsd_delete_all_ends [OF assms(1), of t] by blast
  obtain r2 t2 where add: "fbsd_add_address K d addr msk (Some dest) (fb_associate_route d) t1 = (r2, t2)" by force
  have "is_ipv4 addr" using Ok args by (simp add: is_ipv4_args)
  note add2 = fbsd_add_address_v4 [OF assms(1-3) this add]
  show ?thesis
  proof (cases r1)
    case o: (Ok u)
    have "fbsd_set_network_address K parse d a m dst s = Some (r2, t2)"
      using Ok args req del o add by (simp add: fbsd_set_network_address_def fbsd_remove_all_address_v4_def)
    moreover have "case r2 of Err _ \<Rightarrow> \<exists>k. v4 t2 = drop k (v4 s)
        | _ \<Rightarrow> v4 t2 = [drop IFNAMSIZ (fbsd_ifaliasreq (copy_device_name n) addr msk (Some dest))]"
      using add2 del(2) o by (cases r2) (auto intro: exI [of _ "length (v4 s)"])
    ultimately show ?thesis using Ok args by simp
  next
    case (Err e)
    then show ?thesis using Ok args req del vt by (simp add: fbsd_set_network_address_def fbsd_remove_all_address_v4_def)
  qed (use del in simp)
qed (simp_all add: fbsd_set_network_address_def)

section \<open>Dropping a FreeBSD device\<close>

text \<open>
  C38. Dropping a FreeBSD device never destroys its interface.  The field that holds the descriptor is -1 before the
  interface's name is asked for, so the request that should name it is never made: whatever part \<open>f\<close> of the state sockets,
  \<open>F_KINFO\<close> and \<open>close\<close> leave alone stays as it is, whatever the requests of the kernel do.
\<close>

theorem fbsd_drop_keeps_interface:
  assumes "\<And>fd s. fd < 0 \<Longrightarrow> fst (fst (fk_kinfo_path K fd s)) < 0" "\<And>fd. keeps f (fk_kinfo_path K fd)"
    and "\<And>dom kind proto. keeps f (bk_socket K dom kind proto)" "\<And>v s. f (sys_close K v s) = f s"
  shows "f (fbsd_drop K d s) = f s"
proof -
  let ?d = "d\<lparr>fb_tun := (fb_tun d)\<lparr>tun_fd := (fb_fd d)\<lparr>fd_inner := -1\<rparr>\<rparr>\<rparr>"
  have fail: "\<exists>e t. fbsd_request K ?d u = (Err e, t) \<and> f t = f u" for u
  proof -
    obtain p t where p: "fk_kinfo_path K (-1) u = (p, t)" by (metis surj_pair)
    have "fst p < 0" "f t = f u" using assms(1) [of "-1" u] keepsD [OF assms(2) p] p by simp_all
    then show ?thesis using p
      by (cases p) (simp add: fbsd_request_def fbsd_name_def name_of_fd_def fb_fd_def io_map_def io_bind_def last_os_error_def)
  qed
  have "f (fbsd_destroy K ?d u) = f u" for u
  proof -
    obtain v u1 where c: "bk_socket K FB_AF_INET FB_SOCK_DGRAM_CLOEXEC 0 u = (v, u1)" by force
    have u1: "f u1 = f u" using keepsD [OF assms(3) c] .
    obtain e t where t: "fbsd_request K ?d u1 = (Err e, t)" "f t = f u1" using fail by blast
    show ?thesis using t u1 assms(4)
      by (simp add: fbsd_destroy_def open_fd_cases [of "bk_socket K FB_AF_INET FB_SOCK_DGRAM_CLOEXEC 0", OF c] close_fd_def Fd_drop_def)
  qed
  then show ?thesis using assms(4) by (simp add: fbsd_drop_def Let_def fb_fd_def close_fd_def Fd_drop_def)
qed

section \<open>Names and numbers\<close>

lemma decimal_bytes_digits: "list_all is_digit (decimal_bytes n)" "decimal_bytes n \<noteq> []"
proof -
  have dig: "is_digit (of_nat (0x30 + k))" if "k < 10" for k
    using that by (auto simp: is_digit_def word_le_nat_alt unat_of_nat simp del: of_nat_add)
  show "list_all is_digit (decimal_bytes n)"
  proof (induction n rule: decimal_bytes.induct)
    case (1 n)
    show ?case using 1 dig [of n] dig [of "n mod 10"]
      by (subst decimal_bytes.simps) (simp del: of_nat_add)
  qed
  show "decimal_bytes n \<noteq> []" by (subst decimal_bytes.simps) simp
qed

lemma digits_value_snoc: "digits_value (ds @ [b]) = 10 * digits_value ds + (unat b - 0x30)"
  by (simp add: digits_value_def)

lemma digits_value_decimal: "digits_value (decimal_bytes n) = n"
proof (induction n rule: decimal_bytes.induct)
  case (1 n)
  have u: "unat (of_nat (0x30 + k) :: byte) - 0x30 = k" if "k < 10" for k
    using that by (simp add: unat_of_nat del: of_nat_add)
  show ?case
  proof (cases "n < 10")
    case True
    then show ?thesis using u [of n] by (subst decimal_bytes.simps) (simp add: digits_value_def del: of_nat_add)
  next
    case False
    then show ?thesis using 1 u [of "n mod 10"]
      by (subst decimal_bytes.simps) (simp add: digits_value_snoc del: of_nat_add)
  qed
qed

lemma decimal_bytes_bytes: "b \<in> set (decimal_bytes n) \<Longrightarrow> 0x30 \<le> b \<and> b \<le> 0x39"
  using decimal_bytes_digits(1) [of n] by (auto simp: list_all_iff is_digit_def)

lemma length_decimal_bytes: "n < 10 ^ Suc k \<Longrightarrow> length (decimal_bytes n) \<le> Suc k"
proof (induction k arbitrary: n)
  case 0
  then show ?case by (subst decimal_bytes.simps) simp
next
  case (Suc k)
  then have "n div 10 < 10 ^ Suc k" by (simp add: less_mult_imp_div_less mult.commute)
  then show ?case using Suc.IH [of "n div 10"] by (subst decimal_bytes.simps) simp
qed

lemma parse_decimal:
  assumes "n < 2 ^ 32"
  shows "parse_u32 (decimal_bytes n) = Some (of_nat n)"
proof -
  obtain b bs where d: "decimal_bytes n = b # bs" using decimal_bytes_digits(2) [of n] by (cases "decimal_bytes n") auto
  have "b \<noteq> 0x2B" using decimal_bytes_bytes [of b n] d by auto
  then show ?thesis using assms decimal_bytes_digits(1) [of n] digits_value_decimal [of n] d
    by (simp add: parse_u32_def)
qed

lemma unit_of_decimal:
  assumes "n < 2 ^ 32" "length pre \<le> 6"
  shows "unit_of_name pre (pre @ decimal_bytes n) = Ok (of_nat n)"
proof -
  have "length (decimal_bytes n) \<le> Suc 9" by (rule length_decimal_bytes) (use assms in simp)
  then show ?thesis using assms by (simp add: unit_of_name_def parse_decimal IFNAMSIZ_def)
qed

definition tun_name :: "nat \<Rightarrow> byte list" where
  "tun_name n = map of_char ''tun'' @ decimal_bytes n"

definition utun_name :: "nat \<Rightarrow> byte list" where
  "utun_name n = map of_char ''utun'' @ decimal_bytes n"

lemma split_path_no_slash: "0x2F \<notin> set p \<Longrightarrow> split_path acc p = [acc @ p]"
  by (induction p arbitrary: acc) auto

lemma split_path_slash: "0x2F \<notin> set p \<Longrightarrow> split_path acc (p @ 0x2F # q) = (acc @ p) # split_path [] q"
  by (induction p arbitrary: acc) auto

lemma dev_path_eq: "fbsd_dev_path n = 0x2F # [0x64, 0x65, 0x76] @ 0x2F # tun_name n"
  by (simp add: fbsd_dev_path_def tun_name_def)

lemma tun_name_bytes: "b \<in> set (tun_name n) \<Longrightarrow> 0x30 \<le> b \<and> b < 0x80"
  using decimal_bytes_bytes [of b n] by (auto simp: tun_name_def word_le_nat_alt word_less_nat_alt)

lemma path_file_name_dev: "path_file_name (fbsd_dev_path n) = Some (tun_name n)"
proof -
  have s: "0x2F \<notin> set (tun_name n)" using tun_name_bytes [of "0x2F" n] by auto
  have "split_path [] (0x2F # [0x64, 0x65, 0x76] @ 0x2F # tun_name n) = [[], [0x64, 0x65, 0x76], tun_name n]"
    using split_path_slash [of "[0x64, 0x65, 0x76]" "[]" "tun_name n"] split_path_no_slash [OF s, of "[]"] by simp
  moreover have "tun_name n \<noteq> []" "tun_name n \<noteq> [0x2E]" "tun_name n \<noteq> [0x2E, 0x2E]" by (simp_all add: tun_name_def)
  ultimately show ?thesis by (simp add: path_file_name_def dev_path_eq)
qed

lemma name_of_fd_dev:
  assumes "fst (fk_kinfo_path K fd s) = (0, fbsd_dev_path n @ 0 # junk)"
  shows "fst (name_of_fd K fd s) = Ok (tun_name n)"
proof -
  have b: "b \<in> set (fbsd_dev_path n) \<Longrightarrow> b \<noteq> 0 \<and> b < 0x80" for b
    using tun_name_bytes [of b n] by (auto simp: dev_path_eq)
  then have "takeWhile (\<lambda>b. b \<noteq> 0) (fbsd_dev_path n @ 0 # junk) = fbsd_dev_path n"
    by (subst takeWhile_append2) auto
  moreover have "utf8_lossy (fbsd_dev_path n) = fbsd_dev_path n" by (rule utf8_lossy_ascii) (use b in blast)
  moreover have "utf8_lossy (tun_name n) = tun_name n" by (rule utf8_lossy_ascii) (use tun_name_bytes in blast)
  ultimately show ?thesis
    using assms by (auto simp: name_of_fd_def path_file_name_dev split: prod.splits)
qed


section \<open>Example systems\<close>

text \<open>
  A machine with one interface: its open descriptors and route handles, the interface's addresses and whether it is there, its
  routes, the error number.
\<close>

record bsd_net =
  bn_open :: "int list"
  bn_v4 :: "byte list list"
  bn_exists :: bool
  bn_routes :: "mac_route list"
  bn_managers :: "nat list"
  bn_errno :: nat

definition bn_fresh :: "bsd_net \<Rightarrow> int \<times> bsd_net" where
  "bn_fresh s = (let v = foldr max (bn_open s) 2 + 1 in (v, s\<lparr>bn_open := v # bn_open s\<rparr>))"

definition bn_ioctl :: "int \<Rightarrow> nat \<Rightarrow> bsd_arg \<Rightarrow> bsd_net \<Rightarrow> (int \<times> byte list) \<times> bsd_net" where
  "bn_ioctl fd c a s = (case a of NameTo _ _ \<Rightarrow> ((0, []), s) | Struct bs \<Rightarrow>
     if c = BSD_SIOCDIFADDR then (if bn_v4 s = [] then ((-1, []), s\<lparr>bn_errno := FB_EADDRNOTAVAIL\<rparr>) else ((0, []), s\<lparr>bn_v4 := tl (bn_v4 s)\<rparr>))
     else if c = FB_SIOCAIFADDR \<or> c = MC_SIOCAIFADDR then ((0, []), s\<lparr>bn_v4 := bn_v4 s @ [drop IFNAMSIZ bs]\<rparr>)
     else if c = FB_SIOCIFDESTROY then ((0, []), s\<lparr>bn_exists := False\<rparr>)
     else ((0, bs), s))"

definition bn_bsd :: "bsd_net bsd_sys" where
  "bn_bsd = \<lparr>sys_read = (\<lambda>_ _ s. ((0, []), s)), sys_readv = (\<lambda>_ _ s. ((0, []), s)), sys_write = (\<lambda>_ bs s. (int (length bs), s)),
     sys_writev = (\<lambda>_ bs s. (int (length (concat bs)), s)), sys_fionbio = (\<lambda>_ _ s. (0, s)),
     sys_close = (\<lambda>v s. s\<lparr>bn_open := filter (\<lambda>x. x \<noteq> v) (bn_open s)\<rparr>), sys_errno = bn_errno, sys_iov_max = 1024,
     bk_socket = (\<lambda>_ _ _. bn_fresh), bk_ioctl = bn_ioctl, bk_fcntl = (\<lambda>_ _ _ s. (0, s)), bk_if_nametoindex = (\<lambda>_ s. (3, s)),
     bk_getifaddrs = io_return [], bk_ip_mask_to_prefix = (\<lambda>_. Some 24), bk_ipnet_new = (\<lambda>a p. Some (a, p)),
     bk_ipnet_with_netmask = (\<lambda>a _. Some (a, 24)), bk_network = fst, bk_broadcast = fst, bk_netmask = fst\<rparr>"

definition bn_fbsd :: "bsd_net fbsd_sys" where
  "bn_fbsd = bsd_sys.extend bn_bsd \<lparr>fk_open = (\<lambda>_. bn_fresh),
     fk_kinfo_path = (\<lambda>fd s. if fd < 0 then ((-1, []), s\<lparr>bn_errno := 9\<rparr>) else ((0, fbsd_dev_path 0 @ [0]), s)),
     fk_route_add = (\<lambda>_ _. io_return True), fk_trunc_string = (\<lambda>_. [])\<rparr>"

definition bn_start :: bsd_net where
  "bn_start = \<lparr>bn_open = [], bn_v4 = [[1], [2]], bn_exists = True, bn_routes = [], bn_managers = [], bn_errno = 0\<rparr>"

lemma bn_start_simps [simp]: "bn_open bn_start = []" "bn_v4 bn_start = [[1], [2]]" "bn_exists bn_start" "bn_routes bn_start = []" "bn_managers bn_start = []"
  by (simp_all add: bn_start_def)

lemma bn_fbsd_simps [simp]:
  "bk_socket bn_fbsd c1 c2 c3 = bn_fresh" "bk_ioctl bn_fbsd = bn_ioctl" "bk_fcntl bn_fbsd v c x s = (0, s)"
  "bk_if_nametoindex bn_fbsd n s = (3, s)" "bk_getifaddrs bn_fbsd = io_return []" "fk_open bn_fbsd p = bn_fresh"
  "sys_close bn_fbsd v s = s\<lparr>bn_open := filter (\<lambda>x. x \<noteq> v) (bn_open s)\<rparr>" "sys_errno bn_fbsd = bn_errno"
  "fk_kinfo_path bn_fbsd v s = (if v < 0 then ((-1, []), s\<lparr>bn_errno := 9\<rparr>) else ((0, fbsd_dev_path 0 @ [0]), s))"
  "fk_route_add bn_fbsd net n = io_return True" "bk_ip_mask_to_prefix bn_fbsd m = Some 24" "bk_ipnet_new bn_fbsd ip p' = Some (ip, p')"
  "bk_broadcast bn_fbsd = fst"
  by (simp_all add: bn_fbsd_def bn_bsd_def bsd_sys.extend_def)

lemma bn_fresh_new: "opens_new (\<lambda>s. set (bn_open s)) bn_fresh"
proof -
  have "foldr max (bn_open s) 2 + 1 \<notin> set (bn_open s) \<and> \<not> foldr max (bn_open s) 2 + 1 < 0" for s
    using foldr_max_ge(1) [of "foldr max (bn_open s) 2 + 1" "bn_open s" 2] foldr_max_ge(2) [of 2 "bn_open s"] by auto
  then show ?thesis by (auto simp: opens_new_def bn_fresh_def Let_def)
qed

lemma bn_keeps:
  "keeps (\<lambda>s. set (bn_open s)) (bn_ioctl fd c a)" "keeps bn_v4 bn_fresh" "keeps bn_exists bn_fresh"
  by (auto simp: keeps_def bn_ioctl_def bn_fresh_def Let_def split: bsd_arg.splits)

lemma bn_fbsd_account: "fbsd_account bn_fbsd (\<lambda>s. set (bn_open s))"
  using bn_fresh_new bn_keeps(1)
  by (auto simp: fbsd_account_def bsd_account_def keeps_def io_preserves_def io_return_def)

lemma bn_fbsd_v4: "v4_addresses bn_fbsd (copy_device_name n) bn_v4"
proof -
  have "FB_SIOCAIFADDR \<noteq> BSD_SIOCDIFADDR" by (simp add: FB_SIOCAIFADDR_def BSD_SIOCDIFADDR_def iow_request_def)
  then show ?thesis using bn_keeps(2)
    by (auto simp: v4_addresses_def keeps_def io_preserves_def io_return_def bn_ioctl_def)
qed

definition bn_config :: DeviceConfig where
  "bn_config = \<lparr>cfg_dev_name = None, cfg_packet_information = None, cfg_offload = None\<rparr>"

definition bn_made :: FreeBsdDevice where
  "bn_made = fbsd_device \<lparr>fd_inner = 3, fd_borrow = False\<rparr> True"

lemma bn_name: "fst (fbsd_name bn_fbsd bn_made s) = Ok (tun_name 0)"
proof -
  have "fst (name_of_fd bn_fbsd 3 s) = Ok (tun_name 0)"
    by (rule name_of_fd_dev [where junk = "[]"]) simp
  then show ?thesis by (simp add: fbsd_name_def fb_fd_def bn_made_def fbsd_device_def set_ignore_packet_info_def Tun_new_def)
qed

lemma bn_new: "fbsd_new bn_fbsd bn_config bn_start = (Ok bn_made, bn_start\<lparr>bn_open := [3]\<rparr>)"
proof -
  have name: "fbsd_name bn_fbsd bn_made s = (Ok (tun_name 0), s)" for s
    using bn_name [of s] by (auto simp: fbsd_name_def name_of_fd_def fb_fd_def bn_made_def fbsd_device_def set_ignore_packet_info_def Tun_new_def)
  have o: "fbsd_open_free bn_fbsd [0..<256] bn_start = (Ok \<lparr>fd_inner = 3, fd_borrow = False\<rparr>, bn_start\<lparr>bn_open := [3]\<rparr>)"
    by (simp add: upt_rec io_match_def open_fd_def bn_fresh_def bn_start_def Fd_new_def Fd_new_unchecked_def Fd_new_unchecked_with_borrow_def
        io_return_def)
  have c: "bsd_call bn_fbsd c (Struct bs) fd s = (Ok (), s)" if "c = FB_TUNSIFHEAD \<or> c = FB_SIOCSIFINFO_IN6" for c bs fd s
    using that by (auto simp: bsd_call_def bsd_ioctl_def bn_ioctl_def io_map_def io_bind_def io_return_def FB_TUNSIFHEAD_def
        FB_SIOCSIFINFO_IN6_def BSD_SIOCDIFADDR_def FB_SIOCAIFADDR_def MC_SIOCAIFADDR_def FB_SIOCIFDESTROY_def iow_request_def iowr_request_def)
  show ?thesis
    using name c
    by (simp add: fbsd_new_def bn_config_def fbsd_dev_index_def fbsd_open_def o io_then_def io_bind_def io_unless_def io_res_def io_return_def
        enable_tunsifhead_impl_def opt_or_def bn_made_def [symmetric] disable_local_ipv6_def Let_def fbsd_ctl_v6_def with_fd_def io_scope_def
        open_fd_def close_fd_def bn_fresh_def Fd_drop_def Fd_new_def Fd_new_unchecked_def Fd_new_unchecked_with_borrow_def)
qed

theorem fbsd_lifecycle_closes_witness:
  "\<exists>d t. fbsd_runs bn_fbsd (\<lambda>_. None, \<lambda>_. None) [Common (SetMtuOf 1400), Tunsifhead, Common (SetAssociateRoute False), Common GetMtu]
      (bn_made, bn_start\<lparr>bn_open := [3]\<rparr>) = Some (d, t)
    \<and> set (bn_open t) = {3} \<and> set (bn_open (fbsd_drop bn_fbsd d t)) = {}"
  using fbsd_lifecycle_closes [OF bn_fbsd_account, where cfg = bn_config and s = bn_start and P = "(\<lambda>_. None, \<lambda>_. None)"
      and ops = "[Common (SetMtuOf 1400), Tunsifhead, Common (SetAssociateRoute False), Common GetMtu]"]
  by (simp add: bn_new bn_made_def fb_fd_def fbsd_device_def set_ignore_packet_info_def Tun_new_def)

theorem fbsd_set_network_address_replaces_witness:
  "\<exists>r s. fbsd_set_network_address bn_fbsd (\<lambda>_. None) bn_made (Ipv4Arg 0x0A000001) (AddrArg 0xFFFFFF00) None bn_start = Some (r, s)
    \<and> (case r of Err _ \<Rightarrow> \<exists>k. bn_v4 s = drop k (bn_v4 bn_start)
       | _ \<Rightarrow> bn_v4 s = [drop IFNAMSIZ (fbsd_ifaliasreq (copy_device_name (tun_name 0)) (V4 0x0A000001) (V4 0xFFFFFF00) (Some (V4 0x0A000001)))])"
proof -
  have l: "length (tun_name 0) < IFNAMSIZ" by (simp add: tun_name_def decimal_bytes.simps IFNAMSIZ_def)
  have "netmask4 (\<lambda>_. None) (AddrArg 0xFFFFFF00) = Ok 0xFFFFFF00" by code_simp
  then have "fbsd_network_args bn_fbsd (\<lambda>_. None) (Ipv4Arg 0x0A000001) (AddrArg 0xFFFFFF00) None
      = Ok (V4 0x0A000001, V4 0xFFFFFF00, V4 0x0A000001)"
    by (simp add: fbsd_network_args_def calc_dest_addr_def bind_res_def)
  then show ?thesis
    using fbsd_set_network_address_replaces [OF bn_fbsd_v4 bn_name l, of "\<lambda>_. None" "Ipv4Arg 0x0A000001" "AddrArg 0xFFFFFF00" None bn_start]
    by simp
qed

theorem fbsd_drop_keeps_interface_witness:
  "bn_exists (fbsd_drop bn_fbsd bn_made bn_start) \<and> \<not> bn_exists (fbsd_destroy bn_fbsd bn_made bn_start)"
proof
  have "bn_exists (fbsd_drop bn_fbsd bn_made bn_start) = bn_exists bn_start"
    by (rule fbsd_drop_keeps_interface) (simp_all add: keeps_def bn_fresh_def Let_def)
  then show "bn_exists (fbsd_drop bn_fbsd bn_made bn_start)" by simp
  have name: "fbsd_name bn_fbsd bn_made s = (Ok (tun_name 0), s)" for s
    using bn_name [of s] by (auto simp: fbsd_name_def name_of_fd_def fb_fd_def bn_made_def fbsd_device_def set_ignore_packet_info_def Tun_new_def)
  show "\<not> bn_exists (fbsd_destroy bn_fbsd bn_made bn_start)"
    by (simp add: fbsd_destroy_def fbsd_request_def name io_map_def io_bind_def io_return_def open_fd_def close_fd_def bn_fresh_def Fd_drop_def
        Fd_new_def Fd_new_unchecked_def Fd_new_unchecked_with_borrow_def bsd_call_def bsd_ioctl_def bn_ioctl_def Let_def
        FB_SIOCIFDESTROY_def BSD_SIOCDIFADDR_def FB_SIOCAIFADDR_def MC_SIOCAIFADDR_def iow_request_def)
qed


end
