(* ===== verification/MacSpec.thy ===== *)
theory MacSpec
  imports BsdSpec
begin

text \<open>
  Properties of the macOS device: what its operations leave alone, the account of descriptors and route managers from building
  to dropping, and what becomes of the routes of an address.
\<close>

section \<open>What is left alone\<close>

text \<open>A route manager is scoped the way a descriptor is: dropping it undoes what making it did.\<close>

definition scoped_manager :: "('s, 'x) mac_sys_scheme \<Rightarrow> ('s \<Rightarrow> 'v) \<Rightarrow> bool" where
  "scoped_manager K f \<longleftrightarrow> (\<forall>s. case mk_route_new K s of
      (Ok m, s1) \<Rightarrow> \<forall>s2. f s2 = f s1 \<longrightarrow> f (mk_route_drop K m s2) = f s
    | (_, s1) \<Rightarrow> f s1 = f s)"

definition mac_quiet :: "('s, 'x) mac_sys_scheme \<Rightarrow> ('s \<Rightarrow> 'v) \<Rightarrow> bool" where
  "mac_quiet K f \<longleftrightarrow> bsd_quiet K f \<and> scoped_manager K f
     \<and> (\<forall>fd a. keeps f (mk_connect K fd a)) \<and> (\<forall>fd n. keeps f (mk_ifname K fd n))
     \<and> (\<forall>m r. io_preserves f (mk_route_add K m r)) \<and> (\<forall>m r. io_preserves f (mk_route_delete K m r))"

lemma io_preserves_unless: "io_preserves f m \<Longrightarrow> (\<And>s. f (d s) = f s) \<Longrightarrow> io_preserves f (io_unless m d)"
  by (auto simp: io_preserves_def io_unless_def split: prod.splits res.splits) (metis snd_conv)+

lemma mac_ctl_preserves:
  assumes "mac_quiet K f" "\<And>fd. io_preserves f (body fd)"
  shows "io_preserves f (mac_ctl K body)" "io_preserves f (mac_ctl_v6 K body)"
proof -
  have b: "bsd_quiet K f" using assms(1) by (simp add: mac_quiet_def)
  then have s: "scoped_fd K f (bk_socket K c1 c2 c3)" for c1 c2 c3 by (simp add: bsd_quiet_def)
  show "io_preserves f (mac_ctl K body)" "io_preserves f (mac_ctl_v6 K body)"
    unfolding mac_ctl_def mac_ctl_v6_def by (intro scoped_fd_preserves s io_pres bsd_misc_preserves b assms(2))+
qed

lemma mac_name_preserves:
  assumes "mac_quiet K f"
  shows "io_preserves f (mac_ifname K v)" "io_preserves f (mac_name K d)" "io_preserves f (mac_name_field K d)"
    "io_preserves f (mac_request K d)" "io_preserves f (mac_request_v6 K d)" "io_preserves f (mac_if_index K d)"
    "io_preserves f (mac_addresses K d)"
proof -
  have b: "bsd_quiet K f" and k: "keeps f (mk_ifname K v n)" for v n using assms by (simp_all add: mac_quiet_def)
  show n: "io_preserves f (mac_ifname K v)" for v
    by (auto simp: io_preserves_def mac_ifname_def last_os_error_def split: prod.splits dest!: keepsD [OF k])
  then show m: "io_preserves f (mac_name K d)" by (simp add: mac_name_def io_pres)
  then show "io_preserves f (mac_name_field K d)" by (simp add: mac_name_field_def io_pres)
  then show "io_preserves f (mac_request K d)" "io_preserves f (mac_request_v6 K d)"
    by (simp_all add: mac_request_def mac_request_v6_def io_pres)
  show "io_preserves f (mac_if_index K d)" "io_preserves f (mac_addresses K d)"
    unfolding mac_if_index_def mac_addresses_def by (intro bsd_if_preserves b m)+
qed

lemma mac_with_route_preserves:
  assumes q: "mac_quiet K f" and act: "\<And>m r. io_preserves f (act m r)"
  shows "io_preserves f (mac_with_route K act d addr msk route)"
proof -
  let ?body = "\<lambda>i m. case bk_ipnet_with_netmask K addr msk of None \<Rightarrow> io_res (invalid_input '''')
       | Some net \<Rightarrow> act m (mac_route_of net K addr i)"
  have m: "io_preserves f (io_bind (mk_route_new K) (\<lambda>m. io_scope (?body i m) (mk_route_drop K m)))" for i
  proof -
    have "f (snd (io_bind (mk_route_new K) (\<lambda>m. io_scope (?body i m) (mk_route_drop K m)) s)) = f s" for s
    proof -
      obtain r s1 where r: "mk_route_new K s = (r, s1)" by force
      have c: "case r of Ok m \<Rightarrow> \<forall>s2. f s2 = f s1 \<longrightarrow> f (mk_route_drop K m s2) = f s | _ \<Rightarrow> f s1 = f s"
        using q r unfolding mac_quiet_def scoped_manager_def by (auto dest!: spec [of _ s] split: res.splits)
      show ?thesis
      proof (cases r)
        case (Ok m)
        have "io_preserves f (?body i m)" by (intro io_pres act)
        moreover obtain x s2 where x: "?body i m s1 = (x, s2)" by force
        ultimately have "f s2 = f s1" by (rule io_preservesD)
        then show ?thesis using c r Ok x by (simp add: io_bind_def io_scope_def)
      qed (use c r in \<open>simp_all add: io_bind_def\<close>)
    qed
    then show ?thesis by (simp add: io_preserves_def)
  qed
  show ?thesis unfolding mac_with_route_def
    by (intro io_preserves_if io_preserves_pure io_preserves_bind [OF mac_name_preserves(6) [OF q]] m)
qed

lemma mac_route_preserves:
  assumes "mac_quiet K f"
  shows "io_preserves f (mac_add_route K d addr msk route)" "io_preserves f (mac_remove_route K d addr msk route)"
proof -
  have a: "io_preserves f (mk_route_add K m r)" "io_preserves f (mk_route_delete K m r)" for m r
    using assms by (simp_all add: mac_quiet_def)
  show "io_preserves f (mac_add_route K d addr msk route)" "io_preserves f (mac_remove_route K d addr msk route)"
    unfolding mac_add_route_def mac_remove_route_def by (intro mac_with_route_preserves assms a)+
qed

lemma mac_quiet_bsd: "mac_quiet K f \<Longrightarrow> bsd_quiet K f"
  by (simp add: mac_quiet_def)

lemmas mac_preserve_rules = mac_ctl_preserves mac_name_preserves mac_route_preserves
  bsd_ioctl_preserves [OF mac_quiet_bsd] bsd_misc_preserves [OF mac_quiet_bsd]

lemma mac_delete_entry_preserves:
  assumes "mac_quiet K f"
  shows "io_preserves f (mac_delete_entry K d req route v)"
  by (cases "ife_addr v"; cases "ife_netmask v")
    (auto simp: mac_delete_entry_def intro!: io_pres mac_preserve_rules [OF assms])

lemma mac_remove_all_preserves:
  assumes "mac_quiet K f"
  shows "io_preserves f (mac_remove_all_address_v4 K d route)"
  unfolding mac_remove_all_address_v4_def by (intro io_pres mac_preserve_rules mac_delete_entry_preserves assms)

lemma mac_add_address_preserves:
  assumes "mac_quiet K f"
  shows "io_preserves f (mac_add_address K d addr dest msk route)"
  unfolding mac_add_address_def by (intro io_pres mac_preserve_rules assms)

lemma mac_io_preserves:
  assumes "mac_quiet K f"
  shows "io_preserves f (mac_set_network_address K parse d a m dst)" "io_preserves f (mac_add_address_v4 K parse d a m)"
    "io_preserves f (mac_add_address_v6 K parse6 d a6 m6)" "io_preserves f (mac_remove_address K d addr)"
    "io_preserves f (mac_enabled K d b)" "io_preserves f (mac_mtu K d)" "io_preserves f (mac_set_mtu K d v)"
  unfolding mac_set_network_address_def mac_add_address_v4_def mac_add_address_v6_def mac_remove_address_def mac_enabled_def
    mac_mtu_def mac_set_mtu_def
  by (intro io_pres mac_preserve_rules mac_add_address_preserves mac_remove_all_preserves assms)+

lemma tuntap_connect_preserves:
  assumes "mac_quiet K f"
  shows "io_preserves f (tuntap_connect K u fd)"
proof -
  have k: "keeps f (mk_connect K v a)" for v a using assms by (simp add: mac_quiet_def)
  have "io_preserves f (\<lambda>s. let (r, s) = mk_connect K v a s in if r < 0 then last_os_error (bsd_fds K) s else (Ok (), s))" for v a
    by (auto simp: io_preserves_def last_os_error_def split: prod.splits dest!: keepsD [OF k])
  then show ?thesis unfolding tuntap_connect_def by (intro io_preserves_bind mac_preserve_rules assms) simp
qed

section \<open>The account of descriptors\<close>

text \<open>
  What is assumed in addition for macOS: \<open>managers\<close> are the route managers there are; making one adds a new one or fails and
  changes nothing, dropping it takes it away; nothing else makes any.
\<close>

definition mac_account :: "('s, 'x) mac_sys_scheme \<Rightarrow> ('s \<Rightarrow> int set) \<Rightarrow> ('s \<Rightarrow> nat set) \<Rightarrow> bool" where
  "mac_account K opens managers \<longleftrightarrow> bsd_account K opens
     \<and> (\<forall>dom kind proto. keeps managers (bk_socket K dom kind proto)) \<and> (\<forall>v s. managers (sys_close K v s) = managers s)
     \<and> (\<forall>fd r a. keeps managers (bk_ioctl K fd r a)) \<and> (\<forall>fd c a. keeps managers (bk_fcntl K fd c a))
     \<and> (\<forall>n. keeps managers (bk_if_nametoindex K n)) \<and> io_preserves managers (bk_getifaddrs K)
     \<and> (\<forall>fd a. keeps (\<lambda>s. (opens s, managers s)) (mk_connect K fd a)) \<and> (\<forall>fd n. keeps (\<lambda>s. (opens s, managers s)) (mk_ifname K fd n))
     \<and> (\<forall>m r. io_preserves (\<lambda>s. (opens s, managers s)) (mk_route_add K m r))
     \<and> (\<forall>m r. io_preserves (\<lambda>s. (opens s, managers s)) (mk_route_delete K m r))
     \<and> (\<forall>s. case mk_route_new K s of (r, s') \<Rightarrow> opens s' = opens s \<and> (case r of
            Ok m \<Rightarrow> m \<notin> managers s \<and> managers s' = insert m (managers s)
          | _ \<Rightarrow> managers s' = managers s))
     \<and> (\<forall>m s. opens (mk_route_drop K m s) = opens s \<and> managers (mk_route_drop K m s) = managers s - {m})"

lemma keeps_pair: "keeps (\<lambda>s. (g s, h s)) c \<longleftrightarrow> keeps g c \<and> keeps h c"
  by (auto simp: keeps_def)

lemma io_preserves_pair: "io_preserves (\<lambda>s. (g s, h s)) m \<longleftrightarrow> io_preserves g m \<and> io_preserves h m"
  by (auto simp: io_preserves_def)

lemma mac_accountD:
  assumes "mac_account K opens managers"
  shows "bsd_account K opens" "\<forall>dom kind proto. keeps managers (bk_socket K dom kind proto)"
    "\<forall>v s. managers (sys_close K v s) = managers s" "\<forall>fd r a. keeps managers (bk_ioctl K fd r a)"
    "\<forall>fd c a. keeps managers (bk_fcntl K fd c a)" "\<forall>n. keeps managers (bk_if_nametoindex K n)"
    "io_preserves managers (bk_getifaddrs K)"
    "\<forall>fd a. keeps (\<lambda>s. (opens s, managers s)) (mk_connect K fd a)" "\<forall>fd n. keeps (\<lambda>s. (opens s, managers s)) (mk_ifname K fd n)"
    "\<forall>m r. io_preserves (\<lambda>s. (opens s, managers s)) (mk_route_add K m r)"
    "\<forall>m r. io_preserves (\<lambda>s. (opens s, managers s)) (mk_route_delete K m r)"
    "\<forall>s. case mk_route_new K s of (r, s') \<Rightarrow> opens s' = opens s \<and> (case r of
            Ok m \<Rightarrow> m \<notin> managers s \<and> managers s' = insert m (managers s) | _ \<Rightarrow> managers s' = managers s)"
    "\<forall>m s. opens (mk_route_drop K m s) = opens s \<and> managers (mk_route_drop K m s) = managers s - {m}"
  using assms unfolding mac_account_def by - (elim conjE, assumption)+

lemma mac_managers_scoped:
  assumes "mac_account K opens managers"
  shows "scoped_manager K opens" "scoped_manager K managers" "scoped_fd K managers (bk_socket K c1 c2 c3)"
proof -
  note a = mac_accountD [OF assms]
  have r: "opens s' = opens s \<and> (case r of
            Ok m \<Rightarrow> m \<notin> managers s \<and> managers s' = insert m (managers s) | _ \<Rightarrow> managers s' = managers s)"
    if "mk_route_new K s = (r, s')" for s r s'
    using spec [OF a(12), of s] that by simp
  have d: "opens (mk_route_drop K m s) = opens s" "managers (mk_route_drop K m s) = managers s - {m}" for m s
    using a(13) by simp_all
  show "scoped_manager K opens" unfolding scoped_manager_def
  proof
    fix s
    obtain r s1 where "mk_route_new K s = (r, s1)" by force
    then show "case mk_route_new K s of (Ok m, s1) \<Rightarrow> \<forall>s2. opens s2 = opens s1 \<longrightarrow> opens (mk_route_drop K m s2) = opens s
        | (_, s1) \<Rightarrow> opens s1 = opens s" using r d by (cases r) simp_all
  qed
  show "scoped_manager K managers" unfolding scoped_manager_def
  proof
    fix s
    obtain r s1 where "mk_route_new K s = (r, s1)" by force
    then show "case mk_route_new K s of (Ok m, s1) \<Rightarrow> \<forall>s2. managers s2 = managers s1 \<longrightarrow> managers (mk_route_drop K m s2) = managers s
        | (_, s1) \<Rightarrow> managers s1 = managers s" using r [of s r s1] d by (cases r) simp_all
  qed
  show "scoped_fd K managers (bk_socket K c1 c2 c3)" unfolding scoped_fd_def
  proof
    fix s
    obtain v s1 where c: "bk_socket K c1 c2 c3 s = (v, s1)" by force
    have "managers s1 = managers s" by (rule keepsD [of managers "bk_socket K c1 c2 c3", OF _ c]) (use a(2) in blast)
    then show "case bk_socket K c1 c2 c3 s of (v, s1) \<Rightarrow> if v < 0 then managers s1 = managers s
        else \<forall>s2. managers s2 = managers s1 \<longrightarrow> managers (sys_close K v s2) = managers s"
      using c a(3) by simp
  qed
qed

lemma mac_account_quiet:
  assumes "mac_account K opens managers"
  shows "mac_quiet K opens" "mac_quiet K managers"
proof -
  note a = mac_accountD [OF assms, unfolded keeps_pair io_preserves_pair]
  have "bsd_quiet K opens" by (rule bsd_account_quiet [OF a(1)])
  moreover have "bsd_quiet K managers" unfolding bsd_quiet_def using a(4-7) mac_managers_scoped(3) [OF assms] by simp
  ultimately show "mac_quiet K opens" "mac_quiet K managers"
    unfolding mac_quiet_def using mac_managers_scoped [OF assms] a(8-11) by simp_all
qed

lemma mac_account_bsd: "mac_account K opens managers \<Longrightarrow> bsd_account K opens"
  unfolding mac_account_def by (rule conjunct1)

definition tuntap_body :: "('s, 'x) mac_sys_scheme \<Rightarrow> 'c DeviceConfig_scheme \<Rightarrow> u32 \<Rightarrow> Fd \<Rightarrow> ('s, Tun) io" where
  "tuntap_body K cfg u fd = io_then (io_ignore (set_cloexec K fd)) (io_then (tuntap_connect K u fd) (io_then (mac_ifname K (fd_inner fd))
       (io_return (set_ignore_packet_info (\<not> opt_or (cfg_packet_information cfg) False) (Tun_new fd)))))"

lemma tuntap_body_fd: "tuntap_body K cfg u fd s = (Ok t, s') \<Longrightarrow> tun_fd t = fd"
  by (auto simp: tuntap_body_def io_then_def io_bind_def io_return_def set_ignore_packet_info_def Tun_new_def split: prod.splits res.splits)

lemma tuntap_body_preserves: "mac_quiet K f \<Longrightarrow> io_preserves f (tuntap_body K cfg u fd)"
  unfolding tuntap_body_def by (intro io_pres mac_preserve_rules tuntap_connect_preserves)

lemma tuntap_new_holds:
  assumes acc: "mac_account K opens managers"
  shows "holds_fd opens tun_fd s (tuntap_new K cfg s)"
proof -
  have b: "bsd_account K opens" by (rule mac_account_bsd [OF acc])
  have o: "holds_fd opens (\<lambda>fd. fd) s (open_fd (bsd_fds K) (bk_socket K MC_PF_SYSTEM MC_SOCK_DGRAM MC_SYSPROTO_CONTROL) s)"
    using b by (intro holds_open_fd) (simp add: bsd_account_def)
  show ?thesis unfolding tuntap_new_def tuntap_body_def [symmetric]
    by (rule holds_bind_pure, rule holds_unless [where p = "\<lambda>fd. fd" and q = tun_fd], rule o)
      (auto simp: close_fd_opens [OF b] dest: tuntap_body_fd intro: tuntap_body_preserves [OF mac_account_quiet(1) [OF acc]])
qed

lemma mac_new_holds:
  assumes acc: "mac_account K opens managers"
  shows "holds_fd opens mac_fd s (mac_new K cfg s)"
  using tuntap_new_holds [OF acc, of s cfg]
  by (auto simp: mac_new_def holds_fd_def io_map_def io_bind_def io_return_def mac_fd_def split: prod.splits res.splits)

lemma config_io_keeps:
  assumes "\<And>c. io_preserves f (do_call D c)"
  shows "io_preserves f (config D b)"
  unfolding config_runs_plan_eq run_plan_def by (intro io_pres assms)

lemma mac_config_preserves:
  assumes "mac_quiet K f"
  shows "io_preserves f (config (mac_ops K d) b)"
proof (rule config_io_keeps)
  fix c
  show "io_preserves f (do_call (mac_ops K d) c)"
    by (cases c) (auto simp: mac_ops_def intro: mac_io_preserves [OF assms])
qed

lemma mac_drop_opens: "bsd_account K opens \<Longrightarrow> fd_borrow (mac_fd d) = False \<Longrightarrow> 0 \<le> fd_inner (mac_fd d)
    \<Longrightarrow> opens (mac_drop K d t) = opens t - {fd_inner (mac_fd d)}"
  by (simp add: mac_drop_def close_fd_opens)

lemma mac_build_async_eq: "mac_build_async K register b = io_bind (mac_build_sync K b) (\<lambda>d. io_unless
    (io_then (io_then (Fd_set_nonblocking (bsd_fds K) (mac_fd d) True) (register (mac_fd d))) (io_return d)) (mac_drop K d))"
  unfolding mac_build_async_def new_dev_def mac_drop_def close_fd_def io_then_assoc [symmetric] io_map_unless ..

lemma nonblocking_preserves:
  assumes "\<And>v b. keeps f (sys_fionbio K v b)"
  shows "io_preserves f (Fd_set_nonblocking (bsd_fds K) fd b)"
proof -
  have "sys_fionbio (bsd_fds K) = sys_fionbio K" by (simp add: fd_sys.truncate_def)
  then show ?thesis
    by (auto simp: io_preserves_def Fd_set_nonblocking_def last_os_error_def split: prod.splits dest!: keepsD [OF assms])
qed

lemma mac_build_holds:
  assumes acc: "mac_account K opens managers"
    and reg: "\<And>fd. io_preserves opens (register fd)" and nb: "\<And>v b. keeps opens (sys_fionbio K v b)"
  shows "holds_fd opens mac_fd s (mac_build_async K register b s)"
proof -
  have q: "mac_quiet K opens" and ba: "bsd_account K opens" using mac_account_quiet(1) [OF acc] mac_account_bsd [OF acc] by blast+
  obtain cfg c where c: "mac_build_config b = (cfg, c)" by force
  have 1: "holds_fd opens mac_fd s (mac_build_sync K b s)" unfolding mac_build_sync_def c prod.case
    by (rule holds_unless [where p = mac_fd and q = mac_fd], rule mac_new_holds [OF acc])
      (auto intro!: io_pres mac_config_preserves [OF q] simp: mac_drop_opens [OF ba] dest: io_then_return_result)
  show ?thesis unfolding mac_build_async_eq
    by (rule holds_unless [where p = mac_fd and q = mac_fd], rule 1)
      (auto intro!: io_pres nonblocking_preserves nb reg simp: mac_drop_opens [OF ba] dest: io_then_return_result)
qed

lemma mac_build_managers:
  assumes acc: "mac_account K opens managers"
    and reg: "\<And>fd. io_preserves managers (register fd)" and nb: "\<And>v b. keeps managers (sys_fionbio K v b)"
  shows "io_preserves managers (mac_build_async K register b)"
proof -
  have q: "mac_quiet K managers" by (rule mac_account_quiet(2) [OF acc])
  have cl: "managers (sys_close K v s) = managers s" "keeps managers (bk_socket K c1 c2 c3)" for v s c1 c2 c3
    using mac_accountD(2,3) [OF acc] by blast+
  have drp: "managers (close_fd (bsd_fds K) fd s) = managers s" for fd s by (simp add: close_fd_def Fd_drop_def cl)
  have o: "io_preserves managers (open_fd (bsd_fds K) (bk_socket K c1 c2 c3))" for c1 c2 c3
    by (auto simp: io_preserves_def open_fd_def Fd_new_def last_os_error_def io_return_def split: prod.splits dest!: keepsD [OF cl(2)])
  have new: "io_preserves managers (mac_new K cfg)" for cfg
    unfolding mac_new_def tuntap_new_def tuntap_body_def [symmetric]
    by (intro io_pres io_preserves_unless o tuntap_body_preserves q drp)
  obtain cfg c where c: "mac_build_config b = (cfg, c)" by force
  show ?thesis unfolding mac_build_async_eq mac_build_sync_def c prod.case mac_drop_def
    by (intro io_pres io_preserves_unless new mac_config_preserves q drp nonblocking_preserves nb reg)
qed

section \<open>The life of a macOS device\<close>

fun mac_run :: "('s, 'x) mac_sys_scheme \<Rightarrow> parsers \<Rightarrow> bsd_op \<Rightarrow> MacDevice \<times> 's \<Rightarrow> MacDevice \<times> 's" where
  "mac_run K P (SetNetworkTo a m dst) (d, s) = (d, snd (mac_set_network_address K (fst P) d a m dst s))"
| "mac_run K P (AddV4Addr a m) (d, s) = (d, snd (mac_add_address_v4 K (fst P) d a m s))"
| "mac_run K P (AddV6Addr a m) (d, s) = (d, snd (mac_add_address_v6 K (snd P) d a m s))"
| "mac_run K P (RemoveAddr ip) (d, s) = (d, snd (mac_remove_address K d ip s))"
| "mac_run K P GetName (d, s) = (d, snd (mac_name K d s))"
| "mac_run K P GetIfIndex (d, s) = (d, snd (mac_if_index K d s))"
| "mac_run K P GetAddresses (d, s) = (d, snd (mac_addresses K d s))"
| "mac_run K P (SetEnabledTo b) (d, s) = (d, snd (mac_enabled K d b s))"
| "mac_run K P (SetMtuOf v) (d, s) = (d, snd (mac_set_mtu K d v s))"
| "mac_run K P GetMtu (d, s) = (d, snd (mac_mtu K d s))"
| "mac_run K P (SetAssociateRoute b) (d, s) = (mac_set_associate_route b d, s)"
| "mac_run K P (SetIgnorePi b) (d, s) = (mac_set_ignore_packet_info b d, s)"

definition mac_runs :: "('s, 'x) mac_sys_scheme \<Rightarrow> parsers \<Rightarrow> bsd_op list \<Rightarrow> MacDevice \<times> 's \<Rightarrow> MacDevice \<times> 's" where
  "mac_runs K P ops x = foldl (\<lambda>x op. mac_run K P op x) x ops"

lemmas mac_io_keeps = io_preserves_snd [OF mac_io_preserves(1)] io_preserves_snd [OF mac_io_preserves(2)]
  io_preserves_snd [OF mac_io_preserves(3)] io_preserves_snd [OF mac_io_preserves(4)] io_preserves_snd [OF mac_io_preserves(5)]
  io_preserves_snd [OF mac_io_preserves(6)] io_preserves_snd [OF mac_io_preserves(7)] io_preserves_snd [OF mac_name_preserves(2)]
  io_preserves_snd [OF mac_name_preserves(6)] io_preserves_snd [OF mac_name_preserves(7)]

lemma mac_run_keeps:
  assumes "mac_quiet K f"
  shows "mac_fd (fst (mac_run K P op (d, s))) = mac_fd d \<and> f (snd (mac_run K P op (d, s))) = f s"
  by (cases op) (simp_all add: mac_io_keeps [OF assms] mac_set_associate_route_def mac_set_ignore_packet_info_def mac_fd_def
      set_ignore_packet_info_def)

lemma mac_runs_keeps:
  assumes "mac_quiet K f"
  shows "mac_fd (fst (mac_runs K P ops (d, s))) = mac_fd d \<and> f (snd (mac_runs K P ops (d, s))) = f s"
proof (induction ops arbitrary: d s)
  case (Cons op ops)
  obtain d1 s1 where "mac_run K P op (d, s) = (d1, s1)" by force
  then show ?case using Cons [of d1 s1] mac_run_keeps [OF assms, of P op d s] by (simp add: mac_runs_def)
qed (simp add: mac_runs_def)

text \<open>
  C34. On macOS building leaks nothing either: when creation, configuration, non-blocking mode or the reactor fails, the
  descriptors open and the route managers in use are those of before; on success the control socket of the device is open in
  addition, whatever operations follow leave it at that and drop each route manager they make, and dropping the device closes it.
\<close>

theorem mac_lifecycle_closes:
  assumes "mac_account K opens managers"
    and "\<And>fd. io_preserves (\<lambda>s. (opens s, managers s)) (register fd)"
    and "\<And>v b. keeps (\<lambda>s. (opens s, managers s)) (sys_fionbio K v b)"
  shows "case mac_build_async K register b s of
      (Ok d, s') \<Rightarrow> fd_inner (mac_fd d) \<notin> opens s \<and> opens s' = insert (fd_inner (mac_fd d)) (opens s)
        \<and> (case mac_runs K P ops (d, s') of (d', t) \<Rightarrow> opens t = insert (fd_inner (mac_fd d)) (opens s)
            \<and> managers t = managers s \<and> opens (mac_drop K d' t) = opens s)
    | (_, s') \<Rightarrow> opens s' = opens s \<and> managers s' = managers s"
proof -
  note reg = assms(2) [unfolded io_preserves_pair] and nb = assms(3) [unfolded keeps_pair]
  obtain r s' where r: "mac_build_async K register b s = (r, s')" by force
  have h: "holds_fd opens mac_fd s (r, s')"
    using mac_build_holds [OF assms(1), of register s b] reg nb r by simp
  have "io_preserves managers (mac_build_async K register b)"
    using mac_build_managers [OF assms(1), of register b] reg nb by blast
  then have m: "managers s' = managers s" using r by (rule io_preservesD)
  show ?thesis
  proof (cases r)
    case (Ok d)
    obtain d' t where t: "mac_runs K P ops (d, s') = (d', t)" by force
    have "mac_fd d' = mac_fd d" "opens t = opens s'" "managers t = managers s'"
      using mac_runs_keeps [OF mac_account_quiet(1) [OF assms(1)], of P ops d s']
        mac_runs_keeps [OF mac_account_quiet(2) [OF assms(1)], of P ops d s'] t by simp_all
    then show ?thesis using h m r Ok t mac_drop_opens [OF mac_account_bsd [OF assms(1)], of d' t] by (simp add: holds_fd_def)
  qed (use h m r in \<open>simp_all add: holds_fd_def\<close>)
qed

section \<open>Routes\<close>

text \<open>
  What is assumed of the kernel for the address \<open>a\<close> of the interface \<open>n\<close>: once \<open>SIOCDIFADDR\<close> for it succeeded it is
  \<open>gone\<close>, asking for names and closing sockets does not bring it back, and while it is gone \<open>getifaddrs\<close> does
  not list it at this interface.
\<close>

definition deleted_is_gone :: "('s, 'x) mac_sys_scheme \<Rightarrow> byte list \<Rightarrow> Ipv4Addr \<Rightarrow> ('s \<Rightarrow> bool) \<Rightarrow> bool" where
  "deleted_is_gone K n a gone \<longleftrightarrow>
     (\<forall>fd req s. take 16 (drop 16 req) = sa_addr mac_layout (V4 a) \<longrightarrow> (case bk_ioctl K fd BSD_SIOCDIFADDR (Struct req) s of
        ((r, out), s') \<Rightarrow> r \<noteq> -1 \<longrightarrow> gone s'))
     \<and> (\<forall>v s. gone s \<longrightarrow> gone (sys_close K v s)) \<and> (\<forall>fd k s. gone s \<longrightarrow> gone (snd (mk_ifname K fd k s)))
     \<and> (\<forall>s es s'. gone s \<longrightarrow> bk_getifaddrs K s = (Ok es, s') \<longrightarrow> (\<forall>e \<in> set es. ife_name e = n \<longrightarrow> ife_addr e \<noteq> Some (V4 a)))"

lemma with_fd_Ok:
  assumes "with_fd (bsd_fds K) call body s = (Ok a, s')"
  shows "\<exists>fd s1 s2. body fd s1 = (Ok a, s2) \<and> s' = sys_close K (fd_inner fd) s2"
proof -
  obtain v s1 where c: "call s = (v, s1)" by force
  obtain x s2 where b: "body \<lparr>fd_inner = v, fd_borrow = False\<rparr> s1 = (x, s2)" by force
  have "\<not> v < 0" using assms by (auto simp: with_fd_def io_bind_def open_fd_cases [of call, OF c])
  then have "x = Ok a" "s' = sys_close K v s2"
    using assms b by (auto simp: with_fd_def io_bind_def io_scope_def open_fd_cases [of call, OF c] close_fd_owned)
  then show ?thesis using b by (metis Fd.select_convs(1))
qed

lemma mac_ctl_call_Ok:
  assumes "mac_ctl K (\<lambda>fd. bsd_call K c (Struct req) (fd_inner fd)) s = (Ok u, s')"
  shows "\<exists>v t r out t'. bk_ioctl K v c (Struct req) t = ((r, out), t') \<and> r \<noteq> -1 \<and> s' = sys_close K v t'"
proof -
  from with_fd_Ok [OF assms [unfolded mac_ctl_def]] obtain fd s1 s2 where
    b: "io_then (io_ignore (set_cloexec K fd)) (bsd_call K c (Struct req) (fd_inner fd)) s1 = (Ok u, s2)" "s' = sys_close K (fd_inner fd) s2"
    by blast
  obtain x t where t: "io_ignore (set_cloexec K fd) s1 = (x, t)" by force
  obtain r out t' where i: "bk_ioctl K (fd_inner fd) c (Struct req) t = ((r, out), t')" by (metis surj_pair)
  have "r \<noteq> -1 \<and> s2 = t'" using b(1) t i
    by (cases x) (auto simp: io_then_def io_bind_def bsd_call_def bsd_ioctl_def io_map_def io_return_def split: if_splits)
  then show ?thesis using i b(2) by blast
qed

text \<open>What follows the deletion: with the address gone there is no entry to take the netmask of the route from.\<close>

definition mac_forget_routes :: "('s, 'x) mac_sys_scheme \<Rightarrow> MacDevice \<Rightarrow> IpAddr \<Rightarrow> ('s, unit) io" where
  "mac_forget_routes K d addr = io_bind (mac_name K d) (\<lambda>n. io_match (bsd_if_addrs K n)
     (\<lambda>addrs. io_each (\<lambda>v. case ife_netmask v of
          Some netmask \<Rightarrow> io_ignore (mac_remove_route K d addr netmask (mc_associate_route d))
        | None \<Rightarrow> io_return ()) (filter (\<lambda>v. ife_addr v = Some addr) addrs))
     (\<lambda>_. io_return ()))"

lemma mac_forget_routes_keeps:
  assumes g: "deleted_is_gone K n a gone" and n: "\<And>s. fst (mac_name K d s) = Ok n"
    and nm: "io_preserves f (mac_name K d)" and addrs: "io_preserves f (bk_getifaddrs K)" and s: "gone s"
  shows "f (snd (mac_forget_routes K d (V4 a) s)) = f s"
proof -
  note g = g [unfolded deleted_is_gone_def]
  obtain s1 where 1: "mac_name K d s = (Ok n, s1)" using n by (metis prod.collapse)
  have "gone (snd (mk_ifname K w k s))" for w k using g s by blast
  then have g1: "gone s1" using 1 by (auto simp: mac_name_def io_bind_def io_res_def mac_ifname_def last_os_error_def
      split: prod.splits res.splits if_splits) (metis snd_conv)+
  have e1: "f s1 = f s" by (rule io_preservesD [OF nm 1])
  obtain q s2 where 2: "bk_getifaddrs K s1 = (q, s2)" by force
  have e2: "f s2 = f s1" by (rule io_preservesD [OF addrs 2])
  show ?thesis
  proof (cases q)
    case (Ok es)
    have "\<forall>e \<in> set es. ife_name e = n \<longrightarrow> ife_addr e \<noteq> Some (V4 a)" using g g1 2 Ok by blast
    then have "filter (\<lambda>v. ife_addr v = Some (V4 a)) (filter (\<lambda>v. ife_name v = n) es) = []" by (auto simp: filter_empty_conv)
    then show ?thesis using e1 e2 1 2 Ok
      by (simp add: mac_forget_routes_def io_bind_def io_match_def bsd_if_addrs_def io_map_def io_return_def)
  qed (use e1 e2 1 2 in \<open>simp_all add: mac_forget_routes_def io_bind_def io_match_def bsd_if_addrs_def io_map_def io_return_def\<close>)
qed

lemma mac_request_size: "mac_request K d s = (Ok req, s') \<Longrightarrow> 32 \<le> length req"
  by (auto simp: mac_request_def io_map_def io_bind_def io_return_def bsd_ifreq_def struct_with_def blit_def split: prod.splits res.splits)

text \<open>
  C39. Removing an IPv4 address on macOS never removes its route.  The address is deleted first, and the netmask of the
  route is then looked for among the addresses of the interface, where the address no longer is: whatever part \<open>routes\<close> of the
  state the calls other than those of the route manager leave alone stays as it is.
\<close>

theorem mac_remove_address_keeps_routes:
  assumes "deleted_is_gone K n a gone" "\<And>s. fst (mac_name K d s) = Ok n"
    and "bsd_quiet K routes" "\<And>fd k. keeps routes (mk_ifname K fd k)"
  shows "routes (snd (mac_remove_address K d (V4 a) s)) = routes s"
proof -
  have "io_preserves routes (mac_ifname K v)" for v
    by (auto simp: io_preserves_def mac_ifname_def last_os_error_def split: prod.splits dest!: keepsD [OF assms(4)])
  then have nm: "io_preserves routes (mac_name K d)" by (simp add: mac_name_def io_pres)
  then have rq: "io_preserves routes (mac_request K d)" by (simp add: mac_request_def mac_name_field_def io_pres)
  have sc: "scoped_fd K routes (bk_socket K c1 c2 c3)" for c1 c2 c3 using assms(3) by (simp add: bsd_quiet_def)
  have ctl: "io_preserves routes (mac_ctl K (\<lambda>fd. bsd_call K c (Struct q) (fd_inner fd)))" for c q
    unfolding mac_ctl_def by (intro scoped_fd_preserves sc io_pres bsd_misc_preserves bsd_ioctl_preserves assms(3))
  note g = assms(1) [unfolded deleted_is_gone_def] and tail = mac_forget_routes_def [symmetric]
  obtain r1 s1 where 1: "mac_request K d s = (r1, s1)" by force
  have e1: "routes s1 = routes s" by (rule io_preservesD [OF rq 1])
  show ?thesis
  proof (cases r1)
    case o1: (Ok req)
    let ?req = "blit req 16 (sa_addr mac_layout (V4 a))"
    obtain r2 s2 where 2: "mac_ctl K (\<lambda>fd. bsd_call K BSD_SIOCDIFADDR (Struct ?req) (fd_inner fd)) s1 = (r2, s2)" by force
    have e2: "routes s2 = routes s1" by (rule io_preservesD [OF ctl 2])
    show ?thesis
    proof (cases r2)
      case o2: (Ok u)
      have field: "take 16 (drop 16 ?req) = sa_addr mac_layout (V4 a)"
        using mac_request_size [OF 1 [unfolded o1]] by (simp add: blit_def)
      obtain v t r out t' where i: "bk_ioctl K v BSD_SIOCDIFADDR (Struct ?req) t = ((r, out), t')" "r \<noteq> -1" "s2 = sys_close K v t'"
        using mac_ctl_call_Ok [OF 2 [unfolded o2]] by blast
      have "gone t'" using g [THEN conjunct1, THEN spec, THEN spec, THEN spec, of ?req v t] field i by simp
      then have "gone s2" using g i(3) by blast
      from mac_forget_routes_keeps [OF assms(1,2) nm bsd_misc_preserves(2) [OF assms(3)] this] show ?thesis
        using e1 e2 1 o1 2 o2 by (simp add: mac_remove_address_def is_ipv4_def io_then_def io_bind_def [of "mac_request K d"]
            io_bind_def [of "mac_ctl K _"] tail)
    qed (use e1 e2 1 o1 2 in \<open>simp_all add: mac_remove_address_def is_ipv4_def io_then_def io_bind_def\<close>)
  qed (use e1 1 in \<open>simp_all add: mac_remove_address_def is_ipv4_def io_bind_def\<close>)
qed

section \<open>An example system\<close>

text \<open>
  The machine of \<open>BsdSpec\<close> with the kernel of macOS: addresses are deleted by value and \<open>getifaddrs\<close> lists those there are.
\<close>

definition mn_ioctl :: "int \<Rightarrow> nat \<Rightarrow> bsd_arg \<Rightarrow> bsd_net \<Rightarrow> (int \<times> byte list) \<times> bsd_net" where
  "mn_ioctl fd c a s = (case a of NameTo _ _ \<Rightarrow> ((0, []), s) | Struct bs \<Rightarrow>
     if c = BSD_SIOCDIFADDR then ((0, []), s\<lparr>bn_v4 := filter (\<lambda>p. read_u32 p 4 \<noteq> read_u32 (take 16 (drop 16 bs)) 4) (bn_v4 s)\<rparr>)
     else if c = MC_SIOCAIFADDR then ((0, []), s\<lparr>bn_v4 := bn_v4 s @ [drop IFNAMSIZ bs]\<rparr>)
     else ((0, bs), s))"

definition mn_addrs :: "bsd_net \<Rightarrow> if_entry list" where
  "mn_addrs s = map (\<lambda>p. \<lparr>ife_name = utun_name 0, ife_addr = Some (V4 (read_u32 p 4)), ife_netmask = Some (V4 (read_u32 p 36))\<rparr>) (bn_v4 s)"

definition mn_mac :: "bsd_net mac_sys" where
  "mn_mac = bsd_sys.extend (bn_bsd\<lparr>bk_ioctl := mn_ioctl, bk_getifaddrs := (\<lambda>s. (Ok (mn_addrs s), s))\<rparr>)
     \<lparr>mk_connect = (\<lambda>_ _ s. (0, s)), mk_ifname = (\<lambda>_ _ s. ((0, utun_name 0 @ [0]), s)),
      mk_route_new = (\<lambda>s. let m = foldr max (bn_managers s) 0 + 1 in (Ok m, s\<lparr>bn_managers := m # bn_managers s\<rparr>)),
      mk_route_add = (\<lambda>_ r s. (Ok (), s\<lparr>bn_routes := r # bn_routes s\<rparr>)),
      mk_route_delete = (\<lambda>_ r s. (Ok (), s\<lparr>bn_routes := remove1 r (bn_routes s)\<rparr>)),
      mk_route_drop = (\<lambda>m s. s\<lparr>bn_managers := filter (\<lambda>k. k \<noteq> m) (bn_managers s)\<rparr>)\<rparr>"

lemma mn_mac_simps [simp]:
  "bk_socket mn_mac c1 c2 c3 = bn_fresh" "bk_ioctl mn_mac = mn_ioctl" "bk_fcntl mn_mac v c x s = (0, s)"
  "bk_if_nametoindex mn_mac n s = (3, s)" "bk_getifaddrs mn_mac = (\<lambda>s. (Ok (mn_addrs s), s))"
  "sys_close mn_mac v s = s\<lparr>bn_open := filter (\<lambda>x. x \<noteq> v) (bn_open s)\<rparr>" "sys_errno mn_mac = bn_errno"
  "sys_fionbio mn_mac v b s = (0, s)" "mk_connect mn_mac v a s = (0, s)" "mk_ifname mn_mac v k s = ((0, utun_name 0 @ [0]), s)"
  "mk_route_new mn_mac s = (let m = foldr max (bn_managers s) 0 + 1 in (Ok m, s\<lparr>bn_managers := m # bn_managers s\<rparr>))"
  "mk_route_add mn_mac m r s = (Ok (), s\<lparr>bn_routes := r # bn_routes s\<rparr>)"
  "mk_route_delete mn_mac m r s = (Ok (), s\<lparr>bn_routes := remove1 r (bn_routes s)\<rparr>)"
  "mk_route_drop mn_mac m s = s\<lparr>bn_managers := filter (\<lambda>k. k \<noteq> m) (bn_managers s)\<rparr>"
  by (simp_all add: mn_mac_def bn_bsd_def bsd_sys.extend_def)

lemma mn_ioctl_keeps: "keeps (\<lambda>s. set (bn_open s)) (mn_ioctl fd c a)" "keeps (\<lambda>s. set (bn_managers s)) (mn_ioctl fd c a)"
    "keeps bn_routes (mn_ioctl fd c a)"
  by (auto simp: keeps_def mn_ioctl_def split: bsd_arg.splits)

lemma mn_fresh_keeps: "keeps (\<lambda>s. set (bn_managers s)) bn_fresh" "keeps bn_routes bn_fresh"
  by (simp_all add: keeps_def bn_fresh_def Let_def)

lemma foldr_max_nat: "x \<in> set xs \<Longrightarrow> (x :: nat) \<le> foldr max xs 0"
  by (induction xs) auto

lemma mn_mac_account: "mac_account mn_mac (\<lambda>s. set (bn_open s)) (\<lambda>s. set (bn_managers s))"
proof -
  have b: "bsd_account mn_mac (\<lambda>s. set (bn_open s))"
    using bn_fresh_new mn_ioctl_keeps(1) by (auto simp: bsd_account_def keeps_def io_preserves_def)
  have m: "foldr max (bn_managers s) 0 + 1 \<notin> set (bn_managers s)" for s
    using foldr_max_nat [of "foldr max (bn_managers s) 0 + 1" "bn_managers s"] by auto
  show ?thesis unfolding mac_account_def
    by (intro conjI) (use b m mn_ioctl_keeps(2) mn_fresh_keeps(1) in \<open>auto simp: keeps_def io_preserves_def Let_def\<close>)
qed

definition mn_builder :: MacBuilder where
  "mn_builder = DeviceBuilder.extend (with_mtu 1400 builder_new) \<lparr>b_associate_route = None\<rparr>"

definition mn_made :: MacDevice where
  "mn_made = \<lparr>mc_tun = Tun_new \<lparr>fd_inner = 3, fd_borrow = False\<rparr>, mc_associate_route = True\<rparr>"

lemma mn_name: "mac_name mn_mac d s = (Ok (utun_name 0), s)"
proof -
  have "takeWhile (\<lambda>b. b \<noteq> 0) (filled (replicate 64 0) (utun_name 0 @ [0])) = utun_name 0"
    "0 \<in> set (filled (replicate 64 0) (utun_name 0 @ [0]))"
    by (simp_all add: utun_name_def decimal_bytes.simps filled_def)
  moreover have "utf8_lossy (utun_name 0) = utun_name 0"
    by (rule utf8_lossy_ascii) (simp add: utun_name_def decimal_bytes.simps)
  ultimately show ?thesis by (simp add: mac_name_def mac_ifname_def io_bind_def io_res_def ensure_def)
qed

text \<open>The machine with the address 10.0.0.1 on its interface and the route for it.\<close>

definition mn_route :: mac_route where
  "mn_route = \<lparr>mr_network = V4 0x0A000000, mr_prefix = 24, mr_gateway = V4 0x0A000001, mr_if_index = 3\<rparr>"

definition mn_start :: bsd_net where
  "mn_start = \<lparr>bn_open = [3], bn_v4 = [sa_addr mac_layout (V4 0x0A000001) @ sa_addr mac_layout (V4 0x0A0000FF) @ sa_addr mac_layout (V4 0xFFFFFF00)],
     bn_exists = True, bn_routes = [mn_route], bn_managers = [], bn_errno = 0\<rparr>"

lemma read_sa_addr: "read_u32 (sa_addr mac_layout (V4 a)) 4 = a"
  by (simp add: sa_addr_def socket_addr_new_def read_u32_def mac_layout_def sa_header_def to_be16_def to_be32_def nth_Cons' take_Cons')

lemma mn_gone: "deleted_is_gone mn_mac (utun_name 0) a (\<lambda>s. \<forall>p \<in> set (bn_v4 s). read_u32 p 4 \<noteq> a)"
  unfolding deleted_is_gone_def
  by (intro conjI) (auto simp: mn_ioctl_def read_sa_addr mn_addrs_def)

theorem mac_remove_address_keeps_routes_witness:
  "bn_routes (snd (mac_remove_address mn_mac mn_made (V4 0x0A000001) mn_start)) = [mn_route]"
proof -
  have "bsd_quiet mn_mac bn_routes"
    using mn_ioctl_keeps(3) mn_fresh_keeps(2) by (auto simp: bsd_quiet_def scoped_fd_def keeps_def io_preserves_def bn_fresh_def Let_def)
  then have "bn_routes (snd (mac_remove_address mn_mac mn_made (V4 0x0A000001) mn_start)) = bn_routes mn_start"
    using mac_remove_address_keeps_routes [OF mn_gone] by (simp add: mn_name keeps_def)
  then show ?thesis by (simp add: mn_start_def)
qed

lemma mn_ioctl_other: "c \<noteq> BSD_SIOCDIFADDR \<Longrightarrow> c \<noteq> MC_SIOCAIFADDR \<Longrightarrow> bsd_ioctl mn_mac c (Struct bs) fd s = (Ok bs, s)"
  by (simp add: bsd_ioctl_def mn_ioctl_def)

lemma mn_requests: "BSD_SIOCSIFMTU \<noteq> BSD_SIOCDIFADDR" "BSD_SIOCSIFMTU \<noteq> MC_SIOCAIFADDR" "BSD_SIOCGIFFLAGS \<noteq> BSD_SIOCDIFADDR"
  "BSD_SIOCGIFFLAGS \<noteq> MC_SIOCAIFADDR" "BSD_SIOCSIFFLAGS \<noteq> BSD_SIOCDIFADDR" "BSD_SIOCSIFFLAGS \<noteq> MC_SIOCAIFADDR"
  "MC_CTLIOCGINFO \<noteq> BSD_SIOCDIFADDR" "MC_CTLIOCGINFO \<noteq> MC_SIOCAIFADDR"
  by (simp_all add: BSD_SIOCSIFMTU_def BSD_SIOCDIFADDR_def MC_SIOCAIFADDR_def BSD_SIOCGIFFLAGS_def BSD_SIOCSIFFLAGS_def MC_CTLIOCGINFO_def
      iow_request_def iowr_request_def)

lemma mn_ctl: "mac_ctl mn_mac body s = (let v = foldr max (bn_open s) 2 + 1 in
    case body \<lparr>fd_inner = v, fd_borrow = False\<rparr> (s\<lparr>bn_open := v # bn_open s\<rparr>) of
      (r, t) \<Rightarrow> (r, t\<lparr>bn_open := filter (\<lambda>x. x \<noteq> v) (bn_open t)\<rparr>))"
proof -
  have "0 \<le> foldr max (bn_open s) 2 + (1 :: int)" using foldr_max_ge(2) [of 2 "bn_open s"] by simp
  then show ?thesis
    by (simp add: mac_ctl_def with_fd_def io_bind_def open_fd_def bn_fresh_def Fd_new_def Fd_new_unchecked_def Let_def
        Fd_new_unchecked_with_borrow_def io_return_def io_scope_def close_fd_def Fd_drop_def io_then_def io_ignore_def io_match_def set_cloexec_def)
qed

lemma mn_name_field: "name_field (utun_name 0) = Ok (utun_name 0 @ replicate 11 0)"
  by (simp add: name_field_def ensure_def utun_name_def decimal_bytes.simps IFNAMSIZ_def blit_def)

lemma mn_new: "mac_new mn_mac cfg bn_start = (Ok \<lparr>mc_tun = set_ignore_packet_info (\<not> opt_or (cfg_packet_information cfg) False)
    (Tun_new \<lparr>fd_inner = 3, fd_borrow = False\<rparr>), mc_associate_route = opt_or (cfg_associate_route cfg) True\<rparr>, bn_start\<lparr>bn_open := [3]\<rparr>)"
  if "cfg_dev_name cfg = None"
  using that by (simp add: mac_new_def tuntap_new_def mac_unit_def tuntap_connect_def mn_ioctl_other mn_requests io_map_def io_bind_def io_res_def
      io_return_def open_fd_def bn_fresh_def Fd_new_def Fd_new_unchecked_def Fd_new_unchecked_with_borrow_def io_unless_def io_then_def
      io_ignore_def io_match_def set_cloexec_def mac_ifname_def)

lemma mn_configure:
  "mac_set_mtu mn_mac d v (s\<lparr>bn_open := [3]\<rparr>) = (Ok (), s\<lparr>bn_open := [3]\<rparr>)"
  "mac_enabled mn_mac d e (s\<lparr>bn_open := [3]\<rparr>) = (Ok (), s\<lparr>bn_open := [3]\<rparr>)"
  by (simp_all add: mac_set_mtu_def mac_enabled_def mn_ctl mac_request_def mac_name_field_def mn_name mn_name_field io_map_def io_bind_def
      io_res_def io_return_def bsd_call_def mn_ioctl_other mn_requests)

definition mn_built :: MacDevice where
  "mn_built = \<lparr>mc_tun = set_ignore_packet_info True (Tun_new \<lparr>fd_inner = 3, fd_borrow = False\<rparr>), mc_associate_route = True\<rparr>"

lemma mn_build: "mac_build_async mn_mac (\<lambda>_. io_return ()) mn_builder bn_start = (Ok mn_built, bn_start\<lparr>bn_open := [3]\<rparr>)"
proof -
  have c: "mac_build_config mn_builder = (\<lparr>cfg_dev_name = None, cfg_packet_information = None, cfg_offload = None, cfg_associate_route = None\<rparr>,
      with_mtu 1400 builder_new)"
    by (simp add: mac_build_config_def build_config_def mn_builder_def DeviceBuilder.defs DeviceConfig.defs with_mtu_def builder_new_def
        with_enable_def builder_default_def)
  have n: "mac_new mn_mac \<lparr>cfg_dev_name = None, cfg_packet_information = None, cfg_offload = None, cfg_associate_route = None\<rparr> bn_start
      = (Ok mn_built, bn_start\<lparr>bn_open := [3]\<rparr>)"
    by (simp add: mn_new mn_built_def opt_or_def)
  have f: "config (mac_ops mn_mac mn_built) (with_mtu 1400 builder_new) (bn_start\<lparr>bn_open := [3]\<rparr>) = (Ok (), bn_start\<lparr>bn_open := [3]\<rparr>)"
    by (simp add: config_def mac_ops_def with_mtu_def builder_new_def with_enable_def builder_default_def io_then_def io_bind_def io_return_def mn_configure)
  have "mac_build_sync mn_mac mn_builder bn_start = (Ok mn_built, bn_start\<lparr>bn_open := [3]\<rparr>)"
    by (simp add: mac_build_sync_def c io_bind_def n io_unless_def io_then_def f io_return_def)
  then show ?thesis
    by (simp add: mac_build_async_def io_bind_def io_map_def new_dev_def io_unless_def io_then_def io_return_def Fd_set_nonblocking_def fd_sys.truncate_def)
qed

theorem mac_lifecycle_closes_witness:
  "case mac_runs mn_mac (\<lambda>_. None, \<lambda>_. None) [RemoveAddr (V4 1), GetMtu] (mn_built, bn_start\<lparr>bn_open := [3]\<rparr>) of (d, t) \<Rightarrow>
    set (bn_open t) = {3} \<and> set (bn_managers t) = {} \<and> set (bn_open (mac_drop mn_mac d t)) = {}"
  using mac_lifecycle_closes [OF mn_mac_account, where register = "\<lambda>_. io_return ()" and b = mn_builder and s = bn_start
      and P = "(\<lambda>_. None, \<lambda>_. None)" and ops = "[RemoveAddr (V4 1), GetMtu]"]
  by (simp add: mn_build keeps_def mac_fd_def mn_built_def set_ignore_packet_info_def Tun_new_def split: prod.splits)

end
