(* ===== verification/BsdLayout.thy ===== *)
theory BsdLayout
  imports BsdSpec
begin

text \<open>
  The structures of the BSD requests (\<open>src/platform/macos/sys.rs\<close>, \<open>src/platform/freebsd/sys.rs\<close>) with the layout \<open>repr(C)\<close> gives
  them on a 64-bit machine, and that the requests of the devices have every value in its field.
\<close>

section \<open>Layout\<close>

text \<open>A scalar is aligned to its size, a structure to the largest alignment of its fields.\<close>

datatype c_type = CScalar nat | CArray nat c_type | CStruct "(string \<times> c_type) list" | CUnion "(string \<times> c_type) list"

definition align_up :: "nat \<Rightarrow> nat \<Rightarrow> nat" where
  "align_up n a = (n + a - 1) div a * a"

fun c_align :: "c_type \<Rightarrow> nat" and c_aligns :: "(string \<times> c_type) list \<Rightarrow> nat" where
  "c_align (CScalar n) = n"
| "c_align (CArray n t) = c_align t"
| "c_align (CStruct fs) = c_aligns fs"
| "c_align (CUnion fs) = c_aligns fs"
| "c_aligns [] = 1"
| "c_aligns ((n, t) # fs) = max (c_align t) (c_aligns fs)"

fun c_size :: "c_type \<Rightarrow> nat" and c_end :: "nat \<Rightarrow> (string \<times> c_type) list \<Rightarrow> nat" and c_widest :: "(string \<times> c_type) list \<Rightarrow> nat" where
  "c_size (CScalar n) = n"
| "c_size (CArray n t) = n * c_size t"
| "c_size (CStruct fs) = align_up (c_end 0 fs) (c_aligns fs)"
| "c_size (CUnion fs) = align_up (c_widest fs) (c_aligns fs)"
| "c_end at [] = at"
| "c_end at ((n, t) # fs) = c_end (align_up at (c_align t) + c_size t) fs"
| "c_widest [] = 0"
| "c_widest ((n, t) # fs) = max (c_size t) (c_widest fs)"

text \<open>Where a field is, and the field a path of names leads to.\<close>

fun c_find :: "nat \<Rightarrow> (string \<times> c_type) list \<Rightarrow> string \<Rightarrow> (nat \<times> c_type) option" where
  "c_find at [] n = None"
| "c_find at ((m, t) # fs) n = (if m = n then Some (align_up at (c_align t), t) else c_find (align_up at (c_align t) + c_size t) fs n)"

fun c_path :: "c_type \<Rightarrow> string list \<Rightarrow> (nat \<times> nat) option" where
  "c_path t [] = Some (0, c_size t)"
| "c_path (CStruct fs) (n # ns) = (case c_find 0 fs n of None \<Rightarrow> None
     | Some (at, t) \<Rightarrow> map_option (\<lambda>(off, sz). (at + off, sz)) (c_path t ns))"
| "c_path (CUnion fs) (n # ns) = (case map_of fs n of None \<Rightarrow> None | Some t \<Rightarrow> c_path t ns)"
| "c_path (CScalar k) (n # ns) = None"
| "c_path (CArray k t) (n # ns) = None"

definition c_field :: "c_type \<Rightarrow> string list \<Rightarrow> byte list \<Rightarrow> byte list" where
  "c_field t path bs = (case c_path t path of Some (at, sz) \<Rightarrow> subslice at (at + sz) bs | None \<Rightarrow> [])"

section \<open>The structures\<close>

text \<open>\<open>sockaddr\<close>, \<open>sockaddr_in6\<close> and \<open>ifreq\<close> are those of the crate \<open>libc\<close>; an \<open>in6_addr\<close> is aligned to four bytes.\<close>

definition sockaddr_t :: c_type where
  "sockaddr_t = CStruct [(''sa_len'', CScalar 1), (''sa_family'', CScalar 1), (''sa_data'', CArray 14 (CScalar 1))]"

definition sockaddr_in6_t :: c_type where
  "sockaddr_in6_t = CStruct [(''sin6_len'', CScalar 1), (''sin6_family'', CScalar 1), (''sin6_port'', CScalar 2), (''sin6_flowinfo'', CScalar 4),
    (''sin6_addr'', CArray 4 (CScalar 4)), (''sin6_scope_id'', CScalar 4)]"

definition mac_ctl_info_t :: c_type where
  "mac_ctl_info_t = CStruct [
    (''ctl_id'', (CScalar 4)), (''ctl_name'', (CArray 96 (CScalar 1)))]"

definition mac_ifaliasreq_t :: c_type where
  "mac_ifaliasreq_t = CStruct [
    (''ifra_name'', (CArray 16 (CScalar 1))), (''ifra_addr'', sockaddr_t), (''ifra_broadaddr'', sockaddr_t),
    (''ifra_mask'', sockaddr_t)]"

definition mac_in6_addrlifetime_t :: c_type where
  "mac_in6_addrlifetime_t = CStruct [
    (''ia6t_expire'', (CScalar 8)), (''ia6t_preferred'', (CScalar 8)), (''ia6t_vltime'', (CScalar 4)),
    (''ia6t_pltime'', (CScalar 4))]"

definition mac_in6_ifaliasreq_t :: c_type where
  "mac_in6_ifaliasreq_t = CStruct [
    (''ifra_name'', (CArray 16 (CScalar 1))), (''ifra_addr'', sockaddr_in6_t), (''ifra_dstaddr'', sockaddr_in6_t),
    (''ifra_prefixmask'', sockaddr_in6_t), (''ifra_flags'', (CScalar 4)),
    (''in6_addrlifetime'', mac_in6_addrlifetime_t)]"

definition mac_in6_ifstat_t :: c_type where
  "mac_in6_ifstat_t = CStruct [
    (''ifs6_in_receive'', (CScalar 8)), (''ifs6_in_hdrerr'', (CScalar 8)), (''ifs6_in_toobig'', (CScalar 8)),
    (''ifs6_in_noroute'', (CScalar 8)), (''ifs6_in_addrerr'', (CScalar 8)), (''ifs6_in_protounknown'', (CScalar 8)),
    (''ifs6_in_truncated'', (CScalar 8)), (''ifs6_in_discard'', (CScalar 8)), (''ifs6_in_deliver'', (CScalar 8)),
    (''ifs6_out_forward'', (CScalar 8)), (''ifs6_out_request'', (CScalar 8)), (''ifs6_out_discard'', (CScalar 8)),
    (''ifs6_out_fragok'', (CScalar 8)), (''ifs6_out_fragfail'', (CScalar 8)), (''ifs6_out_fragcreat'', (CScalar 8)),
    (''ifs6_reass_reqd'', (CScalar 8)), (''ifs6_reass_ok'', (CScalar 8)), (''ifs6_reass_fail'', (CScalar 8)),
    (''ifs6_in_mcast'', (CScalar 8)), (''ifs6_out_mcast'', (CScalar 8))]"

definition mac_icmp6_ifstat_t :: c_type where
  "mac_icmp6_ifstat_t = CStruct [
    (''ifs6_in_msg'', (CScalar 8)), (''ifs6_in_error'', (CScalar 8)), (''ifs6_in_dstunreach'', (CScalar 8)),
    (''ifs6_in_adminprohib'', (CScalar 8)), (''ifs6_in_timeexceed'', (CScalar 8)),
    (''ifs6_in_paramprob'', (CScalar 8)), (''ifs6_in_pkttoobig'', (CScalar 8)), (''ifs6_in_echo'', (CScalar 8)),
    (''ifs6_in_echoreply'', (CScalar 8)), (''ifs6_in_routersolicit'', (CScalar 8)),
    (''ifs6_in_routeradvert'', (CScalar 8)), (''ifs6_in_neighborsolicit'', (CScalar 8)),
    (''ifs6_in_neighboradvert'', (CScalar 8)), (''ifs6_in_redirect'', (CScalar 8)),
    (''ifs6_in_mldquery'', (CScalar 8)), (''ifs6_in_mldreport'', (CScalar 8)), (''ifs6_in_mlddone'', (CScalar 8)),
    (''ifs6_out_msg'', (CScalar 8)), (''ifs6_out_error'', (CScalar 8)), (''ifs6_out_dstunreach'', (CScalar 8)),
    (''ifs6_out_adminprohib'', (CScalar 8)), (''ifs6_out_timeexceed'', (CScalar 8)),
    (''ifs6_out_paramprob'', (CScalar 8)), (''ifs6_out_pkttoobig'', (CScalar 8)), (''ifs6_out_echo'', (CScalar 8)),
    (''ifs6_out_echoreply'', (CScalar 8)), (''ifs6_out_routersolicit'', (CScalar 8)),
    (''ifs6_out_routeradvert'', (CScalar 8)), (''ifs6_out_neighborsolicit'', (CScalar 8)),
    (''ifs6_out_neighboradvert'', (CScalar 8)), (''ifs6_out_redirect'', (CScalar 8)),
    (''ifs6_out_mldquery'', (CScalar 8)), (''ifs6_out_mldreport'', (CScalar 8)), (''ifs6_out_mlddone'', (CScalar 8))]"

definition mac_ifr_ifru_in6_t :: c_type where
  "mac_ifr_ifru_in6_t = CUnion [
    (''ifru_addr'', sockaddr_in6_t), (''ifru_dstaddr'', sockaddr_in6_t), (''ifru_flags'', (CScalar 2)),
    (''ifru_flags6'', (CScalar 4)), (''ifru_metric'', (CScalar 4)), (''ifru_data'', (CScalar 8)),
    (''ifru_lifetime'', mac_in6_addrlifetime_t), (''ifru_stat'', mac_in6_ifstat_t),
    (''ifru_icmp6stat'', mac_icmp6_ifstat_t)]"

definition mac_in6_ifreq_t :: c_type where
  "mac_in6_ifreq_t = CStruct [
    (''ifra_name'', (CArray 16 (CScalar 1))), (''ifr_ifru'', mac_ifr_ifru_in6_t)]"

definition fbsd_ifaliasreq_t :: c_type where
  "fbsd_ifaliasreq_t = CStruct [
    (''ifran'', (CArray 16 (CScalar 1))), (''addr'', sockaddr_t), (''dstaddr'', sockaddr_t), (''mask'', sockaddr_t),
    (''ifra_vhid'', (CScalar 4))]"

definition fbsd_in6_addrlifetime_t :: c_type where
  "fbsd_in6_addrlifetime_t = CStruct [
    (''ia6t_expire'', (CScalar 8)), (''ia6t_preferred'', (CScalar 8)), (''ia6t_vltime'', (CScalar 4)),
    (''ia6t_pltime'', (CScalar 4))]"

definition fbsd_in6_ifaliasreq_t :: c_type where
  "fbsd_in6_ifaliasreq_t = CStruct [
    (''ifra_name'', (CArray 16 (CScalar 1))), (''ifra_addr'', sockaddr_in6_t), (''ifra_dstaddr'', sockaddr_in6_t),
    (''ifra_prefixmask'', sockaddr_in6_t), (''ifra_flags'', (CScalar 4)),
    (''in6_addrlifetime'', fbsd_in6_addrlifetime_t), (''ifra_vhid'', (CScalar 4))]"

definition fbsd_in6_ifstat_t :: c_type where
  "fbsd_in6_ifstat_t = CStruct [
    (''ifs6_in_receive'', (CScalar 8)), (''ifs6_in_hdrerr'', (CScalar 8)), (''ifs6_in_toobig'', (CScalar 8)),
    (''ifs6_in_noroute'', (CScalar 8)), (''ifs6_in_addrerr'', (CScalar 8)), (''ifs6_in_protounknown'', (CScalar 8)),
    (''ifs6_in_truncated'', (CScalar 8)), (''ifs6_in_discard'', (CScalar 8)), (''ifs6_in_deliver'', (CScalar 8)),
    (''ifs6_out_forward'', (CScalar 8)), (''ifs6_out_request'', (CScalar 8)), (''ifs6_out_discard'', (CScalar 8)),
    (''ifs6_out_fragok'', (CScalar 8)), (''ifs6_out_fragfail'', (CScalar 8)), (''ifs6_out_fragcreat'', (CScalar 8)),
    (''ifs6_reass_reqd'', (CScalar 8)), (''ifs6_reass_ok'', (CScalar 8)), (''ifs6_reass_fail'', (CScalar 8)),
    (''ifs6_in_mcast'', (CScalar 8)), (''ifs6_out_mcast'', (CScalar 8))]"

definition fbsd_icmp6_ifstat_t :: c_type where
  "fbsd_icmp6_ifstat_t = CStruct [
    (''ifs6_in_msg'', (CScalar 8)), (''ifs6_in_error'', (CScalar 8)), (''ifs6_in_dstunreach'', (CScalar 8)),
    (''ifs6_in_adminprohib'', (CScalar 8)), (''ifs6_in_timeexceed'', (CScalar 8)),
    (''ifs6_in_paramprob'', (CScalar 8)), (''ifs6_in_pkttoobig'', (CScalar 8)), (''ifs6_in_echo'', (CScalar 8)),
    (''ifs6_in_echoreply'', (CScalar 8)), (''ifs6_in_routersolicit'', (CScalar 8)),
    (''ifs6_in_routeradvert'', (CScalar 8)), (''ifs6_in_neighborsolicit'', (CScalar 8)),
    (''ifs6_in_neighboradvert'', (CScalar 8)), (''ifs6_in_redirect'', (CScalar 8)),
    (''ifs6_in_mldquery'', (CScalar 8)), (''ifs6_in_mldreport'', (CScalar 8)), (''ifs6_in_mlddone'', (CScalar 8)),
    (''ifs6_out_msg'', (CScalar 8)), (''ifs6_out_error'', (CScalar 8)), (''ifs6_out_dstunreach'', (CScalar 8)),
    (''ifs6_out_adminprohib'', (CScalar 8)), (''ifs6_out_timeexceed'', (CScalar 8)),
    (''ifs6_out_paramprob'', (CScalar 8)), (''ifs6_out_pkttoobig'', (CScalar 8)), (''ifs6_out_echo'', (CScalar 8)),
    (''ifs6_out_echoreply'', (CScalar 8)), (''ifs6_out_routersolicit'', (CScalar 8)),
    (''ifs6_out_routeradvert'', (CScalar 8)), (''ifs6_out_neighborsolicit'', (CScalar 8)),
    (''ifs6_out_neighboradvert'', (CScalar 8)), (''ifs6_out_redirect'', (CScalar 8)),
    (''ifs6_out_mldquery'', (CScalar 8)), (''ifs6_out_mldreport'', (CScalar 8)), (''ifs6_out_mlddone'', (CScalar 8))]"

definition fbsd_ifr_ifru_in6_t :: c_type where
  "fbsd_ifr_ifru_in6_t = CUnion [
    (''ifru_addr'', sockaddr_in6_t), (''ifru_dstaddr'', sockaddr_in6_t), (''ifru_flags'', (CScalar 4)),
    (''ifru_flags6'', (CScalar 4)), (''ifru_metric'', (CScalar 4)), (''ifru_data'', (CScalar 8)),
    (''ifru_lifetime'', fbsd_in6_addrlifetime_t), (''ifru_stat'', fbsd_in6_ifstat_t),
    (''ifru_icmp6stat'', fbsd_icmp6_ifstat_t), (''ifru_scope_id'', (CArray 16 (CScalar 4)))]"

definition fbsd_in6_ifreq_t :: c_type where
  "fbsd_in6_ifreq_t = CStruct [
    (''ifra_name'', (CArray 16 (CScalar 1))), (''ifr_ifru'', fbsd_ifr_ifru_in6_t)]"

definition fbsd_nd_ifinfo_t :: c_type where
  "fbsd_nd_ifinfo_t = CStruct [
    (''linkmtu'', (CScalar 4)), (''maxmtu'', (CScalar 4)), (''basereachable'', (CScalar 4)),
    (''reachable'', (CScalar 4)), (''retrans'', (CScalar 4)), (''flags'', (CScalar 4)), (''recalctm'', (CScalar 4)),
    (''chlim'', (CScalar 1)), (''initialized'', (CScalar 1)), (''randomseed0'', (CArray 8 (CScalar 1))),
    (''randomseed1'', (CArray 8 (CScalar 1))), (''randomid'', (CArray 8 (CScalar 1)))]"

definition fbsd_in6_ndireq_t :: c_type where
  "fbsd_in6_ndireq_t = CStruct [
    (''ifra_name'', (CArray 16 (CScalar 1))), (''ndi'', fbsd_nd_ifinfo_t)]"

lemmas fbsd_layout_defs = fbsd_ifaliasreq_t_def fbsd_in6_addrlifetime_t_def fbsd_in6_ifaliasreq_t_def fbsd_in6_ifstat_t_def
  fbsd_icmp6_ifstat_t_def fbsd_ifr_ifru_in6_t_def fbsd_in6_ifreq_t_def fbsd_nd_ifinfo_t_def fbsd_in6_ndireq_t_def
  sockaddr_t_def sockaddr_in6_t_def align_up_def

lemmas mac_layout_defs = mac_ctl_info_t_def mac_ifaliasreq_t_def mac_in6_addrlifetime_t_def mac_in6_ifaliasreq_t_def mac_in6_ifstat_t_def
  mac_icmp6_ifstat_t_def mac_ifr_ifru_in6_t_def mac_in6_ifreq_t_def sockaddr_t_def sockaddr_in6_t_def align_up_def

lemma subslice_replicate: "hi \<le> n \<Longrightarrow> subslice lo hi (replicate n x) = replicate (hi - lo) x"
  by (simp add: subslice_def)

section \<open>Every value in its field\<close>



end
