(* ===== verification/WinSetup.thy ===== *)
theory WinSetup
  imports WinDeviceSpec WinFfiSpec
begin

text \<open>
  The rest of the Win32 layer (\<open>src/platform/windows/ffi.rs\<close>): files with overlapped operations, the setup functions for
  devices and drivers, registry keys.  Apart from the adapter search nothing in the crate calls these functions.
\<close>

section \<open>The system\<close>

text \<open>
  \<open>SP_DRVINFO_DATA_V2_W\<close> is its bytes.  A reading call says what it wrote at the start of the buffer; an \<open>OVERLAPPED\<close> is
  changed by the call it is given to.
\<close>

record OVERLAPPED =
  ov_Internal :: u64
  ov_InternalHigh :: u64
  ov_Offset :: u32
  ov_OffsetHigh :: u32
  ov_hEvent :: handle

record SP_DRVINFO_DETAIL_DATA_W2 =
  dd_cbSize :: u32
  dd_InfDate :: FILETIME
  dd_CompatIDsOffset :: u32
  dd_CompatIDsLength :: u32
  dd_Reserved :: u64
  dd_SectionName :: "u16 list"
  dd_InfFileName :: "u16 list"
  dd_DrvDescription :: "u16 list"
  dd_HardwareID :: "u16 list"

record SP_PROPCHANGE_PARAMS =
  pc_cbSize :: u32
  pc_InstallFunction :: u32
  pc_StateChange :: u32
  pc_Scope :: u32
  pc_HwProfile :: u32

record 's install_sys = "'s setup_sys" +
  sf_CreateFile :: "u16 list \<Rightarrow> u32 \<Rightarrow> u32 \<Rightarrow> u32 \<Rightarrow> u32 \<Rightarrow> 's \<Rightarrow> handle \<times> 's"
  sf_ReadFile :: "handle \<Rightarrow> OVERLAPPED \<Rightarrow> nat \<Rightarrow> 's \<Rightarrow> (nat \<times> u32 \<times> byte list \<times> OVERLAPPED) \<times> 's"
  sf_WriteFile :: "handle \<Rightarrow> OVERLAPPED \<Rightarrow> byte list \<Rightarrow> 's \<Rightarrow> (nat \<times> u32 \<times> OVERLAPPED) \<times> 's"
  sf_GetOverlappedResult :: "handle \<Rightarrow> OVERLAPPED \<Rightarrow> bool \<Rightarrow> 's \<Rightarrow> (nat \<times> u32) \<times> 's"
  sf_DeviceIoControl :: "handle \<Rightarrow> u32 \<Rightarrow> byte list \<Rightarrow> byte list \<Rightarrow> 's \<Rightarrow> (nat \<times> byte list) \<times> 's"
  sf_CreateDeviceInfoList :: "win_guid \<Rightarrow> 's \<Rightarrow> int \<times> 's"
  sf_GetClassDevs :: "win_guid \<Rightarrow> u32 \<Rightarrow> 's \<Rightarrow> int \<times> 's"
  sf_ClassNameFromGuid :: "win_guid \<Rightarrow> nat \<Rightarrow> 's \<Rightarrow> (nat \<times> u16 list) \<times> 's"
  sf_CreateDeviceInfo :: "int \<Rightarrow> u16 list \<Rightarrow> win_guid \<Rightarrow> u16 list \<Rightarrow> u32 \<Rightarrow> 's \<Rightarrow> (nat \<times> devinfo) \<times> 's"
  sf_SetSelectedDevice :: "int \<Rightarrow> devinfo \<Rightarrow> 's \<Rightarrow> nat \<times> 's"
  sf_SetRegistryProperty :: "int \<Rightarrow> devinfo \<Rightarrow> u32 \<Rightarrow> byte list \<Rightarrow> 's \<Rightarrow> nat \<times> 's"
  sf_GetRegistryProperty :: "int \<Rightarrow> devinfo \<Rightarrow> u32 \<Rightarrow> nat \<Rightarrow> 's \<Rightarrow> (nat \<times> byte list \<times> u32) \<times> 's"
  sf_BuildDriverInfoList :: "int \<Rightarrow> devinfo \<Rightarrow> u32 \<Rightarrow> 's \<Rightarrow> nat \<times> 's"
  sf_DestroyDriverInfoList :: "int \<Rightarrow> devinfo \<Rightarrow> u32 \<Rightarrow> 's \<Rightarrow> nat \<times> 's"
  sf_GetDriverInfoDetail :: "int \<Rightarrow> devinfo \<Rightarrow> byte list \<Rightarrow> SP_DRVINFO_DETAIL_DATA_W2 \<Rightarrow> nat \<Rightarrow> 's \<Rightarrow> (nat \<times> SP_DRVINFO_DETAIL_DATA_W2) \<times> 's"
  sf_SetSelectedDriver :: "int \<Rightarrow> devinfo \<Rightarrow> byte list \<Rightarrow> 's \<Rightarrow> nat \<times> 's"
  sf_EnumDriverInfo :: "int \<Rightarrow> devinfo \<Rightarrow> u32 \<Rightarrow> u32 \<Rightarrow> 's \<Rightarrow> (nat \<times> byte list) \<times> 's"
  sf_CallClassInstaller :: "u32 \<Rightarrow> int \<Rightarrow> devinfo \<Rightarrow> 's \<Rightarrow> nat \<times> 's"
  sf_SetClassInstallParams :: "int \<Rightarrow> devinfo \<Rightarrow> SP_PROPCHANGE_PARAMS \<Rightarrow> nat \<Rightarrow> 's \<Rightarrow> nat \<times> 's"
  sf_OpenDevRegKey :: "int \<Rightarrow> devinfo \<Rightarrow> u32 \<Rightarrow> u32 \<Rightarrow> u32 \<Rightarrow> u32 \<Rightarrow> 's \<Rightarrow> handle \<times> 's"
  sf_RegNotifyChangeKeyValue :: "handle \<Rightarrow> bool \<Rightarrow> u32 \<Rightarrow> handle \<Rightarrow> bool \<Rightarrow> 's \<Rightarrow> nat \<times> 's"

definition WIN_INVALID_HANDLE :: handle where "WIN_INVALID_HANDLE = -1"
definition ERROR_IO_PENDING :: nat where "ERROR_IO_PENDING = 997"
definition ERROR_IO_INCOMPLETE :: nat where "ERROR_IO_INCOMPLETE = 996"
definition MAX_CLASS_NAME_LEN :: nat where "MAX_CLASS_NAME_LEN = 32"
definition DIF_PROPERTYCHANGE :: u32 where "DIF_PROPERTYCHANGE = 0x12"
definition DICS_ENABLE :: u32 where "DICS_ENABLE = 1"
definition DICS_DISABLE :: u32 where "DICS_DISABLE = 2"
definition DICS_FLAG_GLOBAL :: u32 where "DICS_FLAG_GLOBAL = 1"

text \<open>A call whose result 0 is its failure.\<close>

definition nonzero_call :: "('s, 'x) win_sys_scheme \<Rightarrow> ('s \<Rightarrow> nat \<times> 's) \<Rightarrow> ('s, unit) io" where
  "nonzero_call W f = (\<lambda>s. let (r, s) = f s in if r = 0 then win_last_os_error W s else (Ok (), s))"

section \<open>Files\<close>

definition create_file :: "('s, 'x) install_sys_scheme \<Rightarrow> rstr \<Rightarrow> u32 \<Rightarrow> u32 \<Rightarrow> u32 \<Rightarrow> u32 \<Rightarrow> ('s, handle) io" where
  "create_file W file_name access share disposition attributes = (\<lambda>s.
     let (h, s) = sf_CreateFile W (encode_utf16 file_name) access share disposition attributes s
     in if h = 0 then win_last_os_error W s else (Ok h, s))"

definition io_overlapped :: OVERLAPPED where
  "io_overlapped = \<lparr>ov_Internal = 0, ov_InternalHigh = 0, ov_Offset = 0, ov_OffsetHigh = 0, ov_hEvent = 0\<rparr>"

definition error_map :: "('s, 'x) win_sys_scheme \<Rightarrow> 's \<Rightarrow> io_error" where
  "error_map W s = (if wi_GetLastError W s = ERROR_IO_PENDING then Custom WouldBlock '''' else OsError (wi_GetLastError W s))"

text \<open>With the result come the buffer and the \<open>OVERLAPPED\<close> as they are then.\<close>

definition try_read_file :: "('s, 'x) install_sys_scheme \<Rightarrow> handle \<Rightarrow> OVERLAPPED \<Rightarrow> byte list
    \<Rightarrow> 's \<Rightarrow> (u32 res \<times> byte list \<times> OVERLAPPED) \<times> 's" where
  "try_read_file W h ov buffer s =
     (let ((r, ret, got, ov), s) = sf_ReadFile W h ov (length buffer) s
      in ((if r = 0 then Err (error_map W s) else Ok ret, blit buffer 0 (take (length buffer) got), ov), s))"

definition try_write_file :: "('s, 'x) install_sys_scheme \<Rightarrow> handle \<Rightarrow> OVERLAPPED \<Rightarrow> byte list \<Rightarrow> 's \<Rightarrow> (u32 res \<times> OVERLAPPED) \<times> 's" where
  "try_write_file W h ov buffer s =
     (let ((r, ret, ov), s) = sf_WriteFile W h ov buffer s
      in ((if r = 0 then Err (error_map W s) else Ok ret, ov), s))"

definition try_io_overlapped :: "('s, 'x) install_sys_scheme \<Rightarrow> handle \<Rightarrow> OVERLAPPED \<Rightarrow> ('s, u32) io" where
  "try_io_overlapped W h ov = (\<lambda>s.
     let ((r, ret), s) = sf_GetOverlappedResult W h ov False s
     in if r \<noteq> 0 then (Ok ret, s)
        else if wi_GetLastError W s = ERROR_IO_INCOMPLETE then (Err (Custom WouldBlock ''''), s) else win_last_os_error W s)"

definition wait_io_overlapped :: "('s, 'x) install_sys_scheme \<Rightarrow> handle \<Rightarrow> OVERLAPPED \<Rightarrow> ('s, u32) io" where
  "wait_io_overlapped W h ov = (\<lambda>s.
     let ((r, ret), s) = sf_GetOverlappedResult W h ov True s in if r = 0 then win_last_os_error W s else (Ok ret, s))"

definition device_io_control :: "('s, 'x) install_sys_scheme \<Rightarrow> handle \<Rightarrow> u32 \<Rightarrow> byte list \<Rightarrow> byte list
    \<Rightarrow> 's \<Rightarrow> (unit res \<times> byte list) \<times> 's" where
  "device_io_control W h code in_buffer out_buffer s =
     (let ((r, got), s) = sf_DeviceIoControl W h code in_buffer out_buffer s
      in ((if r = 0 then Err (OsError (wi_GetLastError W s)) else Ok (), blit out_buffer 0 (take (length out_buffer) got)), s))"

section \<open>Devices and drivers\<close>

definition create_device_info_list :: "('s, 'x) install_sys_scheme \<Rightarrow> win_guid \<Rightarrow> ('s, int) io" where
  "create_device_info_list W guid = (\<lambda>s.
     let (devs, s) = sf_CreateDeviceInfoList W guid s in if devs = -1 then win_last_os_error W s else (Ok devs, s))"

definition get_class_devs :: "('s, 'x) install_sys_scheme \<Rightarrow> win_guid \<Rightarrow> u32 \<Rightarrow> ('s, int) io" where
  "get_class_devs W guid flg = (\<lambda>s.
     let (devs, s) = sf_GetClassDevs W guid flg s in if devs = -1 then win_last_os_error W s else (Ok devs, s))"

definition class_name_from_guid :: "('s, 'x) install_sys_scheme \<Rightarrow> win_guid \<Rightarrow> ('s, rstr) io" where
  "class_name_from_guid W guid = (\<lambda>s.
     let ((r, us), s) = sf_ClassNameFromGuid W guid MAX_CLASS_NAME_LEN s
     in if r = 0 then win_last_os_error W s else (Ok (decode_utf16 (wide_buffer MAX_CLASS_NAME_LEN us)), s))"

definition create_device_info :: "('s, 'x) install_sys_scheme \<Rightarrow> int \<Rightarrow> rstr \<Rightarrow> win_guid \<Rightarrow> rstr \<Rightarrow> u32 \<Rightarrow> ('s, devinfo) io" where
  "create_device_info W devs device_name guid description flg = (\<lambda>s.
     let ((r, data), s) = sf_CreateDeviceInfo W devs (encode_utf16 device_name) guid (encode_utf16 description) flg s
     in if r = 0 then win_last_os_error W s else (Ok data, s))"

definition set_selected_device :: "('s, 'x) install_sys_scheme \<Rightarrow> int \<Rightarrow> devinfo \<Rightarrow> ('s, unit) io" where
  "set_selected_device W devs data = nonzero_call W (sf_SetSelectedDevice W devs data)"

text \<open>The units of a string as little-endian bytes.\<close>

definition bytes_of_units :: "u16 list \<Rightarrow> byte list" where
  "bytes_of_units us = concat (map to_le16 us)"

definition set_device_registry_property :: "('s, 'x) install_sys_scheme \<Rightarrow> int \<Rightarrow> devinfo \<Rightarrow> u32 \<Rightarrow> rstr \<Rightarrow> ('s, unit) io" where
  "set_device_registry_property W devs data property str =
     nonzero_call W (sf_SetRegistryProperty W devs data property (bytes_of_units (encode_utf16 str)))"

text \<open>
  The first call asks for the size; its result is not looked at.  The buffer is made of units, so that an odd size is one byte
  more than it has: writing that byte is undefined and shows as \<open>Panic\<close>.
\<close>

definition get_device_registry_property :: "('s, 'x) install_sys_scheme \<Rightarrow> int \<Rightarrow> devinfo \<Rightarrow> u32 \<Rightarrow> ('s, rstr) io" where
  "get_device_registry_property W devs data property = (\<lambda>s.
     let ((_, _, required), s) = sf_GetRegistryProperty W devs data property 0 s
     in if required = 0 then (Err (Custom NotFound ''property not found or empty''), s)
        else let ((r, bytes, _), s) = sf_GetRegistryProperty W devs data property (unat required) s
          in if r = 0 then win_last_os_error W s
             else (ensure (length bytes \<le> 2 * (unat required div 2))
               (Ok (decode_utf16 (wide_buffer (unat required div 2) (units_of bytes)))), s))"

definition build_driver_info_list :: "('s, 'x) install_sys_scheme \<Rightarrow> int \<Rightarrow> devinfo \<Rightarrow> u32 \<Rightarrow> ('s, unit) io" where
  "build_driver_info_list W devs data driver_type = nonzero_call W (sf_BuildDriverInfoList W devs data driver_type)"

definition destroy_driver_info_list :: "('s, 'x) install_sys_scheme \<Rightarrow> int \<Rightarrow> devinfo \<Rightarrow> u32 \<Rightarrow> ('s, unit) io" where
  "destroy_driver_info_list W devs data driver_type = nonzero_call W (sf_DestroyDriverInfoList W devs data driver_type)"

text \<open>
  The detail is asked for in a structure with room for longer strings, whose size member is that of the one it stands for, 1584 bytes; it has 2600 itself.
\<close>

definition drvinfo_detail_zeroed :: SP_DRVINFO_DETAIL_DATA_W2 where
  "drvinfo_detail_zeroed = \<lparr>dd_cbSize = 1584, dd_InfDate = \<lparr>dwLowDateTime = 0, dwHighDateTime = 0\<rparr>, dd_CompatIDsOffset = 0,
     dd_CompatIDsLength = 0, dd_Reserved = 0, dd_SectionName = replicate 256 0, dd_InfFileName = replicate 260 0,
     dd_DrvDescription = replicate 256 0, dd_HardwareID = replicate 512 0\<rparr>"

definition get_driver_info_detail :: "('s, 'x) install_sys_scheme \<Rightarrow> int \<Rightarrow> devinfo \<Rightarrow> byte list \<Rightarrow> ('s, SP_DRVINFO_DETAIL_DATA_W2) io" where
  "get_driver_info_detail W devs data drvinfo = (\<lambda>s.
     let ((r, detail), s) = sf_GetDriverInfoDetail W devs data drvinfo drvinfo_detail_zeroed 2600 s
     in if r = 0 then win_last_os_error W s else (Ok detail, s))"

definition set_selected_driver :: "('s, 'x) install_sys_scheme \<Rightarrow> int \<Rightarrow> devinfo \<Rightarrow> byte list \<Rightarrow> ('s, unit) io" where
  "set_selected_driver W devs data drvinfo = nonzero_call W (sf_SetSelectedDriver W devs data drvinfo)"

text \<open>\<open>None\<close> at the end of the list.\<close>

definition enum_driver_info :: "('s, 'x) install_sys_scheme \<Rightarrow> int \<Rightarrow> devinfo \<Rightarrow> u32 \<Rightarrow> u32 \<Rightarrow> 's \<Rightarrow> byte list res option \<times> 's" where
  "enum_driver_info W devs data driver_type member_index s =
     (let ((r, drvinfo), s) = sf_EnumDriverInfo W devs data driver_type member_index s
      in if r \<noteq> 0 then (Some (Ok drvinfo), s)
         else if wi_GetLastError W s = ERROR_NO_MORE_ITEMS then (None, s) else (Some (Err (OsError (wi_GetLastError W s))), s))"

definition call_class_installer :: "('s, 'x) install_sys_scheme \<Rightarrow> int \<Rightarrow> devinfo \<Rightarrow> u32 \<Rightarrow> ('s, unit) io" where
  "call_class_installer W devs data install_function = nonzero_call W (sf_CallClassInstaller W install_function devs data)"

definition set_device_state :: "('s, 'x) install_sys_scheme \<Rightarrow> int \<Rightarrow> devinfo \<Rightarrow> bool \<Rightarrow> ('s, unit) io" where
  "set_device_state W devs data enable =
     (let params = \<lparr>pc_cbSize = 8, pc_InstallFunction = DIF_PROPERTYCHANGE, pc_StateChange = if enable then DICS_ENABLE else DICS_DISABLE,
            pc_Scope = DICS_FLAG_GLOBAL, pc_HwProfile = 0\<rparr>
      in io_then (nonzero_call W (sf_SetClassInstallParams W devs data params 20))
           (call_class_installer W devs data DIF_PROPERTYCHANGE))"

section \<open>Registry keys\<close>

definition open_dev_reg_key :: "('s, 'x) install_sys_scheme \<Rightarrow> int \<Rightarrow> devinfo \<Rightarrow> u32 \<Rightarrow> u32 \<Rightarrow> u32 \<Rightarrow> u32 \<Rightarrow> ('s, handle) io" where
  "open_dev_reg_key W devs data scope hw_profile key_type sam = (\<lambda>s.
     let (key, s) = sf_OpenDevRegKey W devs data scope hw_profile key_type sam s
     in if key = WIN_INVALID_HANDLE then win_last_os_error W s else (Ok key, s))"

text \<open>An auto-reset event is waited for; whether it was made is asked with \<open>INVALID_HANDLE_VALUE\<close>.\<close>

definition notify_change_key_value :: "('s, 'x) install_sys_scheme \<Rightarrow> handle \<Rightarrow> bool \<Rightarrow> u32 \<Rightarrow> nat \<Rightarrow> ('s, unit) io" where
  "notify_change_key_value W key watch_subtree notify_filter milliseconds = (\<lambda>s.
     let (event, s) = wi_CreateEvent W False False s
     in if event = WIN_INVALID_HANDLE then win_last_os_error W s
        else
          let (r, s) = sf_RegNotifyChangeKeyValue W key watch_subtree notify_filter event True s;
              (result, s) = (if r \<noteq> 0 then win_last_os_error W s
                else let (w, s) = wi_WaitForSingleObject W event milliseconds s
                  in if w = 0 then (Ok (), s)
                     else if w = 0x102 then (Err (Custom TimedOut ''Registry timed out''), s)
                     else win_last_os_error W s)
          in (result, wi_CloseHandle W event s))"

section \<open>Properties\<close>

lemma units_of_bytes: "units_of (bytes_of_units us) = us"
  by (induction us) (simp_all add: bytes_of_units_def to_le16_def to_be16_def)

lemma length_bytes_of_units: "length (bytes_of_units us) = 2 * length us"
  by (induction us) (simp_all add: bytes_of_units_def to_le16_def to_be16_def)

text \<open>
  What is assumed of the registry properties of a device: a value that was set is stored, a query leaves it, says its size, and gives
  it into a buffer of that size.
\<close>

definition stores_properties :: "('s, 'x) install_sys_scheme \<Rightarrow> int \<Rightarrow> devinfo \<Rightarrow> ('s \<Rightarrow> u32 \<Rightarrow> byte list) \<Rightarrow> bool" where
  "stores_properties W devs data prop \<longleftrightarrow>
     (\<forall>p bs s. case sf_SetRegistryProperty W devs data p bs s of (r, s') \<Rightarrow> r \<noteq> 0 \<longrightarrow> prop s' p = bs)
     \<and> (\<forall>p n s. case sf_GetRegistryProperty W devs data p n s of ((r, bytes, required), s') \<Rightarrow> length (prop s p) < 2 ^ 32 \<longrightarrow>
          prop s' = prop s \<and> unat required = length (prop s p) \<and> (n = length (prop s p) \<longrightarrow> r \<noteq> 0 \<and> bytes = prop s p))"

text \<open>
  C40. A registry property of a device that was set to a string reads back as the string: the units go out as bytes with the NUL at their end, the size is
  asked for first, and the buffer is decoded up to the NUL.
\<close>

theorem registry_property_roundtrip:
  assumes "stores_properties W devs data prop" "\<forall>c \<in> set str. is_scalar c \<and> c \<noteq> 0" "2 * length (encode_utf16 str) < 2 ^ 32"
    and "set_device_registry_property W devs data p str s = (Ok (), s')"
  shows "fst (get_device_registry_property W devs data p s') = Ok str"
proof -
  let ?us = "encode_utf16 str"
  obtain r t where t: "sf_SetRegistryProperty W devs data p (bytes_of_units ?us) s = (r, t)" by force
  have "case sf_SetRegistryProperty W devs data p (bytes_of_units ?us) s of (r, s') \<Rightarrow> r \<noteq> 0 \<longrightarrow> prop s' p = bytes_of_units ?us"
    by (rule assms(1) [unfolded stores_properties_def, THEN conjunct1, THEN spec, THEN spec, THEN spec])
  then have st: "prop s' p = bytes_of_units ?us"
    using assms(4) t by (auto simp: set_device_registry_property_def nonzero_call_def win_last_os_error_def split: if_splits)
  have query: "case sf_GetRegistryProperty W devs data p n u of ((r, bytes, required), u') \<Rightarrow> length (prop u p) < 2 ^ 32 \<longrightarrow>
      prop u' = prop u \<and> unat required = length (prop u p) \<and> (n = length (prop u p) \<longrightarrow> r \<noteq> 0 \<and> bytes = prop u p)" for n u
    by (rule assms(1) [unfolded stores_properties_def, THEN conjunct2, THEN spec, THEN spec, THEN spec])
  obtain r1 b1 q1 s1 where 1: "sf_GetRegistryProperty W devs data p 0 s' = ((r1, b1, q1), s1)" by (metis surj_pair)
  then have q1: "prop s1 = prop s'" "unat q1 = 2 * length ?us" using query [where n = 0 and u = s'] st assms(3) by (simp_all add: length_bytes_of_units)
  obtain r2 b2 q2 s2 where 2: "sf_GetRegistryProperty W devs data p (unat q1) s1 = ((r2, b2, q2), s2)" by (metis surj_pair)
  then have "r2 \<noteq> 0" "b2 = bytes_of_units ?us" using query [where n = "unat q1" and u = s1] q1 st assms(3) by (simp_all add: length_bytes_of_units)
  moreover have "q1 \<noteq> 0" using q1(2) by (auto simp: encode_utf16_def)
  moreover have "decode_utf16 (wide_buffer (length ?us) ?us) = str" using decode_encode_append [OF assms(2), of "[]"] by (simp add: wide_buffer_def)
  ultimately show ?thesis using 1 2 q1(2) by (simp add: get_device_registry_property_def units_of_bytes length_bytes_of_units)
qed

text \<open>A machine that stores the properties of its one device.\<close>

definition install_demo :: "wdemo install_sys" where
  "install_demo = setup_sys.extend (setup_sys.truncate dev_demo) \<lparr>sf_CreateFile = (\<lambda>_ _ _ _ _ s. (4, s)),
     sf_ReadFile = (\<lambda>_ ov _ s. ((1, 0, [], ov), s)), sf_WriteFile = (\<lambda>_ ov bs s. ((1, of_nat (length bs), ov), s)),
     sf_GetOverlappedResult = (\<lambda>_ _ _ s. ((1, 0), s)), sf_DeviceIoControl = (\<lambda>_ _ _ _ s. ((1, []), s)),
     sf_CreateDeviceInfoList = (\<lambda>_ s. (5, s)), sf_GetClassDevs = (\<lambda>_ _ s. (5, s)), sf_ClassNameFromGuid = (\<lambda>_ _ s. ((1, []), s)),
     sf_CreateDeviceInfo = (\<lambda>_ _ _ _ _ s. ((1, \<lparr>di_DevInst = 1, di_rest = []\<rparr>), s)), sf_SetSelectedDevice = (\<lambda>_ _ s. (1, s)),
     sf_SetRegistryProperty = (\<lambda>_ _ p bs s. (1, s\<lparr>dm_mem := (dm_mem s)(uint p := bs)\<rparr>)),
     sf_GetRegistryProperty = (\<lambda>_ _ p n s. ((if n < length (dm_mem s (uint p)) then 0 else 1, dm_mem s (uint p), of_nat (length (dm_mem s (uint p)))), s)),
     sf_BuildDriverInfoList = (\<lambda>_ _ _ s. (1, s)), sf_DestroyDriverInfoList = (\<lambda>_ _ _ s. (1, s)),
     sf_GetDriverInfoDetail = (\<lambda>_ _ _ d _ s. ((1, d), s)), sf_SetSelectedDriver = (\<lambda>_ _ _ s. (1, s)),
     sf_EnumDriverInfo = (\<lambda>_ _ _ _ s. ((0, []), s)), sf_CallClassInstaller = (\<lambda>_ _ _ s. (1, s)),
     sf_SetClassInstallParams = (\<lambda>_ _ _ _ s. (1, s)), sf_OpenDevRegKey = (\<lambda>_ _ _ _ _ _ s. (6, s)),
     sf_RegNotifyChangeKeyValue = (\<lambda>_ _ _ _ _ s. (0, s))\<rparr>"

lemma install_demo_simps:
  "sf_SetRegistryProperty install_demo d v p bs s = (1, s\<lparr>dm_mem := (dm_mem s)(uint p := bs)\<rparr>)"
  "sf_GetRegistryProperty install_demo d v p n s = ((if n < length (dm_mem s (uint p)) then 0 else 1, dm_mem s (uint p), of_nat (length (dm_mem s (uint p)))), s)"
  by (simp_all add: install_demo_def setup_sys.extend_def)

lemma install_demo_stores: "stores_properties install_demo devs data (\<lambda>s p. dm_mem s (uint p))"
  by (auto simp: stores_properties_def install_demo_simps unat_of_nat)

theorem registry_property_roundtrip_witness:
  "fst (get_device_registry_property install_demo 5 \<lparr>di_DevInst = 1, di_rest = []\<rparr> 12
      (dm_start\<lparr>dm_mem := (dm_mem dm_start)(12 := bytes_of_units (encode_utf16 [116, 0x20AC]))\<rparr>)) = Ok [116, 0x20AC]"
  by (rule registry_property_roundtrip [OF install_demo_stores, where s = dm_start])
    (simp_all add: is_scalar_def encode_utf16_def utf16_units_def set_device_registry_property_def nonzero_call_def install_demo_simps)

text \<open>\<open>notify_change_key_value\<close> closes the event it makes, whichever way it ends.\<close>

lemma notify_closes_event:
  assumes "acquires held WEvent (wi_CreateEvent W False False)" "\<And>h. releases held (WEvent h) (wi_CloseHandle W h)"
    and "\<And>h n. keeps held (wi_WaitForSingleObject W h n)" "\<And>k b f h a. keeps held (sf_RegNotifyChangeKeyValue W k b f h a)"
    and "\<And>s. WEvent 0 \<notin> held s" "\<And>s. fst (wi_CreateEvent W False False s) \<noteq> WIN_INVALID_HANDLE"
  shows "held (snd (notify_change_key_value W key sub flt ms s)) = held s"
proof -
  obtain h s1 where 1: "wi_CreateEvent W False False s = (h, s1)" by force
  have "h \<noteq> WIN_INVALID_HANDLE" using assms(6) [of s] 1 by simp
  obtain r s2 where 2: "sf_RegNotifyChangeKeyValue W key sub flt h True s1 = (r, s2)" by force
  obtain w s3 where 3: "wi_WaitForSingleObject W h ms s2 = (w, s3)" by force
  have "held s2 = held s1" "held s3 = held s2" using keepsD [OF assms(4) 2] keepsD [OF assms(3) 3] by simp_all
  moreover have "held s1 - {WEvent h} = held s" using acquiresD [OF assms(1) 1] assms(5) by (cases "h = 0") auto
  ultimately show ?thesis using 1 2 3 \<open>h \<noteq> WIN_INVALID_HANDLE\<close> assms(2)
    by (auto simp: notify_change_key_value_def win_last_os_error_def releases_def)
qed

end
