(* ===== verification/UnixFallback.thy ===== *)
theory UnixFallback
  imports UnixFd
begin

text \<open>
  The device of Android and iOS (\<open>src/platform/unix/mod.rs\<close>): a descriptor the system made.  What would need more than the
  descriptor is refused.
\<close>

record FallbackDevice =
  fallback_tun :: Tun

definition fallback_from_tun :: "Tun \<Rightarrow> FallbackDevice res" where
  "fallback_from_tun t = Ok \<lparr>fallback_tun = t\<rparr>"

definition fallback_name :: "FallbackDevice \<Rightarrow> byte list res" where
  "fallback_name d = Err (Custom Unsupported '''')"

definition fallback_enabled :: "FallbackDevice \<Rightarrow> bool \<Rightarrow> unit res" where
  "fallback_enabled d value = Err (Custom Unsupported '''')"

definition fallback_mtu :: "FallbackDevice \<Rightarrow> u16 res" where
  "fallback_mtu d = Err (Custom Unsupported '''')"

text \<open>\<open>DeviceImpl::from_fd\<close> of this device.\<close>

definition fallback_from_fd :: "int \<Rightarrow> FallbackDevice res" where
  "fallback_from_fd v = fallback_from_tun (Tun_new (Fd_new_unchecked v))"

end
