(* ===== verification/WinLog.thy ===== *)
theory WinLog
  imports WinTun
begin

text \<open>
  The logger given to the wintun library (\<open>src/platform/windows/tun/wintun_log.rs\<close>).  The callback of C is a function
  from level, time and message to the record that the crate \<open>log\<close> gets; the library's \<open>WintunSetLogger\<close> is an argument.
\<close>

datatype log_level = LogInfo | LogWarn | LogError

record log_record =
  lr_level :: log_level
  lr_text :: rstr

type_synonym wintun_logger = "32 word \<Rightarrow> 64 word \<Rightarrow> u16 list \<Rightarrow> log_record"

definition rstr_of :: "string \<Rightarrow> rstr" where
  "rstr_of = map of_char"

text \<open>\<open>Display\<close> for \<open>i32\<close>.\<close>

definition i32_to_string :: "32 word \<Rightarrow> rstr" where
  "i32_to_string v = (if sint v < 0 then 45 # decimal (nat (- sint v)) else decimal (nat (sint v)))"

text \<open>The message ends at its NUL; the levels are \<open>WINTUN_LOG_INFO\<close>, \<open>WINTUN_LOG_WARN\<close> and \<open>WINTUN_LOG_ERR\<close>.\<close>

definition default_logger_impl :: "32 word \<Rightarrow> u16 list \<Rightarrow> log_record" where
  "default_logger_impl level message =
     (let utf8_msg = rstr_of ''WinTun: '' @ from_utf16_lossy (takeWhile (\<lambda>u. u \<noteq> 0) message)
      in if level = 0 then \<lparr>lr_level = LogInfo, lr_text = utf8_msg\<rparr>
         else if level = 1 then \<lparr>lr_level = LogWarn, lr_text = utf8_msg\<rparr>
         else if level = 2 then \<lparr>lr_level = LogError, lr_text = utf8_msg\<rparr>
         else \<lparr>lr_level = LogError,
           lr_text = utf8_msg @ rstr_of '' (with invalid log level '' @ i32_to_string level @ rstr_of '')''\<rparr>)"

definition default_logger :: wintun_logger where
  "default_logger level timestamp message = default_logger_impl level message"

definition set_logger :: "(wintun_logger option \<Rightarrow> 's \<Rightarrow> 's) \<Rightarrow> wintun_logger option \<Rightarrow> 's \<Rightarrow> 's" where
  "set_logger WintunSetLogger f = WintunSetLogger f"

definition reset_logger :: "(wintun_logger option \<Rightarrow> 's \<Rightarrow> 's) \<Rightarrow> 's \<Rightarrow> 's" where
  "reset_logger WintunSetLogger = set_logger WintunSetLogger None"

definition set_default_logger_if_unset :: "(wintun_logger option \<Rightarrow> 's \<Rightarrow> 's) \<Rightarrow> 's \<Rightarrow> 's" where
  "set_default_logger_if_unset WintunSetLogger = set_logger WintunSetLogger (Some default_logger)"

text \<open>
  Only the three levels of the library are told apart; a message of any other is an error, its text the longer for
  the level.  The text does not depend on what follows the NUL.
\<close>

lemma default_logger_level:
  "lr_level (default_logger level t message) = (if level = 0 then LogInfo else if level = 1 then LogWarn else LogError)"
  by (simp add: default_logger_def default_logger_impl_def Let_def)

lemma default_logger_stops_at_nul:
  "0 \<notin> set message \<Longrightarrow> default_logger level t (message @ 0 # rest) = default_logger level t message"
  by (simp add: default_logger_def default_logger_impl_def takeWhile_append2 takeWhile_tail)

lemma default_logger_negative:
  "lr_text (default_logger (- 1) t [104, 105, 0])
     = rstr_of ''WinTun: hi (with invalid log level -1)''"
  by (simp add: default_logger_def default_logger_impl_def rstr_of_def i32_to_string_def decimal.simps)

text \<open>A logger that is set already is replaced, whatever the name of the function says.\<close>

lemma set_default_logger_replaces:
  "set_default_logger_if_unset (\<lambda>f _. f) (Some logger) = Some default_logger"
  by (simp add: set_default_logger_if_unset_def set_logger_def)

end
