(* ===== verification/Spec2Isabelle.thy ===== *)
theory Spec2Isabelle
  imports VirtioSpec AsyncUnix Address WinBuild WinAsync WinDisable MacSpec BsdLayout WinSetup UnixFallback WinLog
begin

text \<open>
  A verification library for \<open>quincy-tun\<close>, a cross-platform TUN library in Rust.

  \<^bold>\<open>The program.\<close>  A \<open>DeviceBuilder\<close> (\<open>src/builder.rs\<close>) creates and configures a platform
  \<open>DeviceImpl\<close> (\<open>src/platform/*/device.rs\<close>), which \<open>AsyncDevice\<close> (\<open>src/async_device/\<close>) wraps for use with
  an async runtime.  Packets pass through \<open>Tun\<close> on a file descriptor (\<open>src/platform/unix/\<close>) or a wintun
  session (\<open>src/platform/windows/tun/\<close>).  On Linux a device can be opened with offloading: then every
  packet of the kernel carries a virtio header, large packets are cut into segments on receipt
  (\<open>gso_split\<close>) and runs of packets are merged before they are written (\<open>handle_gro\<close>), in
  \<open>src/platform/linux/offload.rs\<close>, with the checksums of \<open>src/platform/linux/checksum.rs\<close>.

  \<^bold>\<open>The theories, and what they model.\<close>
  \<^item> \<open>Base\<close>, \<open>Effects\<close>: the prelude; words, results with errors and panics, slices, big-endian access;
    code that calls the system as a state transformer with a result, with early return, dropped values
    and what such code preserves.
  \<^item> \<open>Checksum\<close> (\<open>checksum.rs\<close>): the scalar, SSE4.1 and AVX2 accumulators, the fold, the pseudo-header.
    They compute the same sum, and it is that of RFC 1071.
  \<^item> \<open>VirtioHdr\<close>, \<open>GsoSplit\<close>, \<open>GsoSpec\<close> (\<open>offload.rs\<close>): the virtio header and segmentation; what
    the segments hold, that they verify, when the split succeeds.
  \<^item> \<open>FlowTable\<close>, \<open>GroTables\<close>, \<open>GroCoalesce\<close>, \<open>Gro\<close> (\<open>offload.rs\<close>): flow tables (the locale \<open>flow_table\<close> and its
    instance), the coalescing decisions, the merges, the accounting, the batch.  \<open>GroInv\<close>, \<open>GroStep\<close>,
    \<open>GroBatch\<close>: the invariant of a batch, that one packet keeps it, and what a whole batch does.
  \<^item> \<open>VirtioIo\<close>, \<open>VirtioSpec\<close> (\<open>linux/device.rs\<close>): \<open>recv_multiple\<close>, \<open>handle_virtio_read\<close>, \<open>send_multiple\<close>;
    a batch sent is the batch received.
  \<^item> \<open>UnixFd\<close> (\<open>unix/fd.rs\<close>, \<open>unix/tun.rs\<close>), \<open>AsyncUnix\<close> (\<open>async_device/unix/\<close>): descriptors, packets with and without
    packet information, the poll loop.
  \<^item> \<open>Address\<close> (\<open>builder.rs\<close>, \<open>unix/sockaddr.rs\<close>): addresses, prefixes and netmasks (the locale \<open>netmask_trait\<close>,
    instances for IPv4 and IPv6), socket addresses and their C encoding.
  \<^item> \<open>LinuxNet\<close>, \<open>LinuxConfig\<close>, \<open>LinuxSpec\<close> (\<open>linux/sys.rs\<close>, \<open>linux/device.rs\<close>, \<open>unix/device.rs\<close>): the requests of the
    netdevice interface, creation and every configuration operation of the Linux device.
  \<^item> \<open>Builder\<close> (\<open>builder.rs\<close>): the builder and its plan.
  \<^item> \<open>WinFfi\<close>, \<open>WinFfiSpec\<close> (\<open>windows/ffi.rs\<close>): strings, events, identifiers, addresses and routes of an interface; what
    setting an address leaves there.
  \<^item> \<open>WinTun\<close>, \<open>WinTunSpec\<close> (\<open>windows/tun/mod.rs\<close>): the wintun device; what it holds, what sending and receiving do
    to the ring, when sending ends.  \<open>WinDisable\<close>: its calls as steps of threads, what the lock protects, why
    disabling completes.
  \<^item> \<open>WinAdapter\<close>, \<open>WinDevice\<close>, \<open>WinDeviceSpec\<close> (\<open>windows/tun/adapter.rs\<close>, \<open>windows/device.rs\<close>, \<open>windows/dns.rs\<close>,
    \<open>windows/netsh.rs\<close>): the search for a left-behind adapter, the Windows device and its name servers; when the search
    and creation end.
  \<^item> \<open>WinAsync\<close> (\<open>async_device/windows/\<close>), \<open>WinBuild\<close> (\<open>builder.rs\<close>): polling with a task, cancellation; what a build on Windows
    leaves behind.
  \<^item> \<open>WinSetup\<close> (the rest of \<open>windows/ffi.rs\<close>), \<open>WinLog\<close> (\<open>windows/tun/wintun_log.rs\<close>): files, devices, drivers and registry
    keys, and a property read back as it was set; the records of the log.
  \<^item> \<open>BsdNet\<close>, \<open>FreeBsd\<close>, \<open>MacOs\<close> (\<open>platform/unix/device.rs\<close>, \<open>platform/freebsd/\<close>, \<open>platform/macos/\<close>): the devices of
    FreeBSD and macOS.  \<open>BsdSpec\<close>, \<open>MacSpec\<close>: no descriptor or route manager is leaked, setting an address on FreeBSD returns and
    replaces, names and numbers, and what dropping a device and removing an address leave undone.  \<open>BsdLayout\<close>: the structures
    of the requests as \<open>repr(C)\<close> lays them out, with every value in its field.
  \<^item> \<open>UnixFallback\<close> (\<open>platform/unix/mod.rs\<close>): the wrapper of a descriptor from Android or iOS.

  \<^bold>\<open>Conventions.\<close>  A machine integer is a word of its width, and arithmetic on it wraps as in a release
  build; a \<open>usize\<close> is a natural number, and a subtraction that would go below zero is \<open>Panic\<close>.  A result
  is \<open>Ok\<close>, \<open>Err\<close> or \<open>Panic\<close>; an index or a slice the code has not checked is guarded, with \<open>Panic\<close> as the
  other branch.  The formatted part of an error message is left out.  A hash map is an association
  list whose order stands for the order of iteration the standard library leaves open.  Code outside
  the repository is an argument: the system calls, tokio's \<open>AsyncFd\<close>, the crates \<open>netconfig_rs\<close>,
  \<open>getifaddrs\<close> and \<open>ipnet\<close>, wintun.  What a property relies on there is a named predicate,
  and its witness gives a concrete system for which the predicate is proved.

  \<^bold>\<open>Loops.\<close>  Loops over lists are structural; \<open>gso_loop\<close> and \<open>utf8_lossy\<close> have termination proofs.  Loops whose
  end depends on the environment, \<open>poll_io\<close> and those of the wintun session, are partial functions
  whose value is \<open>None\<close> when they do not end; what makes them end is stated and proved.  No fuel
  is used.

  \<^bold>\<open>Not modelled.\<close>  The locks of the devices but for those of wintun (each configuration operation holds its
  lock throughout), logging but for the callback of wintun, the generated wintun bindings, re-exports, the tests.  The kernels,
  Windows, the wintun library, tokio and the crates getifaddrs, ipnet, route_manager, netconfig_rs and blocking are arguments.
\<close>

end
